(* ===== verification/Batch_Prelude.thy ===== *)
theory Batch_Prelude
  imports
    "HOL-Library.Word"
    "HOL-Library.List_Lexorder"
    "HOL-Library.Multiset"
begin

text \<open>
  The vocabulary every component of the OxideBatch development shares:

  \<^item> Rust's \<^verbatim>\<open>Result<T, E>\<close> as the sum type \<open>'e + 'a\<close> (\<open>Err\<close> is \<^const>\<open>Inl\<close>, \<open>Ok\<close> is
    \<^const>\<open>Inr\<close>) with the combinators the source writes as \<^verbatim>\<open>?\<close>, \<^verbatim>\<open>ok_or\<close> and \<^verbatim>\<open>map_err\<close>;
  \<^item> fixed-width unsigned integers as words, with \<^verbatim>\<open>checked_add\<close>, \<^verbatim>\<open>saturating_add\<close> and
    \<^verbatim>\<open>to_be_bytes\<close>;
  \<^item> \<^verbatim>\<open>BTreeMap\<close> as an association list in strictly increasing key order.

  The lemmas are stated once here and declared \<open>[simp]\<close> or collected in
  \<open>res_simps\<close>, \<open>checked_simps\<close> and \<open>btree_simps\<close>, so that the component theories can
  close their goals by automation.
\<close>

named_theorems res_simps \<open>unfoldings of the result combinators\<close>
named_theorems checked_simps \<open>facts about checked and saturating word arithmetic\<close>
named_theorems btree_simps \<open>lookup and order facts about sorted association lists\<close>

section \<open>Results\<close>

abbreviation Err :: "'e \<Rightarrow> 'e + 'a" where "Err \<equiv> Inl"
abbreviation Ok :: "'a \<Rightarrow> 'e + 'a" where "Ok \<equiv> Inr"

text \<open>The \<^verbatim>\<open>?\<close> operator: leave with the error, continue with the value.\<close>

definition res_bind :: "'e + 'a \<Rightarrow> ('a \<Rightarrow> 'e + 'b) \<Rightarrow> 'e + 'b" where
  "res_bind r f = (case r of Err e \<Rightarrow> Err e | Ok x \<Rightarrow> f x)"

definition ok_or :: "'a option \<Rightarrow> 'e \<Rightarrow> 'e + 'a" where
  "ok_or x e = (case x of None \<Rightarrow> Err e | Some v \<Rightarrow> Ok v)"

definition map_err :: "('d \<Rightarrow> 'e) \<Rightarrow> 'd + 'a \<Rightarrow> 'e + 'a" where
  "map_err f r = (case r of Err e \<Rightarrow> Err (f e) | Ok x \<Rightarrow> Ok x)"

text \<open>An early return \<^verbatim>\<open>if bad { return Err(e); }\<close>.\<close>

definition ensure :: "bool \<Rightarrow> 'e \<Rightarrow> 'e + unit" where
  "ensure good e = (if good then Ok () else Err e)"

definition is_ok :: "'e + 'a \<Rightarrow> bool" where
  "is_ok r = (case r of Err _ \<Rightarrow> False | Ok _ \<Rightarrow> True)"

lemma res_bind_simps [simp]:
  "res_bind (Err e) f = Err e"
  "res_bind (Ok x) f = f x"
  by (simp_all add: res_bind_def)

lemma res_bind_Ok_iff [simp]:
  "res_bind r f = Ok y \<longleftrightarrow> (\<exists>x. r = Ok x \<and> f x = Ok y)"
  by (cases r) simp_all

lemma res_bind_Err_iff [res_simps]:
  "res_bind r f = Err e \<longleftrightarrow> r = Err e \<or> (\<exists>x. r = Ok x \<and> f x = Err e)"
  by (cases r) auto

lemma res_bind_assoc: "res_bind (res_bind r f) g = res_bind r (\<lambda>x. res_bind (f x) g)"
  by (cases r) simp_all

lemma ok_or_simps [simp]:
  "ok_or None e = Err e"
  "ok_or (Some x) e = Ok x"
  by (simp_all add: ok_or_def)

lemma ok_or_iff [simp]:
  "ok_or x e = Ok y \<longleftrightarrow> x = Some y"
  "ok_or x e = Err d \<longleftrightarrow> x = None \<and> d = e"
  by (cases x; auto)+

lemma map_err_simps [simp]:
  "map_err f (Err e) = Err (f e)"
  "map_err f (Ok x) = Ok x"
  by (simp_all add: map_err_def)

lemma map_err_iff [simp]:
  "map_err f r = Ok x \<longleftrightarrow> r = Ok x"
  "map_err f r = Err e \<longleftrightarrow> (\<exists>d. r = Err d \<and> e = f d)"
  by (cases r; auto)+

lemma ensure_iff [simp]:
  "ensure b e = Ok u \<longleftrightarrow> b"
  "ensure b e = Err d \<longleftrightarrow> \<not> b \<and> d = e"
  by (auto simp: ensure_def)

lemma ensure_simps [simp]:
  "ensure True e = Ok ()"
  "ensure False e = Err e"
  by (simp_all add: ensure_def)

lemma is_ok_simps [simp]:
  "is_ok (Err e) = False"
  "is_ok (Ok x) = True"
  by (simp_all add: is_ok_def)

lemma is_ok_iff: "is_ok r \<longleftrightarrow> (\<exists>x. r = Ok x)"
  by (cases r) simp_all

text \<open>\<^verbatim>\<open>Option::unwrap_or\<close>, \<^verbatim>\<open>is_some_and\<close> and \<^verbatim>\<open>or\<close>.\<close>

definition unwrap_or :: "'a option \<Rightarrow> 'a \<Rightarrow> 'a" where
  "unwrap_or x d = (case x of None \<Rightarrow> d | Some v \<Rightarrow> v)"

definition is_some_and :: "'a option \<Rightarrow> ('a \<Rightarrow> bool) \<Rightarrow> bool" where
  "is_some_and x P = (case x of None \<Rightarrow> False | Some v \<Rightarrow> P v)"

definition option_or :: "'a option \<Rightarrow> 'a option \<Rightarrow> 'a option" where
  "option_or x y = (case x of None \<Rightarrow> y | Some v \<Rightarrow> Some v)"

lemma option_ops_simps [simp]:
  "unwrap_or None d = d" "unwrap_or (Some v) d = v"
  "is_some_and None P = False" "is_some_and (Some v) P = P v"
  "option_or None y = y" "option_or (Some v) y = Some v"
  by (simp_all add: unwrap_or_def is_some_and_def option_or_def)

section \<open>Fixed-width unsigned integers\<close>

type_synonym u8 = "8 word"
type_synonym u16 = "16 word"
type_synonym u32 = "32 word"
type_synonym u64 = "64 word"

definition checked_add :: "'a::len word \<Rightarrow> 'a word \<Rightarrow> 'a word option" where
  "checked_add a b = (if unat a + unat b < 2 ^ LENGTH('a) then Some (a + b) else None)"

definition saturating_add :: "'a::len word \<Rightarrow> 'a word \<Rightarrow> 'a word" where
  "saturating_add a b = (if unat a + unat b < 2 ^ LENGTH('a) then a + b else - 1)"

lemma checked_add_Some_iff [checked_simps]:
  "checked_add a b = Some c \<longleftrightarrow> unat a + unat b < 2 ^ LENGTH('a) \<and> c = a + b"
  for a b c :: "'a::len word"
  by (auto simp: checked_add_def)

lemma checked_add_None_iff [checked_simps]:
  "checked_add a b = None \<longleftrightarrow> 2 ^ LENGTH('a) \<le> unat a + unat b"
  for a b :: "'a::len word"
  by (auto simp: checked_add_def)

lemma checked_add_unat:
  "checked_add a b = Some c \<Longrightarrow> unat c = unat a + unat b"
  by (simp add: checked_add_Some_iff unat_add_lem [THEN iffD1])

lemma checked_add_le:
  assumes "checked_add a b = Some c"
  shows "a \<le> c" and "b \<le> c"
  using checked_add_unat [OF assms] by (simp_all add: word_le_nat_alt)

lemma checked_add_commute: "checked_add a b = checked_add b a"
  by (simp add: checked_add_def add.commute)

text \<open>The overflow test of \<^verbatim>\<open>checked_add(1)\<close> is a comparison with \<^verbatim>\<open>MAX\<close>.\<close>

lemma checked_add_one: "checked_add v 1 = (if v = - 1 then None else Some (v + 1))"
  for v :: "'a::len word"
proof -
  have "unat (- 1 :: 'a word) = 2 ^ LENGTH('a) - 1"
    by (simp add: unsigned_minus_1_eq_mask mask_eq_exp_minus_1)
  then have "unat v = 2 ^ LENGTH('a) - 1 \<longleftrightarrow> v = - 1" by (metis word_unat_eq_iff)
  moreover have "unat v < 2 ^ LENGTH('a)" by (rule unsigned_less)
  ultimately have "unat v + 1 < 2 ^ LENGTH('a) \<longleftrightarrow> v \<noteq> - 1" by linarith
  then show ?thesis by (simp add: checked_add_def)
qed

lemma unat_saturating_add [checked_simps]:
  "unat (saturating_add a b) = min (unat a + unat b) (2 ^ LENGTH('a) - 1)"
  for a b :: "'a::len word"
proof (cases "unat a + unat b < 2 ^ LENGTH('a)")
  case True
  then show ?thesis by (simp add: saturating_add_def unat_add_lem [THEN iffD1])
next
  case False
  then have "saturating_add a b = - 1" by (simp add: saturating_add_def)
  moreover have "unat (- 1 :: 'a word) = 2 ^ LENGTH('a) - 1"
    by (simp add: unsigned_minus_1_eq_mask mask_eq_exp_minus_1)
  ultimately show ?thesis using False by simp
qed

section \<open>Big-endian byte encodings\<close>

text \<open>\<^verbatim>\<open>to_be_bytes\<close> of an unsigned integer of \<open>k\<close> bytes, given by its value.\<close>

fun be_bytes :: "nat \<Rightarrow> nat \<Rightarrow> u8 list" where
  "be_bytes 0 n = []"
| "be_bytes (Suc k) n = be_bytes k (n div 256) @ [word_of_nat (n mod 256)]"

lemma length_be_bytes [simp]: "length (be_bytes k n) = k"
  by (induction k arbitrary: n) simp_all

lemma unat_word_of_nat_u8 [simp]: "n < 256 \<Longrightarrow> unat (word_of_nat n :: u8) = n"
  by (simp add: unat_of_nat)

lemma word_of_nat_u8_inj:
  "a < 256 \<Longrightarrow> b < 256 \<Longrightarrow> (word_of_nat a :: u8) = word_of_nat b \<longleftrightarrow> a = b"
  by (metis unat_word_of_nat_u8)

lemma word_of_nat_u8_less:
  "a < 256 \<Longrightarrow> b < 256 \<Longrightarrow> (word_of_nat a :: u8) < word_of_nat b \<longleftrightarrow> a < b"
  by (simp add: word_less_nat_alt)

lemma be_bytes_inject:
  "m < 256 ^ k \<Longrightarrow> n < 256 ^ k \<Longrightarrow> be_bytes k m = be_bytes k n \<longleftrightarrow> m = n"
proof (induction k arbitrary: m n)
  case 0
  then show ?case by simp
next
  case (Suc k)
  have "m div 256 < 256 ^ k" and "n div 256 < 256 ^ k"
    using Suc.prems by (simp_all add: less_mult_imp_div_less)
  then have "be_bytes k (m div 256) = be_bytes k (n div 256) \<longleftrightarrow> m div 256 = n div 256"
    by (rule Suc.IH)
  moreover have "(word_of_nat (m mod 256) :: u8) = word_of_nat (n mod 256) \<longleftrightarrow> m mod 256 = n mod 256"
    by (simp add: word_of_nat_u8_inj)
  ultimately show ?case
    by simp (metis div_mult_mod_eq)
qed

text \<open>\<^verbatim>\<open>uN::to_be_bytes\<close>: one definition for every width that is a whole number of bytes.\<close>

definition to_be_bytes :: "'a::len word \<Rightarrow> u8 list" where
  "to_be_bytes w = be_bytes (LENGTH('a) div 8) (unat w)"

lemma length_to_be_bytes [simp]: "length (to_be_bytes (w :: 'a::len word)) = LENGTH('a) div 8"
  by (simp add: to_be_bytes_def)

lemma to_be_bytes_inject:
  assumes "8 dvd LENGTH('a::len)"
  shows "to_be_bytes v = to_be_bytes (w :: 'a word) \<longleftrightarrow> v = w"
proof -
  obtain k where k: "LENGTH('a) = 8 * k" using assms ..
  then have "(256::nat) ^ (LENGTH('a) div 8) = 2 ^ LENGTH('a)"
    by (simp add: power_mult)
  then have "unat v < 256 ^ (LENGTH('a) div 8)" and "unat w < 256 ^ (LENGTH('a) div 8)"
    by simp_all
  then show ?thesis by (simp add: to_be_bytes_def be_bytes_inject word_unat_eq_iff)
qed

section \<open>BTreeMap\<close>

text \<open>
  \<^verbatim>\<open>BTreeMap<K, V>\<close> is observed by the source only through lookup, insertion, removal and
  iteration in key order. It is modelled by the list of its entries in iteration order;
  \<open>bt_wf\<close> says that the keys strictly increase, which every operation keeps.
\<close>

type_synonym ('k, 'v) btree_map = "('k \<times> 'v) list"

definition bt_wf :: "('k::linorder, 'v) btree_map \<Rightarrow> bool" where
  "bt_wf m = sorted_wrt (<) (map fst m)"

fun bt_insert :: "'k::linorder \<Rightarrow> 'v \<Rightarrow> ('k, 'v) btree_map \<Rightarrow> ('k, 'v) btree_map" where
  "bt_insert k v [] = [(k, v)]"
| "bt_insert k v ((l, w) # m) =
     (if k = l then (k, v) # m
      else if k < l then (k, v) # (l, w) # m
      else (l, w) # bt_insert k v m)"

definition bt_get :: "('k, 'v) btree_map \<Rightarrow> 'k \<Rightarrow> 'v option" where
  "bt_get m k = map_of m k"

definition bt_remove :: "'k \<Rightarrow> ('k, 'v) btree_map \<Rightarrow> ('k, 'v) btree_map" where
  "bt_remove k m = filter (\<lambda>e. fst e \<noteq> k) m"

definition bt_retain :: "('k \<Rightarrow> 'v \<Rightarrow> bool) \<Rightarrow> ('k, 'v) btree_map \<Rightarrow> ('k, 'v) btree_map" where
  "bt_retain P m = filter (\<lambda>e. P (fst e) (snd e)) m"

definition bt_contains :: "('k, 'v) btree_map \<Rightarrow> 'k \<Rightarrow> bool" where
  "bt_contains m k = (bt_get m k \<noteq> None)"

lemma bt_wf_Nil [simp]: "bt_wf []"
  by (simp add: bt_wf_def)

lemma bt_wf_Cons: "bt_wf (e # m) \<longleftrightarrow> (\<forall>k \<in> fst ` set m. fst e < k) \<and> bt_wf m"
  by (auto simp: bt_wf_def)

lemma bt_wf_distinct: "bt_wf m \<Longrightarrow> distinct (map fst m)"
  by (simp add: bt_wf_def strict_sorted_iff)

lemma fst_set_bt_insert [simp]: "fst ` set (bt_insert k v m) = insert k (fst ` set m)"
  by (induction k v m rule: bt_insert.induct) auto

lemma set_bt_insert_subset: "set (bt_insert k v m) \<subseteq> insert (k, v) (set m)"
  by (induction k v m rule: bt_insert.induct) auto

lemma bt_insert_nonempty [simp]: "bt_insert k v m \<noteq> []"
  by (induction k v m rule: bt_insert.induct) auto

lemma bt_wf_insert [simp]: "bt_wf m \<Longrightarrow> bt_wf (bt_insert k v m)"
  by (induction k v m rule: bt_insert.induct) (auto simp: bt_wf_Cons dest: less_trans)

lemma bt_get_Nil [simp]: "bt_get [] k = None"
  by (simp add: bt_get_def)

lemma bt_get_insert [btree_simps]:
  "bt_get (bt_insert k v m) l = (if l = k then Some v else bt_get m l)"
  by (induction k v m rule: bt_insert.induct) (auto simp: bt_get_def)

lemma bt_contains_iff: "bt_contains m k \<longleftrightarrow> k \<in> fst ` set m"
  by (auto simp: bt_contains_def bt_get_def map_of_eq_None_iff)

lemma bt_get_None_iff: "bt_get m k = None \<longleftrightarrow> k \<notin> fst ` set m"
  by (simp add: bt_get_def map_of_eq_None_iff)

lemma bt_get_in_set: "bt_get m k = Some v \<Longrightarrow> (k, v) \<in> set m"
  by (simp add: bt_get_def map_of_SomeD)

lemma bt_get_Some_iff: "bt_wf m \<Longrightarrow> bt_get m k = Some v \<longleftrightarrow> (k, v) \<in> set m"
  by (simp add: bt_get_def bt_wf_distinct)

lemma sorted_wrt_map_filter:
  "sorted_wrt R (map f xs) \<Longrightarrow> sorted_wrt R (map f (filter P xs))"
  by (induction xs) auto

lemma bt_wf_filter: "bt_wf m \<Longrightarrow> bt_wf (filter P m)"
  by (simp add: bt_wf_def sorted_wrt_map_filter)

lemma bt_wf_remove [simp]: "bt_wf m \<Longrightarrow> bt_wf (bt_remove k m)"
  by (simp add: bt_remove_def bt_wf_filter)

lemma bt_wf_retain [simp]: "bt_wf m \<Longrightarrow> bt_wf (bt_retain P m)"
  by (simp add: bt_retain_def bt_wf_filter)

lemma bt_get_remove [btree_simps]:
  "bt_get (bt_remove k m) l = (if l = k then None else bt_get m l)"
  by (induction m) (auto simp: bt_get_def bt_remove_def)

lemma bt_get_retain [btree_simps]:
  "bt_wf m \<Longrightarrow> bt_get (bt_retain P m) l =
     (case bt_get m l of None \<Rightarrow> None | Some v \<Rightarrow> if P l v then Some v else None)"
  by (induction m) (force simp: bt_get_def bt_retain_def bt_wf_Cons map_of_eq_None_iff
      split: option.splits)+

lemma bt_wf_map_values: "bt_wf (map (\<lambda>(k, v). (k, f v)) m) = bt_wf m"
  by (simp add: bt_wf_def comp_def case_prod_unfold)

text \<open>\<^verbatim>\<open>collect()\<close> of an iterator of entries into a map: later entries replace earlier ones.\<close>

definition bt_collect :: "('k::linorder \<times> 'v) list \<Rightarrow> ('k, 'v) btree_map" where
  "bt_collect es = fold (\<lambda>(k, v). bt_insert k v) es []"

lemma bt_insert_last: "(\<forall>l \<in> fst ` set m. l < k) \<Longrightarrow> bt_insert k v m = m @ [(k, v)]"
  by (induction m) auto

lemma bt_wf_append:
  "bt_wf (m @ n) \<longleftrightarrow> bt_wf m \<and> bt_wf n \<and> (\<forall>a \<in> fst ` set m. \<forall>b \<in> fst ` set n. a < b)"
  by (auto simp: bt_wf_def sorted_wrt_append)

lemma fold_bt_insert_wf:
  "bt_wf (m @ es) \<Longrightarrow> fold (\<lambda>(k, v). bt_insert k v) es m = m @ es"
proof (induction es arbitrary: m)
  case (Cons e es)
  then have "bt_insert (fst e) (snd e) m = m @ [e]"
    by (simp add: bt_insert_last bt_wf_append)
  with Cons show ?case by (simp add: case_prod_unfold)
qed simp

text \<open>Collecting entries that already are in key order gives them back.\<close>

lemma bt_collect_wf: "bt_wf es \<Longrightarrow> bt_collect es = es"
  using fold_bt_insert_wf [of "[]" es] by (simp add: bt_collect_def)

text \<open>
  A map in iteration order is determined by what lookup returns: two well-formed maps with
  the same lookups are the same list. This is what makes iteration canonical.
\<close>

lemma bt_wf_ext:
  assumes "bt_wf m" and "bt_wf n" and "bt_get m = bt_get n"
  shows "m = n"
proof -
  have "set m = set n"
  proof (rule set_eqI)
    fix e
    show "e \<in> set m \<longleftrightarrow> e \<in> set n"
      using assms by (cases e) (metis bt_get_Some_iff)
  qed
  then have "set (map fst m) = set (map fst n)" by simp
  then have keys: "map fst m = map fst n"
    using assms(1,2) sorted_distinct_set_unique [of "map fst m" "map fst n"]
    by (simp add: bt_wf_def strict_sorted_iff)
  show ?thesis
  proof (rule nth_equalityI)
    show "length m = length n" using keys by (metis length_map)
    fix i assume i: "i < length m"
    with keys have i': "i < length n" by (metis length_map)
    have "fst (m ! i) = fst (n ! i)" using keys i i' by (metis nth_map)
    moreover have "m ! i \<in> set m" using i by simp
    moreover have "n ! i \<in> set m" using \<open>set m = set n\<close> i' by (metis nth_mem)
    ultimately show "m ! i = n ! i"
      using bt_wf_distinct [OF assms(1)] by (metis eq_key_imp_eq_value prod.collapse)
  qed
qed

section \<open>Self-delimiting encodings\<close>

text \<open>
  A byte layout is self-delimiting when it can be read off the front of any byte string:
  equal concatenations have equal heads and equal rests. Digest inputs built from such
  pieces are injective.
\<close>

definition self_delimiting :: "'a set \<Rightarrow> ('a \<Rightarrow> 'b list) \<Rightarrow> bool" where
  "self_delimiting A enc \<longleftrightarrow>
     (\<forall>x \<in> A. \<forall>y \<in> A. \<forall>r s. enc x @ r = enc y @ s \<longrightarrow> x = y \<and> r = s)"

lemma self_delimitingI:
  assumes "\<And>x y r s. x \<in> A \<Longrightarrow> y \<in> A \<Longrightarrow> enc x @ r = enc y @ s \<Longrightarrow> x = y"
  shows "self_delimiting A enc"
  unfolding self_delimiting_def using assms by blast

lemma self_delimitingD:
  assumes "self_delimiting A enc" "x \<in> A" "y \<in> A" "enc x @ r = enc y @ s"
  shows "x = y" and "r = s"
  using assms unfolding self_delimiting_def by blast+

lemma self_delimiting_fixed_length:
  assumes "\<And>x. x \<in> A \<Longrightarrow> length (enc x) = n" and "inj_on enc A"
  shows "self_delimiting A enc"
  by (rule self_delimitingI) (metis append_eq_append_conv assms inj_onD)

lemma self_delimiting_append:
  assumes "self_delimiting A f" and "self_delimiting B g"
  shows "self_delimiting (A \<times> B) (\<lambda>(a, b). f a @ g b)"
proof (rule self_delimitingI)
  fix x y r s
  assume "x \<in> A \<times> B" and "y \<in> A \<times> B"
    and "(case x of (a, b) \<Rightarrow> f a @ g b) @ r = (case y of (a, b) \<Rightarrow> f a @ g b) @ s"
  then have "fst x \<in> A" "fst y \<in> A" "snd x \<in> B" "snd y \<in> B"
    and eq: "f (fst x) @ (g (snd x) @ r) = f (fst y) @ (g (snd y) @ s)"
    by (auto simp: case_prod_unfold)
  then have "fst x = fst y" and "g (snd x) @ r = g (snd y) @ s"
    using self_delimitingD [OF assms(1) _ _ eq] by auto
  moreover from this have "snd x = snd y"
    using self_delimitingD(1) [OF assms(2)] \<open>snd x \<in> B\<close> \<open>snd y \<in> B\<close> by blast
  ultimately show "x = y" by (simp add: prod_eq_iff)
qed

lemma self_delimiting_comp:
  assumes "self_delimiting A enc" and "inj_on h B" and "h ` B \<subseteq> A"
  shows "self_delimiting B (\<lambda>x. enc (h x))"
proof (rule self_delimitingI)
  fix x y r s
  assume "x \<in> B" "y \<in> B" "enc (h x) @ r = enc (h y) @ s"
  then have "h x = h y" using self_delimitingD(1) [OF assms(1)] assms(3) by blast
  with \<open>x \<in> B\<close> \<open>y \<in> B\<close> assms(2) show "x = y" by (auto dest: inj_onD)
qed

text \<open>
  A length prefix of \<open>'n\<close> bits followed by the bytes. Lengths that do not fit saturate, as in
  \<^verbatim>\<open>try_from(len).unwrap_or(MAX)\<close>.
\<close>

definition length_word :: "nat \<Rightarrow> 'n::len word" where
  "length_word n = (if n < 2 ^ LENGTH('n) then word_of_nat n else - 1)"

lemma self_delimiting_length_prefix:
  assumes "8 dvd LENGTH('n::len)"
  shows "self_delimiting {v :: u8 list. length v < 2 ^ LENGTH('n)}
           (\<lambda>v. to_be_bytes (length_word (length v) :: 'n word) @ v)"
proof (rule self_delimitingI)
  fix x y r s :: "u8 list"
  assume len: "x \<in> {v. length v < 2 ^ LENGTH('n)}" "y \<in> {v. length v < 2 ^ LENGTH('n)}"
    and eq: "(to_be_bytes (length_word (length x) :: 'n word) @ x) @ r
      = (to_be_bytes (length_word (length y) :: 'n word) @ y) @ s"
  then have "to_be_bytes (length_word (length x) :: 'n word) = to_be_bytes (length_word (length y) :: 'n word)"
    and rest: "x @ r = y @ s"
    by simp_all
  then have "(word_of_nat (length x) :: 'n word) = word_of_nat (length y)"
    using len assms by (simp add: to_be_bytes_inject length_word_def)
  then have "length x = length y"
    using len by (simp add: word_of_nat_eq_iff take_bit_nat_eq_self)
  with rest show "x = y" by simp
qed

text \<open>A sequence of self-delimiting, nonempty pieces is read back piece by piece.\<close>

lemma concat_map_self_delimiting_inject:
  assumes "self_delimiting A enc" and "\<And>x. x \<in> A \<Longrightarrow> enc x \<noteq> []"
    and "set xs \<subseteq> A" "set ys \<subseteq> A"
    and "concat (map enc xs) = concat (map enc ys)"
  shows "xs = ys"
  using assms(3-)
proof (induction xs arbitrary: ys)
  case Nil
  then show ?case using assms(2) by (cases ys) auto
next
  case (Cons x xs)
  then obtain y ys' where ys: "ys = y # ys'"
    using assms(2) by (cases ys) auto
  from Cons.prems have "x = y" and "concat (map enc xs) = concat (map enc ys')"
    using self_delimitingD [OF assms(1), of x y "concat (map enc xs)" "concat (map enc ys')"]
    by (simp_all add: ys)
  with Cons ys show ?case by simp
qed

end
