(* ===== verification/Refinement.thy ===== *)
theory Refinement
  imports Batch_Prelude
begin

text \<open>
  Functional refinement of a stateful component by a simpler specification: on states that
  satisfy the component's invariant every operation returns what the specification returns, and
  the abstractions of the states stay in step. Proved once for single operations and lifted
  here to every sequence of operations.
\<close>

fun run_ops :: "('op \<Rightarrow> 's \<Rightarrow> 'r \<times> 's) \<Rightarrow> 'op list \<Rightarrow> 's \<Rightarrow> 'r list \<times> 's" where
  "run_ops step [] s = ([], s)"
| "run_ops step (x # xs) s =
     (fst (step x s) # fst (run_ops step xs (snd (step x s))),
      snd (run_ops step xs (snd (step x s))))"

lemma length_run_ops [simp]: "length (fst (run_ops step xs s)) = length xs"
  by (induction xs arbitrary: s) simp_all

lemma run_ops_append:
  "run_ops step (xs @ ys) s =
     (fst (run_ops step xs s) @ fst (run_ops step ys (snd (run_ops step xs s))),
      snd (run_ops step ys (snd (run_ops step xs s))))"
  by (induction xs arbitrary: s) simp_all

locale refines =
  fixes inv :: "'s \<Rightarrow> bool"
    and abs :: "'s \<Rightarrow> 'a"
    and step :: "'op \<Rightarrow> 's \<Rightarrow> 'r \<times> 's"
    and spec :: "'op \<Rightarrow> 'a \<Rightarrow> 'r \<times> 'a"
  assumes inv_step: "inv s \<Longrightarrow> inv (snd (step x s))"
    and same_result: "inv s \<Longrightarrow> fst (step x s) = fst (spec x (abs s))"
    and same_state: "inv s \<Longrightarrow> abs (snd (step x s)) = snd (spec x (abs s))"
begin

lemma run_inv: "inv s \<Longrightarrow> inv (snd (run_ops step xs s))"
  by (induction xs arbitrary: s) (simp_all add: inv_step)

lemma run_refines:
  "inv s \<Longrightarrow> fst (run_ops step xs s) = fst (run_ops spec xs (abs s))
     \<and> abs (snd (run_ops step xs s)) = snd (run_ops spec xs (abs s))"
  by (induction xs arbitrary: s) (simp_all add: inv_step same_result same_state)

end

end
