(* ===== verification/Chunk.thy ===== *)
theory Chunk
  imports Refinement
begin

text \<open>
  Chunk sizing, counting and progress, from \<^verbatim>\<open>chunk.rs\<close> of \<^verbatim>\<open>oxide-batch-core\<close>. Counts are
  64-bit words and the size a 32-bit word, as in the source. The specification is the same
  bookkeeping on natural numbers, and the code refines it.
\<close>

section \<open>Values and operations\<close>

datatype chunk_error =
    ZeroSize | CountOverflow | ClassifiedExceedsRead | WrittenExceedsProcessed | SizeExceeded

type_synonym chunk_size = u32
type_synonym chunk_count = u64

definition chunk_size_new :: "u32 \<Rightarrow> chunk_error + chunk_size" where
  "chunk_size_new v = (if v = 0 then Err ZeroSize else Ok v)"

definition chunk_count_checked_add :: "chunk_count \<Rightarrow> chunk_count \<Rightarrow> chunk_error + chunk_count" where
  "chunk_count_checked_add a b = ok_or (checked_add a b) CountOverflow"

definition checked_increment :: "chunk_count \<Rightarrow> chunk_error + chunk_count" where
  "checked_increment a = chunk_count_checked_add a 1"

record chunk_counts =
  cc_read :: chunk_count
  cc_processed :: chunk_count
  cc_written :: chunk_count
  cc_filtered :: chunk_count

definition chunk_counts_new ::
  "chunk_count \<Rightarrow> chunk_count \<Rightarrow> chunk_count \<Rightarrow> chunk_count \<Rightarrow> chunk_error + chunk_counts" where
  "chunk_counts_new read processed written filtered =
     res_bind (chunk_count_checked_add processed filtered) (\<lambda>classified.
     if classified > read then Err ClassifiedExceedsRead
     else if written > processed then Err WrittenExceedsProcessed
     else Ok \<lparr>cc_read = read, cc_processed = processed, cc_written = written,
              cc_filtered = filtered\<rparr>)"

definition chunk_counts_checked_add :: "chunk_counts \<Rightarrow> chunk_counts \<Rightarrow> chunk_error + chunk_counts" where
  "chunk_counts_checked_add a b =
     res_bind (chunk_count_checked_add (cc_read a) (cc_read b)) (\<lambda>r.
     res_bind (chunk_count_checked_add (cc_processed a) (cc_processed b)) (\<lambda>p.
     res_bind (chunk_count_checked_add (cc_written a) (cc_written b)) (\<lambda>w.
     res_bind (chunk_count_checked_add (cc_filtered a) (cc_filtered b)) (\<lambda>f.
     chunk_counts_new r p w f))))"

record chunk_progress =
  cp_size :: chunk_size
  cp_counts :: chunk_counts

definition chunk_progress_new :: "chunk_size \<Rightarrow> chunk_progress" where
  "chunk_progress_new n =
     \<lparr>cp_size = n,
      cp_counts = \<lparr>cc_read = 0, cc_processed = 0, cc_written = 0, cc_filtered = 0\<rparr>\<rparr>"

definition chunk_progress_from_counts :: "chunk_size \<Rightarrow> chunk_counts \<Rightarrow> chunk_error + chunk_progress" where
  "chunk_progress_from_counts n counts =
     (if cc_read counts > ucast n then Err SizeExceeded
      else Ok \<lparr>cp_size = n, cp_counts = counts\<rparr>)"

definition is_full :: "chunk_progress \<Rightarrow> bool" where
  "is_full p \<longleftrightarrow> cc_read (cp_counts p) = ucast (cp_size p)"

definition record_read :: "chunk_progress \<Rightarrow> (chunk_error + unit) \<times> chunk_progress" where
  "record_read p =
     (if is_full p then (Err SizeExceeded, p)
      else case checked_increment (cc_read (cp_counts p)) of
             Err e \<Rightarrow> (Err e, p)
           | Ok n \<Rightarrow> (Ok (), p\<lparr>cp_counts := (cp_counts p)\<lparr>cc_read := n\<rparr>\<rparr>))"

definition record_processed :: "chunk_progress \<Rightarrow> (chunk_error + unit) \<times> chunk_progress" where
  "record_processed p =
     (case res_bind (checked_increment (cc_processed (cp_counts p))) (\<lambda>n.
           res_bind (chunk_count_checked_add n (cc_filtered (cp_counts p))) (\<lambda>classified.
           if classified > cc_read (cp_counts p) then Err ClassifiedExceedsRead else Ok n)) of
        Err e \<Rightarrow> (Err e, p)
      | Ok n \<Rightarrow> (Ok (), p\<lparr>cp_counts := (cp_counts p)\<lparr>cc_processed := n\<rparr>\<rparr>))"

definition record_filtered :: "chunk_progress \<Rightarrow> (chunk_error + unit) \<times> chunk_progress" where
  "record_filtered p =
     (case res_bind (checked_increment (cc_filtered (cp_counts p))) (\<lambda>n.
           res_bind (chunk_count_checked_add (cc_processed (cp_counts p)) n) (\<lambda>classified.
           if classified > cc_read (cp_counts p) then Err ClassifiedExceedsRead else Ok n)) of
        Err e \<Rightarrow> (Err e, p)
      | Ok n \<Rightarrow> (Ok (), p\<lparr>cp_counts := (cp_counts p)\<lparr>cc_filtered := n\<rparr>\<rparr>))"

definition record_written :: "chunk_count \<Rightarrow> chunk_progress \<Rightarrow> (chunk_error + unit) \<times> chunk_progress" where
  "record_written cnt p =
     (case res_bind (chunk_count_checked_add (cc_written (cp_counts p)) cnt) (\<lambda>n.
           if n > cc_processed (cp_counts p) then Err WrittenExceedsProcessed else Ok n) of
        Err e \<Rightarrow> (Err e, p)
      | Ok n \<Rightarrow> (Ok (), p\<lparr>cp_counts := (cp_counts p)\<lparr>cc_written := n\<rparr>\<rparr>))"

section \<open>Invariants\<close>

definition counts_inv :: "chunk_counts \<Rightarrow> bool" where
  "counts_inv c \<longleftrightarrow>
     unat (cc_processed c) + unat (cc_filtered c) \<le> unat (cc_read c) \<and>
     cc_written c \<le> cc_processed c"

definition progress_inv :: "chunk_progress \<Rightarrow> bool" where
  "progress_inv p \<longleftrightarrow>
     cp_size p \<noteq> 0 \<and> counts_inv (cp_counts p) \<and> unat (cc_read (cp_counts p)) \<le> unat (cp_size p)"

lemma unat_ucast_u32_u64 [simp]: "unat (ucast (w :: u32) :: u64) = unat w"
proof -
  have "unat w < 2 ^ 32" using unsigned_less [of w] by simp
  then show ?thesis by (simp add: unsigned_ucast_eq take_bit_nat_eq_self)
qed

lemma count_add_Ok_iff:
  "chunk_count_checked_add a b = Ok c \<longleftrightarrow> unat a + unat b < 2 ^ 64 \<and> c = a + b"
  by (simp add: chunk_count_checked_add_def checked_add_Some_iff)

lemma count_add_Err_iff:
  "chunk_count_checked_add a b = Err e \<longleftrightarrow> 2 ^ 64 \<le> unat a + unat b \<and> e = CountOverflow"
  by (simp add: chunk_count_checked_add_def checked_add_None_iff)

lemma count_add_eq:
  "chunk_count_checked_add a b = (if unat a + unat b < 2 ^ 64 then Ok (a + b) else Err CountOverflow)"
  by (simp add: chunk_count_checked_add_def checked_add_def)

lemma unat_add_u64: "unat a + unat b < 2 ^ 64 \<Longrightarrow> unat (a + b) = unat a + unat (b :: u64)"
  by (simp add: unat_add_lem [THEN iffD1])

lemma chunk_counts_new_Ok_iff:
  "chunk_counts_new r p w f = Ok c \<longleftrightarrow>
     c = \<lparr>cc_read = r, cc_processed = p, cc_written = w, cc_filtered = f\<rparr> \<and> counts_inv c"
proof (cases "unat p + unat f < 2 ^ 64")
  case True
  then show ?thesis
    by (auto simp: chunk_counts_new_def count_add_eq counts_inv_def word_less_nat_alt
        word_le_nat_alt unat_add_u64)
next
  case False
  moreover have "unat r < 2 ^ 64" using unsigned_less [of r] by simp
  ultimately show ?thesis by (auto simp: chunk_counts_new_def count_add_eq counts_inv_def)
qed

section \<open>The specification on natural numbers\<close>

record chunk_spec =
  sp_size :: nat
  sp_read :: nat
  sp_processed :: nat
  sp_written :: nat
  sp_filtered :: nat

datatype chunk_event = EvRead | EvProcessed | EvFiltered | EvWritten chunk_count

fun chunk_apply :: "chunk_event \<Rightarrow> chunk_progress \<Rightarrow> (chunk_error + unit) \<times> chunk_progress" where
  "chunk_apply EvRead p = record_read p"
| "chunk_apply EvProcessed p = record_processed p"
| "chunk_apply EvFiltered p = record_filtered p"
| "chunk_apply (EvWritten n) p = record_written n p"

fun chunk_spec_apply :: "chunk_event \<Rightarrow> chunk_spec \<Rightarrow> (chunk_error + unit) \<times> chunk_spec" where
  "chunk_spec_apply EvRead s =
     (if sp_read s < sp_size s then (Ok (), s\<lparr>sp_read := sp_read s + 1\<rparr>) else (Err SizeExceeded, s))"
| "chunk_spec_apply EvProcessed s =
     (if sp_processed s + sp_filtered s < sp_read s
      then (Ok (), s\<lparr>sp_processed := sp_processed s + 1\<rparr>) else (Err ClassifiedExceedsRead, s))"
| "chunk_spec_apply EvFiltered s =
     (if sp_processed s + sp_filtered s < sp_read s
      then (Ok (), s\<lparr>sp_filtered := sp_filtered s + 1\<rparr>) else (Err ClassifiedExceedsRead, s))"
| "chunk_spec_apply (EvWritten n) s =
     (if sp_written s + unat n \<le> sp_processed s
      then (Ok (), s\<lparr>sp_written := sp_written s + unat n\<rparr>)
      else if sp_written s + unat n < 2 ^ 64 then (Err WrittenExceedsProcessed, s)
      else (Err CountOverflow, s))"

definition chunk_abs :: "chunk_progress \<Rightarrow> chunk_spec" where
  "chunk_abs p =
     \<lparr>sp_size = unat (cp_size p), sp_read = unat (cc_read (cp_counts p)),
      sp_processed = unat (cc_processed (cp_counts p)),
      sp_written = unat (cc_written (cp_counts p)),
      sp_filtered = unat (cc_filtered (cp_counts p))\<rparr>"

lemma unat_u64_bound: "unat (w :: u64) < 2 ^ 64"
  using unsigned_less [of w] by simp

lemma progress_bounds:
  assumes "progress_inv p"
  shows "unat (cc_read (cp_counts p)) < 2 ^ 32"
    and "unat (cc_processed (cp_counts p)) + unat (cc_filtered (cp_counts p))
           \<le> unat (cc_read (cp_counts p))"
    and "unat (cc_written (cp_counts p)) \<le> unat (cc_processed (cp_counts p))"
  using assms unsigned_less [of "cp_size p", where 'a = nat]
  by (auto simp: progress_inv_def counts_inv_def word_le_nat_alt)

lemmas record_defs = record_read_def record_processed_def record_filtered_def record_written_def
  checked_increment_def count_add_eq is_full_def

lemma unat_Suc_u64: "unat (w :: u64) < 2 ^ 32 \<Longrightarrow> unat (w + 1) = unat w + 1"
  using unat_add_u64 [of w 1] by simp

lemma chunk_apply_read:
  assumes "progress_inv p"
  shows "progress_inv (snd (record_read p))
    \<and> chunk_spec_apply EvRead (chunk_abs p) = map_prod id chunk_abs (record_read p)"
  using assms progress_bounds [OF assms]
  by (auto simp: record_defs chunk_abs_def unat_Suc_u64 progress_inv_def counts_inv_def
      word_unat_eq_iff)

lemma chunk_apply_processed:
  assumes "progress_inv p"
  shows "progress_inv (snd (record_processed p))
    \<and> chunk_spec_apply EvProcessed (chunk_abs p) = map_prod id chunk_abs (record_processed p)"
  using assms progress_bounds [OF assms]
  by (auto simp: record_defs chunk_abs_def unat_Suc_u64 unat_add_u64 progress_inv_def counts_inv_def
      word_less_nat_alt word_le_nat_alt)

lemma chunk_apply_filtered:
  assumes "progress_inv p"
  shows "progress_inv (snd (record_filtered p))
    \<and> chunk_spec_apply EvFiltered (chunk_abs p) = map_prod id chunk_abs (record_filtered p)"
  using assms progress_bounds [OF assms]
  by (auto simp: record_defs chunk_abs_def unat_Suc_u64 unat_add_u64 progress_inv_def counts_inv_def
      word_less_nat_alt word_le_nat_alt)

lemma chunk_apply_written:
  assumes "progress_inv p"
  shows "progress_inv (snd (record_written n p))
    \<and> chunk_spec_apply (EvWritten n) (chunk_abs p) = map_prod id chunk_abs (record_written n p)"
  using assms progress_bounds [OF assms] unat_u64_bound [of "cc_processed (cp_counts p)"]
  by (auto simp: record_defs chunk_abs_def unat_add_u64 progress_inv_def counts_inv_def
      word_less_nat_alt word_le_nat_alt)

interpretation chunk: refines progress_inv chunk_abs chunk_apply chunk_spec_apply
proof
  fix p x assume inv: "progress_inv p"
  have "progress_inv (snd (chunk_apply x p))
      \<and> chunk_spec_apply x (chunk_abs p) = map_prod id chunk_abs (chunk_apply x p)"
    by (cases x) (simp_all only: chunk_apply.simps chunk_apply_read [OF inv]
        chunk_apply_processed [OF inv] chunk_apply_filtered [OF inv] chunk_apply_written [OF inv]
        simp_thms)
  then show "progress_inv (snd (chunk_apply x p))"
    and "fst (chunk_apply x p) = fst (chunk_spec_apply x (chunk_abs p))"
    and "chunk_abs (snd (chunk_apply x p)) = snd (chunk_spec_apply x (chunk_abs p))"
    by simp_all
qed

lemma chunk_progress_new_inv: "chunk_size_new n = Ok n \<Longrightarrow> progress_inv (chunk_progress_new n)"
  by (auto simp: chunk_size_new_def progress_inv_def counts_inv_def chunk_progress_new_def)

text \<open>What the accepted events of a run amount to.\<close>

fun event_items :: "chunk_event \<Rightarrow> chunk_event \<Rightarrow> nat" where
  "event_items EvRead EvRead = 1"
| "event_items EvProcessed EvProcessed = 1"
| "event_items EvFiltered EvFiltered = 1"
| "event_items (EvWritten _) (EvWritten n) = unat n"
| "event_items _ _ = 0"

definition accepted_items :: "chunk_event \<Rightarrow> chunk_event list \<Rightarrow> (chunk_error + unit) list \<Rightarrow> nat" where
  "accepted_items k xs rs = sum_list (map (\<lambda>(x, r). if is_ok r then event_items k x else 0) (zip xs rs))"

lemma accepted_items_simps [simp]:
  "accepted_items k [] rs = 0"
  "accepted_items k (x # xs) (r # rs) =
     (if is_ok r then event_items k x else 0) + accepted_items k xs rs"
  by (simp_all add: accepted_items_def)

lemma chunk_spec_counts:
  assumes "run_ops chunk_spec_apply xs s = (rs, s')"
  shows "sp_read s' = sp_read s + accepted_items EvRead xs rs"
    and "sp_processed s' = sp_processed s + accepted_items EvProcessed xs rs"
    and "sp_filtered s' = sp_filtered s + accepted_items EvFiltered xs rs"
    and "sp_written s' = sp_written s + accepted_items (EvWritten 0) xs rs"
    and "sp_size s' = sp_size s"
proof -
  have "sp_read s' = sp_read s + accepted_items EvRead xs rs
    \<and> sp_processed s' = sp_processed s + accepted_items EvProcessed xs rs
    \<and> sp_filtered s' = sp_filtered s + accepted_items EvFiltered xs rs
    \<and> sp_written s' = sp_written s + accepted_items (EvWritten 0) xs rs
    \<and> sp_size s' = sp_size s"
    using assms
  proof (induction xs arbitrary: s rs)
    case (Cons x xs)
    obtain r t where step: "chunk_spec_apply x s = (r, t)" by fastforce
    with Cons.prems obtain rs' where "rs = r # rs'" "run_ops chunk_spec_apply xs t = (rs', s')"
      by (cases "run_ops chunk_spec_apply xs t") auto
    with Cons.IH [of t rs'] step show ?case
      by (cases x) (auto split: if_splits)
  qed simp
  then show "sp_read s' = sp_read s + accepted_items EvRead xs rs"
    and "sp_processed s' = sp_processed s + accepted_items EvProcessed xs rs"
    and "sp_filtered s' = sp_filtered s + accepted_items EvFiltered xs rs"
    and "sp_written s' = sp_written s + accepted_items (EvWritten 0) xs rs"
    and "sp_size s' = sp_size s" by blast+
qed

section \<open>Properties\<close>

text \<open>
  C33. Chunk progress is exact. Starting from an empty chunk of nonzero size, whatever sequence
  of read, processed, filtered and written events is recorded: the answers are those of the
  bookkeeping on unbounded integers (so the 64-bit counters never overflow, except that a
  \<^verbatim>\<open>record_written\<close> whose argument overflows is refused as such), each counter is exactly what the
  accepted events add up to, and the invariants hold: no more reads than the chunk size,
  processed plus filtered within read, written within processed.
\<close>

theorem chunk_progress_exact:
  assumes "chunk_size_new n = Ok n"
    and "run_ops chunk_apply xs (chunk_progress_new n) = (rs, p)"
  shows "rs = fst (run_ops chunk_spec_apply xs (chunk_abs (chunk_progress_new n)))
    \<and> unat (cc_read (cp_counts p)) = accepted_items EvRead xs rs
    \<and> unat (cc_processed (cp_counts p)) = accepted_items EvProcessed xs rs
    \<and> unat (cc_filtered (cp_counts p)) = accepted_items EvFiltered xs rs
    \<and> unat (cc_written (cp_counts p)) = accepted_items (EvWritten 0) xs rs
    \<and> accepted_items EvRead xs rs \<le> unat n
    \<and> accepted_items EvProcessed xs rs + accepted_items EvFiltered xs rs
        \<le> accepted_items EvRead xs rs
    \<and> accepted_items (EvWritten 0) xs rs \<le> accepted_items EvProcessed xs rs"
proof -
  let ?p0 = "chunk_progress_new n"
  have inv: "progress_inv ?p0" using assms(1) by (rule chunk_progress_new_inv)
  have run: "rs = fst (run_ops chunk_apply xs ?p0)" "p = snd (run_ops chunk_apply xs ?p0)"
    using assms(2) by simp_all
  have results: "rs = fst (run_ops chunk_spec_apply xs (chunk_abs ?p0))"
    and state: "chunk_abs p = snd (run_ops chunk_spec_apply xs (chunk_abs ?p0))"
    using chunk.run_refines [OF inv, of xs] run by simp_all
  then have "run_ops chunk_spec_apply xs (chunk_abs ?p0) = (rs, chunk_abs p)" by simp
  note counts = chunk_spec_counts [OF this]
  have "progress_inv p" using chunk.run_inv [OF inv, of xs] run by simp
  moreover have "unat (cc_read (cp_counts p)) = accepted_items EvRead xs rs"
    "unat (cc_processed (cp_counts p)) = accepted_items EvProcessed xs rs"
    "unat (cc_filtered (cp_counts p)) = accepted_items EvFiltered xs rs"
    "unat (cc_written (cp_counts p)) = accepted_items (EvWritten 0) xs rs"
    "unat (cp_size p) = unat n"
    using counts by (simp_all add: chunk_abs_def chunk_progress_new_def)
  ultimately show ?thesis
    using results by (auto simp: progress_inv_def counts_inv_def word_le_nat_alt)
qed

theorem chunk_progress_exact_witness:
  "fst (run_ops chunk_apply [EvRead, EvRead, EvProcessed, EvFiltered, EvWritten 1] (chunk_progress_new 1))
     = [Ok (), Err SizeExceeded, Ok (), Err ClassifiedExceedsRead, Ok ()]"
proof -
  let ?xs = "[EvRead, EvRead, EvProcessed, EvFiltered, EvWritten 1]"
  have "chunk_size_new 1 = Ok 1" by (simp add: chunk_size_new_def)
  from chunk_progress_exact [OF this surjective_pairing, of ?xs] show ?thesis
    by (simp add: chunk_abs_def chunk_progress_new_def)
qed

text \<open>
  Adding two valid count snapshots fails only when the sum of the read counts leaves the
  64-bit range, and then with an overflow, never with an invariant error; otherwise the result
  is the component-wise sum and is valid again.
\<close>

lemma counts_add_closed:
  assumes "counts_inv a" and "counts_inv b"
  shows "(unat (cc_read a) + unat (cc_read b) < 2 ^ 64 \<longrightarrow>
            (\<exists>c. chunk_counts_checked_add a b = Ok c \<and> counts_inv c
               \<and> unat (cc_read c) = unat (cc_read a) + unat (cc_read b)
               \<and> unat (cc_processed c) = unat (cc_processed a) + unat (cc_processed b)
               \<and> unat (cc_written c) = unat (cc_written a) + unat (cc_written b)
               \<and> unat (cc_filtered c) = unat (cc_filtered a) + unat (cc_filtered b)))
     \<and> (2 ^ 64 \<le> unat (cc_read a) + unat (cc_read b) \<longrightarrow>
            chunk_counts_checked_add a b = Err CountOverflow)"
proof (intro conjI impI)
  have bounds: "unat (cc_processed x) + unat (cc_filtered x) \<le> unat (cc_read x)"
      "unat (cc_written x) \<le> unat (cc_processed x)" if "counts_inv x" for x
    using that by (simp_all add: counts_inv_def word_le_nat_alt)
  note le = bounds [OF assms(1)] bounds [OF assms(2)]
  assume fits: "unat (cc_read a) + unat (cc_read b) < 2 ^ 64"
  let ?c = "\<lparr>cc_read = cc_read a + cc_read b, cc_processed = cc_processed a + cc_processed b,
    cc_written = cc_written a + cc_written b, cc_filtered = cc_filtered a + cc_filtered b\<rparr>"
  have sums: "unat (cc_processed a) + unat (cc_processed b) < 2 ^ 64"
      "unat (cc_written a) + unat (cc_written b) < 2 ^ 64"
      "unat (cc_filtered a) + unat (cc_filtered b) < 2 ^ 64"
    using le fits by linarith+
  then have inv: "counts_inv ?c"
    using le fits by (simp add: counts_inv_def word_le_nat_alt unat_add_u64)
  then have "chunk_counts_checked_add a b = Ok ?c"
    using fits sums by (simp add: chunk_counts_checked_add_def count_add_eq chunk_counts_new_Ok_iff)
  with inv fits sums show "\<exists>c. chunk_counts_checked_add a b = Ok c \<and> counts_inv c
      \<and> unat (cc_read c) = unat (cc_read a) + unat (cc_read b)
      \<and> unat (cc_processed c) = unat (cc_processed a) + unat (cc_processed b)
      \<and> unat (cc_written c) = unat (cc_written a) + unat (cc_written b)
      \<and> unat (cc_filtered c) = unat (cc_filtered a) + unat (cc_filtered b)"
    by (simp add: unat_add_u64)
next
  assume "2 ^ 64 \<le> unat (cc_read a) + unat (cc_read b)"
  then show "chunk_counts_checked_add a b = Err CountOverflow"
    by (simp add: chunk_counts_checked_add_def count_add_eq)
qed

lemma counts_add_closed_witness:
  "let c = \<lparr>cc_read = 3, cc_processed = 2, cc_written = 1, cc_filtered = 1\<rparr> in
   \<exists>d. chunk_counts_checked_add c c = Ok d \<and> counts_inv d \<and> unat (cc_read d) = 6"
  unfolding Let_def
  using counts_add_closed [of "\<lparr>cc_read = 3, cc_processed = 2, cc_written = 1, cc_filtered = 1\<rparr>"
      "\<lparr>cc_read = 3, cc_processed = 2, cc_written = 1, cc_filtered = 1\<rparr>"]
  by (auto simp: counts_inv_def)
end
