(* ===== verification/Rust_Str.thy ===== *)
theory Rust_Str
  imports Batch_Prelude
begin

text \<open>
  Rust's \<^verbatim>\<open>String\<close>/\<^verbatim>\<open>&str\<close>: the list of its Unicode scalar values, with the parts of the
  standard library the program uses: \<^verbatim>\<open>len\<close> (UTF-8 bytes), \<^verbatim>\<open>as_bytes\<close>, \<^verbatim>\<open>chars\<close>,
  \<^verbatim>\<open>trim\<close>, \<^verbatim>\<open>char::is_control\<close> and the ordering.

  The theory proves that the UTF-8 encoding can be read back unambiguously and that it keeps
  the order, so comparing the scalar lists lexicographically is what Rust's byte comparison of
  strings does.
\<close>

type_synonym rstr = "nat list"

text \<open>A literal of the source; all literals of the modelled code are ASCII.\<close>

definition lit :: "string \<Rightarrow> rstr" where
  "lit s = map of_char s"

lemma lit_inject [simp]: "lit s = lit t \<longleftrightarrow> s = t"
proof -
  have "inj (of_char :: char \<Rightarrow> nat)" by (rule injI) simp
  then show ?thesis by (simp add: lit_def inj_map_eq_map)
qed

definition scalar_value :: "nat \<Rightarrow> bool" where
  "scalar_value c \<longleftrightarrow> c \<le> 0x10FFFF \<and> \<not> (0xD800 \<le> c \<and> c \<le> 0xDFFF)"

definition str_ok :: "rstr \<Rightarrow> bool" where
  "str_ok s \<longleftrightarrow> list_all scalar_value s"

section \<open>UTF-8\<close>

definition utf8_char :: "nat \<Rightarrow> u8 list" where
  "utf8_char c =
     (if c < 0x80 then [word_of_nat c]
      else if c < 0x800 then
        [word_of_nat (0xC0 + c div 64), word_of_nat (0x80 + c mod 64)]
      else if c < 0x10000 then
        [word_of_nat (0xE0 + c div 4096), word_of_nat (0x80 + c div 64 mod 64),
         word_of_nat (0x80 + c mod 64)]
      else
        [word_of_nat (0xF0 + c div 262144), word_of_nat (0x80 + c div 4096 mod 64),
         word_of_nat (0x80 + c div 64 mod 64), word_of_nat (0x80 + c mod 64)])"

definition as_bytes :: "rstr \<Rightarrow> u8 list" where
  "as_bytes s = concat (map utf8_char s)"

text \<open>\<^verbatim>\<open>str::len\<close> counts UTF-8 bytes.\<close>

definition utf8_width :: "nat \<Rightarrow> nat" where
  "utf8_width c = (if c < 0x80 then 1 else if c < 0x800 then 2 else if c < 0x10000 then 3 else 4)"

definition str_len :: "rstr \<Rightarrow> nat" where
  "str_len s = sum_list (map utf8_width s)"

lemma length_utf8_char [simp]: "length (utf8_char c) = utf8_width c"
  by (simp add: utf8_char_def utf8_width_def)

lemma utf8_char_nonempty [simp]: "utf8_char c \<noteq> []"
  by (simp add: utf8_char_def)

lemma length_as_bytes [simp]: "length (as_bytes s) = str_len s"
  by (simp add: as_bytes_def str_len_def length_concat comp_def)

lemma str_len_Nil [simp]: "str_len [] = 0"
  and str_len_Cons [simp]: "str_len (c # s) = utf8_width c + str_len s"
  and str_len_append [simp]: "str_len (s @ t) = str_len s + str_len t"
  by (simp_all add: str_len_def)

lemma utf8_width_bounds: "1 \<le> utf8_width c" "utf8_width c \<le> 4"
  by (simp_all add: utf8_width_def)

lemma length_le_str_len: "length s \<le> str_len s"
  by (induction s) (auto intro: add_mono simp: utf8_width_bounds(1) [simplified] Suc_le_eq
      utf8_width_def)

lemma as_bytes_Nil [simp]: "as_bytes [] = []"
  and as_bytes_Cons: "as_bytes (c # s) = utf8_char c @ as_bytes s"
  and as_bytes_append: "as_bytes (s @ t) = as_bytes s @ as_bytes t"
  by (simp_all add: as_bytes_def)

text \<open>
  The first byte of an encoded scalar tells its width, and encodings of smaller scalars are
  smaller at the first byte where they differ. Both facts follow from one comparison lemma on
  the values of the bytes.
\<close>

text \<open>The unsigned values of the bytes, as naturals, for the arithmetic below.\<close>

definition utf8_vals :: "nat \<Rightarrow> nat list" where
  "utf8_vals c =
     (if c < 0x80 then [c]
      else if c < 0x800 then [0xC0 + c div 64, 0x80 + c mod 64]
      else if c < 0x10000 then [0xE0 + c div 4096, 0x80 + c div 64 mod 64, 0x80 + c mod 64]
      else [0xF0 + c div 262144, 0x80 + c div 4096 mod 64, 0x80 + c div 64 mod 64,
            0x80 + c mod 64])"

lemma utf8_char_vals: "utf8_char c = map word_of_nat (utf8_vals c)"
  by (simp add: utf8_char_def utf8_vals_def)

lemma utf8_vals_bound:
  assumes "c \<le> 0x10FFFF" and "b \<in> set (utf8_vals c)"
  shows "b < 256"
proof -
  have "c div 262144 \<le> 4" using assms(1) by (simp add: div_le_mono [of c "0x10FFFF" 262144, simplified])
  moreover have "c < 0x800 \<Longrightarrow> c div 64 < 32" by simp
  moreover have "c < 0x10000 \<Longrightarrow> c div 4096 < 16" by simp
  moreover have "c mod 64 < 64" "c div 64 mod 64 < 64" "c div 4096 mod 64 < 64" by simp_all
  ultimately show ?thesis
    using assms(2) by (auto simp: utf8_vals_def split: if_splits)
qed

lemma div_mod_less:
  fixes c d k :: nat
  assumes "c < d"
  shows "c div k < d div k \<or> (c div k = d div k \<and> c mod k < d mod k)"
proof -
  have "c div k \<le> d div k" using assms by (simp add: div_le_mono)
  moreover have "c mod k < d mod k" if "c div k = d div k"
    using assms that by (metis add_less_cancel_left mult_div_mod_eq)
  ultimately show ?thesis by linarith
qed

text \<open>Digit by digit in base 64, the order of two scalars is the order of their digits.\<close>

lemma base64_digits_less:
  fixes c d :: nat
  assumes "c < d"
  shows "[c div 64, c mod 64] < [d div 64, d mod 64]"
    and "[c div 4096, c div 64 mod 64, c mod 64] < [d div 4096, d div 64 mod 64, d mod 64]"
    and "[c div 262144, c div 4096 mod 64, c div 64 mod 64, c mod 64]
       < [d div 262144, d div 4096 mod 64, d div 64 mod 64, d mod 64]"
proof -
  have div2: "x div 4096 = x div 64 div 64" "x div 262144 = x div 4096 div 64" for x :: nat
    by (simp_all add: div_mult2_eq [symmetric])
  show two: "[c div 64, c mod 64] < [d div 64, d mod 64]"
    using div_mod_less [OF assms, of 64] by auto
  show three: "[c div 4096, c div 64 mod 64, c mod 64] < [d div 4096, d div 64 mod 64, d mod 64]"
    using two div_mod_less [of "c div 64" "d div 64" 64] by (auto simp: div2(1))
  show "[c div 262144, c div 4096 mod 64, c div 64 mod 64, c mod 64]
       < [d div 262144, d div 4096 mod 64, d div 64 mod 64, d mod 64]"
    using three div_mod_less [of "c div 4096" "d div 4096" 64] by (auto simp: div2(2))
qed

lemma utf8_lead_ranges:
  fixes c :: nat
  shows "c < 0x800 \<Longrightarrow> \<not> c < 0x80 \<Longrightarrow> 2 \<le> c div 64 \<and> c div 64 < 32"
    and "c < 0x10000 \<Longrightarrow> c div 4096 < 16"
  by auto

lemma utf8_vals_less:
  assumes "c < d"
  shows "utf8_vals c @ r < utf8_vals d @ s"
proof -
  consider (same1) "d < 0x80"
    | (same2) "\<not> c < 0x80" "d < 0x800"
    | (same3) "\<not> c < 0x800" "d < 0x10000"
    | (same4) "\<not> c < 0x10000"
    | (diff12) "c < 0x80" "\<not> d < 0x80"
    | (diff23) "\<not> c < 0x80" "c < 0x800" "\<not> d < 0x800"
    | (diff34) "\<not> c < 0x800" "c < 0x10000" "\<not> d < 0x10000"
    by linarith
  then show ?thesis
  proof cases
    case same1 with assms show ?thesis by (simp add: utf8_vals_def)
  next
    case same2 with assms base64_digits_less(1) [OF assms] show ?thesis
      by (auto simp: utf8_vals_def)
  next
    case same3 with assms base64_digits_less(2) [OF assms] show ?thesis
      by (auto simp: utf8_vals_def)
  next
    case same4 with assms base64_digits_less(3) [OF assms] show ?thesis
      by (auto simp: utf8_vals_def)
  next
    case diff12 then show ?thesis by (simp add: utf8_vals_def)
  next
    case diff23 with utf8_lead_ranges(1) [of c] show ?thesis by (auto simp: utf8_vals_def)
  next
    case diff34 with utf8_lead_ranges(2) [of c] show ?thesis by (auto simp: utf8_vals_def)
  qed
qed

lemma map_word_of_nat_less:
  assumes "\<forall>b \<in> set xs. b < 256" and "\<forall>b \<in> set ys. b < 256"
  shows "(map word_of_nat xs :: u8 list) < map word_of_nat ys \<longleftrightarrow> xs < ys"
  using assms
proof (induction xs arbitrary: ys)
  case Nil
  then show ?case by (cases ys) auto
next
  case (Cons x xs)
  then show ?case
    by (cases ys) (auto simp: word_of_nat_u8_less word_of_nat_u8_inj)
qed

lemma append_left_less_iff: "u @ x < u @ y \<longleftrightarrow> x < (y :: nat list)"
  by (induction u) simp_all

definition str_vals :: "rstr \<Rightarrow> nat list" where
  "str_vals s = concat (map utf8_vals s)"

lemma as_bytes_vals: "as_bytes s = map word_of_nat (str_vals s)"
  by (simp add: as_bytes_def str_vals_def utf8_char_vals [abs_def] map_concat comp_def)

lemma str_vals_less:
  assumes "s < t"
  shows "str_vals s < str_vals t"
  using assms
proof (induction s arbitrary: t)
  case Nil
  then show ?case by (cases t) (auto simp: str_vals_def utf8_vals_def)
next
  case (Cons c s)
  then obtain d t' where t: "t = d # t'" by (cases t) auto
  show ?case
  proof (cases "c = d")
    case True
    with Cons t have "str_vals s < str_vals t'" by simp
    with True t show ?thesis
      by (simp add: str_vals_def append_left_less_iff)
  next
    case False
    with Cons.prems t have "c < d" by simp
    with t show ?thesis by (simp add: str_vals_def utf8_vals_less)
  qed
qed

lemma str_vals_bound: "str_ok s \<Longrightarrow> \<forall>b \<in> set (str_vals s). b < 256"
  by (auto simp: str_vals_def str_ok_def list_all_iff scalar_value_def dest: utf8_vals_bound)

text \<open>Comparing strings by scalars is comparing them by UTF-8 bytes.\<close>

lemma str_order_is_byte_order:
  assumes "str_ok s" and "str_ok t"
  shows "as_bytes s < as_bytes t \<longleftrightarrow> s < t"
proof -
  have "as_bytes s < as_bytes t \<longleftrightarrow> str_vals s < str_vals t"
    using assms by (simp add: as_bytes_vals map_word_of_nat_less str_vals_bound)
  also have "\<dots> \<longleftrightarrow> s < t"
    using str_vals_less [of s t] str_vals_less [of t s] by (metis less_asym neqE)
  finally show ?thesis .
qed

lemma as_bytes_inject:
  assumes "str_ok s" and "str_ok t"
  shows "as_bytes s = as_bytes t \<longleftrightarrow> s = t"
  using assms str_order_is_byte_order [of s t] str_order_is_byte_order [of t s]
  by (metis less_irrefl neqE)

section \<open>Trimming and control characters\<close>

text \<open>\<^verbatim>\<open>char::is_whitespace\<close>: the code points with the Unicode property \<^verbatim>\<open>White_Space\<close>.\<close>

definition is_whitespace :: "nat \<Rightarrow> bool" where
  "is_whitespace c \<longleftrightarrow>
     (9 \<le> c \<and> c \<le> 13) \<or> c = 0x20 \<or> c = 0x85 \<or> c = 0xA0 \<or> c = 0x1680
     \<or> (0x2000 \<le> c \<and> c \<le> 0x200A) \<or> c = 0x2028 \<or> c = 0x2029 \<or> c = 0x202F
     \<or> c = 0x205F \<or> c = 0x3000"

text \<open>\<^verbatim>\<open>char::is_control\<close>: the general category \<^verbatim>\<open>Cc\<close>.\<close>

definition is_control :: "nat \<Rightarrow> bool" where
  "is_control c \<longleftrightarrow> c < 0x20 \<or> (0x7F \<le> c \<and> c \<le> 0x9F)"

definition trim :: "rstr \<Rightarrow> rstr" where
  "trim s = rev (dropWhile is_whitespace (rev (dropWhile is_whitespace s)))"

lemma dropWhile_eq_self_iff: "dropWhile P xs = xs \<longleftrightarrow> xs = [] \<or> \<not> P (hd xs)"
  using length_dropWhile_le [of P "tl xs"] by (cases xs) auto

lemma length_trim_le: "length (trim s) \<le> length (dropWhile is_whitespace s)"
  by (metis trim_def length_dropWhile_le length_rev)

lemma length_trim_less:
  assumes "dropWhile is_whitespace s \<noteq> s"
  shows "length (trim s) < length s"
proof -
  obtain c t where "s = c # t" "is_whitespace c"
    using assms by (cases s) (auto split: if_splits)
  then show ?thesis
    using length_trim_le [of s] length_dropWhile_le [of is_whitespace t] by simp
qed

lemma trim_eq_self_iff:
  "trim s = s \<longleftrightarrow> s = [] \<or> (\<not> is_whitespace (hd s) \<and> \<not> is_whitespace (last s))"
proof (cases "dropWhile is_whitespace s = s")
  case True
  then have "trim s = s \<longleftrightarrow> dropWhile is_whitespace (rev s) = rev s"
    by (simp add: trim_def) (metis rev_rev_ident)
  then show ?thesis using True by (auto simp: dropWhile_eq_self_iff hd_rev)
next
  case False
  then have "trim s \<noteq> s" using length_trim_less by fastforce
  with False show ?thesis by (auto simp: dropWhile_eq_self_iff)
qed

end
