(* ===== verification/Identity.thy ===== *)
theory Identity
  imports Rust_Str
begin

text \<open>
  Validated names and opaque identifiers, from \<^verbatim>\<open>domain/error.rs\<close> and
  \<^verbatim>\<open>domain/identity.rs\<close> of \<^verbatim>\<open>oxide-batch-core\<close>.

  The newtypes generated by the macros \<^verbatim>\<open>domain_name!\<close> and \<^verbatim>\<open>opaque_id!\<close> carry no data
  beyond the string and the nonzero integer they wrap; they are type synonyms here, and their
  constructors are the fallible functions \<open>job_name_new\<close>, \<open>job_instance_id_new\<close> and so on.
\<close>

section \<open>Errors\<close>

datatype name_kind = NameJob | NameStep | NameParameter | NameExitCode

datatype identifier_kind =
    IdJobInstance | IdJobExecution | IdStepExecution | IdFlowDecision | IdFlowDecisionSequence
  | IdRecoveryDecision | IdOperatorRequest | IdRetentionAction | IdStepPartition | IdFailure

datatype domain_error =
    EmptyName name_kind
  | NameTooLong name_kind nat
  | NameHasSurroundingWhitespace name_kind
  | NameContainsControl name_kind nat
  | ZeroIdentifier identifier_kind
  | DuplicateParameter
  | ParameterStringTooLong nat
  | InvalidTimestampOrder
  | ActiveExecutionHasEndTime
  | FinishedExecutionMissingEndTime
  | FailedExecutionMissingFailure

section \<open>Names\<close>

definition MAX_DOMAIN_NAME_BYTES :: nat where "MAX_DOMAIN_NAME_BYTES = 128"
definition MAX_PARAMETER_NAME_BYTES :: nat where "MAX_PARAMETER_NAME_BYTES = 128"
definition MAX_EXIT_CODE_BYTES :: nat where "MAX_EXIT_CODE_BYTES = 64"

text \<open>\<^verbatim>\<open>value.chars().enumerate().find(...)\<close>: the index of the first control character.\<close>

fun find_control :: "nat \<Rightarrow> rstr \<Rightarrow> nat option" where
  "find_control i [] = None"
| "find_control i (c # s) = (if is_control c then Some i else find_control (Suc i) s)"

definition validate_name :: "rstr \<Rightarrow> name_kind \<Rightarrow> nat \<Rightarrow> domain_error + unit" where
  "validate_name v kind max_bytes =
     (if v = [] then Err (EmptyName kind)
      else if str_len v > max_bytes then Err (NameTooLong kind max_bytes)
      else if trim v \<noteq> v then Err (NameHasSurroundingWhitespace kind)
      else case find_control 0 v of
             Some i \<Rightarrow> Err (NameContainsControl kind i)
           | None \<Rightarrow> Ok ())"

type_synonym job_name = rstr
type_synonym step_name = rstr
type_synonym parameter_name = rstr
type_synonym exit_code = rstr

text \<open>The constructor the macro \<^verbatim>\<open>domain_name!\<close> generates, and its four instances.\<close>

definition domain_name_new :: "name_kind \<Rightarrow> nat \<Rightarrow> rstr \<Rightarrow> domain_error + rstr" where
  "domain_name_new kind max_bytes v = res_bind (validate_name v kind max_bytes) (\<lambda>_. Ok v)"

definition job_name_new :: "rstr \<Rightarrow> domain_error + job_name" where
  "job_name_new = domain_name_new NameJob MAX_DOMAIN_NAME_BYTES"

definition step_name_new :: "rstr \<Rightarrow> domain_error + step_name" where
  "step_name_new = domain_name_new NameStep MAX_DOMAIN_NAME_BYTES"

definition parameter_name_new :: "rstr \<Rightarrow> domain_error + parameter_name" where
  "parameter_name_new = domain_name_new NameParameter MAX_PARAMETER_NAME_BYTES"

definition exit_code_new :: "rstr \<Rightarrow> domain_error + exit_code" where
  "exit_code_new = domain_name_new NameExitCode MAX_EXIT_CODE_BYTES"

text \<open>\<^verbatim>\<open>ExitCode::framework_owned\<close> wraps a literal without validating it.\<close>

definition exit_code_framework_owned :: "string \<Rightarrow> exit_code" where
  "exit_code_framework_owned s = lit s"

section \<open>Opaque identifiers\<close>

type_synonym job_instance_id = u64
type_synonym job_execution_id = u64
type_synonym step_execution_id = u64
type_synonym recovery_decision_id = u64
type_synonym operator_request_id = u64
type_synonym retention_action_id = u64
type_synonym step_partition_id = u64
type_synonym failure_id = u64

definition opaque_id_new :: "identifier_kind \<Rightarrow> u64 \<Rightarrow> domain_error + u64" where
  "opaque_id_new kind v = (if v = 0 then Err (ZeroIdentifier kind) else Ok v)"

section \<open>What validation accepts\<close>

lemma find_control_None_iff: "find_control i s = None \<longleftrightarrow> (\<forall>c \<in> set s. \<not> is_control c)"
  by (induction s arbitrary: i) auto

lemma find_control_Some_iff:
  "find_control i s = Some j \<longleftrightarrow>
     i \<le> j \<and> j - i < length s \<and> is_control (s ! (j - i)) \<and>
     (\<forall>k < j - i. \<not> is_control (s ! k))"
proof (induction s arbitrary: i)
  case Nil
  then show ?case by simp
next
  case (Cons c s)
  show ?case
  proof (cases "is_control c")
    case True
    then show ?thesis
      by (auto simp: nth_Cons split: nat.splits)
  next
    case False
    then have "find_control i (c # s) = Some j \<longleftrightarrow> find_control (Suc i) s = Some j" by simp
    also have "\<dots> \<longleftrightarrow> Suc i \<le> j \<and> j - Suc i < length s \<and> is_control (s ! (j - Suc i)) \<and>
        (\<forall>k < j - Suc i. \<not> is_control (s ! k))"
      by (rule Cons.IH)
    also have "\<dots> \<longleftrightarrow> i \<le> j \<and> j - i < length (c # s) \<and> is_control ((c # s) ! (j - i)) \<and>
        (\<forall>k < j - i. \<not> is_control ((c # s) ! k))"
    proof (cases "i < j")
      case True
      then have "j - i = Suc (j - Suc i)" by simp
      with True False show ?thesis by (simp add: All_less_Suc2)
    next
      case less: False
      with False show ?thesis by auto
    qed
    finally show ?thesis .
  qed
qed

definition name_valid :: "nat \<Rightarrow> rstr \<Rightarrow> bool" where
  "name_valid max_bytes v \<longleftrightarrow>
     v \<noteq> [] \<and> str_len v \<le> max_bytes \<and> \<not> is_whitespace (hd v) \<and> \<not> is_whitespace (last v) \<and>
     list_all (\<lambda>c. \<not> is_control c) v"

lemma validate_name_Ok_iff: "validate_name v kind mx = Ok () \<longleftrightarrow> name_valid mx v"
  using find_control_None_iff [of 0 v]
  by (cases "find_control 0 v") (auto simp: validate_name_def name_valid_def trim_eq_self_iff list_all_iff)

lemma domain_name_new_Ok_iff: "domain_name_new kind mx v = Ok w \<longleftrightarrow> w = v \<and> name_valid mx v"
  by (auto simp: domain_name_new_def validate_name_Ok_iff)

lemmas name_defs = job_name_new_def step_name_new_def parameter_name_new_def exit_code_new_def

lemma opaque_id_new_Ok_iff: "opaque_id_new kind v = Ok w \<longleftrightarrow> w = v \<and> v \<noteq> 0"
  by (auto simp: opaque_id_new_def)

end
