(* ===== verification/Optimistic.thy ===== *)
theory Optimistic
  imports Batch_Prelude
begin

text \<open>
  The optimistic-concurrency contract shared by every versioned record of the system: job and
  step executions, step partitions and the repository-wide revision. A mutation names the
  version the caller observed; a stale version is refused without effect, and every accepted
  mutation raises the version by exactly one.

  The locale states the laws once. Its clients get the absence of lost updates: no version is
  accepted twice along any history of calls, and the final version counts the accepted calls.
\<close>

section \<open>Histories of calls\<close>

text \<open>The outcomes of a sequence of calls \<open>(expected version, operation)\<close> and the final state.\<close>

fun apply_seq ::
  "(u64 \<Rightarrow> 'op \<Rightarrow> 's \<Rightarrow> ('e + 'r) \<times> 's) \<Rightarrow> (u64 \<times> 'op) list \<Rightarrow> 's \<Rightarrow> ('e + 'r) list \<times> 's" where
  "apply_seq f [] s = ([], s)"
| "apply_seq f ((v, x) # cs) s =
     (let (r, s') = f v x s; (rs, s'') = apply_seq f cs s' in (r # rs, s''))"

lemma apply_seq_Cons:
  "apply_seq f ((v, x) # cs) s =
     (fst (f v x s) # fst (apply_seq f cs (snd (f v x s))), snd (apply_seq f cs (snd (f v x s))))"
  by (simp add: case_prod_unfold Let_def)

declare apply_seq.simps(2) [simp del]
declare apply_seq_Cons [simp]

lemma length_apply_seq [simp]: "length (fst (apply_seq f cs s)) = length cs"
proof (induction cs arbitrary: s)
  case (Cons c cs)
  then show ?case by (cases c) simp
qed simp

text \<open>The expected versions of the accepted calls, in order.\<close>

definition accepted :: "(u64 \<times> 'op) list \<Rightarrow> ('e + 'r) list \<Rightarrow> u64 list" where
  "accepted cs rs = map (fst \<circ> fst) (filter (is_ok \<circ> snd) (zip cs rs))"

lemma accepted_Nil [simp]: "accepted [] rs = []"
  by (simp add: accepted_def)

lemma accepted_Cons [simp]:
  "accepted ((v, x) # cs) (r # rs) = (if is_ok r then v # accepted cs rs else accepted cs rs)"
  by (simp add: accepted_def)

section \<open>The contract\<close>

locale optimistic =
  fixes version :: "'s \<Rightarrow> u64"
    and apply_op :: "u64 \<Rightarrow> 'op \<Rightarrow> 's \<Rightarrow> ('e + 'r) \<times> 's"
  assumes stale_rejected: "expected \<noteq> version s \<Longrightarrow> \<exists>e. apply_op expected x s = (Err e, s)"
    and success_bumps:
      "apply_op expected x s = (Ok r, s') \<Longrightarrow> unat (version s') = Suc (unat (version s))"
    and failure_keeps_version: "apply_op expected x s = (Err e, s') \<Longrightarrow> version s' = version s"
begin

lemma success_current: "apply_op expected x s = (Ok r, s') \<Longrightarrow> expected = version s"
  using stale_rejected [of expected s x] by auto

lemma success_increases: "apply_op expected x s = (Ok r, s') \<Longrightarrow> version s < version s'"
  using success_bumps by (simp add: word_less_nat_alt)

text \<open>Of two calls that observed the same version, the second is refused as stale.\<close>

lemma no_second_winner:
  assumes "apply_op v x s = (Ok r, s')"
  shows "\<exists>e. apply_op v y s' = (Err e, s')"
proof (rule stale_rejected)
  show "v \<noteq> version s'"
    using success_current [OF assms] success_increases [OF assms] by simp
qed

lemma version_mono: "version s \<le> version (snd (apply_op v x s))"
proof (cases "apply_op v x s")
  case (Pair r s')
  then show ?thesis
    by (cases r) (use failure_keeps_version success_increases in \<open>fastforce intro: less_imp_le\<close>)+
qed

text \<open>
  Along any history the final version counts the accepted calls, every accepted call observed
  a version not below the initial one, and no observed version is accepted twice.
\<close>

lemma history_lower_bound:
  "\<forall>v \<in> set (accepted cs (fst (apply_seq apply_op cs s))). version s \<le> v"
proof (induction cs arbitrary: s)
  case (Cons c cs)
  obtain v x where c: "c = (v, x)" by fastforce
  obtain r t where step: "apply_op v x s = (r, t)" by fastforce
  have "version s \<le> version t" using version_mono [of s v x] step by simp
  with Cons.IH [of t] have "\<forall>u \<in> set (accepted cs (fst (apply_seq apply_op cs t))). version s \<le> u"
    by (meson order_trans)
  with step c success_current [of v x s] show ?case by (cases r) auto
qed simp

lemma history_count:
  "unat (version (snd (apply_seq apply_op cs s))) =
     unat (version s) + length (accepted cs (fst (apply_seq apply_op cs s)))"
proof (induction cs arbitrary: s)
  case (Cons c cs)
  obtain v x where c: "c = (v, x)" by fastforce
  obtain r t where step: "apply_op v x s = (r, t)" by fastforce
  with Cons.IH [of t] c show ?case
    by (cases r) (auto dest: success_bumps failure_keeps_version)
qed simp

lemma history_no_reuse:
  "sorted_wrt (<) (accepted cs (fst (apply_seq apply_op cs s)))"
proof (induction cs arbitrary: s)
  case (Cons c cs)
  obtain v x where c: "c = (v, x)" by fastforce
  obtain r t where step: "apply_op v x s = (r, t)" by fastforce
  have "v < version t" if "r = Ok y" for y
    using step that success_current success_increases by blast
  with Cons.IH [of t] history_lower_bound [of cs t] step c show ?case
    by (cases r) auto
qed simp

end

text \<open>A record whose refused mutations leave it untouched altogether.\<close>

locale atomic_optimistic = optimistic +
  assumes failure_keeps_state: "apply_op expected x s = (Err e, s') \<Longrightarrow> s' = s"
begin

lemma refused_history_unchanged:
  "accepted cs (fst (apply_seq apply_op cs s)) = [] \<Longrightarrow> snd (apply_seq apply_op cs s) = s"
proof (induction cs arbitrary: s)
  case Nil
  then show ?case by simp
next
  case (Cons c cs)
  obtain v x where c: "c = (v, x)" by fastforce
  obtain r t where step: "apply_op v x s = (r, t)" by fastforce
  with Cons.prems c obtain e where "r = Err e" by (cases r) auto
  with step have "t = s" using failure_keeps_state by blast
  with Cons c step \<open>r = Err e\<close> show ?case by simp
qed

end

end
