(* ===== verification/Lifecycle.thy ===== *)
theory Lifecycle
  imports Identity Optimistic
begin

text \<open>
  The execution lifecycle, from \<^verbatim>\<open>domain/lifecycle.rs\<close> and \<^verbatim>\<open>domain/execution.rs\<close> of
  \<^verbatim>\<open>oxide-batch-core\<close>: statuses, validated metadata, in-place transitions under an
  optimistic version, exit-status enrichment and restart attempts.

  A method taking \<^verbatim>\<open>&mut self\<close> returns its result together with the record after the call.
  \<^verbatim>\<open>SystemTime\<close> is an integer number of nanoseconds; the code only compares instants.
\<close>

type_synonym system_time = int
type_synonym execution_version = u64

section \<open>Statuses, exit statuses and counters\<close>

datatype batch_status =
  Starting | Started | Stopping | Stopped | Failed | Completed | Abandoned | Unknown

definition is_active :: "batch_status \<Rightarrow> bool" where
  "is_active s \<longleftrightarrow> s = Starting \<or> s = Started \<or> s = Stopping"

definition is_finished :: "batch_status \<Rightarrow> bool" where
  "is_finished s \<longleftrightarrow> s = Stopped \<or> s = Failed \<or> s = Completed \<or> s = Abandoned"

definition is_terminal :: "batch_status \<Rightarrow> bool" where
  "is_terminal s \<longleftrightarrow> s = Completed \<or> s = Abandoned"

fun batch_status_as_str :: "batch_status \<Rightarrow> string" where
  "batch_status_as_str Starting = ''STARTING''"
| "batch_status_as_str Started = ''STARTED''"
| "batch_status_as_str Stopping = ''STOPPING''"
| "batch_status_as_str Stopped = ''STOPPED''"
| "batch_status_as_str Failed = ''FAILED''"
| "batch_status_as_str Completed = ''COMPLETED''"
| "batch_status_as_str Abandoned = ''ABANDONED''"
| "batch_status_as_str Unknown = ''UNKNOWN''"

text \<open>\<^verbatim>\<open>ExitStatus\<close> wraps one exit code.\<close>

record exit_status = es_code :: exit_code

definition exit_status_unknown :: exit_status where
  "exit_status_unknown = \<lparr>es_code = exit_code_framework_owned ''UNKNOWN''\<rparr>"

definition exit_status_completed :: exit_status where
  "exit_status_completed = \<lparr>es_code = exit_code_framework_owned ''COMPLETED''\<rparr>"

definition exit_status_failed :: exit_status where
  "exit_status_failed = \<lparr>es_code = exit_code_framework_owned ''FAILED''\<rparr>"

definition exit_status_stopped :: exit_status where
  "exit_status_stopped = \<lparr>es_code = exit_code_framework_owned ''STOPPED''\<rparr>"

record execution_counts =
  ec_read :: u64
  ec_processed :: u64
  ec_written :: u64
  ec_filtered :: u64
  ec_committed :: u64
  ec_rolled_back :: u64

definition execution_counts_default :: execution_counts where
  "execution_counts_default =
     \<lparr>ec_read = 0, ec_processed = 0, ec_written = 0, ec_filtered = 0, ec_committed = 0,
      ec_rolled_back = 0\<rparr>"

section \<open>Failures\<close>

datatype failure_category =
    CatInvalidDefinition | CatDuplicateExecution | CatIllegalTransition
  | CatTransientInfrastructure | CatPermanentInfrastructure | CatUserComponent | CatCancelled
  | CatSerialization | CatInvariant | CatOptimisticConflict | CatTimeout
  | CatUnsupportedCapability | CatUnknownCommit | CatShutdownIncomplete | CatStaleRecovered

fun failure_category_as_str :: "failure_category \<Rightarrow> string" where
  "failure_category_as_str CatInvalidDefinition = ''invalid_definition''"
| "failure_category_as_str CatDuplicateExecution = ''duplicate_execution''"
| "failure_category_as_str CatIllegalTransition = ''illegal_transition''"
| "failure_category_as_str CatTransientInfrastructure = ''transient_infrastructure''"
| "failure_category_as_str CatPermanentInfrastructure = ''permanent_infrastructure''"
| "failure_category_as_str CatUserComponent = ''user_component''"
| "failure_category_as_str CatCancelled = ''cancelled''"
| "failure_category_as_str CatSerialization = ''serialization''"
| "failure_category_as_str CatInvariant = ''invariant''"
| "failure_category_as_str CatOptimisticConflict = ''optimistic_conflict''"
| "failure_category_as_str CatTimeout = ''timeout''"
| "failure_category_as_str CatUnsupportedCapability = ''unsupported_capability''"
| "failure_category_as_str CatUnknownCommit = ''unknown_commit''"
| "failure_category_as_str CatShutdownIncomplete = ''shutdown_incomplete''"
| "failure_category_as_str CatStaleRecovered = ''stale_recovered''"

definition is_policy_eligible :: "failure_category \<Rightarrow> bool" where
  "is_policy_eligible c \<longleftrightarrow>
     c = CatTransientInfrastructure \<or> c = CatPermanentInfrastructure \<or> c = CatUserComponent
     \<or> c = CatOptimisticConflict \<or> c = CatTimeout"

fun durable_code :: "failure_category \<Rightarrow> string" where
  "durable_code CatInvalidDefinition = ''INVALID_DEFINITION''"
| "durable_code CatDuplicateExecution = ''DUPLICATE_EXECUTION''"
| "durable_code CatIllegalTransition = ''ILLEGAL_TRANSITION''"
| "durable_code CatTransientInfrastructure = ''TRANSIENT_INFRASTRUCTURE''"
| "durable_code CatPermanentInfrastructure = ''PERMANENT_INFRASTRUCTURE''"
| "durable_code CatUserComponent = ''USER_COMPONENT''"
| "durable_code CatCancelled = ''CANCELLED''"
| "durable_code CatSerialization = ''SERIALIZATION''"
| "durable_code CatInvariant = ''INVARIANT''"
| "durable_code CatOptimisticConflict = ''OPTIMISTIC_CONFLICT''"
| "durable_code CatTimeout = ''TIMEOUT''"
| "durable_code CatUnsupportedCapability = ''UNSUPPORTED_CAPABILITY''"
| "durable_code CatUnknownCommit = ''UNKNOWN_COMMIT''"
| "durable_code CatShutdownIncomplete = ''SHUTDOWN_INCOMPLETE''"
| "durable_code CatStaleRecovered = ''STALE_RECOVERED''"

text \<open>The match of \<^verbatim>\<open>from_durable_code\<close>, arm by arm in the order of the source.\<close>

definition from_durable_code :: "rstr \<Rightarrow> failure_category option" where
  "from_durable_code v =
     (if v = lit ''INVALID_DEFINITION'' then Some CatInvalidDefinition
      else if v = lit ''DUPLICATE_EXECUTION'' then Some CatDuplicateExecution
      else if v = lit ''ILLEGAL_TRANSITION'' then Some CatIllegalTransition
      else if v = lit ''TRANSIENT_INFRASTRUCTURE'' then Some CatTransientInfrastructure
      else if v = lit ''PERMANENT_INFRASTRUCTURE'' then Some CatPermanentInfrastructure
      else if v = lit ''USER_COMPONENT'' then Some CatUserComponent
      else if v = lit ''CANCELLED'' then Some CatCancelled
      else if v = lit ''SERIALIZATION'' then Some CatSerialization
      else if v = lit ''INVARIANT'' then Some CatInvariant
      else if v = lit ''OPTIMISTIC_CONFLICT'' then Some CatOptimisticConflict
      else if v = lit ''TIMEOUT'' then Some CatTimeout
      else if v = lit ''UNSUPPORTED_CAPABILITY'' then Some CatUnsupportedCapability
      else if v = lit ''UNKNOWN_COMMIT'' then Some CatUnknownCommit
      else if v = lit ''SHUTDOWN_INCOMPLETE'' then Some CatShutdownIncomplete
      else if v = lit ''STALE_RECOVERED'' then Some CatStaleRecovered
      else None)"

record failure_summary =
  fs_category :: failure_category
  fs_failure_id :: failure_id

section \<open>Timestamps and metadata\<close>

record execution_timestamps =
  et_created_at :: system_time
  et_started_at :: "system_time option"
  et_ended_at :: "system_time option"

definition execution_timestamps_new ::
  "system_time \<Rightarrow> system_time option \<Rightarrow> system_time option \<Rightarrow> domain_error + execution_timestamps" where
  "execution_timestamps_new created started ended =
     (if is_some_and started (\<lambda>s. s < created)
         \<or> is_some_and ended (\<lambda>e. e < unwrap_or started created)
      then Err InvalidTimestampOrder
      else Ok \<lparr>et_created_at = created, et_started_at = started, et_ended_at = ended\<rparr>)"

record execution_metadata =
  em_status :: batch_status
  em_exit_status :: exit_status
  em_timestamps :: execution_timestamps
  em_counts :: execution_counts
  em_failure :: "failure_summary option"

definition execution_metadata_new ::
  "batch_status \<Rightarrow> exit_status \<Rightarrow> execution_timestamps \<Rightarrow> execution_counts \<Rightarrow> failure_summary option
     \<Rightarrow> domain_error + execution_metadata" where
  "execution_metadata_new status exit ts counts failure =
     (if is_active status \<and> et_ended_at ts \<noteq> None then Err ActiveExecutionHasEndTime
      else if is_finished status \<and> et_ended_at ts = None then Err FinishedExecutionMissingEndTime
      else if status = Failed \<and> failure = None then Err FailedExecutionMissingFailure
      else Ok \<lparr>em_status = status, em_exit_status = exit, em_timestamps = ts, em_counts = counts,
               em_failure = failure\<rparr>)"

definition metadata_starting :: "system_time \<Rightarrow> execution_metadata" where
  "metadata_starting created =
     \<lparr>em_status = Starting, em_exit_status = exit_status_unknown,
      em_timestamps = \<lparr>et_created_at = created, et_started_at = None, et_ended_at = None\<rparr>,
      em_counts = execution_counts_default, em_failure = None\<rparr>"

section \<open>Transitions\<close>

record lifecycle_transition =
  lt_target :: batch_status
  lt_transitioned_at :: system_time
  lt_failure :: "failure_summary option"
  lt_terminal_rollback :: bool

definition lifecycle_transition_new :: "batch_status \<Rightarrow> system_time \<Rightarrow> lifecycle_transition" where
  "lifecycle_transition_new target at =
     \<lparr>lt_target = target, lt_transitioned_at = at, lt_failure = None, lt_terminal_rollback = False\<rparr>"

definition lifecycle_transition_failed :: "system_time \<Rightarrow> failure_summary \<Rightarrow> lifecycle_transition" where
  "lifecycle_transition_failed at failure =
     \<lparr>lt_target = Failed, lt_transitioned_at = at, lt_failure = Some failure,
      lt_terminal_rollback = False\<rparr>"

definition transition_with_terminal_rollback :: "lifecycle_transition \<Rightarrow> lifecycle_transition" where
  "transition_with_terminal_rollback t = t\<lparr>lt_terminal_rollback := True\<rparr>"

datatype lifecycle_error =
    StaleVersion execution_version execution_version
  | IllegalTransition batch_status batch_status
  | RestartRequiresNewAttempt batch_status
  | NotRestartable batch_status
  | AttemptIdentifierReused
  | FailedTransitionMissingFailure
  | InvalidTransitionTime domain_error
  | VersionExhausted execution_version
  | CountExhausted

definition version_initial :: execution_version where "version_initial = 0"

definition version_next :: "execution_version \<Rightarrow> lifecycle_error + execution_version" where
  "version_next v = ok_or (checked_add v 1) (VersionExhausted v)"

definition counts_with_terminal_rollback :: "execution_counts \<Rightarrow> lifecycle_error + execution_counts" where
  "counts_with_terminal_rollback c =
     res_bind (ok_or (checked_add (ec_rolled_back c) 1) CountExhausted)
       (\<lambda>n. Ok (c\<lparr>ec_rolled_back := n\<rparr>))"

definition validate_expected_version ::
  "execution_version \<Rightarrow> execution_version \<Rightarrow> lifecycle_error + unit" where
  "validate_expected_version expected actual =
     (if expected \<noteq> actual then Err (StaleVersion expected actual) else Ok ())"

definition is_legal_in_place_transition :: "batch_status \<Rightarrow> batch_status \<Rightarrow> bool" where
  "is_legal_in_place_transition from to \<longleftrightarrow>
     (from = Starting \<and> to \<in> {Started, Stopping, Failed, Unknown})
     \<or> (from = Started \<and> to \<in> {Stopping, Stopped, Failed, Completed, Unknown})
     \<or> (from = Stopping \<and> to \<in> {Stopped, Failed, Unknown})
     \<or> (from \<in> {Stopped, Failed, Unknown} \<and> to = Abandoned)
     \<or> (from = Unknown \<and> to = Failed)"

definition validate_transition ::
  "batch_status \<Rightarrow> lifecycle_transition \<Rightarrow> lifecycle_error + unit" where
  "validate_transition from t =
     (let to = lt_target t in
      if (from = Stopped \<or> from = Failed) \<and> to = Starting then Err (RestartRequiresNewAttempt from)
      else if \<not> is_legal_in_place_transition from to then Err (IllegalTransition from to)
      else if to = Failed \<and> lt_failure t = None then Err FailedTransitionMissingFailure
      else Ok ())"

definition validate_restart :: "batch_status \<Rightarrow> lifecycle_error + unit" where
  "validate_restart s = (if \<not> (s = Stopped \<or> s = Failed) then Err (NotRestartable s) else Ok ())"

definition metadata_transition ::
  "execution_metadata \<Rightarrow> lifecycle_transition \<Rightarrow> lifecycle_error + execution_metadata" where
  "metadata_transition m t =
     res_bind (validate_transition (em_status m) t) (\<lambda>_.
     let target = lt_target t; at = lt_transitioned_at t; ts = em_timestamps m in
     if at < unwrap_or (et_started_at ts) (et_created_at ts)
        \<or> is_some_and (et_ended_at ts) (\<lambda>e. at < e)
     then Err (InvalidTransitionTime InvalidTimestampOrder)
     else
       let started = (if target = Started then Some at else et_started_at ts);
           ended = (if is_finished target then option_or (et_ended_at ts) (Some at) else None) in
       res_bind (map_err InvalidTransitionTime
                  (execution_timestamps_new (et_created_at ts) started ended)) (\<lambda>timestamps.
       let failure = option_or (lt_failure t) (em_failure m) in
       res_bind (if lt_terminal_rollback t then counts_with_terminal_rollback (em_counts m)
                 else Ok (em_counts m)) (\<lambda>counts.
       map_err (\<lambda>e. if e = FailedExecutionMissingFailure then FailedTransitionMissingFailure
                    else InvalidTransitionTime e)
         (execution_metadata_new target (em_exit_status m) timestamps counts failure))))"

definition with_exit_status :: "execution_metadata \<Rightarrow> exit_status \<Rightarrow> execution_metadata" where
  "with_exit_status m x = m\<lparr>em_exit_status := x\<rparr>"

definition transition_execution ::
  "execution_version \<Rightarrow> lifecycle_transition \<Rightarrow> execution_metadata \<Rightarrow> execution_version
     \<Rightarrow> (lifecycle_error + execution_version) \<times> execution_metadata \<times> execution_version" where
  "transition_execution expected t m v =
     (case validate_expected_version expected v of
        Err e \<Rightarrow> (Err e, m, v)
      | Ok _ \<Rightarrow>
        (case metadata_transition m t of
           Err e \<Rightarrow> (Err e, m, v)
         | Ok m' \<Rightarrow>
           (case version_next v of
              Err e \<Rightarrow> (Err e, m, v)
            | Ok v' \<Rightarrow> (Ok v', m', v'))))"

definition enrich_execution_exit_status ::
  "execution_version \<Rightarrow> exit_status \<Rightarrow> execution_metadata \<Rightarrow> execution_version
     \<Rightarrow> (lifecycle_error + execution_version) \<times> execution_metadata \<times> execution_version" where
  "enrich_execution_exit_status expected x m v =
     (case validate_expected_version expected v of
        Err e \<Rightarrow> (Err e, m, v)
      | Ok _ \<Rightarrow>
        (case version_next v of
           Err e \<Rightarrow> (Err e, m, v)
         | Ok v' \<Rightarrow> (Ok v', with_exit_status m x, v')))"

definition validate_restart_time :: "execution_metadata \<Rightarrow> system_time \<Rightarrow> lifecycle_error + unit" where
  "validate_restart_time m created =
     (if is_some_and (et_ended_at (em_timestamps m)) (\<lambda>e. created < e)
      then Err (InvalidTransitionTime InvalidTimestampOrder) else Ok ())"

section \<open>Job and step executions\<close>

record job_execution =
  je_id :: job_execution_id
  je_job_instance_id :: job_instance_id
  je_metadata :: execution_metadata
  je_version :: execution_version

definition job_execution_new ::
  "job_execution_id \<Rightarrow> job_instance_id \<Rightarrow> execution_metadata \<Rightarrow> job_execution" where
  "job_execution_new i inst m =
     \<lparr>je_id = i, je_job_instance_id = inst, je_metadata = m, je_version = version_initial\<rparr>"

definition job_execution_transition ::
  "execution_version \<Rightarrow> lifecycle_transition \<Rightarrow> job_execution
     \<Rightarrow> (lifecycle_error + execution_version) \<times> job_execution" where
  "job_execution_transition expected t e =
     (let (r, m, v) = transition_execution expected t (je_metadata e) (je_version e)
      in (r, e\<lparr>je_metadata := m, je_version := v\<rparr>))"

definition job_execution_enrich_exit_status ::
  "execution_version \<Rightarrow> exit_status \<Rightarrow> job_execution
     \<Rightarrow> (lifecycle_error + execution_version) \<times> job_execution" where
  "job_execution_enrich_exit_status expected x e =
     (let (r, m, v) = enrich_execution_exit_status expected x (je_metadata e) (je_version e)
      in (r, e\<lparr>je_metadata := m, je_version := v\<rparr>))"

definition job_execution_new_restart_attempt ::
  "execution_version \<Rightarrow> job_execution_id \<Rightarrow> system_time \<Rightarrow> job_execution
     \<Rightarrow> lifecycle_error + job_execution" where
  "job_execution_new_restart_attempt expected new_id created e =
     res_bind (validate_expected_version expected (je_version e)) (\<lambda>_.
     res_bind (validate_restart (em_status (je_metadata e))) (\<lambda>_.
     if new_id = je_id e then Err AttemptIdentifierReused else
     res_bind (validate_restart_time (je_metadata e) created) (\<lambda>_.
     Ok (job_execution_new new_id (je_job_instance_id e) (metadata_starting created)))))"

record step_execution =
  se_id :: step_execution_id
  se_job_execution_id :: job_execution_id
  se_step_name :: step_name
  se_metadata :: execution_metadata
  se_version :: execution_version

definition step_execution_new ::
  "step_execution_id \<Rightarrow> job_execution_id \<Rightarrow> step_name \<Rightarrow> execution_metadata \<Rightarrow> step_execution" where
  "step_execution_new i job name m =
     \<lparr>se_id = i, se_job_execution_id = job, se_step_name = name, se_metadata = m,
      se_version = version_initial\<rparr>"

definition step_execution_transition ::
  "execution_version \<Rightarrow> lifecycle_transition \<Rightarrow> step_execution
     \<Rightarrow> (lifecycle_error + execution_version) \<times> step_execution" where
  "step_execution_transition expected t e =
     (let (r, m, v) = transition_execution expected t (se_metadata e) (se_version e)
      in (r, e\<lparr>se_metadata := m, se_version := v\<rparr>))"

definition step_execution_enrich_exit_status ::
  "execution_version \<Rightarrow> exit_status \<Rightarrow> step_execution
     \<Rightarrow> (lifecycle_error + execution_version) \<times> step_execution" where
  "step_execution_enrich_exit_status expected x e =
     (let (r, m, v) = enrich_execution_exit_status expected x (se_metadata e) (se_version e)
      in (r, e\<lparr>se_metadata := m, se_version := v\<rparr>))"

definition step_execution_new_restart_attempt ::
  "execution_version \<Rightarrow> step_execution_id \<Rightarrow> job_execution_id \<Rightarrow> system_time \<Rightarrow> step_execution
     \<Rightarrow> lifecycle_error + step_execution" where
  "step_execution_new_restart_attempt expected new_id new_job created e =
     res_bind (validate_expected_version expected (se_version e)) (\<lambda>_.
     res_bind (validate_restart (em_status (se_metadata e))) (\<lambda>_.
     if new_id = se_id e \<or> new_job = se_job_execution_id e then Err AttemptIdentifierReused else
     res_bind (validate_restart_time (se_metadata e) created) (\<lambda>_.
     Ok (step_execution_new new_id new_job (se_step_name e) (metadata_starting created)))))"

section \<open>Well-formed metadata\<close>

definition timestamps_wf :: "execution_timestamps \<Rightarrow> bool" where
  "timestamps_wf ts \<longleftrightarrow>
     \<not> is_some_and (et_started_at ts) (\<lambda>s. s < et_created_at ts) \<and>
     \<not> is_some_and (et_ended_at ts) (\<lambda>e. e < unwrap_or (et_started_at ts) (et_created_at ts))"

definition metadata_wf :: "execution_metadata \<Rightarrow> bool" where
  "metadata_wf m \<longleftrightarrow>
     timestamps_wf (em_timestamps m) \<and>
     (is_active (em_status m) \<longrightarrow> et_ended_at (em_timestamps m) = None) \<and>
     (is_finished (em_status m) \<longrightarrow> et_ended_at (em_timestamps m) \<noteq> None) \<and>
     (em_status m = Failed \<longrightarrow> em_failure m \<noteq> None)"

lemma execution_timestamps_new_Ok_iff:
  "execution_timestamps_new c s e = Ok ts \<longleftrightarrow>
     ts = \<lparr>et_created_at = c, et_started_at = s, et_ended_at = e\<rparr> \<and> timestamps_wf ts"
  by (auto simp: execution_timestamps_new_def timestamps_wf_def)

lemma execution_metadata_new_Ok_iff:
  assumes "timestamps_wf ts"
  shows "execution_metadata_new s x ts c f = Ok m \<longleftrightarrow>
     m = \<lparr>em_status = s, em_exit_status = x, em_timestamps = ts, em_counts = c, em_failure = f\<rparr>
     \<and> metadata_wf m"
  using assms by (auto simp: execution_metadata_new_def metadata_wf_def)

lemma metadata_starting_wf [simp]: "metadata_wf (metadata_starting c)"
  by (simp add: metadata_wf_def metadata_starting_def timestamps_wf_def is_active_def is_finished_def)

lemma metadata_with_exit_status_wf [simp]: "metadata_wf (with_exit_status m x) = metadata_wf m"
  by (simp add: metadata_wf_def with_exit_status_def)

section \<open>What a transition does\<close>

definition transition_time_ok :: "execution_metadata \<Rightarrow> lifecycle_transition \<Rightarrow> bool" where
  "transition_time_ok m t \<longleftrightarrow>
     unwrap_or (et_started_at (em_timestamps m)) (et_created_at (em_timestamps m))
       \<le> lt_transitioned_at t \<and>
     \<not> is_some_and (et_ended_at (em_timestamps m)) (\<lambda>e. lt_transitioned_at t < e)"

definition transition_result :: "execution_metadata \<Rightarrow> lifecycle_transition \<Rightarrow> execution_metadata" where
  "transition_result m t =
     m\<lparr>em_status := lt_target t,
       em_timestamps := (em_timestamps m)
         \<lparr>et_started_at := if lt_target t = Started then Some (lt_transitioned_at t)
                          else et_started_at (em_timestamps m),
          et_ended_at := if is_finished (lt_target t)
                         then option_or (et_ended_at (em_timestamps m)) (Some (lt_transitioned_at t))
                         else None\<rparr>,
       em_counts := if lt_terminal_rollback t
                    then (em_counts m)\<lparr>ec_rolled_back := ec_rolled_back (em_counts m) + 1\<rparr>
                    else em_counts m,
       em_failure := option_or (lt_failure t) (em_failure m)\<rparr>"

lemmas status_defs = is_active_def is_finished_def is_terminal_def

lemma validate_transition_Ok_iff:
  "validate_transition s t = Ok () \<longleftrightarrow>
     is_legal_in_place_transition s (lt_target t) \<and> (lt_target t = Failed \<longrightarrow> lt_failure t \<noteq> None)"
  by (auto simp: validate_transition_def Let_def is_legal_in_place_transition_def)

lemma transition_result_timestamps_wf:
  assumes "metadata_wf m" and "transition_time_ok m t"
  shows "timestamps_wf (em_timestamps (transition_result m t))"
proof -
  obtain c s e where ts: "em_timestamps m = \<lparr>et_created_at = c, et_started_at = s, et_ended_at = e\<rparr>"
    by (metis execution_timestamps.cases)
  show ?thesis
    using assms ts
    by (cases s; cases e)
       (auto simp: metadata_wf_def timestamps_wf_def transition_time_ok_def transition_result_def
          is_finished_def)
qed

lemma transition_result_wf:
  assumes "metadata_wf m" and "validate_transition (em_status m) t = Ok ()"
    and "transition_time_ok m t"
  shows "metadata_wf (transition_result m t)"
proof -
  have "timestamps_wf (em_timestamps (transition_result m t))"
    using assms(1,3) by (rule transition_result_timestamps_wf)
  moreover have "option_or (et_ended_at ts) (Some a) \<noteq> None" for ts a
    by (cases "et_ended_at ts") simp_all
  ultimately show ?thesis
    using assms(2)
    by (auto simp: metadata_wf_def transition_result_def validate_transition_Ok_iff status_defs)
qed

lemma counts_with_terminal_rollback_eq:
  "counts_with_terminal_rollback c =
     (if ec_rolled_back c = - 1 then Err CountExhausted
      else Ok (c\<lparr>ec_rolled_back := ec_rolled_back c + 1\<rparr>))"
  by (simp add: counts_with_terminal_rollback_def checked_add_one)

text \<open>
  On well-formed metadata the whole transition is its validation, one timestamp test and one
  counter test: the re-validations at the end of the code never fail.
\<close>

lemma metadata_transition_eq:
  assumes "metadata_wf m"
  shows "metadata_transition m t =
     (case validate_transition (em_status m) t of
        Err e \<Rightarrow> Err e
      | Ok _ \<Rightarrow>
          if \<not> transition_time_ok m t then Err (InvalidTransitionTime InvalidTimestampOrder)
          else if lt_terminal_rollback t \<and> ec_rolled_back (em_counts m) = - 1 then Err CountExhausted
          else Ok (transition_result m t))"
proof (cases "validate_transition (em_status m) t = Ok () \<and> transition_time_ok m t")
  case False
  then show ?thesis
    by (cases "validate_transition (em_status m) t")
       (auto simp: metadata_transition_def transition_time_ok_def Let_def)
next
  case True
  let ?m = "transition_result m t"
  have wf: "metadata_wf ?m" using assms True by (simp add: transition_result_wf)
  then have ts_wf: "timestamps_wf (em_timestamps ?m)" by (simp add: metadata_wf_def)
  have ts: "execution_timestamps_new (et_created_at (em_timestamps m))
      (et_started_at (em_timestamps ?m)) (et_ended_at (em_timestamps ?m)) = Ok (em_timestamps ?m)"
    using ts_wf by (simp add: execution_timestamps_new_Ok_iff transition_result_def)
  have new: "execution_metadata_new (lt_target t) (em_exit_status m) (em_timestamps ?m)
      (em_counts ?m) (option_or (lt_failure t) (em_failure m)) = Ok ?m"
    using wf ts_wf by (simp add: execution_metadata_new_Ok_iff) (simp add: transition_result_def)
  from True ts new show ?thesis
    by (auto simp: metadata_transition_def transition_time_ok_def Let_def not_less
        counts_with_terminal_rollback_eq transition_result_def split: if_splits)
qed

lemma metadata_transition_OkD:
  assumes "metadata_wf m" and "metadata_transition m t = Ok m'"
  shows "m' = transition_result m t" and "metadata_wf m'"
    and "is_legal_in_place_transition (em_status m) (em_status m')"
proof -
  from assms have *: "validate_transition (em_status m) t = Ok ()" "transition_time_ok m t"
      "m' = transition_result m t"
    by (auto simp: metadata_transition_eq split: sum.splits if_splits)
  then show "m' = transition_result m t" by simp
  from * assms(1) show "metadata_wf m'" by (simp add: transition_result_wf)
  from * show "is_legal_in_place_transition (em_status m) (em_status m')"
    by (simp add: validate_transition_Ok_iff transition_result_def)
qed

section \<open>The versioned operations\<close>

lemma version_next_Ok_iff: "version_next v = Ok w \<longleftrightarrow> v \<noteq> - 1 \<and> w = v + 1"
  by (auto simp: version_next_def checked_add_one)

lemma version_next_unat: "version_next v = Ok w \<Longrightarrow> unat w = Suc (unat v)"
  by (auto simp: version_next_def dest: checked_add_unat)

lemma validate_expected_version_Ok_iff: "validate_expected_version a b = Ok () \<longleftrightarrow> a = b"
  by (simp add: validate_expected_version_def)

lemma transition_execution_Ok_iff:
  "transition_execution x t m v = (Ok r, m', v') \<longleftrightarrow>
     x = v \<and> metadata_transition m t = Ok m' \<and> version_next v = Ok v' \<and> r = v'"
  by (auto simp: transition_execution_def validate_expected_version_def split: sum.splits)

lemma enrich_execution_Ok_iff:
  "enrich_execution_exit_status x s m v = (Ok r, m', v') \<longleftrightarrow>
     x = v \<and> m' = with_exit_status m s \<and> version_next v = Ok v' \<and> r = v'"
  by (auto simp: enrich_execution_exit_status_def validate_expected_version_def split: sum.splits)

lemma transition_execution_Err: "transition_execution x t m v = (Err e, m', v') \<Longrightarrow> m' = m \<and> v' = v"
  by (auto simp: transition_execution_def split: sum.splits)

lemma enrich_execution_Err:
  "enrich_execution_exit_status x s m v = (Err e, m', v') \<Longrightarrow> m' = m \<and> v' = v"
  by (auto simp: enrich_execution_exit_status_def split: sum.splits)

lemma stale_execution:
  assumes "x \<noteq> v"
  shows "transition_execution x t m v = (Err (StaleVersion x v), m, v)"
    and "enrich_execution_exit_status x s m v = (Err (StaleVersion x v), m, v)"
  using assms
  by (simp_all add: transition_execution_def enrich_execution_exit_status_def
      validate_expected_version_def)

text \<open>The two mutations of an execution record, as one operation for histories of calls.\<close>

datatype execution_op = OpTransition lifecycle_transition | OpEnrich exit_status

fun job_execution_apply ::
  "u64 \<Rightarrow> execution_op \<Rightarrow> job_execution \<Rightarrow> (lifecycle_error + execution_version) \<times> job_execution" where
  "job_execution_apply v (OpTransition t) e = job_execution_transition v t e"
| "job_execution_apply v (OpEnrich s) e = job_execution_enrich_exit_status v s e"

fun step_execution_apply ::
  "u64 \<Rightarrow> execution_op \<Rightarrow> step_execution \<Rightarrow> (lifecycle_error + execution_version) \<times> step_execution" where
  "step_execution_apply v (OpTransition t) e = step_execution_transition v t e"
| "step_execution_apply v (OpEnrich s) e = step_execution_enrich_exit_status v s e"

lemmas execution_op_defs =
  job_execution_transition_def job_execution_enrich_exit_status_def
  step_execution_transition_def step_execution_enrich_exit_status_def

text \<open>
  Both record types implement the optimistic contract, and a refused call leaves them
  untouched.
\<close>

interpretation job_cas: atomic_optimistic je_version job_execution_apply
proof
  fix expected x and s :: job_execution
  assume "expected \<noteq> je_version s"
  then show "\<exists>e. job_execution_apply expected x s = (Err e, s)"
    by (cases x) (simp_all add: execution_op_defs stale_execution)
next
  fix expected x r and s s' :: job_execution
  assume "job_execution_apply expected x s = (Ok r, s')"
  then show "unat (je_version s') = Suc (unat (je_version s))"
    by (cases x) (auto simp: execution_op_defs transition_execution_Ok_iff enrich_execution_Ok_iff
        dest: version_next_unat split: prod.splits)
next
  fix expected x e and s s' :: job_execution
  assume "job_execution_apply expected x s = (Err e, s')"
  then show "s' = s"
    by (cases x) (auto simp: execution_op_defs dest!: transition_execution_Err enrich_execution_Err
        split: prod.splits)
  then show "je_version s' = je_version s" by simp
qed

interpretation step_cas: atomic_optimistic se_version step_execution_apply
proof
  fix expected x and s :: step_execution
  assume "expected \<noteq> se_version s"
  then show "\<exists>e. step_execution_apply expected x s = (Err e, s)"
    by (cases x) (simp_all add: execution_op_defs stale_execution)
next
  fix expected x r and s s' :: step_execution
  assume "step_execution_apply expected x s = (Ok r, s')"
  then show "unat (se_version s') = Suc (unat (se_version s))"
    by (cases x) (auto simp: execution_op_defs transition_execution_Ok_iff enrich_execution_Ok_iff
        dest: version_next_unat split: prod.splits)
next
  fix expected x e and s s' :: step_execution
  assume "step_execution_apply expected x s = (Err e, s')"
  then show "s' = s"
    by (cases x) (auto simp: execution_op_defs dest!: transition_execution_Err enrich_execution_Err
        split: prod.splits)
  then show "se_version s' = se_version s" by simp
qed

lemma job_execution_apply_Ok_cases:
  assumes "job_execution_apply v x e = (Ok r, e')"
  obtains (transition) t where "x = OpTransition t"
      "metadata_transition (je_metadata e) t = Ok (je_metadata e')"
      "je_id e' = je_id e" "je_job_instance_id e' = je_job_instance_id e"
  | (enrich) s where "x = OpEnrich s" "je_metadata e' = with_exit_status (je_metadata e) s"
      "je_id e' = je_id e" "je_job_instance_id e' = je_job_instance_id e"
  using assms
  by (cases x) (auto simp: execution_op_defs transition_execution_Ok_iff enrich_execution_Ok_iff
      split: prod.splits)

section \<open>The status machine\<close>

text \<open>
  Every legal transition climbs this order, whose height bounds the number of transitions one
  attempt can make.
\<close>

fun status_rank :: "batch_status \<Rightarrow> nat" where
  "status_rank Starting = 0"
| "status_rank Started = 1"
| "status_rank Stopping = 2"
| "status_rank Unknown = 3"
| "status_rank Stopped = 4"
| "status_rank Failed = 4"
| "status_rank Completed = 5"
| "status_rank Abandoned = 5"

lemma legal_transition_climbs:
  "is_legal_in_place_transition s s' \<Longrightarrow> status_rank s < status_rank s'"
  by (auto simp: is_legal_in_place_transition_def)

lemma status_rank_le: "status_rank s \<le> 5"
  by (cases s) simp_all

lemma legal_transition_finished:
  "is_legal_in_place_transition s s' \<Longrightarrow> is_finished s \<Longrightarrow> s' = Abandoned"
  by (auto simp: is_legal_in_place_transition_def is_finished_def)

lemma terminal_no_transition: "is_terminal s \<Longrightarrow> \<not> is_legal_in_place_transition s s'"
  by (auto simp: is_legal_in_place_transition_def is_terminal_def)

text \<open>
  What holds of the metadata of every attempt that was created by the code and then changed
  by its operations only; stronger than what the constructor validates.
\<close>

definition attempt_inv :: "execution_metadata \<Rightarrow> bool" where
  "attempt_inv m \<longleftrightarrow>
     metadata_wf m \<and>
     (em_status m = Starting \<longrightarrow> et_started_at (em_timestamps m) = None \<and> em_failure m = None) \<and>
     (em_status m \<in> {Started, Completed} \<longrightarrow> et_started_at (em_timestamps m) \<noteq> None) \<and>
     (em_status m = Unknown \<longrightarrow> et_ended_at (em_timestamps m) = None)"

lemma attempt_inv_starting [simp]: "attempt_inv (metadata_starting c)"
  by (simp add: attempt_inv_def) (simp add: metadata_starting_def)

lemma attempt_inv_with_exit_status [simp]: "attempt_inv (with_exit_status m x) = attempt_inv m"
  unfolding attempt_inv_def metadata_with_exit_status_wf by (simp add: with_exit_status_def)

lemma attempt_inv_transition:
  assumes "attempt_inv m" and "metadata_transition m t = Ok m'"
  shows "attempt_inv m'"
proof -
  from assms have wf: "metadata_wf m" by (simp add: attempt_inv_def)
  note step = metadata_transition_OkD [OF wf assms(2)]
  have "m' = transition_result m t" "metadata_wf m'"
    "is_legal_in_place_transition (em_status m) (lt_target t)"
    using step by (simp_all add: transition_result_def)
  with assms(1) show ?thesis
    by (cases "em_status m"; cases "lt_target t")
       (simp_all add: attempt_inv_def transition_result_def is_legal_in_place_transition_def
         is_finished_def)
qed

text \<open>
  The attempts of one job instance: a first launch, the accepted mutations of an attempt, and
  restarts from it.
\<close>

inductive job_attempt :: "job_instance_id \<Rightarrow> job_execution \<Rightarrow> bool" for inst where
  launched: "job_attempt inst (job_execution_new i inst (metadata_starting c))"
| mutated: "job_attempt inst e \<Longrightarrow> job_execution_apply v x e = (Ok r, e') \<Longrightarrow> job_attempt inst e'"
| restarted: "job_attempt inst e \<Longrightarrow> job_execution_new_restart_attempt v i c e = Ok e'
    \<Longrightarrow> job_attempt inst e'"

lemma new_restart_attempt_Ok_iff:
  "job_execution_new_restart_attempt v i c e = Ok e' \<longleftrightarrow>
     v = je_version e \<and> em_status (je_metadata e) \<in> {Stopped, Failed} \<and> i \<noteq> je_id e \<and>
     \<not> is_some_and (et_ended_at (em_timestamps (je_metadata e))) (\<lambda>t. c < t) \<and>
     e' = job_execution_new i (je_job_instance_id e) (metadata_starting c)"
  by (auto simp: job_execution_new_restart_attempt_def validate_expected_version_def
      validate_restart_def validate_restart_time_def)

lemma metadata_transition_validation_error:
  "validate_transition (em_status m) t = Err err \<Longrightarrow> metadata_transition m t = Err err"
  by (simp add: metadata_transition_def)

lemma terminal_transition_refused:
  assumes "is_terminal (em_status m)"
  shows "metadata_transition m t = Err (IllegalTransition (em_status m) (lt_target t))"
proof (rule metadata_transition_validation_error)
  have "\<not> is_legal_in_place_transition (em_status m) (lt_target t)"
    using assms by (rule terminal_no_transition)
  then show "validate_transition (em_status m) t = Err (IllegalTransition (em_status m) (lt_target t))"
    using assms by (auto simp: validate_transition_def is_terminal_def Let_def)
qed

lemma restart_in_place_refused:
  assumes "em_status m \<in> {Stopped, Failed}" and "lt_target t = Starting"
  shows "metadata_transition m t = Err (RestartRequiresNewAttempt (em_status m))"
  by (rule metadata_transition_validation_error) (use assms in \<open>auto simp: validate_transition_def\<close>)

lemma terminal_restart_refused:
  assumes "is_terminal (em_status (je_metadata e))"
  shows "job_execution_new_restart_attempt (je_version e) i c e
    = Err (NotRestartable (em_status (je_metadata e)))"
  using assms by (auto simp: job_execution_new_restart_attempt_def validate_expected_version_def
      validate_restart_def is_terminal_def)

lemma status_machine_step:
  assumes "metadata_wf (je_metadata e)" and "job_execution_apply v x e = (r, e')"
  shows "metadata_wf (je_metadata e')"
    and "status_rank (em_status (je_metadata e)) + (if is_ok r \<and> (\<exists>t. x = OpTransition t) then 1 else 0)
         \<le> status_rank (em_status (je_metadata e'))"
proof -
  have "metadata_wf (je_metadata e') \<and>
      status_rank (em_status (je_metadata e)) + (if is_ok r \<and> (\<exists>t. x = OpTransition t) then 1 else 0)
         \<le> status_rank (em_status (je_metadata e'))"
  proof (cases r)
    case (Inl err)
    with assms job_cas.failure_keeps_state show ?thesis by fastforce
  next
    case (Inr w)
    with assms(2) have "job_execution_apply v x e = (Ok w, e')" by simp
    then show ?thesis
    proof (cases rule: job_execution_apply_Ok_cases)
      case (transition t)
      note step = metadata_transition_OkD [OF assms(1) transition(2)]
      with legal_transition_climbs [OF step(3)] show ?thesis by (simp add: Suc_le_eq)
    next
      case (enrich s)
      with assms(1) show ?thesis by (simp add: with_exit_status_def metadata_wf_def)
    qed
  qed
  then show "metadata_wf (je_metadata e')"
    and "status_rank (em_status (je_metadata e)) + (if is_ok r \<and> (\<exists>t. x = OpTransition t) then 1 else 0)
         \<le> status_rank (em_status (je_metadata e'))" by simp_all
qed

text \<open>The number of accepted lifecycle transitions in a history of calls.\<close>

fun is_transition :: "execution_op \<Rightarrow> bool" where
  "is_transition (OpTransition t) = True"
| "is_transition (OpEnrich s) = False"

lemma is_transition_iff: "is_transition x \<longleftrightarrow> (\<exists>t. x = OpTransition t)"
  by (cases x) simp_all

definition accepted_transitions ::
  "(u64 \<times> execution_op) list \<Rightarrow> (lifecycle_error + execution_version) list \<Rightarrow> nat" where
  "accepted_transitions cs rs =
     length (filter (\<lambda>(c, r). is_ok r \<and> is_transition (snd c)) (zip cs rs))"

lemma transitions_climb:
  assumes "metadata_wf (je_metadata e)"
  shows "status_rank (em_status (je_metadata e))
      + accepted_transitions cs (fst (apply_seq job_execution_apply cs e))
    \<le> status_rank (em_status (je_metadata (snd (apply_seq job_execution_apply cs e))))"
  using assms
proof (induction cs arbitrary: e)
  case Nil
  then show ?case by (simp add: accepted_transitions_def)
next
  case (Cons c cs)
  obtain v x where c: "c = (v, x)" by fastforce
  obtain r e' where step: "job_execution_apply v x e = (r, e')" by fastforce
  note inv = status_machine_step [OF Cons.prems step, folded is_transition_iff]
  from Cons.IH [OF inv(1)] inv(2) step c show ?case
    by (auto simp: accepted_transitions_def split: if_splits)
qed

text \<open>Stored failure codes read back as the category that wrote them.\<close>

lemma from_durable_code_code [simp]: "from_durable_code (lit (durable_code c)) = Some c"
  by (cases c) (simp_all add: from_durable_code_def lit_def)

section \<open>Properties\<close>

text \<open>
  C22. Every attempt that the code can produce for a job instance, by launching it, by any
  accepted transition or exit-status enrichment, and by restarting from a stopped or failed
  attempt, has consistent metadata (ordered timestamps, an end time exactly when the outcome is
  known, a failure summary when \<^verbatim>\<open>FAILED\<close>, a start time when \<^verbatim>\<open>STARTED\<close> or \<^verbatim>\<open>COMPLETED\<close>) and
  still belongs to that instance.
\<close>

theorem job_attempt_consistent:
  assumes "job_attempt inst e"
  shows "attempt_inv (je_metadata e) \<and> je_job_instance_id e = inst"
  using assms
proof induction
  case (launched i c)
  then show ?case by (simp add: job_execution_new_def)
next
  case (mutated e v x r e')
  from mutated.hyps(2) show ?case
    using mutated.IH
    by (cases rule: job_execution_apply_Ok_cases) (auto dest: attempt_inv_transition)
next
  case (restarted e v i c e')
  then show ?case by (auto simp: new_restart_attempt_Ok_iff job_execution_new_def)
qed

definition example_attempt :: job_execution where
  "example_attempt = snd (apply_seq job_execution_apply
     [(0, OpTransition (lifecycle_transition_new Started 11)),
      (1, OpTransition (lifecycle_transition_failed 12 \<lparr>fs_category = CatTimeout, fs_failure_id = 9\<rparr>))]
     (job_execution_new 4 7 (metadata_starting 10)))"

lemmas lifecycle_eval =
  job_execution_transition_def transition_execution_def metadata_transition_def
  validate_transition_def validate_expected_version_def is_legal_in_place_transition_def
  execution_timestamps_new_def execution_metadata_new_def is_finished_def is_active_def
  version_next_def checked_add_def job_execution_new_def metadata_starting_def
  lifecycle_transition_new_def lifecycle_transition_failed_def version_initial_def

lemma example_attempt_eq:
  "example_attempt =
     \<lparr>je_id = 4, je_job_instance_id = 7,
      je_metadata =
        \<lparr>em_status = Failed, em_exit_status = exit_status_unknown,
         em_timestamps = \<lparr>et_created_at = 10, et_started_at = Some 11, et_ended_at = Some 12\<rparr>,
         em_counts = execution_counts_default,
         em_failure = Some \<lparr>fs_category = CatTimeout, fs_failure_id = 9\<rparr>\<rparr>,
      je_version = 2\<rparr>"
  by (simp add: example_attempt_def lifecycle_eval)

lemma example_attempt_reached: "job_attempt 7 example_attempt"
proof -
  let ?e0 = "job_execution_new 4 7 (metadata_starting 10)"
  let ?x1 = "OpTransition (lifecycle_transition_new Started 11)"
  let ?x2 = "OpTransition (lifecycle_transition_failed 12 \<lparr>fs_category = CatTimeout, fs_failure_id = 9\<rparr>)"
  let ?e1 = "snd (job_execution_apply 0 ?x1 ?e0)"
  have "job_execution_apply 0 ?x1 ?e0 = (Ok 1, ?e1)" by (simp add: lifecycle_eval)
  then have "job_attempt 7 ?e1" by (rule mutated [OF launched])
  moreover have "job_execution_apply 1 ?x2 ?e1 = (Ok 2, example_attempt)"
    unfolding example_attempt_eq by (simp add: lifecycle_eval)
  ultimately show ?thesis by (rule mutated)
qed

theorem job_attempt_consistent_witness:
  "attempt_inv (je_metadata example_attempt) \<and> je_job_instance_id example_attempt = 7"
  using job_attempt_consistent [OF example_attempt_reached] .

text \<open>
  C29. On consistent metadata a transition request is decided by exactly three tests, in this
  order: the status policy (with its own errors), the instant not preceding the recorded start
  (or creation) and end, and the rollback counter. When they pass, the result is the record with
  the target status, the start instant set on \<^verbatim>\<open>STARTED\<close>, the first end instant kept or set on a
  finished target and cleared otherwise, the rollback counted, the newest failure kept and the
  exit status untouched. The re-validations the code runs afterwards never fail.
\<close>

theorem metadata_transition_decides:
  assumes "metadata_wf m"
  shows "metadata_transition m t =
     (case validate_transition (em_status m) t of
        Err e \<Rightarrow> Err e
      | Ok _ \<Rightarrow>
          if \<not> transition_time_ok m t then Err (InvalidTransitionTime InvalidTimestampOrder)
          else if lt_terminal_rollback t \<and> ec_rolled_back (em_counts m) = - 1 then Err CountExhausted
          else Ok (transition_result m t))
     \<and> (validate_transition (em_status m) t = Ok () \<longleftrightarrow>
          is_legal_in_place_transition (em_status m) (lt_target t)
          \<and> (lt_target t = Failed \<longrightarrow> lt_failure t \<noteq> None))
     \<and> (\<forall>m'. metadata_transition m t = Ok m' \<longrightarrow> metadata_wf m')"
  using metadata_transition_eq [OF assms, of t] metadata_transition_OkD(2) [OF assms, of t]
    validate_transition_Ok_iff by blast

theorem metadata_transition_decides_witness:
  "metadata_transition (metadata_starting 10) (lifecycle_transition_new Started 11) =
     Ok (transition_result (metadata_starting 10) (lifecycle_transition_new Started 11))"
  using metadata_transition_decides [of "metadata_starting 10" "lifecycle_transition_new Started 11"]
  by (simp add: validate_transition_def is_legal_in_place_transition_def Let_def
      transition_time_ok_def lifecycle_transition_new_def metadata_starting_wf)
     (simp add: metadata_starting_def)

text \<open>
  One execution attempt accepts at most five lifecycle transitions, however many are
  requested and however enrichments are interleaved: the status climbs with every accepted
  transition and never falls, so the transition machine always terminates.
\<close>

lemma transitions_bounded:
  assumes "metadata_wf (je_metadata e)"
  shows "accepted_transitions cs (fst (apply_seq job_execution_apply cs e)) \<le> 5"
  using transitions_climb [OF assms, of cs]
    status_rank_le [of "em_status (je_metadata (snd (apply_seq job_execution_apply cs e)))"]
  by linarith

lemma transitions_bounded_witness:
  "let cs = [(0, OpTransition (lifecycle_transition_new Started 11)),
             (0, OpTransition (lifecycle_transition_new Started 11)),
             (1, OpTransition (lifecycle_transition_new Completed 12))] in
   accepted_transitions cs
     (fst (apply_seq job_execution_apply cs (job_execution_new 4 7 (metadata_starting 10)))) \<le> 5"
  unfolding Let_def by (rule transitions_bounded) (simp add: job_execution_new_def)

text \<open>
  C28. No lost updates on job and step executions: along any history of compare-and-swap calls
  the versions observed by the accepted calls strictly increase (so no observed version wins
  twice), the final version is the initial one plus the number of accepted calls, and a history
  whose calls are all refused leaves the record as it was.
\<close>

theorem execution_no_lost_updates:
  fixes e :: job_execution and s :: step_execution
  shows "sorted_wrt (<) (accepted cs (fst (apply_seq job_execution_apply cs e)))
    \<and> unat (je_version (snd (apply_seq job_execution_apply cs e))) =
        unat (je_version e) + length (accepted cs (fst (apply_seq job_execution_apply cs e)))
    \<and> (accepted cs (fst (apply_seq job_execution_apply cs e)) \<noteq> []
        \<or> snd (apply_seq job_execution_apply cs e) = e)
    \<and> sorted_wrt (<) (accepted cs (fst (apply_seq step_execution_apply cs s)))
    \<and> unat (se_version (snd (apply_seq step_execution_apply cs s))) =
        unat (se_version s) + length (accepted cs (fst (apply_seq step_execution_apply cs s)))
    \<and> (accepted cs (fst (apply_seq step_execution_apply cs s)) \<noteq> []
        \<or> snd (apply_seq step_execution_apply cs s) = s)"
  using job_cas.history_no_reuse job_cas.history_count job_cas.refused_history_unchanged
    step_cas.history_no_reuse step_cas.history_count step_cas.refused_history_unchanged
  by blast

theorem execution_no_lost_updates_witness:
  "let cs = [(0, OpEnrich exit_status_failed), (0, OpEnrich exit_status_stopped)];
       e = job_execution_new 4 7 (metadata_starting 10) in
   unat (je_version (snd (apply_seq job_execution_apply cs e))) =
     unat (je_version e) + length (accepted cs (fst (apply_seq job_execution_apply cs e)))"
  unfolding Let_def
  using execution_no_lost_updates
    [of "[(0, OpEnrich exit_status_failed), (0, OpEnrich exit_status_stopped)]"
        "job_execution_new 4 7 (metadata_starting 10)"]
  by blast

text \<open>
  C30. A finished outcome is never reopened in place. From \<^verbatim>\<open>COMPLETED\<close> and \<^verbatim>\<open>ABANDONED\<close> every
  transition and every restart is refused; from \<^verbatim>\<open>STOPPED\<close> and \<^verbatim>\<open>FAILED\<close> the only in-place target
  is \<^verbatim>\<open>ABANDONED\<close>, a request to go back to \<^verbatim>\<open>STARTING\<close> is told to create a new attempt, and a
  restart is granted exactly when the observed version is current, the identifier is new and the
  creation instant does not precede the end of the old attempt; the new attempt starts afresh at
  version 0 under the same job instance.
\<close>

theorem finished_never_reopened:
  assumes "attempt_inv (je_metadata e)" and "is_finished (em_status (je_metadata e))"
  shows "(is_terminal (em_status (je_metadata e)) \<longrightarrow>
           metadata_transition (je_metadata e) t
             = Err (IllegalTransition (em_status (je_metadata e)) (lt_target t))
           \<and> job_execution_new_restart_attempt (je_version e) i c e
             = Err (NotRestartable (em_status (je_metadata e))))
     \<and> (\<not> is_terminal (em_status (je_metadata e)) \<longrightarrow>
          (lt_target t = Starting \<longrightarrow>
             metadata_transition (je_metadata e) t
               = Err (RestartRequiresNewAttempt (em_status (je_metadata e))))
          \<and> (\<forall>m'. metadata_transition (je_metadata e) t = Ok m' \<longrightarrow> em_status m' = Abandoned)
          \<and> (\<exists>end_at. et_ended_at (em_timestamps (je_metadata e)) = Some end_at \<and>
              (\<forall>v e'. job_execution_new_restart_attempt v i c e = Ok e' \<longleftrightarrow>
                 v = je_version e \<and> i \<noteq> je_id e \<and> end_at \<le> c
                 \<and> e' = job_execution_new i (je_job_instance_id e) (metadata_starting c))))"
proof -
  have wf: "metadata_wf (je_metadata e)" using assms(1) by (simp add: attempt_inv_def)
  then obtain end_at where end_at: "et_ended_at (em_timestamps (je_metadata e)) = Some end_at"
    using assms(2) by (auto simp: metadata_wf_def)
  have abandoned: "em_status m' = Abandoned" if "metadata_transition (je_metadata e) t = Ok m'" for m'
    using legal_transition_finished [OF metadata_transition_OkD(3) [OF wf that] assms(2)] .
  show ?thesis
  proof (cases "is_terminal (em_status (je_metadata e))")
    case True
    then show ?thesis by (simp add: terminal_transition_refused terminal_restart_refused)
  next
    case False
    then have restartable: "em_status (je_metadata e) \<in> {Stopped, Failed}"
      using assms(2) by (auto simp: is_terminal_def is_finished_def)
    then have "\<forall>v e'. job_execution_new_restart_attempt v i c e = Ok e' \<longleftrightarrow>
        v = je_version e \<and> i \<noteq> je_id e \<and> end_at \<le> c
        \<and> e' = job_execution_new i (je_job_instance_id e) (metadata_starting c)"
      using end_at by (auto simp: new_restart_attempt_Ok_iff)
    with False end_at abandoned restart_in_place_refused [OF restartable] show ?thesis by blast
  qed
qed

theorem finished_never_reopened_witness:
  "job_execution_new_restart_attempt 2 5 12 example_attempt
     = Ok (job_execution_new 5 7 (metadata_starting 12))"
proof -
  have "attempt_inv (je_metadata example_attempt)" "is_finished (em_status (je_metadata example_attempt))"
    by (simp_all add: example_attempt_eq attempt_inv_def metadata_wf_def timestamps_wf_def
        is_active_def is_finished_def)
  from finished_never_reopened [OF this, of _ 5 12] show ?thesis
    by (simp add: example_attempt_eq is_terminal_def)
qed

text \<open>
  The durable spelling of failure categories round-trips: a stored code reads back as the
  category that wrote it, and no other string reads back as that category.
\<close>

lemma durable_code_roundtrip: "from_durable_code v = Some c \<longleftrightarrow> v = lit (durable_code c)"
proof
  assume "v = lit (durable_code c)"
  then show "from_durable_code v = Some c" by simp
next
  have pick: "(if v = lit a then Some d else r) = Some c \<Longrightarrow> a = durable_code d
      \<Longrightarrow> (r = Some c \<Longrightarrow> v = lit (durable_code c)) \<Longrightarrow> v = lit (durable_code c)" for a d r
    by (simp split: if_splits)
  assume "from_durable_code v = Some c"
  then show "v = lit (durable_code c)"
    unfolding from_durable_code_def
    by (elim pick; simp only: durable_code.simps option.distinct)
qed

text \<open>
  The exit codes and statuses the framework builds without validation are valid exit codes,
  so \<^verbatim>\<open>ExitCode::framework_owned\<close> never breaks the type's contract, and distinct statuses have
  distinct durable codes.
\<close>

lemma framework_codes_valid:
  "exit_code_new (exit_code_framework_owned (batch_status_as_str s))
     = Ok (exit_code_framework_owned (batch_status_as_str s))
   \<and> inj batch_status_as_str
   \<and> {es_code exit_status_unknown, es_code exit_status_completed, es_code exit_status_failed,
      es_code exit_status_stopped} \<subseteq> range (exit_code_framework_owned \<circ> batch_status_as_str)"
proof (intro conjI)
  show "exit_code_new (exit_code_framework_owned (batch_status_as_str s))
     = Ok (exit_code_framework_owned (batch_status_as_str s))"
    by (cases s) (simp_all add: exit_code_new_def domain_name_new_Ok_iff name_valid_def
        exit_code_framework_owned_def lit_def MAX_EXIT_CODE_BYTES_def utf8_width_def
        is_whitespace_def is_control_def)
  show "inj batch_status_as_str"
  proof (rule injI)
    fix a b assume "batch_status_as_str a = batch_status_as_str b"
    then show "a = b" by (cases a; cases b) simp_all
  qed
  show "{es_code exit_status_unknown, es_code exit_status_completed, es_code exit_status_failed,
      es_code exit_status_stopped} \<subseteq> range (exit_code_framework_owned \<circ> batch_status_as_str)"
    using rangeI [of "exit_code_framework_owned \<circ> batch_status_as_str" Unknown]
      rangeI [of "exit_code_framework_owned \<circ> batch_status_as_str" Completed]
      rangeI [of "exit_code_framework_owned \<circ> batch_status_as_str" Failed]
      rangeI [of "exit_code_framework_owned \<circ> batch_status_as_str" Stopped]
    by (simp add: exit_status_unknown_def exit_status_completed_def exit_status_failed_def
        exit_status_stopped_def)
qed
end
