(* ===== verification/Definition.thy ===== *)
theory Definition
  imports Identity
begin

text \<open>
  Definition tokens, from \<^verbatim>\<open>definition.rs\<close> of \<^verbatim>\<open>oxide-batch-core\<close>, and the durable flow
  identities and start controls of its \<^verbatim>\<open>flow.rs\<close>. The token newtypes the macro
  \<^verbatim>\<open>definition_token!\<close> generates are strings.
\<close>

section \<open>Errors\<close>

datatype definition_token_kind =
    TokRevision | TokComponent | TokArtifact | TokUpgrade | TokClassifier | TokNode | TokDecider
  | TokRepeat | TokRepeatPolicy | TokRepeatInterceptor

type_synonym component_stream_identity = rstr

datatype definition_error =
    ZeroStartLimit
  | EmptyToken definition_token_kind
  | TokenTooLong definition_token_kind nat
  | SurroundingWhitespace definition_token_kind
  | ControlCharacter definition_token_kind
  | ManifestEncoding
  | ManifestTooLarge nat
  | UpgradeSelfEdge
  | EmptyStepMapping
  | DuplicateSourceStep
  | DuplicateTargetStep
  | TooManyUpgradeNodes nat
  | TooManyUpgradeTransforms nat
  | DuplicateSourceNode
  | DuplicateTargetNode
  | DuplicateStateTransform
  | StateTransformOutsideNodeMapping
  | UnknownUpgradeSourceNode
  | MissingUpgradeSourceNode
  | UnknownUpgradeTargetNode
  | MissingTargetStateContract
  | MissingRequiredStateTransform
  | StateTransformSchemaMismatch
  | LegacyUpgradeExecution
  | DuplicateStateTransformer
  | StateTransformerSetMismatch
  | DeliveryModeMismatch
  | CompatibilityLowering
  | RuntimeStreamNotDeclared component_stream_identity
  | DeclaredStreamMissingRuntime component_stream_identity
  | DuplicateRuntimeStream component_stream_identity
  | NonRestartableStream component_stream_identity
  | CompletionPolicyFingerprintPanic
  | CompletionPolicyFingerprintMissing
  | CompletionPolicyRevisionMismatch

section \<open>Tokens\<close>

definition MAX_TOKEN_BYTES :: nat where "MAX_TOKEN_BYTES = 128"

definition validate_token :: "rstr \<Rightarrow> definition_token_kind \<Rightarrow> definition_error + unit" where
  "validate_token v kind =
     (if v = [] then Err (EmptyToken kind)
      else if str_len v > MAX_TOKEN_BYTES then Err (TokenTooLong kind MAX_TOKEN_BYTES)
      else if trim v \<noteq> v then Err (SurroundingWhitespace kind)
      else if list_ex is_control v then Err (ControlCharacter kind)
      else Ok ())"

definition definition_token_new :: "definition_token_kind \<Rightarrow> rstr \<Rightarrow> definition_error + rstr" where
  "definition_token_new kind v = res_bind (validate_token v kind) (\<lambda>_. Ok v)"

type_synonym classifier_revision = rstr
type_synonym node_id = rstr

definition classifier_revision_new :: "rstr \<Rightarrow> definition_error + classifier_revision" where
  "classifier_revision_new = definition_token_new TokClassifier"

definition node_id_new :: "rstr \<Rightarrow> definition_error + node_id" where
  "node_id_new = definition_token_new TokNode"

lemma definition_token_new_Ok_iff:
  "definition_token_new kind v = Ok w \<longleftrightarrow> w = v \<and> name_valid MAX_TOKEN_BYTES v"
  by (auto simp: definition_token_new_def validate_token_def name_valid_def trim_eq_self_iff
      list_ex_iff list_all_iff split: if_splits)

section \<open>Start controls and targets\<close>

definition MAX_PARTITIONS :: u16 where "MAX_PARTITIONS = 1024"

type_synonym start_limit = u32

definition start_limit_unrestricted :: start_limit where "start_limit_unrestricted = - 1"

definition start_limit_new :: "u32 \<Rightarrow> definition_error + start_limit" where
  "start_limit_new v = (if v = 0 then Err ZeroStartLimit else Ok v)"

datatype restart_policy = RpRestartable | RpNotRestartable

definition is_restartable :: "restart_policy \<Rightarrow> bool" where
  "is_restartable p \<longleftrightarrow> p = RpRestartable"

record start_controls =
  stc_start_limit :: start_limit
  stc_allow_start_if_complete :: bool
  stc_restart_policy :: restart_policy

definition start_controls_new :: "start_limit \<Rightarrow> bool \<Rightarrow> start_controls" where
  "start_controls_new limit allow =
     \<lparr>stc_start_limit = limit, stc_allow_start_if_complete = allow,
      stc_restart_policy = RpRestartable\<rparr>"

definition with_restart_policy :: "restart_policy \<Rightarrow> start_controls \<Rightarrow> start_controls" where
  "with_restart_policy p c = c\<lparr>stc_restart_policy := p\<rparr>"

datatype terminal_kind = TkComplete | TkFail | TkStop

fun terminal_kind_as_str :: "terminal_kind \<Rightarrow> string" where
  "terminal_kind_as_str TkComplete = ''complete''"
| "terminal_kind_as_str TkFail = ''fail''"
| "terminal_kind_as_str TkStop = ''stop''"

datatype flow_target = TargetNode node_id | TargetTerminal terminal_kind

fun flow_target_sort_key :: "flow_target \<Rightarrow> u8 \<times> rstr" where
  "flow_target_sort_key (TargetNode i) = (0, i)"
| "flow_target_sort_key (TargetTerminal k) = (1, lit (terminal_kind_as_str k))"

end
