(* ===== verification/Fault_Policy.thy ===== *)
theory Fault_Policy
  imports Lifecycle Definition
begin

text \<open>
  Retry, skip, rollback and backoff policy, from \<^verbatim>\<open>fault.rs\<close> of \<^verbatim>\<open>oxide-batch-core\<close>.

  A \<^verbatim>\<open>Duration\<close> is its number of nanoseconds; the arithmetic of the exponential schedule is on
  \<^verbatim>\<open>u128\<close> with saturation, written out. Constructors that other types of the program share are
  prefixed: \<open>Ph\<close> for phases, \<open>Bk\<close> for backoff kinds, \<open>Fd\<close> for decisions.
\<close>

section \<open>Phases, ordinals and limits\<close>

definition MAX_RETRY :: u32 where "MAX_RETRY = 65535"
definition MIN_RETRY_STATE :: u32 where "MIN_RETRY_STATE = 1"
definition MAX_RETRY_STATE :: u32 where "MAX_RETRY_STATE = 256"

type_synonym duration = nat

text \<open>24 hours in nanoseconds.\<close>

definition MAX_BACKOFF :: duration where "MAX_BACKOFF = 24 * 3600 * 10 ^ 9"

definition duration_as_secs :: "duration \<Rightarrow> nat" where
  "duration_as_secs d = d div 10 ^ 9"

datatype fault_phase =
  PhRead | PhProcess | PhWrite | PhTransaction | PhCheckpoint | PhListener | PhBackoff

definition phase_is_policy_eligible :: "fault_phase \<Rightarrow> bool" where
  "phase_is_policy_eligible p \<longleftrightarrow> \<not> (p = PhListener)"

definition is_skippable :: "fault_phase \<Rightarrow> bool" where
  "is_skippable p \<longleftrightarrow> p = PhRead \<or> p = PhProcess \<or> p = PhWrite"

definition allows_commit_safe_skip :: "fault_phase \<Rightarrow> bool" where
  "allows_commit_safe_skip p \<longleftrightarrow> p = PhRead \<or> p = PhProcess"

fun fault_phase_as_str :: "fault_phase \<Rightarrow> string" where
  "fault_phase_as_str PhRead = ''read''"
| "fault_phase_as_str PhProcess = ''process''"
| "fault_phase_as_str PhWrite = ''write''"
| "fault_phase_as_str PhTransaction = ''transaction''"
| "fault_phase_as_str PhCheckpoint = ''checkpoint''"
| "fault_phase_as_str PhListener = ''listener''"
| "fault_phase_as_str PhBackoff = ''backoff''"

definition fault_phase_from_durable_name :: "rstr \<Rightarrow> fault_phase option" where
  "fault_phase_from_durable_name v =
     (if v = lit ''read'' then Some PhRead
      else if v = lit ''process'' then Some PhProcess
      else if v = lit ''write'' then Some PhWrite
      else if v = lit ''transaction'' then Some PhTransaction
      else if v = lit ''checkpoint'' then Some PhCheckpoint
      else if v = lit ''listener'' then Some PhListener
      else if v = lit ''backoff'' then Some PhBackoff
      else None)"

datatype fault_policy_error =
    RetryLimitOutOfRange u32
  | RetryOrdinalOutOfRange u32
  | RetryStateLimitOutOfRange u32 u32
  | BackoffDelayTooLong nat
  | ZeroBackoffMultiplier
  | BackoffMaximumBelowInitial
  | NotPolicyEligible fault_phase failure_category
  | PhaseNotSkippable fault_phase
  | CommitSafeSkipPhase fault_phase
  | CommitSafeSkipUnsupported
  | DuplicateRule fault_phase failure_category
  | UnreachableRetryRule fault_phase failure_category
  | SkipCountOverflow

type_synonym retry_ordinal = u16
type_synonym retry_limit = u16
type_synonym retry_state_limit = u16
type_synonym skip_limit = u64

text \<open>\<^verbatim>\<open>u16::try_from(u32)\<close>.\<close>

definition u16_try_from_u32 :: "u32 \<Rightarrow> u16 option" where
  "u16_try_from_u32 v = (if unat v < 2 ^ 16 then Some (ucast v) else None)"

definition retry_ordinal_initial :: retry_ordinal where "retry_ordinal_initial = 0"

definition retry_ordinal_new :: "u32 \<Rightarrow> fault_policy_error + retry_ordinal" where
  "retry_ordinal_new v = ok_or (u16_try_from_u32 v) (RetryOrdinalOutOfRange MAX_RETRY)"

definition retry_ordinal_get :: "retry_ordinal \<Rightarrow> u32" where
  "retry_ordinal_get r = ucast r"

definition is_initial :: "retry_ordinal \<Rightarrow> bool" where
  "is_initial r \<longleftrightarrow> r = 0"

definition checked_next :: "retry_ordinal \<Rightarrow> fault_policy_error + retry_ordinal" where
  "checked_next r = ok_or (checked_add r 1) (RetryOrdinalOutOfRange MAX_RETRY)"

definition retry_limit_new :: "u32 \<Rightarrow> fault_policy_error + retry_limit" where
  "retry_limit_new v = ok_or (u16_try_from_u32 v) (RetryLimitOutOfRange MAX_RETRY)"

definition retry_limit_is_none :: "retry_limit \<Rightarrow> bool" where
  "retry_limit_is_none l \<longleftrightarrow> l = 0"

definition permits :: "retry_limit \<Rightarrow> retry_ordinal \<Rightarrow> bool" where
  "permits l r \<longleftrightarrow> \<not> is_initial r \<and> r \<le> l"

definition retry_state_limit_new :: "u32 \<Rightarrow> fault_policy_error + retry_state_limit" where
  "retry_state_limit_new v =
     (if \<not> (MIN_RETRY_STATE \<le> v \<and> v \<le> MAX_RETRY_STATE)
      then Err (RetryStateLimitOutOfRange MIN_RETRY_STATE MAX_RETRY_STATE)
      else ok_or (u16_try_from_u32 v) (RetryStateLimitOutOfRange MIN_RETRY_STATE MAX_RETRY_STATE))"

section \<open>Skip counts\<close>

record skip_counts =
  sc_read :: u64
  sc_process :: u64
  sc_write :: u64

definition skip_counts_zero :: skip_counts where
  "skip_counts_zero = \<lparr>sc_read = 0, sc_process = 0, sc_write = 0\<rparr>"

definition checked_total :: "skip_counts \<Rightarrow> fault_policy_error + u64" where
  "checked_total c =
     ok_or (case checked_add (sc_read c) (sc_process c) of
              None \<Rightarrow> None
            | Some partial \<Rightarrow> checked_add partial (sc_write c)) SkipCountOverflow"

definition skip_counts_checked_add :: "skip_counts \<Rightarrow> skip_counts \<Rightarrow> fault_policy_error + skip_counts" where
  "skip_counts_checked_add a b =
     res_bind (ok_or (checked_add (sc_read a) (sc_read b)) SkipCountOverflow) (\<lambda>r.
     res_bind (ok_or (checked_add (sc_process a) (sc_process b)) SkipCountOverflow) (\<lambda>p.
     res_bind (ok_or (checked_add (sc_write a) (sc_write b)) SkipCountOverflow) (\<lambda>w.
     let c = \<lparr>sc_read = r, sc_process = p, sc_write = w\<rparr> in
     res_bind (checked_total c) (\<lambda>_. Ok c))))"

definition skip_counts_checked_increment ::
  "skip_counts \<Rightarrow> fault_phase \<Rightarrow> fault_policy_error + skip_counts" where
  "skip_counts_checked_increment c phase =
     res_bind (case phase of
         PhRead \<Rightarrow> res_bind (ok_or (checked_add (sc_read c) 1) SkipCountOverflow)
                    (\<lambda>n. Ok (c\<lparr>sc_read := n\<rparr>))
       | PhProcess \<Rightarrow> res_bind (ok_or (checked_add (sc_process c) 1) SkipCountOverflow)
                    (\<lambda>n. Ok (c\<lparr>sc_process := n\<rparr>))
       | PhWrite \<Rightarrow> res_bind (ok_or (checked_add (sc_write c) 1) SkipCountOverflow)
                    (\<lambda>n. Ok (c\<lparr>sc_write := n\<rparr>))
       | other \<Rightarrow> Err (PhaseNotSkippable other)) (\<lambda>c'.
     res_bind (checked_total c') (\<lambda>_. Ok c'))"

section \<open>Fault descriptors\<close>

datatype chunk_delivery_mode = AtomicSameResource | AtLeastOnce

record fault_descriptor =
  fd_phase :: fault_phase
  fd_summary :: failure_summary
  fd_retry_ordinal :: retry_ordinal
  fd_committed_skips :: skip_counts
  fd_transaction_open :: bool
  fd_delivery_mode :: chunk_delivery_mode

definition fd_category :: "fault_descriptor \<Rightarrow> failure_category" where
  "fd_category f = fs_category (fd_summary f)"

section \<open>Backoff\<close>

datatype backoff_kind = BkNone | BkFixed | BkExponential

fun backoff_kind_as_str :: "backoff_kind \<Rightarrow> string" where
  "backoff_kind_as_str BkNone = ''none''"
| "backoff_kind_as_str BkFixed = ''fixed''"
| "backoff_kind_as_str BkExponential = ''exponential''"

record backoff_policy =
  bp_kind :: backoff_kind
  bp_initial :: duration
  bp_multiplier :: u32
  bp_maximum :: duration

definition check_delay :: "duration \<Rightarrow> fault_policy_error + unit" where
  "check_delay d =
     (if d > MAX_BACKOFF then Err (BackoffDelayTooLong (duration_as_secs MAX_BACKOFF)) else Ok ())"

definition backoff_none :: backoff_policy where
  "backoff_none = \<lparr>bp_kind = BkNone, bp_initial = 0, bp_multiplier = 1, bp_maximum = 0\<rparr>"

definition backoff_fixed :: "duration \<Rightarrow> fault_policy_error + backoff_policy" where
  "backoff_fixed d =
     res_bind (check_delay d) (\<lambda>_.
     Ok \<lparr>bp_kind = BkFixed, bp_initial = d, bp_multiplier = 1, bp_maximum = d\<rparr>)"

definition backoff_exponential :: "duration \<Rightarrow> u32 \<Rightarrow> duration \<Rightarrow> fault_policy_error + backoff_policy" where
  "backoff_exponential initial mul maximum =
     res_bind (check_delay initial) (\<lambda>_.
     res_bind (check_delay maximum) (\<lambda>_.
     if mul = 0 then Err ZeroBackoffMultiplier
     else if maximum < initial then Err BackoffMaximumBelowInitial
     else Ok \<lparr>bp_kind = BkExponential, bp_initial = initial, bp_multiplier = mul,
              bp_maximum = maximum\<rparr>))"

definition u128_saturating_mul :: "nat \<Rightarrow> nat \<Rightarrow> nat" where
  "u128_saturating_mul a b = min (a * b) (2 ^ 128 - 1)"

text \<open>
  The loop of \<^verbatim>\<open>exponential_delay\<close>: \<open>None\<close> is the early return of the maximum, \<open>Some\<close> the
  value of \<^verbatim>\<open>nanos\<close> after the given number of iterations.
\<close>

fun exponential_loop :: "nat \<Rightarrow> nat \<Rightarrow> nat \<Rightarrow> nat \<Rightarrow> nat option" where
  "exponential_loop 0 factor maximum nanos = Some nanos"
| "exponential_loop (Suc k) factor maximum nanos =
     (let nanos = u128_saturating_mul nanos factor in
      if nanos \<ge> maximum then None else exponential_loop k factor maximum nanos)"

definition exponential_delay :: "backoff_policy \<Rightarrow> u32 \<Rightarrow> duration" where
  "exponential_delay b ordinal =
     (let maximum_nanos = bp_maximum b; nanos = bp_initial b in
      if nanos \<ge> maximum_nanos then bp_maximum b
      else
        case (if bp_multiplier b > 1
              then exponential_loop (unat ordinal - 1) (unat (bp_multiplier b)) maximum_nanos nanos
              else Some nanos) of
          None \<Rightarrow> bp_maximum b
        | Some nanos \<Rightarrow> if nanos < 2 ^ 64 then nanos else bp_maximum b)"

definition delay_for :: "backoff_policy \<Rightarrow> retry_ordinal \<Rightarrow> duration" where
  "delay_for b ordinal =
     (if is_initial ordinal then 0
      else case bp_kind b of
             BkNone \<Rightarrow> 0
           | BkFixed \<Rightarrow> bp_initial b
           | BkExponential \<Rightarrow> exponential_delay b (retry_ordinal_get ordinal))"

section \<open>Rules and classifier\<close>

datatype rollback_disposition = Rollback | CommitSafeSkip

fun rollback_disposition_as_str :: "rollback_disposition \<Rightarrow> string" where
  "rollback_disposition_as_str Rollback = ''rollback''"
| "rollback_disposition_as_str CommitSafeSkip = ''commit_safe_skip''"

record fault_action =
  fa_retryable :: bool
  fa_skip :: "rollback_disposition option"

definition fault_action_fail :: fault_action where
  "fault_action_fail = \<lparr>fa_retryable = False, fa_skip = None\<rparr>"

definition fault_action_retry :: fault_action where
  "fault_action_retry = \<lparr>fa_retryable = True, fa_skip = None\<rparr>"

definition fault_action_skip :: "rollback_disposition \<Rightarrow> fault_action" where
  "fault_action_skip d = \<lparr>fa_retryable = False, fa_skip = Some d\<rparr>"

definition fault_action_retry_then_skip :: "rollback_disposition \<Rightarrow> fault_action" where
  "fault_action_retry_then_skip d = \<lparr>fa_retryable = True, fa_skip = Some d\<rparr>"

record fault_rule =
  fr_phase :: fault_phase
  fr_category :: failure_category
  fr_action :: fault_action

definition fault_rule_new ::
  "fault_phase \<Rightarrow> failure_category \<Rightarrow> fault_action \<Rightarrow> fault_policy_error + fault_rule" where
  "fault_rule_new phase category action =
     (if \<not> phase_is_policy_eligible phase \<or> \<not> is_policy_eligible category
      then Err (NotPolicyEligible phase category)
      else if fa_skip action \<noteq> None \<and> \<not> is_skippable phase then Err (PhaseNotSkippable phase)
      else if fa_skip action = Some CommitSafeSkip \<and> \<not> allows_commit_safe_skip phase
      then Err (CommitSafeSkipPhase phase)
      else Ok \<lparr>fr_phase = phase, fr_category = category, fr_action = action\<rparr>)"

record fault_classifier =
  fc_revision :: classifier_revision
  fc_rules :: "fault_rule list"

fun accept_rules :: "fault_rule list \<Rightarrow> fault_rule list \<Rightarrow> fault_policy_error + fault_rule list" where
  "accept_rules acc [] = Ok acc"
| "accept_rules acc (rule # rules) =
     (if list_ex (\<lambda>e. fr_phase e = fr_phase rule \<and> fr_category e = fr_category rule) acc
      then Err (DuplicateRule (fr_phase rule) (fr_category rule))
      else accept_rules (acc @ [rule]) rules)"

definition fault_classifier_new ::
  "classifier_revision \<Rightarrow> fault_rule list \<Rightarrow> fault_policy_error + fault_classifier" where
  "fault_classifier_new revision rules =
     res_bind (accept_rules [] rules) (\<lambda>acc.
     Ok \<lparr>fc_revision = revision, fc_rules = acc\<rparr>)"

definition action_for :: "fault_classifier \<Rightarrow> fault_phase \<Rightarrow> failure_category \<Rightarrow> fault_action option" where
  "action_for c phase category =
     map_option fr_action
       (List.find (\<lambda>r. fr_phase r = phase \<and> fr_category r = category) (fc_rules c))"

section \<open>Evidence, decisions and the policy\<close>

record fault_evidence =
  fe_located :: bool
  fe_known_rollback :: bool
  fe_forward_checkpoint_proof :: bool

definition fault_evidence_none :: fault_evidence where
  "fault_evidence_none =
     \<lparr>fe_located = False, fe_known_rollback = False, fe_forward_checkpoint_proof = False\<rparr>"

datatype fault_decision =
    FdRetry retry_ordinal duration
  | FdSkip rollback_disposition
  | FdFailAndRollback
  | FdUnknown
  | FdStop

record fault_policy =
  fp_classifier :: fault_classifier
  fp_retry_limit :: retry_limit
  fp_retry_state_limit :: retry_state_limit
  fp_skip_limit :: skip_limit
  fp_backoff :: backoff_policy

definition fault_policy_new ::
  "fault_classifier \<Rightarrow> retry_limit \<Rightarrow> retry_state_limit \<Rightarrow> skip_limit \<Rightarrow> backoff_policy
     \<Rightarrow> fault_policy_error + fault_policy" where
  "fault_policy_new c rl rsl sl b =
     (case (if retry_limit_is_none rl
            then List.find (\<lambda>r. fa_retryable (fr_action r)) (fc_rules c) else None) of
        Some rule \<Rightarrow> Err (UnreachableRetryRule (fr_phase rule) (fr_category rule))
      | None \<Rightarrow> Ok \<lparr>fp_classifier = c, fp_retry_limit = rl, fp_retry_state_limit = rsl,
                     fp_skip_limit = sl, fp_backoff = b\<rparr>)"

definition requires_commit_safe_skip :: "fault_policy \<Rightarrow> bool" where
  "requires_commit_safe_skip p \<longleftrightarrow>
     list_ex (\<lambda>r. fa_skip (fr_action r) = Some CommitSafeSkip) (fc_rules (fp_classifier p))"

definition validate_capabilities :: "fault_policy \<Rightarrow> bool \<Rightarrow> fault_policy_error + unit" where
  "validate_capabilities p supports_atomic_skip =
     (if requires_commit_safe_skip p \<and> \<not> supports_atomic_skip then Err CommitSafeSkipUnsupported
      else Ok ())"

definition decide_skip ::
  "fault_policy \<Rightarrow> fault_descriptor \<Rightarrow> rollback_disposition \<Rightarrow> fault_evidence \<Rightarrow> fault_decision" where
  "decide_skip p fault disposition evidence =
     (let phase = fd_phase fault in
      if \<not> fe_located evidence then FdFailAndRollback
      else
        let phase_evidence =
          (case phase of
             PhRead \<Rightarrow> fe_forward_checkpoint_proof evidence
           | PhProcess \<Rightarrow> True
           | PhWrite \<Rightarrow> fe_known_rollback evidence
           | _ \<Rightarrow> False) in
        if \<not> phase_evidence then FdFailAndRollback
        else if disposition = CommitSafeSkip
             \<and> \<not> (allows_commit_safe_skip phase \<and> fe_known_rollback evidence
                  \<and> fe_forward_checkpoint_proof evidence)
        then FdFailAndRollback
        else
          case skip_counts_checked_increment (fd_committed_skips fault) phase of
            Ok next \<Rightarrow>
              (case checked_total next of
                 Ok tot \<Rightarrow> if tot \<le> fp_skip_limit p then FdSkip disposition
                             else FdFailAndRollback
               | Err _ \<Rightarrow> FdFailAndRollback)
          | Err _ \<Rightarrow> FdFailAndRollback)"

definition decide :: "fault_policy \<Rightarrow> fault_descriptor \<Rightarrow> fault_evidence \<Rightarrow> fault_decision" where
  "decide p fault evidence =
     (let category = fd_category fault; phase = fd_phase fault in
      if category = CatUnknownCommit then FdUnknown
      else if category = CatCancelled then FdStop
      else if \<not> phase_is_policy_eligible phase \<or> \<not> is_policy_eligible category
      then FdFailAndRollback
      else
        case action_for (fp_classifier p) phase category of
          None \<Rightarrow> FdFailAndRollback
        | Some action \<Rightarrow>
            let skip_or_fail =
              (case fa_skip action of
                 Some disposition \<Rightarrow> decide_skip p fault disposition evidence
               | None \<Rightarrow> FdFailAndRollback) in
            if fa_retryable action then
              (case checked_next (fd_retry_ordinal fault) of
                 Ok next \<Rightarrow>
                   if permits (fp_retry_limit p) next
                   then FdRetry next (delay_for (fp_backoff p) next)
                   else skip_or_fail
               | Err _ \<Rightarrow> skip_or_fail)
            else skip_or_fail)"

section \<open>The backoff schedule\<close>

text \<open>A well-formed schedule, as the three constructors produce it.\<close>

definition backoff_wf :: "backoff_policy \<Rightarrow> bool" where
  "backoff_wf b \<longleftrightarrow> bp_initial b \<le> bp_maximum b \<and> bp_maximum b \<le> MAX_BACKOFF \<and> bp_multiplier b \<noteq> 0"

lemma backoff_constructors_wf:
  "backoff_wf backoff_none"
  "backoff_fixed d = Ok b \<Longrightarrow> backoff_wf b"
  "backoff_exponential i m x = Ok b \<Longrightarrow> backoff_wf b"
  by (auto simp: backoff_wf_def backoff_none_def backoff_fixed_def backoff_exponential_def
      check_delay_def split: if_splits)

lemma exponential_loop_eq:
  assumes "nanos < maximum" and "maximum < 2 ^ 128" and "1 \<le> factor"
  shows "exponential_loop k factor maximum nanos =
     (if maximum \<le> nanos * factor ^ k then None else Some (nanos * factor ^ k))"
  using assms
proof (induction k arbitrary: nanos)
  case (Suc k)
  show ?case
  proof (cases "maximum \<le> nanos * factor")
    case True
    moreover from this have "maximum \<le> u128_saturating_mul nanos factor"
      using Suc.prems by (simp add: u128_saturating_mul_def)
    moreover have "nanos * factor \<le> nanos * factor ^ Suc k"
      using Suc.prems(3) by (simp add: one_le_power)
    ultimately show ?thesis by (simp add: Let_def mult.assoc order_trans)
  next
    case False
    then have "u128_saturating_mul nanos factor = nanos * factor"
      using Suc.prems by (simp add: u128_saturating_mul_def)
    with False Suc show ?thesis by (simp add: Let_def mult.assoc)
  qed
qed simp

lemma unat_ucast_u16_u32: "unat (ucast (w :: u16) :: u32) = unat w"
proof -
  have "unat w < 2 ^ 16" using unsigned_less [of w] by simp
  then show ?thesis by (simp add: unsigned_ucast_eq take_bit_nat_eq_self)
qed

lemma exponential_delay_eq:
  assumes "backoff_wf b" and "unat ordinal \<noteq> 0"
  shows "exponential_delay b ordinal =
     min (bp_maximum b) (bp_initial b * unat (bp_multiplier b) ^ (unat ordinal - 1))"
proof (cases "bp_maximum b \<le> bp_initial b")
  case True
  then have "bp_maximum b \<le> bp_initial b * unat (bp_multiplier b) ^ (unat ordinal - 1)"
    using assms(1) order_trans [OF True]
    by (simp add: backoff_wf_def one_le_power unat_gt_0 Suc_leI)
  with True show ?thesis by (simp add: exponential_delay_def)
next
  case False
  let ?f = "unat (bp_multiplier b)"
  have small: "bp_maximum b < 2 ^ 64" "bp_maximum b < 2 ^ 128"
    using assms(1) by (simp_all add: backoff_wf_def MAX_BACKOFF_def)
  have pos: "1 \<le> ?f" using assms(1) by (simp add: backoff_wf_def unat_gt_0 Suc_leI)
  have loop: "(if bp_multiplier b > 1
      then exponential_loop (unat ordinal - 1) ?f (bp_maximum b) (bp_initial b)
      else Some (bp_initial b)) =
    (if bp_maximum b \<le> bp_initial b * ?f ^ (unat ordinal - 1) then None
     else Some (bp_initial b * ?f ^ (unat ordinal - 1)))"
  proof (cases "bp_multiplier b > 1")
    case True
    with False small(2) pos show ?thesis by (simp add: exponential_loop_eq)
  next
    case le: False
    then have "?f \<le> 1" by (simp add: word_less_nat_alt)
    with pos have "?f = 1" by simp
    with le False show ?thesis by simp
  qed
  from False small(1) show ?thesis
    unfolding exponential_delay_def Let_def loop by auto
qed

section \<open>Skip totals\<close>

definition skip_total :: "skip_counts \<Rightarrow> nat" where
  "skip_total c = unat (sc_read c) + unat (sc_process c) + unat (sc_write c)"

lemma checked_total_Ok_iff:
  "checked_total c = Ok t \<longleftrightarrow> skip_total c < 2 ^ 64 \<and> unat t = skip_total c"
proof -
  have "checked_total c = Ok t \<longleftrightarrow>
      (\<exists>p. checked_add (sc_read c) (sc_process c) = Some p \<and> checked_add p (sc_write c) = Some t)"
    by (auto simp: checked_total_def split: option.splits)
  also have "\<dots> \<longleftrightarrow> skip_total c < 2 ^ 64 \<and> t = sc_read c + sc_process c + sc_write c"
    by (auto simp: checked_add_Some_iff skip_total_def unat_add_lem [THEN iffD1])
  also have "\<dots> \<longleftrightarrow> skip_total c < 2 ^ 64 \<and> unat t = skip_total c"
    by (auto simp: skip_total_def word_unat_eq_iff unat_word_ariths)
  finally show ?thesis .
qed

lemma checked_total_eq:
  "checked_total c =
     (if skip_total c < 2 ^ 64 then Ok (word_of_nat (skip_total c)) else Err SkipCountOverflow)"
proof (cases "skip_total c < 2 ^ 64")
  case True
  then have "unat (word_of_nat (skip_total c) :: u64) = skip_total c" by (simp add: unat_of_nat)
  with True show ?thesis by (simp add: checked_total_Ok_iff)
next
  case False
  then show ?thesis
    by (cases "checked_total c") (auto simp: checked_total_Ok_iff, auto simp: checked_total_def)
qed

lemma skip_increment_Ok:
  assumes "skip_counts_checked_increment c phase = Ok c'"
  shows "is_skippable phase" and "skip_total c' = Suc (skip_total c)" and "skip_total c' < 2 ^ 64"
  using assms
  by (auto simp: skip_counts_checked_increment_def is_skippable_def skip_total_def
      checked_total_Ok_iff dest!: checked_add_unat split: fault_phase.splits)

lemma skip_increment_Ok_iff:
  "(\<exists>c'. skip_counts_checked_increment c phase = Ok c') \<longleftrightarrow>
     is_skippable phase \<and> skip_total c + 1 < 2 ^ 64"
  by (cases phase)
     (auto simp: skip_counts_checked_increment_def is_skippable_def skip_total_def checked_total_eq
       checked_add_Some_iff unat_word_ariths split: if_splits)

section \<open>What a decision means\<close>

definition skip_evidence_ok :: "fault_phase \<Rightarrow> rollback_disposition \<Rightarrow> fault_evidence \<Rightarrow> bool" where
  "skip_evidence_ok phase d ev \<longleftrightarrow>
     fe_located ev \<and> is_skippable phase \<and>
     (phase = PhRead \<longrightarrow> fe_forward_checkpoint_proof ev) \<and>
     (phase = PhWrite \<longrightarrow> fe_known_rollback ev) \<and>
     (d = CommitSafeSkip \<longrightarrow>
        phase \<noteq> PhWrite \<and> fe_known_rollback ev \<and> fe_forward_checkpoint_proof ev)"

lemma skip_increment_total:
  "skip_counts_checked_increment c phase = Ok c' \<Longrightarrow>
     checked_total c' = Ok (word_of_nat (skip_total c'))"
  using skip_increment_Ok [of c phase c'] by (simp add: checked_total_eq)

lemma decide_skip_eq:
  "decide_skip p f d ev =
     (if skip_evidence_ok (fd_phase f) d ev
         \<and> skip_total (fd_committed_skips f) < unat (fp_skip_limit p)
      then FdSkip d else FdFailAndRollback)"
proof -
  let ?c = "fd_committed_skips f"
  have limit: "unat (fp_skip_limit p) < 2 ^ 64" using unsigned_less [of "fp_skip_limit p"] by simp
  have counted: "(case skip_counts_checked_increment ?c (fd_phase f) of
          Ok next \<Rightarrow> (case checked_total next of
              Ok tot \<Rightarrow> if tot \<le> fp_skip_limit p then FdSkip d else FdFailAndRollback
            | Err _ \<Rightarrow> FdFailAndRollback)
        | Err _ \<Rightarrow> FdFailAndRollback)
     = (if is_skippable (fd_phase f) \<and> skip_total ?c < unat (fp_skip_limit p)
        then FdSkip d else FdFailAndRollback)"
  proof (cases "skip_counts_checked_increment ?c (fd_phase f)")
    case (Inl e)
    then have "\<not> (is_skippable (fd_phase f) \<and> skip_total ?c + 1 < 2 ^ 64)"
      using skip_increment_Ok_iff [of ?c "fd_phase f"] by auto
    with limit have "\<not> (is_skippable (fd_phase f) \<and> skip_total ?c < unat (fp_skip_limit p))"
      by linarith
    with Inl show ?thesis by simp
  next
    case (Inr c')
    note inc = skip_increment_Ok [OF Inr]
    from inc(3) have "unat (word_of_nat (skip_total c') :: u64) = skip_total c'"
      by (simp add: unat_of_nat)
    with Inr inc skip_increment_total [OF Inr] show ?thesis
      by (auto simp: word_le_nat_alt)
  qed
  show ?thesis
    unfolding decide_skip_def Let_def counted
    by (cases "fd_phase f") (auto simp: skip_evidence_ok_def is_skippable_def allows_commit_safe_skip_def)
qed

text \<open>The rule that governs a fault: the category and phase are eligible and classified.\<close>

definition governing_action :: "fault_policy \<Rightarrow> fault_descriptor \<Rightarrow> fault_action option" where
  "governing_action p f =
     (if phase_is_policy_eligible (fd_phase f) \<and> is_policy_eligible (fd_category f)
      then action_for (fp_classifier p) (fd_phase f) (fd_category f) else None)"

lemma checked_next_eq:
  "checked_next r = (if r = - 1 then Err (RetryOrdinalOutOfRange MAX_RETRY) else Ok (r + 1))"
  by (simp add: checked_next_def checked_add_one)

lemma checked_next_permits:
  "(\<exists>n. checked_next r = Ok n \<and> permits l n) \<longleftrightarrow> unat r < unat l"
proof (cases "r = - 1")
  case True
  have "unat l < 2 ^ 16" using unsigned_less [of l] by simp
  with True show ?thesis
    by (auto simp: checked_next_eq unsigned_minus_1_eq_mask mask_eq_exp_minus_1)
next
  case False
  then have "checked_add r 1 = Some (r + 1)" by (simp add: checked_add_one)
  then have step: "unat (r + 1) = unat r + 1" using checked_add_unat by fastforce
  then have "r + 1 \<noteq> 0" by (metis Suc_eq_plus1 nat.distinct(1) unat_0)
  with False step show ?thesis
    by (simp add: checked_next_eq permits_def is_initial_def word_le_nat_alt Suc_le_eq)
qed

definition wants_retry :: "fault_policy \<Rightarrow> fault_descriptor \<Rightarrow> bool" where
  "wants_retry p f \<longleftrightarrow>
     (\<exists>a. governing_action p f = Some a \<and> fa_retryable a) \<and>
     unat (fd_retry_ordinal f) < unat (fp_retry_limit p)"

lemma decide_eq:
  "decide p f ev =
     (if fd_category f = CatUnknownCommit then FdUnknown
      else if fd_category f = CatCancelled then FdStop
      else if wants_retry p f
      then FdRetry (fd_retry_ordinal f + 1) (delay_for (fp_backoff p) (fd_retry_ordinal f + 1))
      else case governing_action p f of
             Some a \<Rightarrow> (case fa_skip a of Some d \<Rightarrow> decide_skip p f d ev | None \<Rightarrow> FdFailAndRollback)
           | None \<Rightarrow> FdFailAndRollback)"
proof (cases "governing_action p f")
  case None
  then show ?thesis
    by (auto simp: decide_def Let_def governing_action_def wants_retry_def split: if_splits)
next
  case (Some a)
  then have eligible: "phase_is_policy_eligible (fd_phase f)" "is_policy_eligible (fd_category f)"
    and action: "action_for (fp_classifier p) (fd_phase f) (fd_category f) = Some a"
    by (auto simp: governing_action_def split: if_splits)
  have retry: "wants_retry p f \<longleftrightarrow>
      fa_retryable a \<and> (\<exists>n. checked_next (fd_retry_ordinal f) = Ok n \<and> permits (fp_retry_limit p) n)"
    unfolding checked_next_permits by (simp add: wants_retry_def Some)
  show ?thesis
    unfolding retry using Some eligible action
    by (auto simp: decide_def Let_def checked_next_eq split: option.splits)
qed

lemma decide_Retry_iff:
  "decide p f ev = FdRetry r d \<longleftrightarrow>
     wants_retry p f \<and> r = fd_retry_ordinal f + 1 \<and> d = delay_for (fp_backoff p) r"
proof -
  have "wants_retry p f \<Longrightarrow> fd_category f \<noteq> CatUnknownCommit \<and> fd_category f \<noteq> CatCancelled"
    by (auto simp: wants_retry_def governing_action_def is_policy_eligible_def split: if_splits)
  then show ?thesis
    by (auto simp: decide_eq decide_skip_eq split: option.splits)
qed

lemma retry_ordinal_step:
  assumes "wants_retry p f"
  shows "unat (fd_retry_ordinal f + 1) = Suc (unat (fd_retry_ordinal f))"
proof -
  have "unat (fp_retry_limit p) < 2 ^ 16" using unsigned_less [of "fp_retry_limit p"] by simp
  with assms have "unat (fd_retry_ordinal f) + unat (1 :: u16) < 2 ^ LENGTH(16)"
    by (simp add: wants_retry_def)
  then show ?thesis by (simp add: unat_add_lem [THEN iffD1])
qed

lemma decide_Skip_iff:
  "decide p f ev = FdSkip d \<longleftrightarrow>
     \<not> wants_retry p f \<and> skip_evidence_ok (fd_phase f) d ev
     \<and> skip_total (fd_committed_skips f) < unat (fp_skip_limit p)
     \<and> (\<exists>a. governing_action p f = Some a \<and> fa_skip a = Some d)"
proof -
  have "governing_action p f = Some a \<Longrightarrow>
      fd_category f \<noteq> CatUnknownCommit \<and> fd_category f \<noteq> CatCancelled" for a
    by (auto simp: governing_action_def is_policy_eligible_def split: if_splits)
  then show ?thesis
    by (auto simp: decide_eq decide_skip_eq split: option.splits)
qed

section \<open>Classifiers\<close>

abbreviation rule_key :: "fault_rule \<Rightarrow> fault_phase \<times> failure_category" where
  "rule_key r \<equiv> (fr_phase r, fr_category r)"

lemma accept_rules_Ok_iff:
  "distinct (map rule_key acc) \<Longrightarrow>
     accept_rules acc rules = Ok out \<longleftrightarrow> distinct (map rule_key (acc @ rules)) \<and> out = acc @ rules"
proof (induction rules arbitrary: acc)
  case (Cons rule rules)
  have dup: "list_ex (\<lambda>e. fr_phase e = fr_phase rule \<and> fr_category e = fr_category rule) acc
      \<longleftrightarrow> rule_key rule \<in> rule_key ` set acc"
    unfolding list_ex_iff image_iff prod.inject by metis
  show ?case
  proof (cases "rule_key rule \<in> rule_key ` set acc")
    case True
    then show ?thesis by (auto simp: dup)
  next
    case False
    with Cons.prems have "distinct (map rule_key (acc @ [rule]))" by auto
    from Cons.IH [OF this] False show ?thesis by (simp add: dup)
  qed
qed auto

lemma find_rule_map_of:
  "map_option fr_action (List.find (\<lambda>r. fr_phase r = ph \<and> fr_category r = cat) rules) =
     map_of (map (\<lambda>r. (rule_key r, fr_action r)) rules) (ph, cat)"
  by (induction rules) auto

lemma classifier_new_Ok_iff:
  "fault_classifier_new v rules = Ok c \<longleftrightarrow>
     distinct (map rule_key rules) \<and> c = \<lparr>fc_revision = v, fc_rules = rules\<rparr>"
  by (auto simp: fault_classifier_new_def accept_rules_Ok_iff)

lemma action_for_permute:
  assumes "mset rs = mset ss" and "distinct (map rule_key rs)"
  shows "action_for \<lparr>fc_revision = v, fc_rules = rs\<rparr> = action_for \<lparr>fc_revision = w, fc_rules = ss\<rparr>"
proof -
  let ?m = "map (\<lambda>r. (rule_key r, fr_action r))"
  have keys: "map fst (?m xs) = map rule_key xs" for xs by simp
  have "mset (map rule_key rs) = mset (map rule_key ss)" using assms(1) by simp
  then have "distinct (map rule_key ss)" using assms(2) mset_eq_imp_distinct_iff by blast
  then have distinct: "distinct (map fst (?m rs))" "distinct (map fst (?m ss))"
    using assms(2) by (simp_all only: keys)
  have "set (?m rs) = set (?m ss)" using mset_eq_setD [OF assms(1)] by simp
  then have "map_of (?m rs) = map_of (?m ss)"
    using map_of_inject_set [OF distinct] by simp
  then show ?thesis by (simp add: action_for_def find_rule_map_of fun_eq_iff)
qed

section \<open>Runs of faults\<close>

text \<open>
  The number of consecutive retries the policy grants to one unit of work: each fault is
  described with the ordinal the previous decision reserved.
\<close>

fun granted_retries ::
  "fault_policy \<Rightarrow> (fault_descriptor \<times> fault_evidence) list \<Rightarrow> retry_ordinal \<Rightarrow> nat" where
  "granted_retries p [] r = 0"
| "granted_retries p ((f, ev) # fs) r =
     (case decide p (f\<lparr>fd_retry_ordinal := r\<rparr>) ev of
        FdRetry r' d \<Rightarrow> Suc (granted_retries p fs r')
      | _ \<Rightarrow> 0)"

lemma granted_retries_bound:
  assumes "unat r \<le> unat (fp_retry_limit p)"
  shows "unat r + granted_retries p fs r \<le> unat (fp_retry_limit p)"
  using assms
proof (induction fs arbitrary: r)
  case (Cons fe fs)
  obtain f ev where fe: "fe = (f, ev)" by fastforce
  show ?case
  proof (cases "decide p (f\<lparr>fd_retry_ordinal := r\<rparr>) ev")
    case (FdRetry r' d)
    then have "wants_retry p (f\<lparr>fd_retry_ordinal := r\<rparr>)" "r' = r + 1"
      by (simp_all add: decide_Retry_iff)
    with retry_ordinal_step [OF this(1)] have "unat r' = Suc (unat r)" "unat r < unat (fp_retry_limit p)"
      by (simp_all add: wants_retry_def)
    with Cons.IH [of r'] FdRetry show ?thesis by (simp add: fe)
  qed (use Cons.prems in \<open>simp_all add: fe\<close>)
qed simp

text \<open>The committed skip counts along a run in which every granted skip is committed.\<close>

fun committed_run ::
  "fault_policy \<Rightarrow> (fault_descriptor \<times> fault_evidence) list \<Rightarrow> skip_counts \<Rightarrow> skip_counts" where
  "committed_run p [] c = c"
| "committed_run p ((f, ev) # fs) c =
     (case decide p (f\<lparr>fd_committed_skips := c\<rparr>) ev of
        FdSkip d \<Rightarrow>
          (case skip_counts_checked_increment c (fd_phase f) of
             Ok c' \<Rightarrow> committed_run p fs c'
           | Err e \<Rightarrow> c)
      | _ \<Rightarrow> committed_run p fs c)"

lemma committed_run_bound:
  assumes "skip_total c \<le> unat (fp_skip_limit p)"
  shows "skip_total (committed_run p fs c) \<le> unat (fp_skip_limit p)"
  using assms
proof (induction fs arbitrary: c)
  case (Cons fe fs)
  obtain f ev where fe: "fe = (f, ev)" by fastforce
  have "skip_total c < unat (fp_skip_limit p)"
    if "decide p (f\<lparr>fd_committed_skips := c\<rparr>) ev = FdSkip d" for d
    using that by (simp add: decide_Skip_iff)
  with Cons show ?case
    by (auto simp: fe skip_increment_Ok(2) split: fault_decision.splits sum.splits)
qed simp

section \<open>Properties\<close>


definition example_policy :: "retry_limit \<Rightarrow> fault_policy" where
  "example_policy limit =
     \<lparr>fp_classifier =
        \<lparr>fc_revision = lit ''v1'',
         fc_rules = [\<lparr>fr_phase = PhWrite, fr_category = CatTimeout,
                      fr_action = fault_action_retry_then_skip Rollback\<rparr>]\<rparr>,
      fp_retry_limit = limit, fp_retry_state_limit = 8, fp_skip_limit = 1,
      fp_backoff = \<lparr>bp_kind = BkExponential, bp_initial = 100, bp_multiplier = 3, bp_maximum = 1000\<rparr>\<rparr>"

definition example_fault :: fault_descriptor where
  "example_fault =
     \<lparr>fd_phase = PhWrite, fd_summary = \<lparr>fs_category = CatTimeout, fs_failure_id = 5\<rparr>,
      fd_retry_ordinal = 1, fd_committed_skips = skip_counts_zero, fd_transaction_open = True,
      fd_delivery_mode = AtLeastOnce\<rparr>"

definition example_evidence :: fault_evidence where
  "example_evidence =
     \<lparr>fe_located = True, fe_known_rollback = True, fe_forward_checkpoint_proof = False\<rparr>"

lemma example_governed:
  "governing_action (example_policy limit) example_fault = Some (fault_action_retry_then_skip Rollback)"
  by (simp add: governing_action_def example_policy_def example_fault_def fd_category_def
      phase_is_policy_eligible_def is_policy_eligible_def action_for_def)


text \<open>
  C35. Faults cannot make a step run forever or drop items without bound: whatever faults and
  evidence occur, one unit of work is granted at most \<^verbatim>\<open>retry_limit\<close> consecutive retries, and
  committed skips that start within the aggregate limit stay within it.
\<close>

theorem faults_bounded:
  "granted_retries p fs retry_ordinal_initial \<le> unat (fp_retry_limit p)
   \<and> skip_total (committed_run p fs skip_counts_zero) \<le> unat (fp_skip_limit p)"
  using granted_retries_bound [of retry_ordinal_initial p fs]
    committed_run_bound [of skip_counts_zero p fs]
  by (simp add: retry_ordinal_initial_def skip_total_def skip_counts_zero_def)

text \<open>
  C36. The backoff schedule is exact and bounded: the initial call never waits, and before retry
  \<open>n\<close> an exponential schedule waits \<open>min maximum (initial * multiplier ^ (n - 1))\<close>, as if
  computed without overflow; the delay never exceeds the declared maximum or 24 hours and does
  not decrease with the ordinal.
\<close>

theorem backoff_exact:
  assumes "backoff_wf b"
  shows "delay_for b retry_ordinal_initial = 0
    \<and> (bp_kind b = BkExponential \<and> r \<noteq> retry_ordinal_initial \<longrightarrow>
         delay_for b r = min (bp_maximum b) (bp_initial b * unat (bp_multiplier b) ^ (unat r - 1)))
    \<and> delay_for b r \<le> bp_maximum b \<and> delay_for b r \<le> MAX_BACKOFF
    \<and> (r \<le> s \<longrightarrow> delay_for b r \<le> delay_for b s)"
proof -
  have exp: "exponential_delay b (retry_ordinal_get r) =
      min (bp_maximum b) (bp_initial b * unat (bp_multiplier b) ^ (unat r - 1))"
    if "r \<noteq> 0" for r
    using exponential_delay_eq [OF assms, of "retry_ordinal_get r"] that
    by (simp add: retry_ordinal_get_def unat_ucast_u16_u32 unat_eq_zero)
  have wf: "bp_initial b \<le> bp_maximum b" "bp_maximum b \<le> MAX_BACKOFF" "1 \<le> unat (bp_multiplier b)"
    using assms by (simp_all add: backoff_wf_def unat_gt_0 Suc_leI)
  have le: "delay_for b r \<le> bp_maximum b"
    using wf(1) by (simp add: delay_for_def is_initial_def exp split: backoff_kind.split)
  have mono: "delay_for b r \<le> delay_for b s" if "r \<le> s"
  proof -
    have "unat r - 1 \<le> unat s - 1" using that by (simp add: word_le_nat_alt diff_le_mono)
    then have "unat (bp_multiplier b) ^ (unat r - 1) \<le> unat (bp_multiplier b) ^ (unat s - 1)"
      using wf(3) by (rule power_increasing)
    then have "min (bp_maximum b) (bp_initial b * unat (bp_multiplier b) ^ (unat r - 1))
        \<le> min (bp_maximum b) (bp_initial b * unat (bp_multiplier b) ^ (unat s - 1))"
      by (intro min.mono mult_le_mono2 order_refl)
    moreover have "s = 0 \<Longrightarrow> r = 0" using that by simp
    ultimately show ?thesis
      by (cases "r = 0"; cases "s = 0") (simp_all add: delay_for_def is_initial_def exp split: backoff_kind.split)
  qed
  show ?thesis
    using le wf(2) mono exp [of r]
    by (auto simp: retry_ordinal_initial_def delay_for_def is_initial_def)
qed

theorem backoff_exact_witness:
  "delay_for (fp_backoff (example_policy 2)) 2 = 300
   \<and> delay_for (fp_backoff (example_policy 2)) 9 = 1000"
  using backoff_exact [of "fp_backoff (example_policy 2)" 2]
    backoff_exact [of "fp_backoff (example_policy 2)" 9]
  by (simp add: example_policy_def backoff_wf_def MAX_BACKOFF_def retry_ordinal_initial_def)

text \<open>
  Classification does not depend on registration order: a rule list is accepted exactly
  when no phase and category pair repeats, and any reordering of an accepted list gives a
  classifier that answers every fault the same way, so every decision of the policy is the same.
\<close>

lemma classifier_order_independent:
  assumes "mset rs = mset ss" and "fault_classifier_new v rs = Ok c"
  shows "distinct (map (\<lambda>r. (fr_phase r, fr_category r)) rs)
    \<and> (\<exists>c'. fault_classifier_new v ss = Ok c'
         \<and> (\<forall>p f ev. decide (p\<lparr>fp_classifier := c'\<rparr>) f ev = decide (p\<lparr>fp_classifier := c\<rparr>) f ev))"
proof -
  from assms(2) have rs: "distinct (map rule_key rs)" and c: "c = \<lparr>fc_revision = v, fc_rules = rs\<rparr>"
    by (simp_all add: classifier_new_Ok_iff)
  let ?c' = "\<lparr>fc_revision = v, fc_rules = ss\<rparr>"
  have "mset (map rule_key rs) = mset (map rule_key ss)" using assms(1) by simp
  then have "distinct (map rule_key ss)" using rs mset_eq_imp_distinct_iff by blast
  then have "fault_classifier_new v ss = Ok ?c'" by (simp add: classifier_new_Ok_iff)
  moreover have "action_for ?c' = action_for c"
    unfolding c by (rule action_for_permute [OF assms(1) rs, symmetric])
  then have "decide (p\<lparr>fp_classifier := ?c'\<rparr>) f ev = decide (p\<lparr>fp_classifier := c\<rparr>) f ev" for p f ev
    by (simp add: decide_eq decide_skip_eq wants_retry_def governing_action_def
        cong: option.case_cong if_cong)
  ultimately show ?thesis using rs by blast
qed

lemma classifier_order_independent_witness:
  "let a = \<lparr>fr_phase = PhWrite, fr_category = CatTimeout, fr_action = fault_action_retry\<rparr>;
       b = \<lparr>fr_phase = PhRead, fr_category = CatTimeout, fr_action = fault_action_fail\<rparr> in
   \<exists>c'. fault_classifier_new [] [b, a] = Ok c'"
  unfolding Let_def
  using classifier_order_independent
    [of "[\<lparr>fr_phase = PhWrite, fr_category = CatTimeout, fr_action = fault_action_retry\<rparr>,
          \<lparr>fr_phase = PhRead, fr_category = CatTimeout, fr_action = fault_action_fail\<rparr>]"
        "[\<lparr>fr_phase = PhRead, fr_category = CatTimeout, fr_action = fault_action_fail\<rparr>,
          \<lparr>fr_phase = PhWrite, fr_category = CatTimeout, fr_action = fault_action_retry\<rparr>]"
        "[]"]
  by (simp add: classifier_new_Ok_iff add_mset_commute)
end
