(* ===== verification/Json.thy ===== *)
theory Json
  imports Rust_Str
begin

text \<open>
  The data model of \<^verbatim>\<open>serde_json::Value\<close> the program builds and inspects. Objects are maps in key
  order (the workspace does not enable \<^verbatim>\<open>preserve_order\<close>); a number is one of serde_json's three
  representations, a float being its bit pattern.

  Parsing and printing belong to another package. They are arguments of the definitions that
  use them, named \<open>to_vec\<close> and \<open>from_slice\<close>.
\<close>

datatype json_number = PosInt u64 | NegInt u64 | FloatBits u64

datatype json =
    JNull
  | JBool bool
  | JNumber json_number
  | JString rstr
  | JArray "json list"
  | JObject "(rstr \<times> json) list"

type_synonym to_vec = "json \<Rightarrow> u8 list option"
type_synonym from_slice = "u8 list \<Rightarrow> json option"

fun as_object :: "json \<Rightarrow> (rstr, json) btree_map option" where
  "as_object (JObject m) = Some m"
| "as_object _ = None"

fun as_array :: "json \<Rightarrow> json list option" where
  "as_array (JArray xs) = Some xs"
| "as_array _ = None"

fun as_str :: "json \<Rightarrow> rstr option" where
  "as_str (JString s) = Some s"
| "as_str _ = None"

fun as_u64 :: "json \<Rightarrow> u64 option" where
  "as_u64 (JNumber (PosInt n)) = Some n"
| "as_u64 _ = None"

fun as_bool :: "json \<Rightarrow> bool option" where
  "as_bool (JBool b) = Some b"
| "as_bool _ = None"

text \<open>\<^verbatim>\<open>Option::and_then\<close>.\<close>

definition and_then :: "'a option \<Rightarrow> ('a \<Rightarrow> 'b option) \<Rightarrow> 'b option" where
  "and_then x f = (case x of None \<Rightarrow> None | Some v \<Rightarrow> f v)"

lemma and_then_simps [simp]: "and_then None f = None" "and_then (Some v) f = f v"
  by (simp_all add: and_then_def)

lemma and_then_eq_Some [simp]: "and_then x f = Some y \<longleftrightarrow> (\<exists>v. x = Some v \<and> f v = Some y)"
  by (cases x) simp_all

text \<open>\<^verbatim>\<open>Result::ok\<close>.\<close>

definition res_ok :: "'e + 'a \<Rightarrow> 'a option" where
  "res_ok r = (case r of Err _ \<Rightarrow> None | Ok v \<Rightarrow> Some v)"

lemma res_ok_simps [simp]: "res_ok (Err e) = None" "res_ok (Ok v) = Some v"
  by (simp_all add: res_ok_def)

text \<open>\<^verbatim>\<open>collect::<Result<Vec<_>, _>>()\<close>: the first error, or all values.\<close>

fun collect_results :: "('e + 'a) list \<Rightarrow> 'e + 'a list" where
  "collect_results [] = Ok []"
| "collect_results (r # rs) = res_bind r (\<lambda>x. res_bind (collect_results rs) (\<lambda>xs. Ok (x # xs)))"

lemma collect_results_Ok: "collect_results (map Ok xs) = Ok xs"
  by (induction xs) simp_all

lemma collect_results_map_Ok:
  "(\<And>x. x \<in> set xs \<Longrightarrow> f (g x) = Ok x) \<Longrightarrow> collect_results (map f (map g xs)) = Ok xs"
  by (induction xs) simp_all

end
