(* ===== verification/Manifest.thy ===== *)
theory Manifest
  imports Fault_Policy Chunk Json
begin

text \<open>
  Definition identities, from \<^verbatim>\<open>definition.rs\<close> of \<^verbatim>\<open>oxide-batch-core\<close>: the restart-relevant
  component revisions of a chunk step, the one-step manifests and the identity built from
  canonical manifest bytes. JSON printing and parsing (\<open>to_vec\<close>, \<open>from_slice\<close>) and SHA-256
  (\<open>sha256\<close>) are arguments.
\<close>

section \<open>JSON documents built by \<^verbatim>\<open>json!\<close>\<close>

text \<open>Members are inserted into a map in key order, whatever order the macro lists them in.\<close>

definition object_members :: "(string \<times> json) list \<Rightarrow> (rstr, json) btree_map" where
  "object_members ms = bt_collect (map (\<lambda>(k, v). (lit k, v)) ms)"

definition json_object :: "(string \<times> json) list \<Rightarrow> json" where
  "json_object ms = JObject (object_members ms)"

definition json_string :: "rstr \<Rightarrow> json" where "json_string s = JString s"
definition json_literal :: "string \<Rightarrow> json" where "json_literal s = JString (lit s)"

text \<open>\<^verbatim>\<open>json!(n)\<close> of an unsigned integer of any width, widened to 64 bits.\<close>

definition json_unsigned :: "'a::len word \<Rightarrow> json" where
  "json_unsigned n = JNumber (PosInt (ucast n))"

text \<open>\<^verbatim>\<open>as_object_mut()\<close> followed by \<^verbatim>\<open>insert\<close>.\<close>

fun object_insert :: "string \<Rightarrow> json \<Rightarrow> json \<Rightarrow> json" where
  "object_insert k v (JObject m) = JObject (bt_insert (lit k) v m)"
| "object_insert k v j = j"

lemma bt_get_collect: "bt_get (bt_collect es) k = map_of (rev es) k"
proof -
  have "bt_get (fold (\<lambda>(k, v). bt_insert k v) es m) k =
      (case map_of (rev es) k of None \<Rightarrow> bt_get m k | Some v \<Rightarrow> Some v)" for m
    by (induction es arbitrary: m)
       (auto simp: bt_get_insert map_add_def split: option.splits)
  from this [of "[]"] show ?thesis by (simp add: bt_collect_def split: option.splits)
qed

lemma bt_wf_collect: "bt_wf (bt_collect es)"
proof -
  have "bt_wf m \<Longrightarrow> bt_wf (fold (\<lambda>(k, v). bt_insert k v) es m)" for m
    by (induction es arbitrary: m) auto
  then show ?thesis by (simp add: bt_collect_def)
qed

text \<open>Two objects with the same members are equal exactly when their values are.\<close>

lemma map_of_distinct_eqI:
  assumes "distinct (map fst es)" and "map fst es = map fst fs" and "map_of es = map_of fs"
  shows "es = fs"
proof -
  have "map (\<lambda>k. (k, the (map_of xs k))) (map fst xs) = xs" if "distinct (map fst xs)"
    for xs :: "('a \<times> 'b) list"
    using that by (auto intro!: map_idI)
  from this [of es] this [of fs] assms show ?thesis by metis
qed

lemma map_of_rev_distinct: "distinct (map fst es) \<Longrightarrow> map_of (rev es) = map_of es"
  by (rule map_of_inject_set [THEN iffD2]) (simp_all add: rev_map [symmetric])

lemma bt_collect_inject:
  assumes "distinct (map fst es)" and "map fst es = map fst fs"
  shows "bt_collect es = bt_collect fs \<longleftrightarrow> es = fs"
proof
  assume "bt_collect es = bt_collect fs"
  then have "bt_get (bt_collect es) = bt_get (bt_collect fs)" by simp
  then have "map_of es = map_of fs"
    using assms by (simp add: bt_get_collect map_of_rev_distinct fun_eq_iff)
  with assms show "es = fs" by (rule map_of_distinct_eqI)
qed simp

lemma json_object_inject:
  assumes "distinct (map fst ms)" and "map fst ms = map fst ns"
  shows "json_object ms = json_object ns \<longleftrightarrow> map snd ms = map snd ns"
proof -
  have keys: "map fst (map (\<lambda>(k, v). (lit k, v)) xs) = map lit (map fst xs)"
    for xs :: "(string \<times> json) list"
    by (simp add: case_prod_unfold)
  have "inj lit" by (simp add: inj_def)
  then have "distinct (map lit (map fst ms))" using assms(1) by (metis distinct_map inj_on_subset subset_UNIV)
  then have "json_object ms = json_object ns \<longleftrightarrow>
      map (\<lambda>(k, v). (lit k, v)) ms = map (\<lambda>(k, v). (lit k, v)) ns"
    unfolding json_object_def object_members_def json.inject
    by (intro bt_collect_inject) (simp_all only: keys assms(2))
  also have "\<dots> \<longleftrightarrow> ms = ns"
    by (rule inj_map_eq_map) (auto simp: inj_def)
  also have "\<dots> \<longleftrightarrow> map snd ms = map snd ns"
    using assms(2) by (metis zip_map_fst_snd)
  finally show ?thesis .
qed

section \<open>Chunk component revisions\<close>

type_synonym component_revision = rstr
type_synonym definition_revision = rstr
type_synonym state_schema_id = rstr
type_synonym state_schema_version = u32

definition component_revision_new :: "rstr \<Rightarrow> definition_error + component_revision" where
  "component_revision_new = definition_token_new TokComponent"

definition definition_revision_new :: "rstr \<Rightarrow> definition_error + definition_revision" where
  "definition_revision_new = definition_token_new TokRevision"

datatype in_flight_policy = FinishChunk | RollbackChunk

fun delivery_mode_manifest_name :: "chunk_delivery_mode \<Rightarrow> string" where
  "delivery_mode_manifest_name AtomicSameResource = ''atomic_same_resource''"
| "delivery_mode_manifest_name AtLeastOnce = ''at_least_once''"

record chunk_restart_contract =
  crc_checkpoint_schema :: state_schema_id
  crc_checkpoint_schema_version :: state_schema_version
  crc_context_schema :: state_schema_id
  crc_context_schema_version :: state_schema_version
  crc_delivery_mode :: chunk_delivery_mode
  crc_in_flight_policy :: in_flight_policy

definition chunk_restart_contract_new ::
  "state_schema_id \<Rightarrow> state_schema_version \<Rightarrow> state_schema_id \<Rightarrow> state_schema_version
   \<Rightarrow> chunk_delivery_mode \<Rightarrow> chunk_restart_contract" where
  "chunk_restart_contract_new checkpoint checkpoint_version context context_version mode =
     \<lparr>crc_checkpoint_schema = checkpoint, crc_checkpoint_schema_version = checkpoint_version,
      crc_context_schema = context, crc_context_schema_version = context_version,
      crc_delivery_mode = mode, crc_in_flight_policy = FinishChunk\<rparr>"

record chunk_component_revisions =
  ccr_reader :: component_revision
  ccr_processor :: component_revision
  ccr_writer :: component_revision
  ccr_checkpoint :: component_revision
  ccr_restart :: chunk_restart_contract
  ccr_streams :: "(component_stream_identity, component_revision) btree_map"
  ccr_completion_policy :: "component_revision option"

definition chunk_component_revisions_new ::
  "component_revision \<Rightarrow> component_revision \<Rightarrow> component_revision \<Rightarrow> component_revision
   \<Rightarrow> chunk_restart_contract \<Rightarrow> chunk_component_revisions" where
  "chunk_component_revisions_new reader processor writer checkpoint restart =
     \<lparr>ccr_reader = reader, ccr_processor = processor, ccr_writer = writer,
      ccr_checkpoint = checkpoint, ccr_restart = restart, ccr_streams = [],
      ccr_completion_policy = None\<rparr>"

definition with_stream_revision ::
  "component_stream_identity \<Rightarrow> component_revision \<Rightarrow> chunk_component_revisions
   \<Rightarrow> chunk_component_revisions" where
  "with_stream_revision i r c = c\<lparr>ccr_streams := bt_insert i r (ccr_streams c)\<rparr>"

definition with_completion_policy_revision ::
  "component_revision \<Rightarrow> chunk_component_revisions \<Rightarrow> chunk_component_revisions" where
  "with_completion_policy_revision r c = c\<lparr>ccr_completion_policy := Some r\<rparr>"

section \<open>Definition identities\<close>

definition MAX_NODES :: nat where "MAX_NODES = 1024"
definition MAX_TRANSITIONS :: nat where "MAX_TRANSITIONS = 4096"
definition MAX_MANIFEST_BYTES :: nat where "MAX_MANIFEST_BYTES = 64 * 1024"
definition MANIFEST_FORMAT_ONE_STEP :: u16 where "MANIFEST_FORMAT_ONE_STEP = 1"
definition MANIFEST_FORMAT_FLOW :: u16 where "MANIFEST_FORMAT_FLOW = 2"
definition MANIFEST_FORMAT_LOCAL_SCALE :: u16 where "MANIFEST_FORMAT_LOCAL_SCALE = 3"
definition MANIFEST_FORMAT_ADVANCED_FLOW :: u16 where "MANIFEST_FORMAT_ADVANCED_FLOW = 4"
definition SUPPORTED_MANIFEST_FORMAT :: u16 where
  "SUPPORTED_MANIFEST_FORMAT = MANIFEST_FORMAT_ADVANCED_FLOW"

lemmas manifest_formats =
  MANIFEST_FORMAT_ONE_STEP_def MANIFEST_FORMAT_FLOW_def MANIFEST_FORMAT_LOCAL_SCALE_def
  MANIFEST_FORMAT_ADVANCED_FLOW_def SUPPORTED_MANIFEST_FORMAT_def

datatype manifest_error =
    TooLarge nat
  | MalformedJson
  | NotAnObject
  | NonCanonicalEncoding
  | FloatValue
  | MissingFormat
  | UnsupportedFormat u16 u16
  | MalformedGraph
  | GraphOutOfBounds nat nat
  | InvalidJobName
  | DigestMismatch

type_synonym digest = "u8 list"
type_synonym sha256 = "u8 list \<Rightarrow> digest"

record definition_identity =
  di_job_name :: "job_name option"
  di_revision :: definition_revision
  di_manifest_format :: u16
  di_manifest_digest :: digest
  di_canonical_manifest :: "u8 list"

definition from_canonical ::
  "sha256 \<Rightarrow> job_name option \<Rightarrow> definition_revision \<Rightarrow> u8 list \<Rightarrow> u16 \<Rightarrow> definition_identity" where
  "from_canonical sha256 job_name revision canonical format =
     \<lparr>di_job_name = job_name, di_revision = revision, di_manifest_format = format,
      di_manifest_digest = sha256 canonical, di_canonical_manifest = canonical\<rparr>"

definition definition_encode ::
  "to_vec \<Rightarrow> sha256 \<Rightarrow> job_name \<Rightarrow> definition_revision \<Rightarrow> json
   \<Rightarrow> definition_error + definition_identity" where
  "definition_encode to_vec sha256 job_name revision manifest =
     res_bind (ok_or (to_vec manifest) ManifestEncoding) (\<lambda>canonical.
       if length canonical > MAX_MANIFEST_BYTES then Err (ManifestTooLarge MAX_MANIFEST_BYTES)
       else Ok (from_canonical sha256 (Some job_name) revision canonical MANIFEST_FORMAT_ONE_STEP))"

definition tasklet_manifest :: "job_name \<Rightarrow> step_name \<Rightarrow> component_revision \<Rightarrow> json" where
  "tasklet_manifest job_name step_name component_revision =
     json_object
       [(''component'', json_object [(''tasklet'', json_string component_revision)]),
        (''delivery_mode'', json_literal ''best_effort''),
        (''format'', json_unsigned MANIFEST_FORMAT_ONE_STEP),
        (''job'', json_string job_name),
        (''kind'', json_literal ''tasklet''),
        (''restart_state'', json_literal ''none''),
        (''step'', json_string step_name),
        (''transaction_boundary'', json_literal ''tasklet_completion'')]"

definition tasklet_identity ::
  "to_vec \<Rightarrow> sha256 \<Rightarrow> job_name \<Rightarrow> step_name \<Rightarrow> definition_revision \<Rightarrow> component_revision
   \<Rightarrow> definition_error + definition_identity" where
  "tasklet_identity to_vec sha256 job_name step_name revision component_revision =
     definition_encode to_vec sha256 job_name revision
       (tasklet_manifest job_name step_name component_revision)"

definition chunk_manifest ::
  "job_name \<Rightarrow> step_name \<Rightarrow> chunk_size \<Rightarrow> chunk_component_revisions \<Rightarrow> json" where
  "chunk_manifest job_name step_name chunk_size components =
     (let restart = ccr_restart components;
          manifest = json_object
            [(''chunk_size'', json_unsigned chunk_size),
             (''components'', json_object
                [(''checkpoint'', json_string (ccr_checkpoint components)),
                 (''processor'', json_string (ccr_processor components)),
                 (''reader'', json_string (ccr_reader components)),
                 (''writer'', json_string (ccr_writer components))]),
             (''context'', json_object
                [(''schema'', json_string (crc_context_schema restart)),
                 (''version'', json_unsigned (crc_context_schema_version restart))]),
             (''checkpoint'', json_object
                [(''schema'', json_string (crc_checkpoint_schema restart)),
                 (''version'', json_unsigned (crc_checkpoint_schema_version restart))]),
             (''delivery_mode'', json_literal (delivery_mode_manifest_name (crc_delivery_mode restart))),
             (''format'', json_unsigned MANIFEST_FORMAT_ONE_STEP),
             (''job'', json_string job_name),
             (''kind'', json_literal ''chunk''),
             (''step'', json_string step_name),
             (''transaction_boundary'', json_literal ''chunk'')];
          manifest = (if crc_in_flight_policy restart = RollbackChunk
            then object_insert ''in_flight_policy'' (json_literal ''rollback_chunk'') manifest
            else manifest);
          manifest = (if ccr_streams components \<noteq> []
            then object_insert ''streams''
              (JArray (map (\<lambda>(i, r). json_object
                  [(''identity'', json_string i), (''revision'', json_string r)])
                (ccr_streams components))) manifest
            else manifest)
      in (case ccr_completion_policy components of
            Some policy_revision \<Rightarrow>
              object_insert ''completion_policy'' (json_string policy_revision) manifest
          | None \<Rightarrow> manifest))"

definition chunk_identity ::
  "to_vec \<Rightarrow> sha256 \<Rightarrow> job_name \<Rightarrow> step_name \<Rightarrow> chunk_size \<Rightarrow> definition_revision
   \<Rightarrow> chunk_component_revisions \<Rightarrow> definition_error + definition_identity" where
  "chunk_identity to_vec sha256 job_name step_name chunk_size revision components =
     definition_encode to_vec sha256 job_name revision
       (chunk_manifest job_name step_name chunk_size components)"

text \<open>\<^verbatim>\<open>u16::try_from(u64).ok()\<close> and \<^verbatim>\<open>u32::try_from(u64).ok()\<close>.\<close>

definition try_from_u64 :: "u64 \<Rightarrow> 'a::len word option" where
  "try_from_u64 n = (if unat n < 2 ^ LENGTH('a) then Some (ucast n) else None)"

text \<open>\<^verbatim>\<open>Value::get\<close> of a member name: absent unless the value is an object.\<close>

definition json_get :: "json \<Rightarrow> string \<Rightarrow> json option" where
  "json_get j k = and_then (as_object j) (\<lambda>m. bt_get m (lit k))"

definition is_object :: "json \<Rightarrow> bool" where "is_object j \<longleftrightarrow> as_object j \<noteq> None"
definition is_array :: "json \<Rightarrow> bool" where "is_array j \<longleftrightarrow> as_array j \<noteq> None"

definition from_flow_manifest ::
  "to_vec \<Rightarrow> from_slice \<Rightarrow> sha256 \<Rightarrow> job_name \<Rightarrow> definition_revision \<Rightarrow> u8 list
   \<Rightarrow> definition_error + definition_identity" where
  "from_flow_manifest to_vec from_slice sha256 job_name revision canonical =
     (if length canonical > MAX_MANIFEST_BYTES then Err (ManifestTooLarge MAX_MANIFEST_BYTES)
      else res_bind (ok_or (from_slice canonical) ManifestEncoding) (\<lambda>document.
       res_bind (ok_or (to_vec document) ManifestEncoding) (\<lambda>reencoded.
       if \<not> is_object document \<or> reencoded \<noteq> canonical then Err ManifestEncoding
       else res_bind
         (ok_or
           (and_then (and_then (and_then (json_get document ''format'') as_u64) try_from_u64)
             (\<lambda>v. if v \<in> {MANIFEST_FORMAT_FLOW, MANIFEST_FORMAT_LOCAL_SCALE,
                            MANIFEST_FORMAT_ADVANCED_FLOW} then Some v else None))
           ManifestEncoding)
         (\<lambda>format. Ok (from_canonical sha256 (Some job_name) revision canonical format)))))"

definition check_manifest_format :: "u16 \<Rightarrow> manifest_error + unit" where
  "check_manifest_format format =
     (if format = 0 then Err MissingFormat
      else if format > SUPPORTED_MANIFEST_FORMAT
      then Err (UnsupportedFormat format SUPPORTED_MANIFEST_FORMAT)
      else Ok ())"

definition from_durable ::
  "to_vec \<Rightarrow> from_slice \<Rightarrow> sha256 \<Rightarrow> job_name \<Rightarrow> definition_revision \<Rightarrow> u16 \<Rightarrow> u8 list
   \<Rightarrow> digest \<Rightarrow> definition_error + definition_identity" where
  "from_durable to_vec from_slice sha256 job_name revision manifest_format canonical expected =
     (if length canonical > MAX_MANIFEST_BYTES then Err (ManifestTooLarge MAX_MANIFEST_BYTES)
      else res_bind (map_err (\<lambda>_. ManifestEncoding) (check_manifest_format manifest_format)) (\<lambda>_.
       res_bind (ok_or (from_slice canonical) ManifestEncoding) (\<lambda>document.
       res_bind (ok_or (to_vec document) ManifestEncoding) (\<lambda>reencoded.
       if \<not> is_object document \<or> reencoded \<noteq> canonical
          \<or> and_then (json_get document ''format'') as_u64 \<noteq> Some (ucast manifest_format)
       then Err ManifestEncoding
       else
         (let identity = from_canonical sha256 (Some job_name) revision canonical manifest_format
          in if di_manifest_digest identity \<noteq> expected then Err ManifestEncoding
             else Ok identity)))))"

section \<open>Looking up members\<close>

lemma map_of_lit: "map_of (map (\<lambda>(k, v). (lit k, v)) ms) (lit k) = map_of ms k"
  by (induction ms) auto

lemma json_get_object [simp]: "json_get (json_object ms) k = map_of (rev ms) k"
  using map_of_lit [of "rev ms" k] by (simp add: json_get_def json_object_def object_members_def bt_get_collect rev_map)

lemma is_object_object [simp]: "is_object (json_object ms)"
  by (simp add: is_object_def json_object_def)

lemma is_object_insert [simp]: "is_object (object_insert k v j) = is_object j"
  by (cases j) (auto simp: is_object_def)

lemma json_get_insert [simp]:
  "is_object j \<Longrightarrow> json_get (object_insert k v j) l = (if l = k then Some v else json_get j l)"
  by (cases j) (auto simp: is_object_def json_get_def bt_get_insert)

lemma as_u64_unsigned [simp]: "as_u64 (json_unsigned n) = Some (ucast n)"
  by (simp add: json_unsigned_def)

lemma as_str_string [simp]: "as_str (json_string v) = Some v" "as_str (json_literal l) = Some (lit l)"
  by (simp_all add: json_string_def json_literal_def)

end
