(* ===== verification/Parameters.thy ===== *)
theory Parameters
  imports Lifecycle
begin

text \<open>
  Typed job parameters and job-instance identity, from \<^verbatim>\<open>domain/parameter.rs\<close> of
  \<^verbatim>\<open>oxide-batch-core\<close>, with \<^verbatim>\<open>JobInstance\<close> from \<^verbatim>\<open>domain/execution.rs\<close>.

  SHA-256 is code of another package: it is the argument \<open>sha\<close> of the two digest functions.
  What is proved is the part this code owns, that the bytes it hashes determine the identity.
\<close>

type_synonym i64 = "64 word"

section \<open>Values, roles and parameter sets\<close>

definition MAX_PARAMETER_STRING_BYTES :: nat where "MAX_PARAMETER_STRING_BYTES = 64 * 1024"

datatype parameter_value_kind = KindString | KindI64 | KindU64 | KindBool

fun parameter_value_kind_as_str :: "parameter_value_kind \<Rightarrow> string" where
  "parameter_value_kind_as_str KindString = ''STRING''"
| "parameter_value_kind_as_str KindI64 = ''I64''"
| "parameter_value_kind_as_str KindU64 = ''U64''"
| "parameter_value_kind_as_str KindBool = ''BOOL''"

datatype parameter_value = PvString rstr | PvI64 i64 | PvU64 u64 | PvBool bool

definition parameter_value_string :: "rstr \<Rightarrow> domain_error + parameter_value" where
  "parameter_value_string v =
     (if str_len v > MAX_PARAMETER_STRING_BYTES
      then Err (ParameterStringTooLong MAX_PARAMETER_STRING_BYTES)
      else Ok (PvString v))"

fun parameter_value_kind_of :: "parameter_value \<Rightarrow> parameter_value_kind" where
  "parameter_value_kind_of (PvString _) = KindString"
| "parameter_value_kind_of (PvI64 _) = KindI64"
| "parameter_value_kind_of (PvU64 _) = KindU64"
| "parameter_value_kind_of (PvBool _) = KindBool"

datatype parameter_role = Identifying | NonIdentifying

record job_parameter =
  jpar_value :: parameter_value
  jpar_role :: parameter_role

definition is_identifying :: "job_parameter \<Rightarrow> bool" where
  "is_identifying p \<longleftrightarrow> jpar_role p = Identifying"

record job_parameters = jps_values :: "(parameter_name, job_parameter) btree_map"

definition job_parameters_new :: job_parameters where
  "job_parameters_new = \<lparr>jps_values = []\<rparr>"

definition job_parameters_insert ::
  "parameter_name \<Rightarrow> job_parameter \<Rightarrow> job_parameters \<Rightarrow> (domain_error + unit) \<times> job_parameters" where
  "job_parameters_insert name p ps =
     (if bt_contains (jps_values ps) name then (Err DuplicateParameter, ps)
      else (Ok (), ps\<lparr>jps_values := bt_insert name p (jps_values ps)\<rparr>))"

fun insert_all ::
  "(parameter_name \<times> job_parameter) list \<Rightarrow> job_parameters \<Rightarrow> domain_error + job_parameters" where
  "insert_all [] ps = Ok ps"
| "insert_all ((name, p) # es) ps =
     (case job_parameters_insert name p ps of
        (Err e, _) \<Rightarrow> Err e
      | (Ok _, ps') \<Rightarrow> insert_all es ps')"

definition job_parameters_try_from_iter ::
  "(parameter_name \<times> job_parameter) list \<Rightarrow> domain_error + job_parameters" where
  "job_parameters_try_from_iter es = insert_all es job_parameters_new"

definition job_parameters_get :: "job_parameters \<Rightarrow> parameter_name \<Rightarrow> job_parameter option" where
  "job_parameters_get ps name = bt_get (jps_values ps) name"

definition identifying_len :: "job_parameters \<Rightarrow> nat" where
  "identifying_len ps = length (filter is_identifying (map snd (jps_values ps)))"

section \<open>Job instances and their keys\<close>

record job_instance_key =
  jk_job_name :: job_name
  jk_identifying_parameters :: "(parameter_name, parameter_value) btree_map"

definition job_instance_key_new :: "job_name \<Rightarrow> job_parameters \<Rightarrow> job_instance_key" where
  "job_instance_key_new name ps =
     \<lparr>jk_job_name = name,
      jk_identifying_parameters =
        bt_collect (map (\<lambda>(n, p). (n, jpar_value p))
          (filter (\<lambda>(n, p). is_identifying p) (jps_values ps)))\<rparr>"

definition identifying_parameter_count :: "job_instance_key \<Rightarrow> nat" where
  "identifying_parameter_count k = length (jk_identifying_parameters k)"

definition identifying_value :: "job_instance_key \<Rightarrow> parameter_name \<Rightarrow> parameter_value option" where
  "identifying_value k name = bt_get (jk_identifying_parameters k) name"

definition identifying_fields :: "job_instance_key \<Rightarrow> (parameter_name \<times> parameter_value_kind) list" where
  "identifying_fields k =
     map (\<lambda>(n, v). (n, parameter_value_kind_of v)) (jk_identifying_parameters k)"

record job_instance =
  ji_id :: job_instance_id
  ji_key :: job_instance_key

section \<open>Digest inputs\<close>

definition push_length_prefixed :: "u8 list \<Rightarrow> u8 list \<Rightarrow> u8 list" where
  "push_length_prefixed target v = target @ to_be_bytes (length_word (length v) :: u32) @ v"

fun parameter_tag :: "parameter_value_kind \<Rightarrow> u8" where
  "parameter_tag KindString = 1"
| "parameter_tag KindI64 = 2"
| "parameter_tag KindU64 = 3"
| "parameter_tag KindBool = 4"

definition u8_from_bool :: "bool \<Rightarrow> u8" where
  "u8_from_bool b = (if b then 1 else 0)"

text \<open>One iteration of the loop in \<^verbatim>\<open>JobInstanceKey::digest\<close>, on the buffer \<^verbatim>\<open>encoded\<close>.\<close>

definition digest_entry :: "parameter_name \<times> parameter_value \<Rightarrow> u8 list \<Rightarrow> u8 list" where
  "digest_entry entry encoded =
     (let (name, v) = entry;
          encoded = push_length_prefixed encoded (as_bytes name);
          encoded = encoded @ [parameter_tag (parameter_value_kind_of v)]
      in case v of
           PvString s \<Rightarrow> push_length_prefixed encoded (as_bytes s)
         | PvI64 i \<Rightarrow> encoded @ to_be_bytes i
         | PvU64 n \<Rightarrow> encoded @ to_be_bytes n
         | PvBool b \<Rightarrow> encoded @ [u8_from_bool b])"

definition job_instance_key_encoded :: "job_instance_key \<Rightarrow> u8 list" where
  "job_instance_key_encoded k =
     fold digest_entry (jk_identifying_parameters k)
       (push_length_prefixed [1] (as_bytes (jk_job_name k)))"

definition job_instance_key_digest :: "(u8 list \<Rightarrow> u8 list) \<Rightarrow> job_instance_key \<Rightarrow> u8 list" where
  "job_instance_key_digest sha k = sha (job_instance_key_encoded k)"

definition hash_parameter_field :: "u8 list \<Rightarrow> u8 list \<Rightarrow> u8 list" where
  "hash_parameter_field hash v = hash @ to_be_bytes (length_word (length v) :: u64) @ v"

text \<open>
  The hasher is the list of the bytes fed to it so far. One iteration of the loop in
  \<^verbatim>\<open>JobParameters::flow_input_digest\<close>:
\<close>

definition flow_input_entry :: "parameter_name \<times> job_parameter \<Rightarrow> u8 list \<Rightarrow> u8 list" where
  "flow_input_entry entry hash =
     (let (name, p) = entry;
          hash = hash_parameter_field hash (as_bytes name);
          hash = hash @ [case jpar_role p of Identifying \<Rightarrow> 1 | NonIdentifying \<Rightarrow> 0]
      in case jpar_value p of
           PvString s \<Rightarrow> hash_parameter_field (hash @ [1]) (as_bytes s)
         | PvI64 i \<Rightarrow> hash @ [2] @ to_be_bytes i
         | PvU64 n \<Rightarrow> hash @ [3] @ to_be_bytes n
         | PvBool b \<Rightarrow> hash @ [4, u8_from_bool b])"

definition flow_input_bytes :: "job_parameters \<Rightarrow> u8 list" where
  "flow_input_bytes ps =
     fold flow_input_entry (jps_values ps) (as_bytes (lit ''oxide-batch.flow-parameters.v1'') @ [0])"

definition flow_input_digest :: "(u8 list \<Rightarrow> u8 list) \<Rightarrow> job_parameters \<Rightarrow> u8 list" where
  "flow_input_digest sha ps = sha (flow_input_bytes ps)"

section \<open>Parameter sets do not depend on the order of insertion\<close>

lemma insert_all_Ok_iff:
  assumes "bt_wf (jps_values ps)"
  shows "insert_all es ps = Ok ps' \<longleftrightarrow>
     distinct (map fst es) \<and> set (map fst es) \<inter> fst ` set (jps_values ps) = {} \<and>
     jps_values ps' = fold (\<lambda>(k, v). bt_insert k v) es (jps_values ps)"
  using assms
proof (induction es arbitrary: ps)
  case Nil
  then show ?case by (auto intro: job_parameters.equality)
next
  case (Cons e es)
  obtain n p where e: "e = (n, p)" by fastforce
  show ?case
  proof (cases "bt_contains (jps_values ps) n")
    case True
    then show ?thesis by (simp add: e job_parameters_insert_def bt_contains_iff)
  next
    case False
    with Cons show ?thesis
      by (auto simp: e job_parameters_insert_def bt_contains_iff)
  qed
qed

lemma fold_bt_insert_lookup:
  "distinct (map fst es) \<Longrightarrow>
     bt_get (fold (\<lambda>(k, v). bt_insert k v) es m) l =
       (case map_of es l of None \<Rightarrow> bt_get m l | Some v \<Rightarrow> Some v)"
proof (induction es arbitrary: m)
  case (Cons e es)
  obtain k v where e: "e = (k, v)" by fastforce
  have "map_of es k = None" using Cons.prems by (simp add: e map_of_eq_None_iff)
  with Cons.IH [of "bt_insert k v m"] Cons.prems show ?case
    by (simp add: e bt_get_insert split: option.splits)
qed simp

lemma fold_bt_insert_bt_wf: "bt_wf m \<Longrightarrow> bt_wf (fold (\<lambda>(k, v). bt_insert k v) es m)"
  by (induction es arbitrary: m) (auto split: prod.splits)

lemma try_from_iter_Ok_iff:
  "job_parameters_try_from_iter es = Ok ps \<longleftrightarrow>
     distinct (map fst es) \<and> bt_wf (jps_values ps) \<and> (\<forall>n. job_parameters_get ps n = map_of es n)"
proof -
  let ?m = "fold (\<lambda>(k, v). bt_insert k v) es []"
  have "job_parameters_try_from_iter es = Ok ps \<longleftrightarrow> distinct (map fst es) \<and> jps_values ps = ?m"
    using insert_all_Ok_iff [of job_parameters_new es ps]
    by (simp add: job_parameters_try_from_iter_def job_parameters_new_def)
  moreover have "jps_values ps = ?m \<longleftrightarrow>
      bt_wf (jps_values ps) \<and> (\<forall>n. job_parameters_get ps n = map_of es n)"
    if "distinct (map fst es)"
  proof -
    have "bt_wf ?m" by (simp add: fold_bt_insert_bt_wf)
    moreover have "bt_get ?m = map_of es"
      using that by (auto simp: fold_bt_insert_lookup split: option.splits)
    ultimately show ?thesis
      unfolding job_parameters_get_def by (metis bt_wf_ext ext)
  qed
  ultimately show ?thesis by blast
qed

lemma try_from_iter_Err_iff:
  "job_parameters_try_from_iter es = Err err \<longleftrightarrow> err = DuplicateParameter \<and> \<not> distinct (map fst es)"
proof -
  have "insert_all es ps = Err a \<Longrightarrow> a = DuplicateParameter" for ps a
    by (induction es ps rule: insert_all.induct)
       (auto simp: job_parameters_insert_def split: if_splits)
  moreover have "(\<exists>ps. job_parameters_try_from_iter es = Ok ps) \<longleftrightarrow> distinct (map fst es)"
    using insert_all_Ok_iff [of job_parameters_new es]
    by (auto simp: job_parameters_try_from_iter_def job_parameters_new_def)
       (metis job_parameters.select_convs(1))
  ultimately show ?thesis
    by (cases "job_parameters_try_from_iter es") (auto simp: job_parameters_try_from_iter_def)
qed

text \<open>The key keeps exactly the identifying parameters.\<close>

lemma identifying_entries_wf:
  assumes "bt_wf m"
  shows "bt_wf (map (\<lambda>(n, p). (n, jpar_value p)) (filter (\<lambda>(n, p). is_identifying p) m))"
  using assms by (simp add: bt_wf_map_values bt_wf_filter)

lemma key_new_parameters:
  assumes "bt_wf (jps_values ps)"
  shows "jk_identifying_parameters (job_instance_key_new name ps) =
     map (\<lambda>(n, p). (n, jpar_value p)) (filter (\<lambda>(n, p). is_identifying p) (jps_values ps))"
  by (simp add: job_instance_key_new_def bt_collect_wf identifying_entries_wf assms)

lemma identifying_value_new:
  assumes "bt_wf (jps_values ps)"
  shows "identifying_value (job_instance_key_new name ps) n =
     (case job_parameters_get ps n of
        None \<Rightarrow> None
      | Some p \<Rightarrow> if is_identifying p then Some (jpar_value p) else None)"
proof -
  have "map_of (map (\<lambda>(n, p). (n, jpar_value p)) (filter (\<lambda>(n, p). is_identifying p) m)) n =
      (case map_of m n of None \<Rightarrow> None
       | Some p \<Rightarrow> if is_identifying p then Some (jpar_value p) else None)"
    if "bt_wf m" for m
    using that
    by (induction m) (force simp: bt_wf_Cons map_of_eq_None_iff split: option.splits)+
  then show ?thesis
    by (simp add: identifying_value_def bt_get_def key_new_parameters assms job_parameters_get_def)
qed

section \<open>The hashed bytes determine what is hashed\<close>

text \<open>Strings and values as their constructors admit them.\<close>

definition value_wf :: "parameter_value \<Rightarrow> bool" where
  "value_wf v = (case v of PvString s \<Rightarrow> str_ok s \<and> str_len s \<le> MAX_PARAMETER_STRING_BYTES | _ \<Rightarrow> True)"

definition parameter_name_wf :: "parameter_name \<Rightarrow> bool" where
  "parameter_name_wf n \<longleftrightarrow> str_ok n \<and> name_valid MAX_PARAMETER_NAME_BYTES n"

definition key_wf :: "job_instance_key \<Rightarrow> bool" where
  "key_wf k \<longleftrightarrow>
     str_ok (jk_job_name k) \<and> name_valid MAX_DOMAIN_NAME_BYTES (jk_job_name k) \<and>
     bt_wf (jk_identifying_parameters k) \<and>
     list_all (\<lambda>(n, v). parameter_name_wf n \<and> value_wf v) (jk_identifying_parameters k)"

definition parameters_wf :: "job_parameters \<Rightarrow> bool" where
  "parameters_wf ps \<longleftrightarrow> bt_wf (jps_values ps) \<and>
     list_all (\<lambda>(n, p). parameter_name_wf n \<and> value_wf (jpar_value p)) (jps_values ps)"

lemma key_wf_new:
  assumes "job_name_new name = Ok name" and "str_ok name" and "parameters_wf ps"
  shows "key_wf (job_instance_key_new name ps)"
proof -
  have "bt_wf (jps_values ps)" using assms(3) by (simp add: parameters_wf_def)
  then show ?thesis
    using assms
    by (auto simp: key_wf_def key_new_parameters identifying_entries_wf name_defs
        domain_name_new_Ok_iff parameters_wf_def list_all_iff)
       (simp_all add: job_instance_key_new_def)
qed

text \<open>One length-prefixed string of at most 64 KiB can be read back, with either prefix width.\<close>

abbreviation short_str :: "rstr set" where
  "short_str \<equiv> {s. str_ok s \<and> str_len s \<le> MAX_PARAMETER_STRING_BYTES}"

lemma short_str_delimiting:
  assumes "8 dvd LENGTH('n::len)" and "32 \<le> LENGTH('n)"
  shows "self_delimiting short_str
    (\<lambda>s. to_be_bytes (length_word (length (as_bytes s)) :: 'n word) @ as_bytes s)"
proof (rule self_delimiting_comp [OF self_delimiting_length_prefix [OF assms(1)]])
  show "inj_on as_bytes short_str" by (auto intro!: inj_onI simp: as_bytes_inject)
  have "(2::nat) ^ 32 \<le> 2 ^ LENGTH('n)" using assms(2) by (rule power_increasing) simp
  then show "as_bytes ` short_str \<subseteq> {v. length v < 2 ^ LENGTH('n)}"
    by (auto simp: MAX_PARAMETER_STRING_BYTES_def)
qed

lemma parameter_name_short: "parameter_name_wf n \<Longrightarrow> n \<in> short_str"
  by (simp add: parameter_name_wf_def name_valid_def MAX_PARAMETER_NAME_BYTES_def
      MAX_PARAMETER_STRING_BYTES_def)

text \<open>A tagged value, for any self-delimiting layout of its string case.\<close>

definition tagged_value :: "(rstr \<Rightarrow> u8 list) \<Rightarrow> parameter_value \<Rightarrow> u8 list" where
  "tagged_value str v =
     (case v of
        PvString s \<Rightarrow> 1 # str s
      | PvI64 i \<Rightarrow> 2 # to_be_bytes i
      | PvU64 n \<Rightarrow> 3 # to_be_bytes n
      | PvBool b \<Rightarrow> [4, u8_from_bool b])"

lemma tagged_value_delimiting:
  assumes "self_delimiting short_str str"
  shows "self_delimiting {v. value_wf v} (tagged_value str)"
proof (rule self_delimitingI)
  fix x y r s
  assume wf: "x \<in> {v. value_wf v}" "y \<in> {v. value_wf v}"
    and eq: "tagged_value str x @ r = tagged_value str y @ s"
  have "a = b" if "str a @ r = str b @ s" "a \<in> short_str" "b \<in> short_str" for a b
    using self_delimitingD(1) [OF assms that(2,3,1)] .
  then show "x = y"
    using wf eq
    by (cases x; cases y)
       (auto simp: tagged_value_def value_wf_def to_be_bytes_inject u8_from_bool_def
          split: if_splits)
qed

abbreviation prefix32 :: "rstr \<Rightarrow> u8 list" where
  "prefix32 s \<equiv> to_be_bytes (length_word (length (as_bytes s)) :: u32) @ as_bytes s"

abbreviation prefix64 :: "rstr \<Rightarrow> u8 list" where
  "prefix64 s \<equiv> to_be_bytes (length_word (length (as_bytes s)) :: u64) @ as_bytes s"

definition key_entry_bytes :: "parameter_name \<times> parameter_value \<Rightarrow> u8 list" where
  "key_entry_bytes e = (case e of (n, v) \<Rightarrow> prefix32 n @ tagged_value prefix32 v)"

lemma digest_entry_eq: "digest_entry e enc = enc @ key_entry_bytes e"
  by (auto simp: digest_entry_def key_entry_bytes_def tagged_value_def push_length_prefixed_def
      split: prod.splits parameter_value.splits)

lemma fold_append: "fold (\<lambda>e acc. acc @ f e) es acc = acc @ concat (map f es)"
  by (induction es arbitrary: acc) simp_all

lemma job_instance_key_encoded_eq:
  "job_instance_key_encoded k =
     1 # prefix32 (jk_job_name k) @ concat (map key_entry_bytes (jk_identifying_parameters k))"
  by (simp add: job_instance_key_encoded_def digest_entry_eq [abs_def] fold_append push_length_prefixed_def)

lemma key_entry_delimiting:
  "self_delimiting (short_str \<times> {v. value_wf v}) key_entry_bytes"
  unfolding key_entry_bytes_def
  by (intro self_delimiting_append tagged_value_delimiting short_str_delimiting) simp_all

text \<open>The flow-input layout: the same pieces with 64-bit prefixes and the role byte.\<close>

definition role_byte :: "parameter_role \<Rightarrow> u8 list" where
  "role_byte r = [case r of Identifying \<Rightarrow> 1 | NonIdentifying \<Rightarrow> 0]"

definition flow_entry_bytes :: "parameter_name \<times> job_parameter \<Rightarrow> u8 list" where
  "flow_entry_bytes e =
     prefix64 (fst e) @ role_byte (jpar_role (snd e)) @ tagged_value prefix64 (jpar_value (snd e))"

lemma flow_input_entry_eq: "flow_input_entry e hash = hash @ flow_entry_bytes e"
  by (auto simp: flow_input_entry_def flow_entry_bytes_def tagged_value_def hash_parameter_field_def
      role_byte_def split: prod.splits parameter_value.splits)

lemma flow_input_bytes_eq:
  "flow_input_bytes ps =
     as_bytes (lit ''oxide-batch.flow-parameters.v1'') @ 0 # concat (map flow_entry_bytes (jps_values ps))"
  by (simp add: flow_input_bytes_def flow_input_entry_eq [abs_def] fold_append)

lemma role_byte_delimiting: "self_delimiting UNIV role_byte"
proof (rule self_delimitingI)
  fix x y r s
  assume "role_byte x @ r = role_byte y @ s"
  then show "x = y" by (cases x; cases y) (simp_all add: role_byte_def)
qed

lemma flow_entry_delimiting:
  "self_delimiting {e. fst e \<in> short_str \<and> value_wf (jpar_value (snd e))} flow_entry_bytes"
proof -
  let ?h = "\<lambda>e :: parameter_name \<times> job_parameter. (fst e, jpar_role (snd e), jpar_value (snd e))"
  let ?enc = "\<lambda>(n, r). prefix64 n @ (\<lambda>(r, v). role_byte r @ tagged_value prefix64 v) r"
  let ?B = "{e. fst e \<in> short_str \<and> value_wf (jpar_value (snd e))}"
  have "self_delimiting (short_str \<times> (UNIV \<times> {v. value_wf v})) ?enc"
    by (intro self_delimiting_append tagged_value_delimiting short_str_delimiting role_byte_delimiting)
       simp_all
  moreover have "inj_on ?h ?B"
    by (auto intro!: inj_onI job_parameter.equality)
  moreover have "?h ` ?B \<subseteq> short_str \<times> (UNIV \<times> {v. value_wf v})" by auto
  ultimately have "self_delimiting ?B (\<lambda>e. ?enc (?h e))" by (rule self_delimiting_comp)
  then show ?thesis by (simp add: flow_entry_bytes_def [abs_def])
qed

lemma key_encoded_inject:
  assumes "key_wf k" and "key_wf l" and "job_instance_key_encoded k = job_instance_key_encoded l"
  shows "k = l"
proof -
  let ?A = "short_str \<times> {v. value_wf v}"
  have short: "jk_job_name x \<in> short_str \<and> set (jk_identifying_parameters x) \<subseteq> ?A" if "key_wf x" for x
    using that parameter_name_short
    by (auto simp: key_wf_def list_all_iff name_valid_def MAX_DOMAIN_NAME_BYTES_def
        MAX_PARAMETER_STRING_BYTES_def)
  have delim: "self_delimiting short_str prefix32" by (rule short_str_delimiting) simp_all
  have eq: "prefix32 (jk_job_name k) @ concat (map key_entry_bytes (jk_identifying_parameters k))
      = prefix32 (jk_job_name l) @ concat (map key_entry_bytes (jk_identifying_parameters l))"
    using assms(3) unfolding job_instance_key_encoded_eq by simp
  have names: "jk_job_name k \<in> short_str" "jk_job_name l \<in> short_str"
    using short assms(1,2) by blast+
  have "jk_job_name k = jk_job_name l" and
    "concat (map key_entry_bytes (jk_identifying_parameters k))
      = concat (map key_entry_bytes (jk_identifying_parameters l))"
    using self_delimitingD [OF delim names eq] by this+
  moreover have "jk_identifying_parameters k = jk_identifying_parameters l"
  proof (rule concat_map_self_delimiting_inject [OF key_entry_delimiting])
    show "key_entry_bytes x \<noteq> []" for x
      by (simp add: key_entry_bytes_def tagged_value_def split: prod.split parameter_value.split)
    show "set (jk_identifying_parameters k) \<subseteq> ?A" "set (jk_identifying_parameters l) \<subseteq> ?A"
      using short assms(1,2) by blast+
  qed (fact calculation(2))
  ultimately show ?thesis by (simp add: job_instance_key.equality)
qed

lemma flow_input_bytes_inject:
  assumes "parameters_wf p" and "parameters_wf q" and "flow_input_bytes p = flow_input_bytes q"
  shows "p = q"
proof -
  let ?A = "{e. fst e \<in> short_str \<and> value_wf (jpar_value (snd e))}"
  have short: "set (jps_values x) \<subseteq> ?A" if "parameters_wf x" for x
    using that parameter_name_short by (auto simp: parameters_wf_def list_all_iff)
  have "jps_values p = jps_values q"
  proof (rule concat_map_self_delimiting_inject [OF flow_entry_delimiting])
    show "flow_entry_bytes x \<noteq> []" for x by (simp add: flow_entry_bytes_def role_byte_def)
    show "concat (map flow_entry_bytes (jps_values p)) = concat (map flow_entry_bytes (jps_values q))"
      using assms(3) by (simp add: flow_input_bytes_eq)
  qed (use short assms in auto)
  then show ?thesis by (auto intro: job_parameters.equality)
qed

section \<open>Properties\<close>

text \<open>
  C31. Two job-instance keys hash the same bytes only when they are the same key: the version
  byte, the length-prefixed job name and the tagged entries can be read back unambiguously. So
  two distinct keys have the same digest only through a collision of the hash function itself,
  whatever that function is.
\<close>

theorem key_digest_identifies:
  assumes "key_wf k" and "key_wf l"
  shows "(job_instance_key_encoded k = job_instance_key_encoded l \<longleftrightarrow> k = l)
     \<and> (job_instance_key_digest sha k = job_instance_key_digest sha l \<longrightarrow>
          k = l \<or> (\<exists>x y. x \<noteq> y \<and> sha x = sha y))"
  using key_encoded_inject [OF assms] by (auto simp: job_instance_key_digest_def)

definition example_key :: "parameter_value \<Rightarrow> job_instance_key" where
  "example_key v = \<lparr>jk_job_name = lit ''import'', jk_identifying_parameters = [(lit ''day'', v)]\<rparr>"

lemma example_key_wf:
  "key_wf (example_key (PvString (lit ''7'')))" "key_wf (example_key (PvU64 7))"
  by (simp_all add: example_key_def key_wf_def parameter_name_wf_def value_wf_def name_valid_def
      lit_def str_ok_def scalar_value_def MAX_DOMAIN_NAME_BYTES_def MAX_PARAMETER_NAME_BYTES_def
      MAX_PARAMETER_STRING_BYTES_def utf8_width_def is_whitespace_def is_control_def bt_wf_def)

theorem key_digest_identifies_witness:
  "job_instance_key_encoded (example_key (PvString (lit ''7'')))
     \<noteq> job_instance_key_encoded (example_key (PvU64 7))"
  using key_digest_identifies [OF example_key_wf, of "\<lambda>bs. take 32 bs"]
  by (simp add: example_key_def)

text \<open>
  The flow-input digest covers every parameter with its role, type and value: two parameter
  sets feed the hasher the same bytes only when they are equal.
\<close>

lemma flow_input_identifies:
  assumes "parameters_wf p" and "parameters_wf q"
  shows "(flow_input_bytes p = flow_input_bytes q \<longleftrightarrow> p = q)
     \<and> (flow_input_digest sha p = flow_input_digest sha q \<longrightarrow>
          p = q \<or> (\<exists>x y. x \<noteq> y \<and> sha x = sha y))"
  using flow_input_bytes_inject [OF assms] by (auto simp: flow_input_digest_def)

definition example_parameters :: "parameter_role \<Rightarrow> job_parameters" where
  "example_parameters r =
     \<lparr>jps_values = [(lit ''day'', \<lparr>jpar_value = PvBool True, jpar_role = r\<rparr>)]\<rparr>"

lemma example_parameters_wf: "parameters_wf (example_parameters r)"
  by (simp add: example_parameters_def parameters_wf_def parameter_name_wf_def value_wf_def
      name_valid_def lit_def str_ok_def scalar_value_def MAX_PARAMETER_NAME_BYTES_def
      utf8_width_def is_whitespace_def is_control_def bt_wf_def)

lemma flow_input_identifies_witness:
  "flow_input_bytes (example_parameters Identifying)
     \<noteq> flow_input_bytes (example_parameters NonIdentifying)"
  using flow_input_identifies
    [OF example_parameters_wf [of Identifying] example_parameters_wf [of NonIdentifying],
     of "\<lambda>bs. take 32 bs"]
  by (simp add: example_parameters_def)


end
