(* ===== verification/Scope.thy ===== *)
theory Scope
  imports Definition Parameters "HOL-Library.Product_Lexorder"
begin

text \<open>
  The scoped-component vocabulary of \<^verbatim>\<open>scope.rs\<close> of \<^verbatim>\<open>oxide-batch-core\<close>: scopes, the framework
  values a late-bound input may read, and the bounds of a structured selector path.
\<close>

definition MAX_SCOPED_COMPONENTS :: nat where "MAX_SCOPED_COMPONENTS = 256"
definition MAX_LATE_BOUND_INPUTS :: nat where "MAX_LATE_BOUND_INPUTS = 64"
definition MAX_SELECTOR_PATH_BYTES :: nat where "MAX_SELECTOR_PATH_BYTES = 1024"
definition MAX_SELECTOR_PATH_SEGMENTS :: nat where "MAX_SELECTOR_PATH_SEGMENTS = 32"

type_synonym scoped_component_id = rstr

definition selector_path_is_valid :: "rstr list \<Rightarrow> bool" where
  "selector_path_is_valid segments =
     (if segments = [] \<or> length segments > MAX_SELECTOR_PATH_SEGMENTS then False
      else (let bytes = sum_list (map str_len segments) + (length segments - 1) in
        bytes \<le> MAX_SELECTOR_PATH_BYTES \<and>
        list_all (\<lambda>segment. segment \<noteq> [] \<and> trim segment = segment
                    \<and> \<not> list_ex is_control segment) segments))"

datatype scope_kind = ScopeJob | ScopeStep

fun scope_kind_as_str :: "scope_kind \<Rightarrow> string" where
  "scope_kind_as_str ScopeJob = ''job''"
| "scope_kind_as_str ScopeStep = ''step''"

text \<open>The derived order of the enumeration, which orders the scoped components of a plan.\<close>

instantiation scope_kind :: linorder
begin

definition less_scope_kind :: "scope_kind \<Rightarrow> scope_kind \<Rightarrow> bool" where
  "less_scope_kind a b \<longleftrightarrow> a = ScopeJob \<and> b = ScopeStep"

definition less_eq_scope_kind :: "scope_kind \<Rightarrow> scope_kind \<Rightarrow> bool" where
  "less_eq_scope_kind a b \<longleftrightarrow> a = ScopeJob \<or> b = ScopeStep"

instance
  by standard
     (auto simp: less_scope_kind_def less_eq_scope_kind_def intro: scope_kind.exhaust)

end

datatype scope_framework_source =
    SfJobInstanceId | SfJobExecutionId | SfStepExecutionId | SfAttempt
  | SfDefinitionRevision | SfDefinitionFingerprint | SfLogicalNodeId | SfStepName

fun scope_framework_source_as_str :: "scope_framework_source \<Rightarrow> string" where
  "scope_framework_source_as_str SfJobInstanceId = ''job_instance_id''"
| "scope_framework_source_as_str SfJobExecutionId = ''job_execution_id''"
| "scope_framework_source_as_str SfStepExecutionId = ''step_execution_id''"
| "scope_framework_source_as_str SfAttempt = ''attempt''"
| "scope_framework_source_as_str SfDefinitionRevision = ''definition_revision''"
| "scope_framework_source_as_str SfDefinitionFingerprint = ''definition_fingerprint''"
| "scope_framework_source_as_str SfLogicalNodeId = ''logical_node_id''"
| "scope_framework_source_as_str SfStepName = ''step_name''"

fun scope_framework_source_value_kind :: "scope_framework_source \<Rightarrow> parameter_value_kind" where
  "scope_framework_source_value_kind SfJobInstanceId = KindU64"
| "scope_framework_source_value_kind SfJobExecutionId = KindU64"
| "scope_framework_source_value_kind SfStepExecutionId = KindU64"
| "scope_framework_source_value_kind SfAttempt = KindU64"
| "scope_framework_source_value_kind SfDefinitionRevision = KindString"
| "scope_framework_source_value_kind SfDefinitionFingerprint = KindString"
| "scope_framework_source_value_kind SfLogicalNodeId = KindString"
| "scope_framework_source_value_kind SfStepName = KindString"

end
