(* ===== verification/Manifest_Reader.thy ===== *)
theory Manifest_Reader
  imports Manifest Scope
begin

text \<open>
  The reader of canonical manifests, \<^verbatim>\<open>DefinitionManifest::read\<close> of \<^verbatim>\<open>definition.rs\<close> of
  \<^verbatim>\<open>oxide-batch-core\<close>, with the structural checks of the flow formats.
\<close>

section \<open>Walking a document\<close>

text \<open>\<^verbatim>\<open>for x in xs { f(x)?; }\<close>, without and with a mutated accumulator.\<close>

fun try_each :: "('a \<Rightarrow> 'e + unit) \<Rightarrow> 'a list \<Rightarrow> 'e + unit" where
  "try_each f [] = Ok ()"
| "try_each f (x # xs) = res_bind (f x) (\<lambda>_. try_each f xs)"

fun try_fold :: "('a \<Rightarrow> 's \<Rightarrow> 'e + 's) \<Rightarrow> 'a list \<Rightarrow> 's \<Rightarrow> 'e + 's" where
  "try_fold f [] s = Ok s"
| "try_fold f (x # xs) s = res_bind (f x s) (\<lambda>s. try_fold f xs s)"

lemma try_each_cong [fundef_cong]:
  "xs = ys \<Longrightarrow> (\<And>x. x \<in> set ys \<Longrightarrow> f x = g x) \<Longrightarrow> try_each f xs = try_each g ys"
  by (induction xs arbitrary: ys) auto

lemma try_fold_cong [fundef_cong]:
  "xs = ys \<Longrightarrow> s = t \<Longrightarrow> (\<And>x s. x \<in> set ys \<Longrightarrow> f x s = g x s) \<Longrightarrow> try_fold f xs s = try_fold g ys t"
proof (induction xs arbitrary: ys s t)
  case (Cons x xs)
  then show ?case by (cases "g x t") auto
qed simp

lemma try_fold_invariant:
  assumes "try_fold f xs s = Ok t" and "P s"
    and "\<And>x s t. x \<in> set xs \<Longrightarrow> P s \<Longrightarrow> f x s = Ok t \<Longrightarrow> P t"
  shows "P t"
  using assms
proof (induction xs arbitrary: s)
  case (Cons x xs)
  from Cons.prems(1) obtain u where u: "f x s = Ok u" "try_fold f xs u = Ok t" by auto
  have "P u" by (rule Cons.prems(3) [OF _ Cons.prems(2) u(1)]) simp
  from u(2) this show ?case
  proof (rule Cons.IH)
    fix y a b
    assume "y \<in> set xs" and "P a" and "f y a = Ok b"
    then show "P b" by (intro Cons.prems(3) [of y a b]) simp_all
  qed
qed simp

lemma try_each_Ok_iff: "try_each f xs = Ok u \<longleftrightarrow> (\<forall>x \<in> set xs. f x = Ok ())"
  by (induction xs) auto

lemma res_bind_cong [fundef_cong]:
  "r = s \<Longrightarrow> (\<And>x. s = Ok x \<Longrightarrow> f x = g x) \<Longrightarrow> res_bind r f = res_bind s g"
  by (cases s) auto

fun number_as_i64 :: "json_number \<Rightarrow> u64 option" where
  "number_as_i64 (PosInt n) = (if n \<le> 2 ^ 63 - 1 then Some n else None)"
| "number_as_i64 (NegInt n) = Some n"
| "number_as_i64 (FloatBits b) = None"

fun contains_float :: "json \<Rightarrow> bool" where
  "contains_float (JNumber n) = (number_as_i64 n = None \<and> as_u64 (JNumber n) = None)"
| "contains_float (JArray vs) = list_ex contains_float vs"
| "contains_float (JObject m) = list_ex (\<lambda>(k, v). contains_float v) m"
| "contains_float _ = False"

fun contains_object_key :: "json \<Rightarrow> rstr \<Rightarrow> bool" where
  "contains_object_key (JObject m) key = list_ex (\<lambda>(k, v). k = key \<or> contains_object_key v key) m"
| "contains_object_key (JArray vs) key = list_ex (\<lambda>v. contains_object_key v key) vs"
| "contains_object_key _ key = False"

definition member_get :: "(rstr, json) btree_map \<Rightarrow> string \<Rightarrow> json option" where
  "member_get m k = bt_get m (lit k)"

definition array_len :: "json option \<Rightarrow> manifest_error + nat" where
  "array_len v = ok_or (map_option length (and_then v as_array)) MalformedGraph"

definition get_str :: "(rstr, json) btree_map \<Rightarrow> string \<Rightarrow> manifest_error + rstr" where
  "get_str m k = ok_or (and_then (member_get m k) as_str) MalformedGraph"

definition get_array :: "(rstr, json) btree_map \<Rightarrow> string \<Rightarrow> manifest_error + json list" where
  "get_array m k = ok_or (and_then (member_get m k) as_array) MalformedGraph"

definition require_object :: "json \<Rightarrow> manifest_error + (rstr, json) btree_map" where
  "require_object j = ok_or (as_object j) MalformedGraph"

text \<open>\<^verbatim>\<open>object.len() != required.len() || object.keys().any(|key| !required.contains(key))\<close>.\<close>

definition exact_members :: "(rstr, json) btree_map \<Rightarrow> string list \<Rightarrow> bool" where
  "exact_members m required \<longleftrightarrow>
     length m = length required \<and> list_all (\<lambda>(k, v). k \<in> set (map lit required)) m"

definition malformed :: "'e + 'a \<Rightarrow> manifest_error + 'a" where
  "malformed r = map_err (\<lambda>_. MalformedGraph) r"

section \<open>Members of the flow formats\<close>

definition validate_parameter_incrementer_manifest ::
  "(rstr, json) btree_map \<Rightarrow> manifest_error + unit" where
  "validate_parameter_incrementer_manifest members =
     (case member_get members ''parameter_incrementer'' of
        None \<Rightarrow> Ok ()
      | Some v \<Rightarrow>
          res_bind (require_object v) (\<lambda>object.
          res_bind (ensure (exact_members object [''kind'', ''revision'']) MalformedGraph) (\<lambda>_.
          res_bind (get_str object ''kind'') (\<lambda>kind.
          res_bind (get_str object ''revision'') (\<lambda>revision.
          res_bind (malformed (definition_revision_new kind)) (\<lambda>_.
          res_bind (malformed (definition_revision_new revision)) (\<lambda>_. Ok ())))))))"

fun restart_policy_visit :: "json \<Rightarrow> bool \<Rightarrow> manifest_error + unit" where
  "restart_policy_visit (JObject m) root =
     res_bind
       (case member_get m ''restart_policy'' of
          None \<Rightarrow> Ok ()
        | Some policy \<Rightarrow>
            (let is_start_controls = member_get m ''start_limit'' \<noteq> None
                   \<and> member_get m ''allow_start_if_complete'' \<noteq> None
             in ensure (\<not> ((\<not> root \<and> \<not> is_start_controls) \<or> as_str policy \<noteq> Some (lit ''not_restartable'')))
                  MalformedGraph))
       (\<lambda>_. try_each (\<lambda>(k, v). restart_policy_visit v False) m)"
| "restart_policy_visit (JArray vs) root = try_each (\<lambda>v. restart_policy_visit v False) vs"
| "restart_policy_visit _ root = Ok ()"

definition validate_restart_policy_manifest :: "json \<Rightarrow> manifest_error + unit" where
  "validate_restart_policy_manifest document = restart_policy_visit document True"

definition graph_out_of_bounds :: manifest_error where
  "graph_out_of_bounds = GraphOutOfBounds MAX_NODES MAX_TRANSITIONS"

definition ensure_graph_bounds :: "nat \<Rightarrow> nat \<Rightarrow> manifest_error + unit" where
  "ensure_graph_bounds nodes transitions =
     ensure (\<not> (nodes > MAX_NODES \<or> transitions > MAX_TRANSITIONS)) graph_out_of_bounds"

definition validate_nested_job_manifest :: "(rstr, json) btree_map \<Rightarrow> manifest_error + unit" where
  "validate_nested_job_manifest object =
     ensure (\<not> (\<not> is_some_and (member_get object ''child'') is_object
               \<or> \<not> is_some_and (member_get object ''parameters'') is_array
               \<or> and_then (member_get object ''mapping_revision'') as_str = None))
       MalformedGraph"

text \<open>
  The counters are \<^verbatim>\<open>usize\<close> values bounded by the length of the document, at most 64 KiB, so
  \<^verbatim>\<open>checked_add\<close> never fails and addition is that of natural numbers.
\<close>

definition branch_nodes :: "json \<Rightarrow> nat \<Rightarrow> manifest_error + nat" where
  "branch_nodes branch n =
     res_bind (require_object branch) (\<lambda>b.
       let kind = and_then (member_get b ''kind'') as_str in
       if kind = Some (lit ''linear'')
       then res_bind (array_len (member_get b ''steps'')) (\<lambda>steps. Ok (n + steps))
       else if kind = Some (lit ''flow'')
       then (if \<not> is_some_and (member_get b ''members'') is_array
                \<or> and_then (member_get b ''entry'') as_str = None
             then Err MalformedGraph else Ok n)
       else Err MalformedGraph)"

definition count_node :: "json \<Rightarrow> nat \<times> nat \<Rightarrow> manifest_error + nat \<times> nat" where
  "count_node node = (\<lambda>(nodes, transitions).
     res_bind (require_object node) (\<lambda>object.
     let kind = and_then (member_get object ''kind'') as_str in
     res_bind
       (if kind \<in> {Some (lit ''step''), Some (lit ''decision''), Some (lit ''join'')}
        then Ok (nodes, transitions)
        else if kind = Some (lit ''nested_job'')
        then res_bind (validate_nested_job_manifest object) (\<lambda>_. Ok (nodes, transitions))
        else if kind = Some (lit ''partitioned_step'')
        then (if \<not> is_some_and (member_get object ''worker'') is_object then Err MalformedGraph
              else Ok (nodes + 1, transitions))
        else if kind = Some (lit ''split'')
        then res_bind (get_array object ''branches'') (\<lambda>branches.
             res_bind (try_fold branch_nodes branches (nodes + length branches)) (\<lambda>nodes.
             Ok (nodes, transitions)))
        else if kind = Some (lit ''nested_flow'')
        then res_bind (array_len (member_get object ''exits'')) (\<lambda>exits.
             if \<not> is_some_and (member_get object ''members'') is_array
                \<or> and_then (member_get object ''entry'') as_str = None
             then Err MalformedGraph else Ok (nodes, transitions + exits))
        else Err MalformedGraph)
       (\<lambda>(nodes, transitions).
          res_bind (ensure_graph_bounds nodes transitions) (\<lambda>_. Ok (nodes, transitions)))))"

definition advanced_graph_counts :: "(rstr, json) btree_map \<Rightarrow> manifest_error + nat \<times> nat" where
  "advanced_graph_counts members =
     res_bind (get_array members ''nodes'') (\<lambda>nodes.
     res_bind (array_len (member_get members ''transitions'')) (\<lambda>transitions.
     try_fold count_node nodes (length nodes, transitions)))"

section \<open>Repeat declarations\<close>

definition MAX_REPEAT_INTERCEPTORS :: nat where "MAX_REPEAT_INTERCEPTORS = 32"
definition MAX_REPEAT_NESTING_DEPTH :: nat where "MAX_REPEAT_NESTING_DEPTH = 8"
definition MAX_SCHEMA_ID_BYTES :: nat where "MAX_SCHEMA_ID_BYTES = 128"

definition validate_repeat_policy :: "json \<Rightarrow> manifest_error + unit" where
  "validate_repeat_policy v =
     res_bind (require_object v) (\<lambda>object.
     res_bind (ensure (exact_members object [''configuration'', ''kind'', ''revision'']) MalformedGraph) (\<lambda>_.
     res_bind (get_str object ''configuration'') (\<lambda>configuration.
     res_bind (malformed (validate_token configuration TokRepeatPolicy)) (\<lambda>_.
     res_bind (get_str object ''kind'') (\<lambda>kind.
     res_bind (malformed (validate_token kind TokRepeatPolicy)) (\<lambda>_.
     res_bind (get_str object ''revision'') (\<lambda>revision.
     res_bind (malformed (component_revision_new revision)) (\<lambda>_. Ok ()))))))))"

definition validate_repeat_interceptor ::
  "json \<Rightarrow> rstr set \<Rightarrow> manifest_error + rstr set" where
  "validate_repeat_interceptor v ids =
     res_bind (require_object v) (\<lambda>object.
     res_bind (ensure (exact_members object [''id'', ''kind'', ''revision'']) MalformedGraph) (\<lambda>_.
     res_bind (get_str object ''id'') (\<lambda>i.
     res_bind (malformed (validate_token i TokRepeatInterceptor)) (\<lambda>_.
     res_bind (ensure (i \<notin> ids) MalformedGraph) (\<lambda>_.
     res_bind (get_str object ''kind'') (\<lambda>kind.
     res_bind (malformed (validate_token kind TokRepeatInterceptor)) (\<lambda>_.
     res_bind (get_str object ''revision'') (\<lambda>revision.
     res_bind (malformed (component_revision_new revision)) (\<lambda>_. Ok (insert i ids))))))))))"

text \<open>\<^verbatim>\<open>StateSchemaId::new\<close> and \<^verbatim>\<open>StateSchemaVersion::new\<close>, of which only success matters here.\<close>

definition state_schema_id_valid :: "rstr \<Rightarrow> bool" where
  "state_schema_id_valid v \<longleftrightarrow>
     v \<noteq> [] \<and> str_len v \<le> MAX_SCHEMA_ID_BYTES \<and> trim v = v \<and> \<not> list_ex is_control v"

definition validate_repeat_state :: "json \<Rightarrow> manifest_error + unit" where
  "validate_repeat_state v =
     res_bind (require_object v) (\<lambda>object.
     res_bind (ensure (exact_members object [''schema'', ''version'']) MalformedGraph) (\<lambda>_.
     res_bind (get_str object ''schema'') (\<lambda>schema.
     res_bind (ensure (state_schema_id_valid schema) MalformedGraph) (\<lambda>_.
     res_bind (ok_or (and_then (and_then (member_get object ''version'') as_u64) try_from_u64)
                 MalformedGraph) (\<lambda>version :: u32.
     ensure (version \<noteq> 0) MalformedGraph)))))"

function validate_repeat_definition ::
  "json \<Rightarrow> rstr set \<Rightarrow> nat \<Rightarrow> manifest_error + rstr set" where
  "validate_repeat_definition v repeat_ids depth =
     (if depth > MAX_REPEAT_NESTING_DEPTH then Err MalformedGraph
      else res_bind (require_object v) (\<lambda>object.
       res_bind (ensure (list_all (\<lambda>(k, v). k \<in> set (map lit [''id'', ''interceptors'', ''nested'', ''policy'', ''state''])) object)
                   MalformedGraph) (\<lambda>_.
       res_bind (get_str object ''id'') (\<lambda>i.
       res_bind (malformed (validate_token i TokRepeat)) (\<lambda>_.
       res_bind (ensure (i \<notin> repeat_ids) MalformedGraph) (\<lambda>_.
       res_bind (ok_or (member_get object ''policy'') MalformedGraph) (\<lambda>policy.
       res_bind (validate_repeat_policy policy) (\<lambda>_.
       res_bind (ok_or (member_get object ''state'') MalformedGraph) (\<lambda>state.
       res_bind (validate_repeat_state state) (\<lambda>_.
       res_bind (get_array object ''interceptors'') (\<lambda>interceptors.
       res_bind (ensure (length interceptors \<le> MAX_REPEAT_INTERCEPTORS) MalformedGraph) (\<lambda>_.
       res_bind (try_fold validate_repeat_interceptor interceptors {}) (\<lambda>_.
       case member_get object ''nested'' of
         Some nested \<Rightarrow> validate_repeat_definition nested (insert i repeat_ids) (depth + 1)
       | None \<Rightarrow> Ok (insert i repeat_ids))))))))))))))"
  by pat_completeness auto

termination
  by (relation "measure (\<lambda>(v, ids, depth). Suc MAX_REPEAT_NESTING_DEPTH - depth)") auto

lemma size_member:
  assumes "member_get m k = Some v"
  shows "size v < size (JObject m)"
proof -
  have "(lit k, v) \<in> set m" using assms by (simp add: member_get_def bt_get_in_set)
  then have "size_prod (\<lambda>_. 0) size (lit k, v) \<le> size_list (size_prod (\<lambda>_. 0) size) m"
    by (simp add: size_list_estimation')
  then show ?thesis by simp
qed

lemma size_element: "v \<in> set vs \<Longrightarrow> size v < size (JArray vs)"
  using size_list_estimation' [of v vs "size v" size] by simp

lemma as_object_eq: "as_object j = Some m \<longleftrightarrow> j = JObject m"
  by (cases j) auto

lemma as_array_eq: "as_array j = Some vs \<longleftrightarrow> j = JArray vs"
  by (cases j) auto

lemma as_str_eq: "as_str j = Some v \<longleftrightarrow> j = JString v"
  by (cases j) auto

function validate_node_repeat :: "json \<Rightarrow> rstr set \<Rightarrow> manifest_error + rstr set" where
  "validate_node_repeat node repeat_ids =
     (case as_object node of
        None \<Rightarrow> Err MalformedGraph
      | Some object \<Rightarrow>
     (let kind = and_then (member_get object ''kind'') as_str in
      if kind \<noteq> Some (lit ''step'') \<and> member_get object ''repeat'' \<noteq> None then Err MalformedGraph
      else if kind = Some (lit ''step'')
      then (case member_get object ''repeat'' of
              Some repeat \<Rightarrow> validate_repeat_definition repeat repeat_ids 1
            | None \<Rightarrow> Ok repeat_ids)
      else if kind = Some (lit ''partitioned_step'')
      then (case member_get object ''worker'' of
              None \<Rightarrow> Err MalformedGraph
            | Some worker \<Rightarrow> validate_node_repeat worker repeat_ids)
      else if kind = Some (lit ''split'')
      then (case and_then (member_get object ''branches'') as_array of
              None \<Rightarrow> Err MalformedGraph
            | Some branches \<Rightarrow>
                try_fold (\<lambda>branch repeat_ids.
                  case as_object branch of
                    None \<Rightarrow> Err MalformedGraph
                  | Some b \<Rightarrow>
                      if and_then (member_get b ''kind'') as_str = Some (lit ''linear'')
                      then (case and_then (member_get b ''steps'') as_array of
                              None \<Rightarrow> Err MalformedGraph
                            | Some steps \<Rightarrow> try_fold validate_node_repeat steps repeat_ids)
                      else Ok repeat_ids) branches repeat_ids)
      else Ok repeat_ids))"
  by pat_completeness auto

termination
proof (relation "measure (\<lambda>(node, ids). size node)")
  fix node object worker and ids :: "rstr set"
  assume "as_object node = Some object" and "member_get object ''worker'' = Some worker"
  then show "((worker, ids), (node, ids)) \<in> measure (\<lambda>(node, ids). size node)"
    using size_member by (auto simp: as_object_eq)
next
  fix node object branches branch b steps step and ids ids' ids'' :: "rstr set"
  assume "as_object node = Some object"
    and "and_then (member_get object ''branches'') as_array = Some branches"
    and "branch \<in> set branches" and "as_object branch = Some b"
    and "and_then (member_get b ''steps'') as_array = Some steps" and "step \<in> set steps"
  then have "size step < size (JArray steps)" "size (JArray steps) < size branch"
    "size branch < size (JArray branches)" "size (JArray branches) < size node"
    using size_member size_element by (auto simp: as_object_eq as_array_eq simp del: json.size)
  then show "((step, ids''), (node, ids)) \<in> measure (\<lambda>(node, ids). size node)" by simp
qed simp

declare validate_node_repeat.simps [simp del] validate_repeat_definition.simps [simp del]

definition validate_repeat_manifests :: "(rstr, json) btree_map \<Rightarrow> manifest_error + unit" where
  "validate_repeat_manifests members =
     res_bind (get_array members ''nodes'') (\<lambda>nodes.
     res_bind (try_fold validate_node_repeat nodes {}) (\<lambda>_. Ok ()))"

section \<open>Reading a manifest\<close>

record definition_manifest =
  dm_format :: u16
  dm_digest :: digest
  dm_job_name :: "job_name option"
  dm_node_count :: "nat option"
  dm_transition_count :: "nat option"

text \<open>The per-scope counters of scoped components; the bound is that of \<^verbatim>\<open>scope.rs\<close>.\<close>

definition count_scoped_component :: "json \<Rightarrow> nat \<times> nat \<Rightarrow> manifest_error + nat \<times> nat" where
  "count_scoped_component component = (\<lambda>(job_scoped, step_scoped).
     res_bind (ok_or (and_then (and_then (as_object component) (\<lambda>m. member_get m ''scope'')) as_str)
                 MalformedGraph) (\<lambda>scope.
     if scope = lit ''job''
     then (if job_scoped + 1 > MAX_SCOPED_COMPONENTS then Err MalformedGraph
           else Ok (job_scoped + 1, step_scoped))
     else if scope = lit ''step''
     then (if step_scoped + 1 > MAX_SCOPED_COMPONENTS then Err MalformedGraph
           else Ok (job_scoped, step_scoped + 1))
     else Err MalformedGraph))"

definition validate_scoped_components :: "(rstr, json) btree_map \<Rightarrow> manifest_error + unit" where
  "validate_scoped_components members =
     (case member_get members ''scoped_components'' of
        None \<Rightarrow> Ok ()
      | Some scoped \<Rightarrow>
          res_bind (ok_or (as_array scoped) MalformedGraph) (\<lambda>scoped.
          res_bind (ensure (scoped \<noteq> []) MalformedGraph) (\<lambda>_.
          res_bind (try_fold count_scoped_component scoped (0, 0)) (\<lambda>_. Ok ()))))"

definition read_graph_counts ::
  "json \<Rightarrow> (rstr, json) btree_map \<Rightarrow> u16 \<Rightarrow> manifest_error + nat option \<times> nat option" where
  "read_graph_counts document members format =
     (if format = MANIFEST_FORMAT_FLOW \<or> format = MANIFEST_FORMAT_LOCAL_SCALE
      then
        res_bind (ok_or (member_get members ''nodes'') MalformedGraph) (\<lambda>nodes_value.
        if contains_object_key nodes_value (lit ''repeat'') then Err MalformedGraph
        else res_bind (array_len (Some nodes_value)) (\<lambda>nodes.
         res_bind (array_len (member_get members ''transitions'')) (\<lambda>transitions.
         res_bind (ensure_graph_bounds nodes transitions) (\<lambda>_.
         Ok (Some nodes, Some transitions)))))
      else if format = MANIFEST_FORMAT_ADVANCED_FLOW
      then
        res_bind (validate_parameter_incrementer_manifest members) (\<lambda>_.
        res_bind (validate_restart_policy_manifest document) (\<lambda>_.
        res_bind (advanced_graph_counts members) (\<lambda>(nodes, transitions).
        res_bind (ensure_graph_bounds nodes transitions) (\<lambda>_.
        res_bind (validate_scoped_components members) (\<lambda>_.
        res_bind (validate_repeat_manifests members) (\<lambda>_.
        Ok (Some nodes, Some transitions)))))))
      else Ok (None, None))"

definition definition_manifest_read ::
  "to_vec \<Rightarrow> from_slice \<Rightarrow> sha256 \<Rightarrow> u8 list \<Rightarrow> manifest_error + definition_manifest" where
  "definition_manifest_read to_vec from_slice sha256 bytes =
     (if length bytes > MAX_MANIFEST_BYTES then Err (TooLarge MAX_MANIFEST_BYTES)
      else
        res_bind (ok_or (from_slice bytes) MalformedJson) (\<lambda>document.
        res_bind (ok_or (as_object document) NotAnObject) (\<lambda>members.
        if contains_float document then Err FloatValue
        else res_bind (ok_or (to_vec document) MalformedJson) (\<lambda>reencoded.
        if reencoded \<noteq> bytes then Err NonCanonicalEncoding
        else res_bind (ok_or (and_then (and_then (member_get members ''format'') as_u64) try_from_u64)
                         MissingFormat) (\<lambda>format.
         res_bind (check_manifest_format format) (\<lambda>_.
         if format \<noteq> MANIFEST_FORMAT_ADVANCED_FLOW
            \<and> (member_get members ''parameter_incrementer'' \<noteq> None
                \<or> contains_object_key document (lit ''restart_policy''))
         then Err MalformedGraph
         else res_bind (case and_then (member_get members ''job'') as_str of
                   None \<Rightarrow> Ok None
                 | Some n \<Rightarrow> res_bind (map_err (\<lambda>_. InvalidJobName) (job_name_new n)) (\<lambda>j. Ok (Some j)))
                (\<lambda>job_name.
          res_bind (read_graph_counts document members format) (\<lambda>(node_count, transition_count).
          Ok \<lparr>dm_format = format, dm_digest = sha256 bytes, dm_job_name = job_name,
              dm_node_count = node_count, dm_transition_count = transition_count\<rparr>))))))))"

definition read_verified ::
  "to_vec \<Rightarrow> from_slice \<Rightarrow> sha256 \<Rightarrow> u8 list \<Rightarrow> digest \<Rightarrow> manifest_error + definition_manifest" where
  "read_verified to_vec from_slice sha256 bytes expected =
     res_bind (definition_manifest_read to_vec from_slice sha256 bytes) (\<lambda>manifest.
     if dm_digest manifest \<noteq> expected then Err DigestMismatch else Ok manifest)"

section \<open>What an accepted manifest guarantees\<close>

lemma try_from_u64_Some:
  assumes "try_from_u64 n = Some (v :: 'a::len word)" and "LENGTH('a) \<le> 64"
  shows "n = ucast v"
proof -
  have "unat n < 2 ^ LENGTH('a)" and v: "v = ucast n"
    using assms(1) by (auto simp: try_from_u64_def split: if_splits)
  then have "unat v = unat n" by (simp add: unsigned_ucast_eq take_bit_nat_eq_self)
  moreover have "unat v < 2 ^ 64"
    using assms(2) power_increasing [of "LENGTH('a)" 64 "2 :: nat"]
    by (intro less_le_trans [OF unsigned_less [of v]]) simp
  then have "unat (ucast v :: u64) = unat v" by (simp add: unsigned_ucast_eq take_bit_nat_eq_self)
  ultimately show ?thesis by (simp add: word_unat_eq_iff)
qed

lemma check_manifest_format_Ok: "check_manifest_format f = Ok u \<longleftrightarrow> 1 \<le> f \<and> f \<le> 4"
proof -
  have "f \<noteq> 0 \<longleftrightarrow> 1 \<le> f" by (simp add: word_le_nat_alt unat_eq_zero Suc_le_eq flip: unat_gt_0)
  then show ?thesis by (auto simp: check_manifest_format_def manifest_formats)
qed

lemma ensure_graph_bounds_Ok:
  "ensure_graph_bounds n t = Ok u \<longleftrightarrow> n \<le> MAX_NODES \<and> t \<le> MAX_TRANSITIONS"
  by (auto simp: ensure_graph_bounds_def)

lemma read_graph_counts_bounded:
  assumes "read_graph_counts document members format = Ok (n, t)"
  shows "(\<forall>k. n = Some k \<longrightarrow> k \<le> MAX_NODES) \<and> (\<forall>k. t = Some k \<longrightarrow> k \<le> MAX_TRANSITIONS)
    \<and> (n = None \<longleftrightarrow> format \<notin> {MANIFEST_FORMAT_FLOW, MANIFEST_FORMAT_LOCAL_SCALE, MANIFEST_FORMAT_ADVANCED_FLOW})"
  using assms by (auto simp: read_graph_counts_def ensure_graph_bounds_Ok split: if_splits)

lemma read_Ok_parts:
  assumes "definition_manifest_read to_vec from_slice sha256 bytes = Ok m"
  shows "\<exists>document members.
     from_slice bytes = Some document \<and> as_object document = Some members
     \<and> to_vec document = Some bytes \<and> length bytes \<le> MAX_MANIFEST_BYTES
     \<and> \<not> contains_float document
     \<and> and_then (member_get members ''format'') as_u64 = Some (ucast (dm_format m))
     \<and> 1 \<le> dm_format m \<and> dm_format m \<le> 4 \<and> dm_digest m = sha256 bytes
     \<and> read_graph_counts document members (dm_format m) = Ok (dm_node_count m, dm_transition_count m)"
  using assms
  by (auto simp: definition_manifest_read_def check_manifest_format_Ok split: if_splits
      dest!: try_from_u64_Some intro!: exI)

text \<open>
  C20. A manifest the reader accepts fulfils its contract: the bytes are within the durable bound
  and are exactly the canonical encoding of a JSON object without floats; the recorded format is
  the document's own and one this runtime interprets; a graph is counted for the flow formats
  and stays within the node and transition bounds; and \<^verbatim>\<open>read_verified\<close> accepts exactly the
  manifests that in addition hash to the expected fingerprint.
\<close>

theorem manifest_read_contract:
  assumes "definition_manifest_read to_vec from_slice sha256 bytes = Ok m"
  shows "(\<exists>document members.
     from_slice bytes = Some document \<and> as_object document = Some members
     \<and> to_vec document = Some bytes \<and> \<not> contains_float document
     \<and> and_then (member_get members ''format'') as_u64 = Some (ucast (dm_format m)))
   \<and> length bytes \<le> MAX_MANIFEST_BYTES \<and> 1 \<le> dm_format m \<and> dm_format m \<le> 4
   \<and> dm_digest m = sha256 bytes
   \<and> (dm_node_count m = None \<longleftrightarrow> dm_format m = MANIFEST_FORMAT_ONE_STEP)
   \<and> (\<forall>n. dm_node_count m = Some n \<longrightarrow> n \<le> MAX_NODES)
   \<and> (\<forall>n. dm_transition_count m = Some n \<longrightarrow> n \<le> MAX_TRANSITIONS)
   \<and> (\<forall>expected. read_verified to_vec from_slice sha256 bytes expected =
        (if sha256 bytes = expected then Ok m else Err DigestMismatch))"
proof -
  obtain document members where parts:
    "from_slice bytes = Some document" "as_object document = Some members"
    "to_vec document = Some bytes" "length bytes \<le> MAX_MANIFEST_BYTES" "\<not> contains_float document"
    "and_then (member_get members ''format'') as_u64 = Some (ucast (dm_format m))"
    "1 \<le> dm_format m" "dm_format m \<le> 4" "dm_digest m = sha256 bytes"
    "read_graph_counts document members (dm_format m) = Ok (dm_node_count m, dm_transition_count m)"
    using read_Ok_parts [OF assms] by blast
  have "dm_format m \<in> {1, 2, 3, 4}"
  proof -
    have "1 \<le> unat (dm_format m)" "unat (dm_format m) \<le> 4"
      using parts(7,8) by (simp_all add: word_le_nat_alt)
    then have "unat (dm_format m) = 1 \<or> unat (dm_format m) = 2 \<or> unat (dm_format m) = 3 \<or> unat (dm_format m) = 4"
      by linarith
    then show ?thesis by (auto simp: word_unat_eq_iff)
  qed
  with read_graph_counts_bounded [OF parts(10)] parts assms show ?thesis
    unfolding read_verified_def by (auto simp: manifest_formats)
qed

text \<open>The empty-graph manifest of a one-step definition, as an instance.\<close>

definition example_document :: json where
  "example_document = json_object [(''format'', json_unsigned (1 :: u16))]"

theorem manifest_read_contract_witness:
  "definition_manifest_read (\<lambda>_. Some [7]) (\<lambda>_. Some example_document) (\<lambda>b. b) [7]
     = Ok \<lparr>dm_format = 1, dm_digest = [7], dm_job_name = None, dm_node_count = None,
           dm_transition_count = None\<rparr>
   \<and> read_verified (\<lambda>_. Some [7]) (\<lambda>_. Some example_document) (\<lambda>b. b) [7] [8] = Err DigestMismatch"
proof -
  have read: "definition_manifest_read (\<lambda>_. Some [7]) (\<lambda>_. Some example_document) (\<lambda>b. b) [7]
     = Ok \<lparr>dm_format = 1, dm_digest = [7], dm_job_name = None, dm_node_count = None,
           dm_transition_count = None\<rparr>"
    by (simp add: definition_manifest_read_def example_document_def json_object_def object_members_def bt_collect_def
        json_unsigned_def member_get_def bt_get_def try_from_u64_def check_manifest_format_def
        read_graph_counts_def manifest_formats MAX_MANIFEST_BYTES_def lit_def)
  show ?thesis using read manifest_read_contract [OF read] by auto
qed

section \<open>Durable identities\<close>

lemma from_durable_canonical:
  assumes "length b \<le> MAX_MANIFEST_BYTES" and "check_manifest_format f = Ok u"
    and "from_slice b = Some document" and "to_vec document = Some b" and "is_object document"
    and "and_then (json_get document ''format'') as_u64 = Some (ucast f)"
  shows "from_durable to_vec from_slice sha256 job revision f b expected =
     (if sha256 b = expected then Ok (from_canonical sha256 (Some job) revision b f)
      else Err ManifestEncoding)"
  using assms
  by (simp add: from_durable_def Let_def from_canonical_def not_less del: and_then_eq_Some)

text \<open>
  C39. A definition identity survives its durable form: reading back the fields that a flow identity
  or a one-step identity stores gives the same identity, and a stored digest that is not the
  hash of the stored bytes is refused. For one-step identities, whose constructor does not parse
  what it prints, this needs that the parser reads the printed manifest back.
\<close>

theorem definition_identity_durable:
  assumes "from_flow_manifest to_vec from_slice sha256 job revision canonical = Ok i
     \<or> (from_slice (di_canonical_manifest i) = Some (tasklet_manifest job step component)
        \<and> tasklet_identity to_vec sha256 job step revision component = Ok i)
     \<or> (from_slice (di_canonical_manifest i) = Some (chunk_manifest job step chunk_sz components)
        \<and> chunk_identity to_vec sha256 job step chunk_sz revision components = Ok i)"
  shows "from_durable to_vec from_slice sha256 job (di_revision i) (di_manifest_format i)
           (di_canonical_manifest i) expected
         = (if expected = di_manifest_digest i then Ok i else Err ManifestEncoding)"
proof -
  obtain b f where i: "i = from_canonical sha256 (Some job) revision b f" and
    parts: "length b \<le> MAX_MANIFEST_BYTES" "check_manifest_format f = Ok ()" and
    "\<exists>document. from_slice b = Some document \<and> to_vec document = Some b \<and> is_object document
        \<and> and_then (json_get document ''format'') as_u64 = Some (ucast f)"
    using assms(1)
  proof (elim disjE conjE)
    assume "from_flow_manifest to_vec from_slice sha256 job revision canonical = Ok i"
    then show thesis
      by (intro that [of canonical "di_manifest_format i"])
         (auto simp: from_flow_manifest_def from_canonical_def check_manifest_format_Ok manifest_formats
           split: if_splits dest!: try_from_u64_Some)
  next
    assume "from_slice (di_canonical_manifest i) = Some (tasklet_manifest job step component)"
      and "tasklet_identity to_vec sha256 job step revision component = Ok i"
    then show thesis
      by (intro that [of "di_canonical_manifest i" 1])
         (auto simp: tasklet_identity_def definition_encode_def from_canonical_def
           check_manifest_format_Ok manifest_formats tasklet_manifest_def split: if_splits)
  next
    assume "from_slice (di_canonical_manifest i) = Some (chunk_manifest job step chunk_sz components)"
      and "chunk_identity to_vec sha256 job step chunk_sz revision components = Ok i"
    then show thesis
      by (intro that [of "di_canonical_manifest i" 1])
         (auto simp: chunk_identity_def definition_encode_def from_canonical_def Let_def
           check_manifest_format_Ok manifest_formats chunk_manifest_def
           split: if_splits option.splits)
  qed
  with from_durable_canonical [OF parts] show ?thesis
    by (auto simp: from_canonical_def simp del: and_then_eq_Some)
qed

theorem definition_identity_durable_witness:
  "\<exists>i. tasklet_identity (\<lambda>_. Some [1]) (\<lambda>b. b) (lit ''j'') (lit ''s'') (lit ''r'') (lit ''c'') = Ok i
    \<and> from_durable (\<lambda>_. Some [1]) (\<lambda>_. Some (tasklet_manifest (lit ''j'') (lit ''s'') (lit ''c'')))
        (\<lambda>b. b) (lit ''j'') (lit ''r'') 1 [1] [1] = Ok i"
proof -
  let ?m = "tasklet_manifest (lit ''j'') (lit ''s'') (lit ''c'')"
  let ?i = "from_canonical (\<lambda>b. b) (Some (lit ''j'')) (lit ''r'') [1] 1"
  have t: "tasklet_identity (\<lambda>_. Some [1]) (\<lambda>b. b) (lit ''j'') (lit ''s'') (lit ''r'') (lit ''c'') = Ok ?i"
    by (simp add: tasklet_identity_def definition_encode_def manifest_formats MAX_MANIFEST_BYTES_def)
  moreover have "from_durable (\<lambda>_. Some [1]) (\<lambda>_. Some ?m) (\<lambda>b. b) (lit ''j'') (lit ''r'') 1 [1] [1] = Ok ?i"
    using definition_identity_durable [of "\<lambda>_. Some [1]" "\<lambda>_. Some ?m" "\<lambda>b. b" "lit ''j''" "lit ''r''" "[]"
        ?i "lit ''s''" "lit ''c''" undefined undefined "[1]"] t
    by (simp add: from_canonical_def)
  ultimately show ?thesis by blast
qed

end
