(* ===== verification/Plan_Error.thy ===== *)
theory Plan_Error
  imports Scope
begin

text \<open>
  The errors of the flow compiler and of transition selection, \<^verbatim>\<open>PlanError\<close> and
  \<^verbatim>\<open>FlowSelectionError\<close> of \<^verbatim>\<open>lib.rs\<close> of \<^verbatim>\<open>oxide-batch-plan\<close>. The fields of a variant are the
  arguments of its constructor, in order.
\<close>

type_synonym exit_pattern = rstr
type_synonym repeat_id = rstr

datatype plan_error =
    MissingEntryNode
  | DuplicateNodeId node_id
  | UndefinedNode node_id
  | MissingTransition node_id
  | AmbiguousTransition node_id exit_pattern exit_pattern
  | UnreachableNode node_id
  | CyclicGraph node_id
  | TooManyNodes nat
  | TooManyTransitions nat
  | TooManyOutgoingTransitions node_id nat
  | InvalidPattern nat
  | ZeroDecisionInputVersion
  | InvalidSplitBranchCount node_id nat nat
  | InvalidBranchLength node_id nat
  | SplitIsEntry node_id
  | InvalidSplitJoin node_id node_id
  | JoinHasMultipleOwners node_id node_id node_id
  | OrphanJoin node_id
  | JoinHasExternalEntry node_id
  | SplitHasExplicitTransition node_id
  | ParallelBudgetExceedsBranches node_id nat
  | InvalidParallelBranchBudget nat
  | InvalidPartitionWorkerBudget u8
  | InsufficientPoolCapacity u32 u32
  | InvalidPartitionCount u16
  | CompositionDepthExceeded nat
  | UnmappedNestedFlowExit node_id exit_code
  | InvalidSelectorPath nat nat
  | NestedJobMissingChildIdentity node_id
  | TooManyScopedComponents nat
  | DuplicateScopedComponent scope_kind scoped_component_id
  | DuplicateRepeatId repeat_id
  | TooManyNestedJobParameters node_id nat
  | DuplicateNestedJobParameter node_id parameter_name
  | PlanToken definition_error
  | PlanManifest definition_error

datatype flow_selection_error =
    UnknownNode node_id
  | UnmappedExitOutcome node_id exit_code

end
