(* ===== verification/Repeat_Definition.thy ===== *)
theory Repeat_Definition
  imports Manifest_Reader Plan_Error
begin

text \<open>
  Repeat declarations, from \<^verbatim>\<open>repeat.rs\<close> of \<^verbatim>\<open>oxide-batch-plan\<close>: bounded wrapper chains with
  distinct identities, and their manifest members.
\<close>

section \<open>Declarations\<close>

type_synonym repeat_interceptor_id = rstr

record repeat_policy_definition =
  rpd_kind :: rstr
  rpd_revision :: component_revision
  rpd_configuration :: rstr

record repeat_interceptor_definition =
  rid_id :: repeat_interceptor_id
  rid_kind :: rstr
  rid_revision :: component_revision

record repeat_state_schema =
  rss_schema :: state_schema_id
  rss_version :: state_schema_version

datatype repeat_definition = RepeatDefinition
  (rd_id: repeat_id) (rd_policy: repeat_policy_definition)
  (rd_interceptors: "repeat_interceptor_definition list") (rd_state: repeat_state_schema)
  (rd_nested: "repeat_definition option") (rd_depth: nat)

datatype repeat_definition_error =
    TooManyInterceptors nat
  | DuplicateInterceptorId repeat_interceptor_id
  | NestingTooDeep nat
  | DuplicateRepeatIdInChain repeat_id

text \<open>The first identity that was inserted before, if any, and the final set.\<close>

fun insert_distinct :: "'a list \<Rightarrow> 'a set \<Rightarrow> 'a + 'a set" where
  "insert_distinct [] ids = Ok ids"
| "insert_distinct (i # is) ids = (if i \<in> ids then Err i else insert_distinct is (insert i ids))"

definition repeat_definition_new ::
  "repeat_id \<Rightarrow> repeat_policy_definition \<Rightarrow> repeat_interceptor_definition list \<Rightarrow> repeat_state_schema
   \<Rightarrow> repeat_definition_error + repeat_definition" where
  "repeat_definition_new i policy interceptors state =
     (if length interceptors > MAX_REPEAT_INTERCEPTORS
      then Err (TooManyInterceptors MAX_REPEAT_INTERCEPTORS)
      else res_bind (map_err DuplicateInterceptorId (insert_distinct (map rid_id interceptors) {})) (\<lambda>_.
        Ok (RepeatDefinition i policy interceptors state None 1)))"

fun repeat_contains_id :: "repeat_definition \<Rightarrow> repeat_id \<Rightarrow> bool" where
  "repeat_contains_id (RepeatDefinition i policy interceptors state nested depth) k \<longleftrightarrow>
     i = k \<or> (case nested of None \<Rightarrow> False | Some n \<Rightarrow> repeat_contains_id n k)"

definition repeat_with_nested ::
  "repeat_definition \<Rightarrow> repeat_definition \<Rightarrow> repeat_definition_error + repeat_definition" where
  "repeat_with_nested self nested =
     (if repeat_contains_id nested (rd_id self) then Err (DuplicateRepeatIdInChain (rd_id self))
      else (let depth = rd_depth nested + 1 in
        if depth > MAX_REPEAT_NESTING_DEPTH then Err (NestingTooDeep MAX_REPEAT_NESTING_DEPTH)
        else Ok (RepeatDefinition (rd_id self) (rd_policy self) (rd_interceptors self)
                   (rd_state self) (Some nested) depth)))"

fun repeat_register_ids :: "repeat_definition \<Rightarrow> repeat_id set \<Rightarrow> repeat_id + repeat_id set" where
  "repeat_register_ids (RepeatDefinition i policy interceptors state nested depth) ids =
     (if i \<in> ids then Err i
      else (case nested of
              None \<Rightarrow> Ok (insert i ids)
            | Some n \<Rightarrow> repeat_register_ids n (insert i ids)))"

section \<open>Manifest members\<close>

definition repeat_policy_manifest :: "repeat_policy_definition \<Rightarrow> json" where
  "repeat_policy_manifest p =
     json_object [(''configuration'', json_string (rpd_configuration p)),
                  (''kind'', json_string (rpd_kind p)),
                  (''revision'', json_string (rpd_revision p))]"

definition repeat_interceptor_manifest :: "repeat_interceptor_definition \<Rightarrow> json" where
  "repeat_interceptor_manifest p =
     json_object [(''id'', json_string (rid_id p)),
                  (''kind'', json_string (rid_kind p)),
                  (''revision'', json_string (rid_revision p))]"

definition repeat_state_manifest :: "repeat_state_schema \<Rightarrow> json" where
  "repeat_state_manifest p =
     json_object [(''schema'', json_string (rss_schema p)),
                  (''version'', json_unsigned (rss_version p))]"

fun repeat_manifest_value :: "repeat_definition \<Rightarrow> json" where
  "repeat_manifest_value (RepeatDefinition i policy interceptors state nested depth) =
     (let v = json_object
        [(''id'', json_string i),
         (''interceptors'', JArray (map repeat_interceptor_manifest interceptors)),
         (''policy'', repeat_policy_manifest policy),
         (''state'', repeat_state_manifest state)]
      in case nested of
           None \<Rightarrow> v
         | Some n \<Rightarrow> object_insert ''nested'' (repeat_manifest_value n) v)"

section \<open>Chains\<close>

text \<open>The identities of a wrapper chain from the outside in.\<close>

fun repeat_chain :: "repeat_definition \<Rightarrow> repeat_definition list" where
  "repeat_chain (RepeatDefinition i policy interceptors state nested depth) =
     RepeatDefinition i policy interceptors state nested depth #
       (case nested of None \<Rightarrow> [] | Some n \<Rightarrow> repeat_chain n)"

text \<open>What construction guarantees: the recorded depth is the length of the chain.\<close>

definition repeat_wf :: "repeat_definition \<Rightarrow> bool" where
  "repeat_wf r \<longleftrightarrow>
     distinct (map rd_id (repeat_chain r)) \<and> length (repeat_chain r) \<le> MAX_REPEAT_NESTING_DEPTH
     \<and> (\<forall>d \<in> set (repeat_chain r). rd_depth d = length (repeat_chain d)
           \<and> length (rd_interceptors d) \<le> MAX_REPEAT_INTERCEPTORS
           \<and> distinct (map rid_id (rd_interceptors d)))"

lemma insert_distinct_Ok:
  "insert_distinct is ids = Ok ids' \<longleftrightarrow> distinct is \<and> set is \<inter> ids = {} \<and> ids' = ids \<union> set is"
  by (induction "is" ids rule: insert_distinct.induct) auto

lemma repeat_contains_id_iff: "repeat_contains_id r k \<longleftrightarrow> k \<in> set (map rd_id (repeat_chain r))"
  by (induction r k rule: repeat_contains_id.induct) (auto split: option.splits)

lemma repeat_chain_nonempty [simp]: "repeat_chain r \<noteq> []"
  by (cases r) simp

lemma repeat_chain_self [simp]: "r \<in> set (repeat_chain r)"
  by (cases r) simp

lemma repeat_definition_new_wf: "repeat_definition_new i p xs s = Ok r \<Longrightarrow> repeat_wf r"
  by (auto simp: repeat_definition_new_def repeat_wf_def insert_distinct_Ok MAX_REPEAT_NESTING_DEPTH_def
      split: if_splits)

lemma repeat_with_nested_wf:
  assumes "repeat_wf self" and "repeat_wf nested" and "repeat_with_nested self nested = Ok r"
  shows "repeat_wf r"
proof -
  have d: "rd_depth nested = length (repeat_chain nested)" using assms(2) by (simp add: repeat_wf_def)
  have "length (rd_interceptors self) \<le> MAX_REPEAT_INTERCEPTORS" "distinct (map rid_id (rd_interceptors self))"
    using assms(1) by (simp_all add: repeat_wf_def)
  with assms(2,3) d show ?thesis
    by (auto simp: repeat_with_nested_def Let_def repeat_contains_id_iff repeat_wf_def split: if_splits)
qed

lemma repeat_register_ids_Ok:
  "repeat_register_ids r ids = Ok ids' \<longleftrightarrow>
     distinct (map rd_id (repeat_chain r)) \<and> set (map rd_id (repeat_chain r)) \<inter> ids = {}
     \<and> ids' = ids \<union> set (map rd_id (repeat_chain r))"
  by (induction r ids arbitrary: ids' rule: repeat_register_ids.induct) (auto split: option.splits)

section \<open>The core reader accepts what the plan writes\<close>

lemma keys_bt_collect: "fst ` set (bt_collect es) = fst ` set es"
proof -
  have "fst ` set (fold (\<lambda>(k, v). bt_insert k v) es m) = fst ` set es \<union> fst ` set m" for m
    by (induction es arbitrary: m) (simp_all add: case_prod_unfold Un_commute)
  from this [of "[]"] show ?thesis by (simp add: bt_collect_def)
qed

lemma length_bt_collect: "distinct (map fst es) \<Longrightarrow> length (bt_collect es) = length es"
  using bt_wf_distinct [OF bt_wf_collect [of es]] keys_bt_collect [of es]
  by (metis distinct_card length_map set_map)

lemma object_member_keys: "fst ` set (object_members ms) = lit ` fst ` set ms"
  by (simp add: object_members_def keys_bt_collect image_image case_prod_unfold)

lemma list_all_keys: "list_all (\<lambda>(k, v). P k) m \<longleftrightarrow> (\<forall>k \<in> fst ` set m. P k)"
  by (auto simp: list_all_iff case_prod_unfold)

lemma length_object_members:
  assumes "distinct (map fst ms)"
  shows "length (object_members ms) = length ms"
proof -
  have "map fst (map (\<lambda>(k, v). (lit k, v)) ms) = map lit (map fst ms)" by (simp add: case_prod_unfold)
  moreover have "distinct (map lit (map fst ms))"
    using assms by (intro distinct_map [THEN iffD2]) (auto intro: inj_onI)
  ultimately show ?thesis
    by (metis length_bt_collect length_map object_members_def)
qed

lemma exact_members_object:
  "distinct (map fst ms) \<Longrightarrow> map fst ms = required \<Longrightarrow> exact_members (object_members ms) required"
  unfolding exact_members_def list_all_keys object_member_keys
  by (auto simp: length_object_members simp flip: set_map)

lemma allowed_members_object:
  "set (map fst ms) \<subseteq> set names \<Longrightarrow> list_all (\<lambda>(k, v). k \<in> set (map lit names)) (object_members ms)"
  unfolding list_all_keys object_member_keys by auto

lemma allowed_members_insert:
  "k \<in> set names \<Longrightarrow> list_all (\<lambda>(k, v). k \<in> set (map lit names)) m \<Longrightarrow>
   list_all (\<lambda>(k, v). k \<in> set (map lit names)) (bt_insert (lit k) v m)"
  using set_bt_insert_subset [of "lit k" v m] by (auto simp: list_all_iff)

lemma member_get_insert [simp]:
  "member_get (bt_insert (lit k) v m) l = (if l = k then Some v else member_get m l)"
  by (auto simp: member_get_def bt_get_insert)

lemma member_get_object [simp]:
  "member_get (object_members ms) k = map_of (rev ms) k"
  using json_get_object [of ms k] by (simp add: json_get_def json_object_def member_get_def)

lemma require_object_object [simp]:
  "require_object (json_object ms) = Ok (object_members ms)"
  by (simp add: require_object_def json_object_def)

lemma require_object_insert [simp]:
  "require_object (object_insert k v (json_object ms)) = Ok (bt_insert (lit k) v (object_members ms))"
  by (simp add: require_object_def json_object_def)

lemma try_from_u64_ucast:
  assumes "LENGTH('a) \<le> 64"
  shows "try_from_u64 (ucast (v :: 'a::len word)) = Some v"
proof -
  have "unat v < 2 ^ 64"
    using assms power_increasing [of "LENGTH('a)" 64 "2 :: nat"]
    by (intro less_le_trans [OF unsigned_less [of v]]) simp
  then have "unat (ucast v :: u64) = unat v" by (simp add: unsigned_ucast_eq take_bit_nat_eq_self)
  moreover have "unat (ucast (ucast v :: u64) :: 'a word) = take_bit LENGTH('a) (unat (ucast v :: u64))"
    by (rule unsigned_ucast_eq)
  ultimately have "(ucast (ucast v :: u64) :: 'a word) = v"
    by (simp only: word_unat_eq_iff) (simp add: take_bit_nat_eq_self)
  with \<open>unat (ucast v :: u64) = unat v\<close> show ?thesis by (simp only: try_from_u64_def) simp
qed

text \<open>Strings that the token and schema constructors accept.\<close>

definition token_ok :: "rstr \<Rightarrow> bool" where
  "token_ok v \<longleftrightarrow> name_valid MAX_TOKEN_BYTES v"

lemma validate_token_ok: "token_ok v \<Longrightarrow> validate_token v k = Ok ()"
  using definition_token_new_Ok_iff [of k v v] by (auto simp: token_ok_def definition_token_new_def)

lemma component_revision_ok: "token_ok v \<Longrightarrow> component_revision_new v = Ok v"
  by (simp add: component_revision_new_def definition_token_new_Ok_iff token_ok_def)

definition interceptor_tokens_ok :: "repeat_interceptor_definition \<Rightarrow> bool" where
  "interceptor_tokens_ok p \<longleftrightarrow> token_ok (rid_id p) \<and> token_ok (rid_kind p) \<and> token_ok (rid_revision p)"

definition repeat_tokens_ok :: "repeat_definition \<Rightarrow> bool" where
  "repeat_tokens_ok r \<longleftrightarrow>
     (\<forall>d \<in> set (repeat_chain r).
        token_ok (rd_id d) \<and> token_ok (rpd_kind (rd_policy d))
        \<and> token_ok (rpd_revision (rd_policy d)) \<and> token_ok (rpd_configuration (rd_policy d))
        \<and> list_all interceptor_tokens_ok (rd_interceptors d)
        \<and> state_schema_id_valid (rss_schema (rd_state d)) \<and> rss_version (rd_state d) \<noteq> 0)"

lemma repeat_policy_accepted:
  "token_ok (rpd_kind p) \<Longrightarrow> token_ok (rpd_revision p) \<Longrightarrow> token_ok (rpd_configuration p) \<Longrightarrow>
   validate_repeat_policy (repeat_policy_manifest p) = Ok ()"
  by (simp add: validate_repeat_policy_def repeat_policy_manifest_def exact_members_object get_str_def
      malformed_def validate_token_ok component_revision_ok)

lemma repeat_state_accepted:
  "state_schema_id_valid (rss_schema p) \<Longrightarrow> rss_version p \<noteq> 0 \<Longrightarrow>
   validate_repeat_state (repeat_state_manifest p) = Ok ()"
  by (simp add: validate_repeat_state_def repeat_state_manifest_def exact_members_object get_str_def
      try_from_u64_ucast)

lemma repeat_interceptors_accepted:
  "list_all interceptor_tokens_ok ps \<Longrightarrow> distinct (map rid_id ps) \<Longrightarrow> rid_id ` set ps \<inter> ids = {} \<Longrightarrow>
   try_fold validate_repeat_interceptor (map repeat_interceptor_manifest ps) ids = Ok (ids \<union> rid_id ` set ps)"
proof (induction ps arbitrary: ids)
  case (Cons p ps)
  then have "validate_repeat_interceptor (repeat_interceptor_manifest p) ids = Ok (insert (rid_id p) ids)"
    by (simp add: validate_repeat_interceptor_def repeat_interceptor_manifest_def exact_members_object
        get_str_def malformed_def validate_token_ok component_revision_ok interceptor_tokens_ok_def)
  with Cons show ?case by auto
qed simp

lemma repeat_definition_accepted:
  "repeat_tokens_ok r \<Longrightarrow> distinct (map rd_id (repeat_chain r)) \<Longrightarrow>
   (\<forall>d \<in> set (repeat_chain r). length (rd_interceptors d) \<le> MAX_REPEAT_INTERCEPTORS
           \<and> distinct (map rid_id (rd_interceptors d))) \<Longrightarrow>
   depth + length (repeat_chain r) \<le> Suc MAX_REPEAT_NESTING_DEPTH \<Longrightarrow>
   validate_repeat_definition (repeat_manifest_value r) ids depth = malformed (repeat_register_ids r ids)"
proof (induction r arbitrary: ids depth rule: repeat_manifest_value.induct)
  case (1 i policy interceptors state nested recorded)
  let ?ms = "[(''id'', json_string i), (''interceptors'', JArray (map repeat_interceptor_manifest interceptors)),
    (''policy'', repeat_policy_manifest policy), (''state'', repeat_state_manifest state)]"
  have i: "token_ok i" and depth: "\<not> depth > MAX_REPEAT_NESTING_DEPTH"
    using "1.prems" by (auto simp: repeat_tokens_ok_def)
  have parts: "validate_repeat_policy (repeat_policy_manifest policy) = Ok ()"
    "validate_repeat_state (repeat_state_manifest state) = Ok ()"
    using "1.prems"(1) by (auto simp: repeat_tokens_ok_def intro: repeat_policy_accepted repeat_state_accepted)
  have ints: "length interceptors \<le> MAX_REPEAT_INTERCEPTORS"
    "try_fold validate_repeat_interceptor (map repeat_interceptor_manifest interceptors) {} =
       Ok (rid_id ` set interceptors)"
    using "1.prems"(1,3) repeat_interceptors_accepted [of interceptors "{}"]
    by (auto simp: repeat_tokens_ok_def)
  note checks = i depth parts ints validate_token_ok [OF i]
  show ?case
  proof (cases nested)
    case None
    have "list_all (\<lambda>(k, v). k \<in> set (map lit [''id'', ''interceptors'', ''nested'', ''policy'', ''state'']))
        (object_members ?ms)"
      by (rule allowed_members_object) simp
    with checks None show ?thesis
      by (subst validate_repeat_definition.simps)
         (simp add: Let_def get_str_def get_array_def malformed_def)
  next
    case (Some n)
    have "list_all (\<lambda>(k, v). k \<in> set (map lit [''id'', ''interceptors'', ''nested'', ''policy'', ''state'']))
        (bt_insert (lit ''nested'') (repeat_manifest_value n) (object_members ?ms))"
      by (intro allowed_members_insert allowed_members_object) simp_all
    moreover have "validate_repeat_definition (repeat_manifest_value n) (insert i ids) (Suc depth) =
        malformed (repeat_register_ids n (insert i ids))"
      using "1.prems" Some by (intro "1.IH") (auto simp: repeat_tokens_ok_def)
    ultimately show ?thesis
      using checks Some
      by (subst validate_repeat_definition.simps)
         (simp add: Let_def get_str_def get_array_def malformed_def)
  qed
qed

text \<open>The declarations a program can build with the two constructors.\<close>

inductive repeat_built :: "repeat_definition \<Rightarrow> bool" where
  leaf: "repeat_definition_new i p xs s = Ok r \<Longrightarrow> repeat_built r"
| wrap: "repeat_built self \<Longrightarrow> repeat_built nested \<Longrightarrow> repeat_with_nested self nested = Ok r \<Longrightarrow>
    repeat_built r"

text \<open>
  C40. Every repeat declaration the constructors accept is a chain of at most eight wrappers with
  distinct identities, at most 32 distinct interceptors each and a recorded depth equal to the
  length of the chain. For such a chain of valid tokens the manifest reader of the core crate
  and the plan compiler agree: the reader accepts the written member exactly when the compiler
  registers the chain's identities, and records the same identities.
\<close>

theorem repeat_declarations_sound:
  assumes "repeat_built r" and "repeat_tokens_ok r"
  shows "repeat_wf r \<and>
    validate_repeat_definition (repeat_manifest_value r) ids 1 = malformed (repeat_register_ids r ids)"
proof -
  have "repeat_wf r"
    using assms(1)
    by induction (auto intro: repeat_definition_new_wf repeat_with_nested_wf)
  with repeat_definition_accepted [OF assms(2), of 1 ids] show ?thesis
    by (auto simp: repeat_wf_def)
qed

definition example_repeat :: "string \<Rightarrow> repeat_definition option \<Rightarrow> nat \<Rightarrow> repeat_definition" where
  "example_repeat i nested depth =
     RepeatDefinition (lit i)
       \<lparr>rpd_kind = lit ''count'', rpd_revision = lit ''v1'', rpd_configuration = lit ''10''\<rparr>
       [\<lparr>rid_id = lit ''i'', rid_kind = lit ''audit'', rid_revision = lit ''v1''\<rparr>]
       \<lparr>rss_schema = lit ''s'', rss_version = 1\<rparr> nested depth"

theorem repeat_declarations_sound_witness:
  "validate_repeat_definition
     (repeat_manifest_value (example_repeat ''b'' (Some (example_repeat ''a'' None 1)) 2)) {} 1 =
   Ok {lit ''a'', lit ''b''}"
proof -
  let ?a = "example_repeat ''a'' None 1" and ?b = "example_repeat ''b'' None 1"
  let ?r = "example_repeat ''b'' (Some ?a) 2"
  have "repeat_built (example_repeat i None 1)" for i
    by (rule leaf [of "lit i" "rd_policy (example_repeat i None 1)"
          "rd_interceptors (example_repeat i None 1)" "rd_state (example_repeat i None 1)"])
       (simp add: repeat_definition_new_def example_repeat_def MAX_REPEAT_INTERCEPTORS_def)
  from this this have "repeat_built ?r"
    by (rule wrap [where self = ?b and nested = ?a])
       (simp add: repeat_with_nested_def example_repeat_def MAX_REPEAT_NESTING_DEPTH_def)
  moreover have "repeat_tokens_ok ?r"
    by (simp add: repeat_tokens_ok_def example_repeat_def token_ok_def name_valid_def
        interceptor_tokens_ok_def state_schema_id_valid_def lit_def str_len_def utf8_width_def
        trim_eq_self_iff is_whitespace_def is_control_def MAX_TOKEN_BYTES_def MAX_SCHEMA_ID_BYTES_def)
  ultimately have "validate_repeat_definition (repeat_manifest_value ?r) {} 1 =
      malformed (repeat_register_ids ?r {})"
    using repeat_declarations_sound by blast
  then show ?thesis by (simp add: example_repeat_def malformed_def)
qed

end
