(* ===== verification/Exit_Pattern.thy ===== *)
theory Exit_Pattern
  imports Plan_Error "HOL-Library.While_Combinator"
begin

text \<open>
  Exit patterns, from \<^verbatim>\<open>lib.rs\<close> of \<^verbatim>\<open>oxide-batch-plan\<close>: validation, the iterative matcher with one
  backtracking point, the memoised intersection test and the specificity order. The meaning of a
  pattern is the relation \<open>glob\<close>; the theory proves that the matcher decides it, that the
  intersection test decides whether two patterns have a common match, and that both loops end.
\<close>

section \<open>Validation\<close>

definition MAX_PATTERN_BYTES :: nat where "MAX_PATTERN_BYTES = 64"

definition exit_pattern_new :: "rstr \<Rightarrow> plan_error + exit_pattern" where
  "exit_pattern_new v =
     (if v = [] \<or> str_len v > MAX_PATTERN_BYTES \<or> trim v \<noteq> v \<or> list_ex is_control v
      then Err (InvalidPattern MAX_PATTERN_BYTES)
      else Ok v)"

text \<open>The code points of \<^verbatim>\<open>'*'\<close> and \<^verbatim>\<open>'?'\<close>.\<close>

definition star_char :: nat where "star_char = 42"
definition question_char :: nat where "question_char = 63"

section \<open>The matcher\<close>

text \<open>
  The loop state of \<^verbatim>\<open>matches_from\<close>: the two indices, the backtracking point and whether the loop
  has left with \<^verbatim>\<open>return false\<close>.
\<close>

type_synonym match_state = "nat \<times> nat \<times> (nat \<times> nat) option \<times> bool"

definition pattern_get :: "rstr \<Rightarrow> nat \<Rightarrow> nat option" where
  "pattern_get p i = (if i < length p then Some (p ! i) else None)"

definition backtrack :: "nat \<Rightarrow> nat \<Rightarrow> (nat \<times> nat) option \<Rightarrow> match_state" where
  "backtrack pi vi star =
     (case star of
        Some (star_index, resume) \<Rightarrow> (star_index + 1, resume + 1, Some (star_index, resume + 1), False)
      | None \<Rightarrow> (pi, vi, star, True))"

definition matches_step :: "rstr \<Rightarrow> rstr \<Rightarrow> match_state \<Rightarrow> match_state" where
  "matches_step pattern v s =
     (case s of (pi, vi, star, failed) \<Rightarrow>
        case pattern_get pattern pi of
          Some c \<Rightarrow>
            if c = star_char then (pi + 1, vi, Some (pi, vi), failed)
            else if c = question_char then (pi + 1, vi + 1, star, failed)
            else if c = v ! vi then (pi + 1, vi + 1, star, failed)
            else backtrack pi vi star
        | None \<Rightarrow> backtrack pi vi star)"

definition matches_loop :: "rstr \<Rightarrow> rstr \<Rightarrow> match_state option" where
  "matches_loop pattern v =
     while_option (\<lambda>(pi, vi, star, failed). \<not> failed \<and> vi < length v) (matches_step pattern v)
       (0, 0, None, False)"

text \<open>\<open>None\<close> would be a loop that never ends; it does not occur.\<close>

definition matches_from :: "rstr \<Rightarrow> rstr \<Rightarrow> bool option" where
  "matches_from pattern v =
     map_option (\<lambda>(pi, vi, star, failed).
         \<not> failed \<and> list_all (\<lambda>c. c = star_char) (drop pi pattern)) (matches_loop pattern v)"

definition exit_pattern_matches :: "exit_pattern \<Rightarrow> exit_code \<Rightarrow> bool" where
  "exit_pattern_matches p code \<longleftrightarrow> matches_from p code = Some True"

section \<open>Intersection\<close>

definition memo_key :: "rstr \<Rightarrow> nat \<Rightarrow> nat \<Rightarrow> nat" where
  "memo_key right i j = i * (length right + 1) + j"

function intersects_from ::
  "rstr \<Rightarrow> rstr \<Rightarrow> nat \<Rightarrow> nat \<Rightarrow> bool option list \<Rightarrow> bool \<times> bool option list" where
  "intersects_from left right i j memo =
     (let key = memo_key right i j in
      case memo ! key of
        Some cached \<Rightarrow> (cached, memo)
      | None \<Rightarrow>
          let (answer, memo) =
            (case (pattern_get left i, pattern_get right j) of
               (None, None) \<Rightarrow> (True, memo)
             | (None, Some _) \<Rightarrow> (list_all (\<lambda>c. c = star_char) (drop j right), memo)
             | (Some _, None) \<Rightarrow> (list_all (\<lambda>c. c = star_char) (drop i left), memo)
             | (Some a, Some b) \<Rightarrow>
                 if a = star_char then
                   (let (first, memo) = intersects_from left right (i + 1) j memo in
                    if first then (True, memo)
                    else intersects_from left right i (j + 1) memo)
                 else if b = star_char then
                   (let (first, memo) = intersects_from left right i (j + 1) memo in
                    if first then (True, memo)
                    else intersects_from left right (i + 1) j memo)
                 else if a = question_char \<or> b = question_char \<or> a = b
                 then intersects_from left right (i + 1) (j + 1) memo
                 else (False, memo))
          in (answer, memo[key := Some answer]))"
  by pat_completeness auto

lemma pattern_get_simps:
  "pattern_get p i = Some c \<longleftrightarrow> i < length p \<and> c = p ! i"
  "pattern_get p i = None \<longleftrightarrow> length p \<le> i"
  by (auto simp: pattern_get_def)

termination intersects_from
  by (relation "measure (\<lambda>(l, r, i, j, m). (length l - i) + (length r - j))")
     (auto simp: pattern_get_def split: if_splits)

declare intersects_from.simps [simp del]

definition exit_pattern_intersects :: "exit_pattern \<Rightarrow> exit_pattern \<Rightarrow> bool" where
  "exit_pattern_intersects p q =
     fst (intersects_from p q 0 0 (replicate ((length p + 1) * (length q + 1)) None))"

section \<open>Specificity\<close>

record pattern_specificity =
  psp_literals :: nat
  psp_wildcards :: nat
  psp_bytes :: nat

definition exit_pattern_specificity :: "exit_pattern \<Rightarrow> pattern_specificity" where
  "exit_pattern_specificity p =
     (let wildcards = length (filter (\<lambda>c. c = star_char \<or> c = question_char) p) in
      \<lparr>psp_literals = length p - wildcards, psp_wildcards = wildcards, psp_bytes = str_len p\<rparr>)"

datatype ordering = OrdLess | OrdEqual | OrdGreater

definition cmp :: "'a::linorder \<Rightarrow> 'a \<Rightarrow> ordering" where
  "cmp a b = (if a < b then OrdLess else if a = b then OrdEqual else OrdGreater)"

definition then_with :: "ordering \<Rightarrow> ordering \<Rightarrow> ordering" where
  "then_with a b = (if a = OrdEqual then b else a)"

definition specificity_cmp :: "pattern_specificity \<Rightarrow> pattern_specificity \<Rightarrow> ordering" where
  "specificity_cmp a b =
     then_with (then_with (cmp (psp_literals a) (psp_literals b))
                          (cmp (psp_wildcards b) (psp_wildcards a)))
       (cmp (psp_bytes a) (psp_bytes b))"

section \<open>What patterns mean\<close>

fun glob :: "rstr \<Rightarrow> rstr \<Rightarrow> bool" where
  "glob [] v = (v = [])"
| "glob (c # p) [] = (c = star_char \<and> glob p [])"
| "glob (c # p) (x # v) =
     (if c = star_char then glob p (x # v) \<or> glob (c # p) v
      else (c = question_char \<or> c = x) \<and> glob p v)"

lemma glob_Nil: "glob p [] = list_all (\<lambda>c. c = star_char) p"
  by (induction p) auto

lemma glob_star: "glob (star_char # p) v \<longleftrightarrow> (\<exists>k \<le> length v. glob p (drop k v))"
proof (induction v)
  case (Cons x v)
  have "(\<exists>k \<le> length (x # v). glob p (drop k (x # v))) \<longleftrightarrow>
      glob p (x # v) \<or> (\<exists>k \<le> length v. glob p (drop k v))" (is "?l \<longleftrightarrow> ?r")
  proof
    assume ?l
    then obtain k where "k \<le> length (x # v)" "glob p (drop k (x # v))" by blast
    then show ?r by (cases k) auto
  next
    assume ?r
    then show ?l by (metis drop_0 drop_Suc_Cons le0 length_Cons Suc_le_mono)
  qed
  with Cons.IH show ?case by simp
qed simp

text \<open>A star absorbs any prefix.\<close>

lemma glob_star_drop: "glob (star_char # p) (drop k v) \<Longrightarrow> glob (star_char # p) v"
proof (induction k arbitrary: v)
  case (Suc k)
  then show ?case by (cases v) auto
qed simp

text \<open>The part of a pattern without a star matches exactly its own length.\<close>

definition star_free :: "rstr \<Rightarrow> bool" where
  "star_free p \<longleftrightarrow> list_all (\<lambda>c. c \<noteq> star_char) p"

lemma glob_star_free_append:
  assumes "star_free p"
  shows "glob (p @ q) v \<longleftrightarrow>
     length p \<le> length v \<and> list_all2 (\<lambda>c x. c = question_char \<or> c = x) p (take (length p) v)
     \<and> glob q (drop (length p) v)"
  using assms
proof (induction p arbitrary: v)
  case (Cons c p)
  then show ?case by (cases v) (auto simp: star_free_def)
qed simp

section \<open>The matcher decides the meaning\<close>

text \<open>
  The situation after a star at which the matcher may resume: \<open>seg\<close> is the star-free part
  between the star and the current position, \<open>m\<close> the text it has matched, \<open>q\<close> and \<open>w\<close>
  what is left of pattern and text.
\<close>

abbreviation fits :: "rstr \<Rightarrow> rstr \<Rightarrow> bool" where
  "fits seg m \<equiv> list_all2 (\<lambda>c x. c = question_char \<or> c = x) seg m"

lemma glob_segment:
  assumes "star_free seg" and "fits seg m"
  shows "glob (seg @ q) (m @ w) = glob q w"
  using assms list_all2_lengthD [OF assms(2)] by (simp add: glob_star_free_append)

lemma glob_star_Cons:
  "glob (star_char # p) u \<longleftrightarrow> glob p u \<or> (u \<noteq> [] \<and> glob (star_char # p) (tl u))"
  by (cases u) auto

lemma glob_resume:
  assumes "star_free seg" and "fits seg m"
  shows "glob (star_char # seg @ q) (m @ w) \<longleftrightarrow>
     glob q w \<or> (m @ w \<noteq> [] \<and> glob (star_char # seg @ q) (tl (m @ w)))"
  using glob_star_Cons [of "seg @ q" "m @ w"] glob_segment [OF assms] by blast

lemma glob_new_star:
  assumes "star_free seg" and "fits seg m"
  shows "glob (star_char # seg @ star_char # q) (m @ w) = glob (star_char # q) w"
proof
  assume "glob (star_char # seg @ star_char # q) (m @ w)"
  then obtain k where k: "glob (seg @ star_char # q) (drop k (m @ w))"
    unfolding glob_star by blast
  have len: "length seg = length m" using assms(2) by (rule list_all2_lengthD)
  from k assms(1) have "glob (star_char # q) (drop (length m) (drop k (m @ w)))"
    by (simp add: glob_star_free_append len)
  also have "drop (length m) (drop k (m @ w)) = drop k (drop (length m) (m @ w))"
    by (simp only: drop_drop add.commute)
  also have "\<dots> = drop k w" by simp
  finally show "glob (star_char # q) w" by (rule glob_star_drop)
qed (use glob_resume [OF assms] in blast)

lemma glob_at_end:
  assumes "star_free seg" and "fits seg m"
  shows "glob (star_char # seg @ q) m = glob q []"
proof
  have len: "length seg = length m" using assms(2) by (rule list_all2_lengthD)
  assume "glob (star_char # seg @ q) m"
  then obtain k where "k \<le> length m" and k: "glob (seg @ q) (drop k m)"
    unfolding glob_star by blast
  with assms(1) have "length m \<le> length m - k" "glob q (drop (length m) (drop k m))"
    by (simp_all add: glob_star_free_append len)
  then show "glob q []" by simp
qed (use glob_resume [OF assms, of q "[]"] in simp)

fun match_inv :: "rstr \<Rightarrow> rstr \<Rightarrow> match_state \<Rightarrow> bool" where
  "match_inv p v (pi, vi, star, True) = (\<not> glob p v)"
| "match_inv p v (pi, vi, None, False) =
     (pi \<le> length p \<and> vi \<le> length v \<and> glob p v = glob (drop pi p) (drop vi v))"
| "match_inv p v (pi, vi, Some (s, r), False) =
     (pi \<le> length p \<and> vi \<le> length v \<and> r \<le> vi \<and>
      (\<exists>seg m. star_free seg \<and> fits seg m \<and> drop s p = star_char # seg @ drop pi p
         \<and> drop r v = m @ drop vi v \<and> pi = Suc s + length seg
         \<and> glob p v = glob (drop s p) (drop r v)))"

lemma drop_at: "i < length xs \<Longrightarrow> drop i xs = xs ! i # drop (Suc i) xs"
  by (simp add: Cons_nth_drop_Suc)

lemma fits_char_step:
  assumes "match_inv p v (pi, vi, star, False)" and "vi < length v" and "pi < length p"
    and "p ! pi \<noteq> star_char" and "p ! pi = question_char \<or> p ! pi = v ! vi"
  shows "match_inv p v (Suc pi, Suc vi, star, False)"
proof (cases star)
  case None
  with assms show ?thesis by (simp add: drop_at)
next
  case (Some sr)
  obtain s r where sr: "sr = (s, r)" by fastforce
  with assms Some obtain seg m where inv: "star_free seg" "fits seg m"
      "drop s p = star_char # seg @ drop pi p" "drop r v = m @ drop vi v" "r \<le> vi"
      "pi = Suc s + length seg" "glob p v = glob (drop s p) (drop r v)"
    by auto
  have "star_free (seg @ [p ! pi])" "fits (seg @ [p ! pi]) (m @ [v ! vi])"
    using inv(1,2) assms(4,5) by (auto simp: star_free_def intro: list_all2_appendI)
  moreover have "drop s p = star_char # (seg @ [p ! pi]) @ drop (Suc pi) p"
    "drop r v = (m @ [v ! vi]) @ drop (Suc vi) v"
    using inv(3,4) assms(2,3) by (simp_all add: drop_at)
  moreover have "Suc pi = Suc s + length (seg @ [p ! pi])" using inv(6) by simp
  ultimately show ?thesis
    using Some sr assms(2,3) inv(5,7) by (simp del: append_assoc)
qed

lemma star_step:
  assumes "match_inv p v (pi, vi, star, False)" and "vi < length v" and "pi < length p"
    and "p ! pi = star_char"
  shows "match_inv p v (Suc pi, vi, Some (pi, vi), False)"
proof -
  have q: "drop pi p = star_char # drop (Suc pi) p" using assms(3,4) by (simp add: drop_at)
  have "glob p v = glob (drop pi p) (drop vi v)"
  proof (cases star)
    case None
    with assms(1) show ?thesis by simp
  next
    case (Some sr)
    obtain s r where sr: "sr = (s, r)" by fastforce
    with assms(1) Some obtain seg m where "star_free seg" "fits seg m"
        "drop s p = star_char # seg @ drop pi p" "drop r v = m @ drop vi v"
        "glob p v = glob (drop s p) (drop r v)"
      by auto
    with glob_new_star show ?thesis by (simp add: q)
  qed
  then show ?thesis
    using assms(2,3) q by (auto simp: star_free_def intro!: exI [of _ "[]"])
qed

lemma backtrack_step:
  assumes "match_inv p v (pi, vi, star, False)" and "vi < length v"
    and "\<not> glob (drop pi p) (drop vi v)"
  shows "match_inv p v (backtrack pi vi star)"
proof (cases star)
  case None
  with assms show ?thesis by (simp add: backtrack_def)
next
  case (Some sr)
  obtain s r where sr: "sr = (s, r)" by fastforce
  with assms(1) Some obtain seg m where inv: "star_free seg" "fits seg m"
      "drop s p = star_char # seg @ drop pi p" "drop r v = m @ drop vi v" "r \<le> vi"
      "pi = Suc s + length seg" "pi \<le> length p" "glob p v = glob (drop s p) (drop r v)"
    by auto
  have "tl (drop r v) = drop (Suc r) v" by (simp add: drop_Suc tl_drop)
  then have "glob p v = glob (drop s p) (drop (Suc r) v)"
    using glob_resume [OF inv(1,2), of "drop pi p" "drop vi v"] inv assms(2,3) by auto
  moreover have "drop s p = star_char # drop (Suc s) p"
    using inv(3) by (metis drop_Suc list.sel(3) tl_drop)
  ultimately show ?thesis
    using inv(5,6,7) assms(2)
    by (simp add: backtrack_def Some sr) (auto simp: star_free_def intro!: exI [of _ "[]"])
qed

lemma matches_step_inv:
  assumes "match_inv p v (pi, vi, star, False)" and "vi < length v"
  shows "match_inv p v (matches_step p v (pi, vi, star, False))"
proof (cases "pi < length p")
  case True
  show ?thesis
  proof (cases "p ! pi = star_char \<or> p ! pi = question_char \<or> p ! pi = v ! vi")
    case hit: True
    with True star_step [OF assms True] fits_char_step [OF assms True] show ?thesis
      by (auto simp: matches_step_def pattern_get_def)
  next
    case False
    with True assms(2) have "\<not> glob (drop pi p) (drop vi v)" by (simp add: drop_at)
    with False True backtrack_step [OF assms] show ?thesis
      by (simp add: matches_step_def pattern_get_def)
  qed
next
  case False
  with assms(2) have "\<not> glob (drop pi p) (drop vi v)" by simp
  with False backtrack_step [OF assms] show ?thesis
    by (simp add: matches_step_def pattern_get_def)
qed

text \<open>Every step of the running loop decreases these four numbers lexicographically.\<close>

definition match_rank :: "rstr \<Rightarrow> rstr \<Rightarrow> (match_state \<Rightarrow> nat) list" where
  "match_rank p v =
     [\<lambda>(pi, vi, star, failed). length p - (case star of None \<Rightarrow> 0 | Some (s, r) \<Rightarrow> Suc s),
      \<lambda>(pi, vi, star, failed). length v - (case star of None \<Rightarrow> 0 | Some (s, r) \<Rightarrow> r),
      \<lambda>(pi, vi, star, failed). length v - vi,
      \<lambda>(pi, vi, star, failed). if failed then 0 else 1]"

lemma matches_step_decreases:
  assumes "match_inv p v (pi, vi, star, False)" and "vi < length v"
  shows "(matches_step p v (pi, vi, star, False), (pi, vi, star, False)) \<in> measures (match_rank p v)"
proof (cases star)
  case None
  with assms show ?thesis
    by (auto simp: matches_step_def pattern_get_def backtrack_def match_rank_def)
next
  case (Some sr)
  obtain s r where sr: "sr = (s, r)" by fastforce
  with assms Some have "s < pi" "r \<le> vi" by auto
  with assms(2) Some sr show ?thesis
    by (auto simp: matches_step_def pattern_get_def backtrack_def match_rank_def)
qed

lemma matches_loop_total: "\<exists>t. matches_loop p v = Some t"
  unfolding matches_loop_def
proof (rule wf_while_option_Some [where P = "match_inv p v"])
  let ?R = "{(t, s). (match_inv p v s \<and> (case s of (pi, vi, star, failed) \<Rightarrow> \<not> failed \<and> vi < length v))
      \<and> t = matches_step p v s}"
  have "?R \<subseteq> measures (match_rank p v)" using matches_step_decreases by auto
  then show "wf ?R" by (rule wf_subset [OF wf_measures])
  show "match_inv p v (matches_step p v s)"
    if "match_inv p v s" "case s of (pi, vi, star, failed) \<Rightarrow> \<not> failed \<and> vi < length v" for s
    using that matches_step_inv by (cases s) auto
  show "match_inv p v (0, 0, None, False)" by simp
qed

lemma matches_from_glob: "matches_from p v = Some (glob p v)"
proof -
  obtain pi vi star failed where loop: "matches_loop p v = Some (pi, vi, star, failed)"
    using matches_loop_total [of p v] by fastforce
  have inv: "match_inv p v (pi, vi, star, failed)"
  proof (rule while_option_rule [OF _ loop [unfolded matches_loop_def]])
    show "match_inv p v (matches_step p v s)"
      if "match_inv p v s" "case s of (pi, vi, star, failed) \<Rightarrow> \<not> failed \<and> vi < length v" for s
      using that matches_step_inv by (cases s) auto
  qed simp
  have stop: "failed \<or> length v \<le> vi"
    using while_option_stop [OF loop [unfolded matches_loop_def]] by auto
  have "(\<not> failed \<and> glob (drop pi p) []) = glob p v"
  proof (cases failed)
    case False
    show ?thesis
    proof (cases star)
      case None
      with False stop inv show ?thesis by simp
    next
      case (Some sr)
      obtain s r where "sr = (s, r)" by fastforce
      with False stop inv Some glob_at_end show ?thesis by auto
    qed
  qed (use inv in simp)
  then show ?thesis by (simp add: matches_from_def loop glob_Nil)
qed

lemma exit_pattern_matches_glob: "exit_pattern_matches p code = glob p code"
  by (simp add: exit_pattern_matches_def matches_from_glob)

section \<open>The intersection test decides whether two patterns have a common match\<close>

fun meets :: "rstr \<Rightarrow> rstr \<Rightarrow> bool" where
  "meets [] r = list_all (\<lambda>c. c = star_char) r"
| "meets (a # l) [] = list_all (\<lambda>c. c = star_char) (a # l)"
| "meets (a # l) (b # r) =
     (if a = star_char then meets l (b # r) \<or> meets (a # l) r
      else if b = star_char then meets (a # l) r \<or> meets l (b # r)
      else (a = question_char \<or> b = question_char \<or> a = b) \<and> meets l r)"

lemma glob_star_intro: "glob p v \<Longrightarrow> glob (star_char # p) v"
  by (cases v) auto

lemma glob_star_Cons_intro: "glob (star_char # p) v \<Longrightarrow> glob (star_char # p) (x # v)"
  by simp

text \<open>A common match of a starred pattern and another one, by where the star ends.\<close>

lemma common_star_cases:
  assumes "glob (star_char # l) v" and "glob (b # r) v"
  shows "(\<exists>v. glob l v \<and> glob (b # r) v) \<or> (\<exists>v. glob (star_char # l) v \<and> glob r v)"
  using assms
proof (induction v)
  case Nil
  then show ?case by (auto intro: exI [of _ "[]"])
next
  case (Cons x v)
  show ?case
  proof (cases "glob l (x # v)")
    case True
    with Cons.prems(2) show ?thesis by blast
  next
    case False
    with Cons.prems(1) have "glob (star_char # l) v" by simp
    with Cons show ?thesis by (auto split: if_splits)
  qed
qed

lemma common_star_intro:
  assumes "glob (star_char # l) v" and "glob r v"
  shows "\<exists>w. glob (star_char # l) w \<and> glob (b # r) w"
proof (cases "b = star_char")
  case True
  with assms glob_star_intro show ?thesis by blast
next
  case False
  then have "glob (b # r) ((if b = question_char then 65 else b) # v)" using assms(2) by auto
  with glob_star_Cons_intro [OF assms(1)] show ?thesis by blast
qed

lemma meets_iff: "meets l r \<longleftrightarrow> (\<exists>v. glob l v \<and> glob r v)"
proof (induction l r rule: meets.induct)
  case (1 r)
  then show ?case by (auto simp: glob_Nil)
next
  case (2 a l)
  then show ?case by (auto simp: glob_Nil)
next
  case (3 a l b r)
  show ?case
  proof (cases "a = star_char")
    case a: True
    with 3 have "meets (a # l) (b # r) \<longleftrightarrow>
        (\<exists>v. glob l v \<and> glob (b # r) v) \<or> (\<exists>v. glob (star_char # l) v \<and> glob r v)"
      by simp
    also have "\<dots> \<longleftrightarrow> (\<exists>v. glob (a # l) v \<and> glob (b # r) v)"
      using common_star_cases [of l _ b r] common_star_intro [of l _ r b] glob_star_intro [of l]
      by (auto simp only: a)
    finally show ?thesis .
  next
    case not_a: False
    show ?thesis
    proof (cases "b = star_char")
      case b: True
      with 3 not_a have "meets (a # l) (b # r) \<longleftrightarrow>
          (\<exists>v. glob r v \<and> glob (a # l) v) \<or> (\<exists>v. glob (star_char # r) v \<and> glob l v)"
        by (simp add: conj_commute)
      also have "\<dots> \<longleftrightarrow> (\<exists>v. glob (a # l) v \<and> glob (b # r) v)"
        using common_star_cases [of r _ a l] common_star_intro [of r _ l a] glob_star_intro [of r]
        by (simp only: b) blast
      finally show ?thesis .
    next
      case not_b: False
      let ?x = "if a = question_char then (if b = question_char then 65 else b) else a"
      have "\<exists>v. glob (a # l) v \<and> glob (b # r) v"
        if "a = question_char \<or> b = question_char \<or> a = b" "glob l v" "glob r v" for v
        by (rule exI [of _ "?x # v"]) (use that not_a not_b in auto)
      moreover have "(a = question_char \<or> b = question_char \<or> a = b) \<and> (\<exists>v. glob l v \<and> glob r v)"
        if "glob (a # l) v" "glob (b # r) v" for v
        using that not_a not_b by (cases v) auto
      ultimately show ?thesis using 3(5) not_a not_b by (auto simp del: glob.simps)
    qed
  qed
qed

definition memo_ok :: "rstr \<Rightarrow> rstr \<Rightarrow> bool option list \<Rightarrow> bool" where
  "memo_ok l r memo \<longleftrightarrow>
     length memo = (length l + 1) * (length r + 1) \<and>
     (\<forall>i \<le> length l. \<forall>j \<le> length r. \<forall>b.
        memo ! memo_key r i j = Some b \<longrightarrow> b = meets (drop i l) (drop j r))"

lemma row_major_less:
  fixes i j a n :: nat
  assumes "i < a" and "j < n"
  shows "i * n + j < a * n"
proof -
  have "i * n + j < i * n + n" using assms(2) by simp
  also have "\<dots> = Suc i * n" by simp
  also have "\<dots> \<le> a * n" using assms(1) by (intro mult_le_mono1) simp
  finally show ?thesis .
qed

lemma row_major_inject:
  fixes i j i' j' n :: nat
  assumes "j < n" and "j' < n" and "i * n + j = i' * n + j'"
  shows "i = i' \<and> j = j'"
proof -
  have "i = (i * n + j) div n" "i' = (i' * n + j') div n" using assms(1,2) by simp_all
  with assms(3) show ?thesis by auto
qed

lemma memo_key_less: "i \<le> length l \<Longrightarrow> j \<le> length r \<Longrightarrow> memo_key r i j < (length l + 1) * (length r + 1)"
  unfolding memo_key_def by (rule row_major_less) simp_all

lemma memo_key_inject:
  "j \<le> length r \<Longrightarrow> j' \<le> length r \<Longrightarrow> memo_key r i j = memo_key r i' j' \<Longrightarrow> i = i' \<and> j = j'"
  unfolding memo_key_def by (rule row_major_inject [where n = "length r + 1"]) simp_all

lemma memo_ok_update:
  assumes "memo_ok l r memo" and "i \<le> length l" and "j \<le> length r"
    and "b = meets (drop i l) (drop j r)"
  shows "memo_ok l r (memo[memo_key r i j := Some b])"
  unfolding memo_ok_def
proof (intro conjI allI impI)
  show "length (memo[memo_key r i j := Some b]) = (length l + 1) * (length r + 1)"
    using assms(1) by (simp add: memo_ok_def)
  fix i' j' b'
  assume "i' \<le> length l" and "j' \<le> length r" and at: "memo[memo_key r i j := Some b] ! memo_key r i' j' = Some b'"
  then show "b' = meets (drop i' l) (drop j' r)"
    using assms memo_key_inject [of j r j' i i'] memo_key_less [of i l j r]
    by (cases "memo_key r i j = memo_key r i' j'") (auto simp: memo_ok_def)
qed

definition answers :: "rstr \<Rightarrow> rstr \<Rightarrow> nat \<Rightarrow> nat \<Rightarrow> bool \<times> bool option list \<Rightarrow> bool" where
  "answers l r i j res \<longleftrightarrow> fst res = meets (drop i l) (drop j r) \<and> memo_ok l r (snd res)"

lemma intersects_from_correct:
  "memo_ok l r memo \<Longrightarrow> i \<le> length l \<Longrightarrow> j \<le> length r \<Longrightarrow>
   answers l r i j (intersects_from l r i j memo)"
proof (induction "(length l - i) + (length r - j)" arbitrary: i j memo rule: less_induct)
  case less
  note upd = memo_ok_update [OF _ less.prems(2,3)]
  note IH = less.hyps
  show ?case
  proof (cases "memo ! memo_key r i j")
    case (Some b)
    with less.prems show ?thesis
      by (subst intersects_from.simps) (simp add: memo_ok_def Let_def answers_def)
  next
    case None
    consider (end_l) "i = length l" | (end_r) "i < length l" "j = length r"
      | (both) "i < length l" "j < length r"
      using less.prems by linarith
    then show ?thesis
    proof cases
      case end_l
      with None less.prems upd show ?thesis
        by (subst intersects_from.simps)
           (auto simp: Let_def pattern_get_def answers_def split: option.splits)
    next
      case end_r
      with None less.prems upd show ?thesis
        by (subst intersects_from.simps)
           (auto simp: Let_def pattern_get_def drop_at answers_def split: option.splits)
    next
      case both
      then have get: "pattern_get l i = Some (l ! i)" "pattern_get r j = Some (r ! j)"
        by (simp_all add: pattern_get_def)
      have dl: "drop i l = l ! i # drop (Suc i) l" and dr: "drop j r = r ! j # drop (Suc j) r"
        using both by (simp_all add: drop_at)
      have right: "answers l r (Suc i) j (intersects_from l r (Suc i) j m)"
        and down: "answers l r i (Suc j) (intersects_from l r i (Suc j) m)"
        and diag: "answers l r (Suc i) (Suc j) (intersects_from l r (Suc i) (Suc j) m)"
        if "memo_ok l r m" for m
        using that both by (auto intro!: IH)
      obtain m1 where m1: "intersects_from l r (Suc i) j memo = (meets (drop (Suc i) l) (drop j r), m1)"
        "memo_ok l r m1"
        using right [OF less.prems(1)] by (cases "intersects_from l r (Suc i) j memo") (auto simp: answers_def)
      obtain m2 where m2: "intersects_from l r i (Suc j) memo = (meets (drop i l) (drop (Suc j) r), m2)"
        "memo_ok l r m2"
        using down [OF less.prems(1)] by (cases "intersects_from l r i (Suc j) memo") (auto simp: answers_def)
      have unfold: "intersects_from l r i j memo =
          (let (answer, memo) =
             (if l ! i = star_char
              then if meets (drop (Suc i) l) (drop j r) then (True, m1) else intersects_from l r i (Suc j) m1
              else if r ! j = star_char
              then if meets (drop i l) (drop (Suc j) r) then (True, m2) else intersects_from l r (Suc i) j m2
              else if l ! i = question_char \<or> r ! j = question_char \<or> l ! i = r ! j
              then intersects_from l r (Suc i) (Suc j) memo else (False, memo))
           in (answer, memo[memo_key r i j := Some answer]))"
        by (subst intersects_from.simps) (simp add: None get m1(1) m2(1) Let_def)
      have "answers l r i j
             (if l ! i = star_char
              then if meets (drop (Suc i) l) (drop j r) then (True, m1) else intersects_from l r i (Suc j) m1
              else if r ! j = star_char
              then if meets (drop i l) (drop (Suc j) r) then (True, m2) else intersects_from l r (Suc i) j m2
              else if l ! i = question_char \<or> r ! j = question_char \<or> l ! i = r ! j
              then intersects_from l r (Suc i) (Suc j) memo else (False, memo))" (is "answers l r i j ?body")
        using down [OF m1(2)] right [OF m2(2)] diag [OF less.prems(1)] m1(2) m2(2) less.prems(1)
        by (simp add: answers_def dl dr)
      with upd [of "snd ?body" "fst ?body"] show ?thesis
        unfolding unfold by (simp add: answers_def Let_def split_beta del: split_paired_All)
    qed
  qed
qed

lemma exit_pattern_intersects_iff:
  "exit_pattern_intersects p q \<longleftrightarrow> (\<exists>v. glob p v \<and> glob q v)"
proof -
  have "memo_ok p q (replicate ((length p + 1) * (length q + 1)) None)"
    unfolding memo_ok_def using memo_key_less [of _ p _ q] by (auto simp: nth_replicate simp del: replicate.simps mult_Suc mult_Suc_right)
  from intersects_from_correct [OF this, of 0 0] show ?thesis
    by (simp add: exit_pattern_intersects_def answers_def meets_iff)
qed

section \<open>The properties of patterns\<close>

text \<open>
  C18. The matcher ends on every pattern and text and decides the meaning of the pattern:
  \<^verbatim>\<open>ExitPattern::matches\<close> returns true exactly when the code is a text the pattern denotes, where
  \<^verbatim>\<open>*\<close> stands for any text and \<^verbatim>\<open>?\<close> for one character. One backtracking point is enough.
\<close>

theorem exit_pattern_matcher_correct:
  "matches_from p v = Some (glob p v) \<and> exit_pattern_matches p v = glob p v"
  by (simp add: matches_from_glob exit_pattern_matches_glob)

text \<open>
  C19. The memoised \<^verbatim>\<open>ExitPattern::intersects\<close> is exact for texts of any length: it returns true
  exactly when some text is matched by both patterns. So the ambiguity check of the compiler
  never misses an exit code that two patterns share.
\<close>

theorem exit_pattern_intersects_exact:
  "exit_pattern_intersects p q \<longleftrightarrow> (\<exists>v. exit_pattern_matches p v \<and> exit_pattern_matches q v)"
  by (simp add: exit_pattern_intersects_iff exit_pattern_matches_glob)

lemma fits_literal:
  "c \<noteq> question_char \<Longrightarrow> fits (replicate n c) m \<longleftrightarrow> m = replicate n c"
proof (induction n arbitrary: m)
  case (Suc n)
  then show ?case by (cases m) auto
qed simp

lemma star_free_literal: "c \<noteq> star_char \<Longrightarrow> star_free (replicate n c)"
  by (simp add: star_free_def list_all_iff)

lemma glob_literal_then_star:
  assumes "c \<noteq> star_char" and "c \<noteq> question_char"
  shows "glob (replicate n c @ [star_char]) v \<longleftrightarrow> (\<exists>w. v = replicate n c @ w)"
proof
  assume "glob (replicate n c @ [star_char]) v"
  then have "take n v = replicate n c"
    using assms by (simp add: glob_star_free_append star_free_literal fits_literal)
  then show "\<exists>w. v = replicate n c @ w" by (metis append_take_drop_id)
next
  assume "\<exists>w. v = replicate n c @ w"
  moreover have "glob [star_char] w" for w by (induction w) auto
  ultimately show "glob (replicate n c @ [star_char]) v"
    using assms by (auto simp: glob_star_free_append star_free_literal fits_literal)
qed

lemma glob_star_then_literal:
  assumes "c \<noteq> star_char" and "c \<noteq> question_char"
  shows "glob (star_char # replicate n c) v \<longleftrightarrow> (\<exists>w. v = w @ replicate n c)"
proof
  assume "glob (star_char # replicate n c) v"
  then obtain k where "k \<le> length v" and "glob (replicate n c @ []) (drop k v)"
    unfolding glob_star by auto
  then have "drop k v = replicate n c"
    unfolding glob_star_free_append [OF star_free_literal [OF assms(1)]]
    using assms take_all [of "drop k v" n] by (auto simp: fits_literal)
  then show "\<exists>w. v = w @ replicate n c" by (metis append_take_drop_id)
next
  assume "\<exists>w. v = w @ replicate n c"
  then obtain w where v: "v = w @ replicate n c" by blast
  have "glob (replicate n c @ []) (drop (length w) v)"
    unfolding glob_star_free_append [OF star_free_literal [OF assms(1)]]
    using assms by (simp add: v fits_literal)
  then show "glob (star_char # replicate n c) v"
    unfolding glob_star using v by (intro exI [of _ "length w"]) simp
qed

text \<open>Two overlapping demands that no text of at most 64 characters meets.\<close>

lemma no_short_common_match:
  fixes a b :: nat
  assumes "v = replicate 63 a @ w" and "v = w' @ replicate 63 b" and "length v \<le> 64" and "a \<noteq> b"
  shows False
proof -
  have len: "length w' + 63 = length v" using assms(2) by simp
  then have "length w' \<le> 1" using assms(3) by simp
  have "v ! 1 = a" using assms(1) by (simp add: nth_append)
  moreover have "v ! 1 = b" using assms(2) \<open>length w' \<le> 1\<close> by (auto simp: nth_append le_Suc_eq)
  ultimately show False using assms(4) by simp
qed

text \<open>
  The documentation of \<^verbatim>\<open>intersects\<close> says that some \<^emph>\<open>exit code\<close> matches both patterns. Exit
  codes are at most 64 bytes long, which the test does not take into account: for the two valid
  patterns of 63 letters \<^verbatim>\<open>A\<close> before a star and 63 letters \<^verbatim>\<open>B\<close> after a star it answers true
  although no exit code matches both. The compiler rejects such a pair as ambiguous.
\<close>

lemma exit_pattern_intersects_beyond_codes:
  "exit_pattern_new (replicate 63 65 @ [star_char]) = Ok (replicate 63 65 @ [star_char])
   \<and> exit_pattern_new (star_char # replicate 63 66) = Ok (star_char # replicate 63 66)
   \<and> exit_pattern_intersects (replicate 63 65 @ [star_char]) (star_char # replicate 63 66)
   \<and> \<not> (\<exists>code. exit_code_new code = Ok code
          \<and> exit_pattern_matches (replicate 63 65 @ [star_char]) code
          \<and> exit_pattern_matches (star_char # replicate 63 66) code)"
proof (intro conjI)
  have ne: "65 \<noteq> star_char" "65 \<noteq> question_char" "66 \<noteq> star_char" "66 \<noteq> question_char"
    by (simp_all add: star_char_def question_char_def)
  show "exit_pattern_intersects (replicate 63 65 @ [star_char]) (star_char # replicate 63 66)"
    unfolding exit_pattern_intersects_iff glob_literal_then_star [OF ne(1,2)]
      glob_star_then_literal [OF ne(3,4)]
    by blast
  show "\<not> (\<exists>code. exit_code_new code = Ok code
          \<and> exit_pattern_matches (replicate 63 65 @ [star_char]) code
          \<and> exit_pattern_matches (star_char # replicate 63 66) code)"
  proof safe
    fix code
    assume "exit_code_new code = Ok code"
    then have "length code \<le> 64"
      using length_le_str_len [of code]
      by (simp add: exit_code_new_def domain_name_new_def validate_name_def MAX_EXIT_CODE_BYTES_def
          split: if_splits)
    moreover assume "exit_pattern_matches (replicate 63 65 @ [star_char]) code"
      and "exit_pattern_matches (star_char # replicate 63 66) code"
    then obtain w w' where "code = replicate 63 65 @ w" "code = w' @ replicate 63 66"
      unfolding exit_pattern_matches_glob glob_literal_then_star [OF ne(1,2)]
        glob_star_then_literal [OF ne(3,4)]
      by blast
    ultimately show False using no_short_common_match [of code 65 w w' 66] by simp
  qed
qed (simp_all add: exit_pattern_new_def MAX_PATTERN_BYTES_def trim_eq_self_iff str_len_def
      sum_list_replicate utf8_width_def is_whitespace_def is_control_def star_char_def list_ex_iff)

end
