(* ===== verification/Flow_Nodes.thy ===== *)
theory Flow_Nodes
  imports Repeat_Definition Exit_Pattern
begin

text \<open>
  Flow declarations, from \<^verbatim>\<open>lib.rs\<close>, \<^verbatim>\<open>nested_job.rs\<close>, \<^verbatim>\<open>custom_leaf.rs\<close> and \<^verbatim>\<open>late_binding.rs\<close> of
  \<^verbatim>\<open>oxide-batch-plan\<close>: budgets, nodes, transitions and the graph a program assembles before it is
  compiled.
\<close>

section \<open>Bounds and budgets\<close>

definition MAX_OUTGOING_TRANSITIONS :: nat where "MAX_OUTGOING_TRANSITIONS = 64"
definition MAX_SPLIT_BRANCHES :: nat where "MAX_SPLIT_BRANCHES = 8"
definition MAX_BRANCH_STEPS :: nat where "MAX_BRANCH_STEPS = 8"
definition MAX_PARTITION_WORKERS :: u8 where "MAX_PARTITION_WORKERS = 64"
definition MAX_FLOW_COMPOSITION_DEPTH :: nat where "MAX_FLOW_COMPOSITION_DEPTH = 8"
definition MAX_NESTED_JOB_PARAMETERS :: nat where "MAX_NESTED_JOB_PARAMETERS = 64"

datatype local_failure_policy = CancelSiblings | DrainSiblings

fun local_failure_policy_as_str :: "local_failure_policy \<Rightarrow> string" where
  "local_failure_policy_as_str CancelSiblings = ''cancel_siblings''"
| "local_failure_policy_as_str DrainSiblings = ''drain_siblings''"

record split_budget =
  sbu_max_parallel_branches :: u8
  sbu_repository_pool_size :: u32

definition split_budget_new :: "u8 \<Rightarrow> u32 \<Rightarrow> plan_error + split_budget" where
  "split_budget_new max_parallel_branches repository_pool_size =
     (if max_parallel_branches = 0 \<or> unat max_parallel_branches > MAX_SPLIT_BRANCHES
      then Err (InvalidParallelBranchBudget MAX_SPLIT_BRANCHES)
      else (let required = saturating_add (ucast max_parallel_branches) 1 in
        if repository_pool_size < required
        then Err (InsufficientPoolCapacity required repository_pool_size)
        else Ok \<lparr>sbu_max_parallel_branches = max_parallel_branches,
                 sbu_repository_pool_size = repository_pool_size\<rparr>))"

record partition_budget =
  pbu_max_partition_workers :: u8
  pbu_repository_pool_size :: u32

definition partition_budget_new :: "u8 \<Rightarrow> u32 \<Rightarrow> plan_error + partition_budget" where
  "partition_budget_new max_partition_workers repository_pool_size =
     (if \<not> (1 \<le> max_partition_workers \<and> max_partition_workers \<le> MAX_PARTITION_WORKERS)
      then Err (InvalidPartitionWorkerBudget MAX_PARTITION_WORKERS)
      else (let required = saturating_add (ucast max_partition_workers) 1 in
        if repository_pool_size < required
        then Err (InsufficientPoolCapacity required repository_pool_size)
        else Ok \<lparr>pbu_max_partition_workers = max_partition_workers,
                 pbu_repository_pool_size = repository_pool_size\<rparr>))"

type_synonym partition_count = u16

definition partition_count_new :: "u16 \<Rightarrow> plan_error + partition_count" where
  "partition_count_new v =
     (if v = 0 \<or> v > MAX_PARTITIONS then Err (InvalidPartitionCount MAX_PARTITIONS) else Ok v)"

type_synonym decider_revision = rstr
type_synonym decision_input_version = u32

definition decision_input_version_new :: "u32 \<Rightarrow> plan_error + decision_input_version" where
  "decision_input_version_new v = (if v = 0 then Err ZeroDecisionInputVersion else Ok v)"

section \<open>Steps and decisions\<close>

datatype step_components =
    Tasklet component_revision
  | ChunkStep chunk_size chunk_component_revisions

fun step_components_kind_name :: "step_components \<Rightarrow> string" where
  "step_components_kind_name (Tasklet r) = ''tasklet''"
| "step_components_kind_name (ChunkStep n r) = ''chunk''"

record step_node =
  sn_id :: node_id
  sn_step_name :: step_name
  sn_components :: step_components
  sn_start :: start_controls
  sn_fault :: "fault_policy option"
  sn_listeners :: "component_revision list"
  sn_repeat :: "repeat_definition option"

definition start_controls_default :: start_controls where
  "start_controls_default = start_controls_new start_limit_unrestricted False"

definition step_node_new :: "node_id \<Rightarrow> step_name \<Rightarrow> step_components \<Rightarrow> step_node" where
  "step_node_new i step_name components =
     \<lparr>sn_id = i, sn_step_name = step_name, sn_components = components,
      sn_start = start_controls_default, sn_fault = None, sn_listeners = [], sn_repeat = None\<rparr>"

record decision_node =
  dn_id :: node_id
  dn_revision :: decider_revision
  dn_input_version :: decision_input_version

section \<open>Late binding and nested jobs\<close>

type_synonym selector_path = "rstr list"

definition selector_path_new :: "rstr list \<Rightarrow> plan_error + selector_path" where
  "selector_path_new segments =
     (if \<not> selector_path_is_valid segments
      then Err (InvalidSelectorPath MAX_SELECTOR_PATH_BYTES MAX_SELECTOR_PATH_SEGMENTS)
      else Ok segments)"

datatype framework_parameter_source =
    ParentJobInstanceId | ParentJobExecutionId | ParentAttempt
  | ParentDefinitionRevision | ParentDefinitionFingerprint | NestedJobNodeId

fun framework_parameter_source_as_str :: "framework_parameter_source \<Rightarrow> string" where
  "framework_parameter_source_as_str ParentJobInstanceId = ''parent_job_instance_id''"
| "framework_parameter_source_as_str ParentJobExecutionId = ''parent_job_execution_id''"
| "framework_parameter_source_as_str ParentAttempt = ''parent_attempt''"
| "framework_parameter_source_as_str ParentDefinitionRevision = ''parent_definition_revision''"
| "framework_parameter_source_as_str ParentDefinitionFingerprint = ''parent_definition_fingerprint''"
| "framework_parameter_source_as_str NestedJobNodeId = ''nested_job_node_id''"

datatype nested_job_parameter_source =
    ParentParameter parameter_name
  | ParentJobContext state_schema_id state_schema_version selector_path
  | ParentStepContext node_id state_schema_id state_schema_version selector_path
  | FrameworkParameter framework_parameter_source

datatype parameter_coercion =
    CoerceExact | StringToI64 | StringToU64 | StringToBool | I64ToU64 | U64ToI64

fun parameter_coercion_as_str :: "parameter_coercion \<Rightarrow> string" where
  "parameter_coercion_as_str CoerceExact = ''exact''"
| "parameter_coercion_as_str StringToI64 = ''string_to_i64''"
| "parameter_coercion_as_str StringToU64 = ''string_to_u64''"
| "parameter_coercion_as_str StringToBool = ''string_to_bool''"
| "parameter_coercion_as_str I64ToU64 = ''i64_to_u64''"
| "parameter_coercion_as_str U64ToI64 = ''u64_to_i64''"

datatype missing_parameter_policy = MissingFail | MissingTypeDefault

fun missing_parameter_policy_as_str :: "missing_parameter_policy \<Rightarrow> string" where
  "missing_parameter_policy_as_str MissingFail = ''fail''"
| "missing_parameter_policy_as_str MissingTypeDefault = ''type_default''"

record nested_job_parameter_mapping =
  njm_target :: parameter_name
  njm_role :: parameter_role
  njm_source :: nested_job_parameter_source
  njm_expected :: parameter_value_kind
  njm_coercion :: parameter_coercion
  njm_missing :: missing_parameter_policy

record nested_job_node =
  njn_id :: node_id
  njn_child_definition :: definition_identity
  njn_mapping_revision :: component_revision
  njn_mappings :: "nested_job_parameter_mapping list"

text \<open>\<^verbatim>\<open>sort_by(|left, right| left.target.cmp(&right.target))\<close> is stable, as \<^const>\<open>sort_key\<close> is.\<close>

definition nested_job_node_new ::
  "node_id \<Rightarrow> definition_identity \<Rightarrow> component_revision \<Rightarrow> nested_job_parameter_mapping list
   \<Rightarrow> plan_error + nested_job_node" where
  "nested_job_node_new i child mapping_revision mappings =
     (if di_job_name child = None then Err (NestedJobMissingChildIdentity i)
      else if length mappings > MAX_NESTED_JOB_PARAMETERS
      then Err (TooManyNestedJobParameters i MAX_NESTED_JOB_PARAMETERS)
      else (let mappings = sort_key njm_target mappings in
        res_bind (map_err (DuplicateNestedJobParameter i) (insert_distinct (map njm_target mappings) {}))
          (\<lambda>_. Ok \<lparr>njn_id = i, njn_child_definition = child, njn_mapping_revision = mapping_revision,
                  njn_mappings = mappings\<rparr>)))"

record custom_leaf_node =
  cln_id :: node_id
  cln_step_name :: step_name
  cln_kind :: rstr
  cln_handler_revision :: component_revision
  cln_state_schema_id :: state_schema_id
  cln_state_schema_version :: state_schema_version
  cln_start :: start_controls
  cln_fault :: "fault_policy option"
  cln_listeners :: "component_revision list"

datatype late_bound_source =
    LbsJobParameter parameter_name
  | LbsJobContext state_schema_id state_schema_version selector_path
  | LbsStepContext node_id state_schema_id state_schema_version selector_path
  | LbsFramework scope_framework_source

record late_bound_input =
  lbi_name :: parameter_name
  lbi_source :: late_bound_source
  lbi_expected :: parameter_value_kind
  lbi_coercion :: parameter_coercion
  lbi_missing :: missing_parameter_policy

record scoped_component_definition =
  scd_scope :: scope_kind
  scd_id :: scoped_component_id
  scd_factory_kind :: rstr
  scd_factory_revision :: component_revision
  scd_resolver_kind :: rstr
  scd_resolver_revision :: component_revision
  scd_inputs :: "late_bound_input list"

datatype late_binding_definition_error = TooManyInputs nat | DuplicateInput

text \<open>\<^verbatim>\<open>windows(2).any(|pair| pair[0].name == pair[1].name)\<close>.\<close>

fun adjacent_equal :: "'a list \<Rightarrow> bool" where
  "adjacent_equal (x # y # xs) = (x = y \<or> adjacent_equal (y # xs))"
| "adjacent_equal _ = False"

definition scoped_component_definition_new ::
  "scope_kind \<Rightarrow> scoped_component_id \<Rightarrow> rstr \<Rightarrow> component_revision \<Rightarrow> rstr \<Rightarrow> component_revision
   \<Rightarrow> late_bound_input list \<Rightarrow> late_binding_definition_error + scoped_component_definition" where
  "scoped_component_definition_new scope i factory_kind factory_revision resolver_kind resolver_revision inputs =
     (if length inputs > MAX_LATE_BOUND_INPUTS then Err (TooManyInputs MAX_LATE_BOUND_INPUTS)
      else (let inputs = sort_key lbi_name inputs in
        if adjacent_equal (map lbi_name inputs) then Err DuplicateInput
        else Ok \<lparr>scd_scope = scope, scd_id = i, scd_factory_kind = factory_kind,
                 scd_factory_revision = factory_revision, scd_resolver_kind = resolver_kind,
                 scd_resolver_revision = resolver_revision, scd_inputs = inputs\<rparr>))"

section \<open>The graph\<close>

record join_node = jn_id :: node_id

record partitioned_step_node =
  psn_id :: node_id
  psn_step_name :: step_name
  psn_worker :: step_node
  psn_partitioner :: component_revision
  psn_aggregation :: component_revision
  psn_partitions :: partition_count
  psn_budget :: partition_budget
  psn_failure_policy :: local_failure_policy
  psn_start :: start_controls

record flow_transition =
  ft_source :: node_id
  ft_pattern :: exit_pattern
  ft_target :: flow_target

record parameter_incrementer_identity =
  pii_kind :: definition_revision
  pii_revision :: definition_revision

text \<open>
  Nodes, split branches and graphs are mutually recursive: a split branch may hold a graph, and a
  graph may embed named graphs.
\<close>

datatype flow_node =
    FnStep step_node
  | FnDecision decision_node
  | FnNestedJob nested_job_node
  | FnCustomLeaf custom_leaf_node
  | FnSplit split_node
  | FnJoin join_node
  | FnPartitionedStep partitioned_step_node
and split_node = SplitNode
  (spn_id: node_id) (spn_branches: "split_branch list") (spn_join: node_id)
  (spn_budget: split_budget) (spn_failure_policy: local_failure_policy)
and split_branch = SplitBranch (sb_steps: "step_node list") (sb_flow: "flow_graph option")
and flow_graph = FlowGraph
  (fg_entry: "node_id option") (fg_nodes: "flow_node list") (fg_transitions: "flow_transition list")
  (fg_nested_flows: "nested_flow list") (fg_scoped_components: "scoped_component_definition list")
  (fg_parameter_incrementer: "parameter_incrementer_identity option")
  (fg_job_restart_policy: restart_policy)
and nested_flow = NestedFlow (nf_id: node_id) (nf_graph: flow_graph)

fun flow_node_id :: "flow_node \<Rightarrow> node_id" where
  "flow_node_id (FnStep node) = sn_id node"
| "flow_node_id (FnDecision node) = dn_id node"
| "flow_node_id (FnNestedJob node) = njn_id node"
| "flow_node_id (FnCustomLeaf node) = cln_id node"
| "flow_node_id (FnSplit node) = spn_id node"
| "flow_node_id (FnJoin node) = jn_id node"
| "flow_node_id (FnPartitionedStep node) = psn_id node"

definition not_restartable :: "start_controls \<Rightarrow> bool" where
  "not_restartable start \<longleftrightarrow> stc_restart_policy start = RpNotRestartable"

fun has_nonrestartable_step :: "flow_node \<Rightarrow> bool" where
  "has_nonrestartable_step (FnStep step) = not_restartable (sn_start step)"
| "has_nonrestartable_step (FnCustomLeaf custom) = not_restartable (cln_start custom)"
| "has_nonrestartable_step (FnPartitionedStep p) =
     (not_restartable (psn_start p) \<or> not_restartable (sn_start (psn_worker p)))"
| "has_nonrestartable_step (FnSplit split) =
     list_ex (\<lambda>step. not_restartable (sn_start step)) (concat (map sb_steps (spn_branches split)))"
| "has_nonrestartable_step _ = False"

fun has_repeat_definition :: "flow_node \<Rightarrow> bool" where
  "has_repeat_definition (FnStep step) = (sn_repeat step \<noteq> None)"
| "has_repeat_definition (FnPartitionedStep p) = (sn_repeat (psn_worker p) \<noteq> None)"
| "has_repeat_definition (FnSplit split) =
     list_ex (\<lambda>step. sn_repeat step \<noteq> None) (concat (map sb_steps (spn_branches split)))"
| "has_repeat_definition _ = False"

fun advanced_node :: "flow_node \<Rightarrow> bool" where
  "advanced_node (FnNestedJob _) = True"
| "advanced_node (FnCustomLeaf _) = True"
| "advanced_node (FnSplit split) = list_ex (\<lambda>branch. sb_flow branch \<noteq> None) (spn_branches split)"
| "advanced_node _ = False"

definition requires_advanced_format :: "flow_graph \<Rightarrow> bool" where
  "requires_advanced_format g \<longleftrightarrow>
     fg_job_restart_policy g = RpNotRestartable
     \<or> fg_parameter_incrementer g \<noteq> None
     \<or> fg_scoped_components g \<noteq> []
     \<or> fg_nested_flows g \<noteq> []
     \<or> list_ex (\<lambda>node. has_nonrestartable_step node \<or> has_repeat_definition node \<or> advanced_node node)
         (fg_nodes g)"

section \<open>Building a graph\<close>

definition flow_graph_new :: "node_id \<Rightarrow> flow_graph" where
  "flow_graph_new entry = FlowGraph (Some entry) [] [] [] [] None RpRestartable"

fun with_node :: "flow_node \<Rightarrow> flow_graph \<Rightarrow> flow_graph" where
  "with_node node (FlowGraph e ns ts fs cs p r) = FlowGraph e (ns @ [node]) ts fs cs p r"

fun with_transition :: "flow_transition \<Rightarrow> flow_graph \<Rightarrow> flow_graph" where
  "with_transition t (FlowGraph e ns ts fs cs p r) = FlowGraph e ns (ts @ [t]) fs cs p r"

fun with_nested_flow :: "nested_flow \<Rightarrow> flow_graph \<Rightarrow> flow_graph" where
  "with_nested_flow f (FlowGraph e ns ts fs cs p r) = FlowGraph e ns ts (fs @ [f]) cs p r"

fun with_scoped_component :: "scoped_component_definition \<Rightarrow> flow_graph \<Rightarrow> flow_graph" where
  "with_scoped_component c (FlowGraph e ns ts fs cs p r) = FlowGraph e ns ts fs (cs @ [c]) p r"

definition with_sequence :: "node_id \<Rightarrow> flow_target \<Rightarrow> flow_graph \<Rightarrow> plan_error + flow_graph" where
  "with_sequence source next_target g =
     res_bind (exit_pattern_new (lit ''FAILED'')) (\<lambda>failed.
     res_bind (exit_pattern_new (lit ''*'')) (\<lambda>any.
     Ok (with_transition \<lparr>ft_source = source, ft_pattern = any, ft_target = next_target\<rparr>
          (with_transition \<lparr>ft_source = source, ft_pattern = failed, ft_target = TargetTerminal TkFail\<rparr> g))))"

section \<open>Budgets leave a connection for the parent\<close>

lemma saturating_add_one_u8: "unat (saturating_add (ucast (n :: u8)) (1 :: u32)) = unat n + 1"
proof -
  have "unat n < 256" using unsigned_less [of n] by simp
  then have "unat (ucast n :: u32) = unat n" by (simp add: unsigned_ucast_eq take_bit_nat_eq_self)
  then show ?thesis using \<open>unat n < 256\<close> by (simp add: unat_saturating_add)
qed

end
