(* ===== verification/Fault_State.thy ===== *)
theory Fault_State
  imports Fault_Policy Json Refinement
begin

text \<open>
  Retry keys, the durable fault-state envelope and the in-memory reservation store, from
  \<^verbatim>\<open>fault_state.rs\<close> of \<^verbatim>\<open>oxide-batch\<close>.

  The mutex of the in-memory store serialises its operations; each is a function on the entries
  it guards. SHA-256 and serde_json are arguments. \<^verbatim>\<open>FaultRuntime\<close> holds two trait objects; the
  part of its constructor that decides, the capability check, is modelled.
\<close>

section \<open>Retry keys\<close>

type_synonym retry_key = "u8 list"

definition RETRY_KEY_DOMAIN :: "u8 list" where
  "RETRY_KEY_DOMAIN = as_bytes (lit ''oxide-batch/retry-key/1'')"

text \<open>The bytes \<^verbatim>\<open>RetryKey::derive\<close> feeds to the hasher.\<close>

definition retry_key_input ::
  "u8 list \<Rightarrow> step_name \<Rightarrow> fault_phase \<Rightarrow> u8 list \<Rightarrow> u64 \<Rightarrow> u8 list" where
  "retry_key_input definition_digest step_name phase checkpoint_digest ordinal =
     RETRY_KEY_DOMAIN @ definition_digest
     @ to_be_bytes (word_of_nat (str_len step_name) :: u64) @ as_bytes step_name
     @ as_bytes (lit (fault_phase_as_str phase)) @ [0]
     @ checkpoint_digest @ to_be_bytes ordinal"

definition retry_key_derive ::
  "(u8 list \<Rightarrow> u8 list) \<Rightarrow> u8 list \<Rightarrow> step_name \<Rightarrow> fault_phase \<Rightarrow> u8 list \<Rightarrow> u64 \<Rightarrow> retry_key" where
  "retry_key_derive sha definition_digest step_name phase checkpoint_digest ordinal =
     sha (retry_key_input definition_digest step_name phase checkpoint_digest ordinal)"

record retry_reservation =
  rr_key :: retry_key
  rr_phase :: fault_phase
  rr_category :: failure_category
  rr_ordinal :: retry_ordinal

section \<open>Errors\<close>

datatype fault_state_format_error =
    UnsupportedFormat
  | UnsupportedSchemaVersion
  | Malformed
  | MalformedEntry
  | UnknownEnumeration
  | ChecksumMismatch
  | TooLarge nat
  | TooManyEntries nat
  | DuplicateKey
  | UnsortedEntries
  | OrdinalAboveLimit u32
  | CheckpointMismatch

datatype fault_state_error =
    CapacityExhausted u32
  | StaleReservation
  | Corrupt fault_state_format_error
  | Unbound
  | Unavailable

section \<open>Hexadecimal digests\<close>

text \<open>\<^verbatim>\<open>char::from_digit(d, 16)\<close> and \<^verbatim>\<open>char::to_digit(16)\<close>, on code points.\<close>

definition from_digit16 :: "nat \<Rightarrow> nat option" where
  "from_digit16 d =
     (if d < 10 then Some (48 + d) else if d < 16 then Some (97 + (d - 10)) else None)"

definition to_digit16 :: "nat \<Rightarrow> nat option" where
  "to_digit16 c =
     (if 48 \<le> c \<and> c \<le> 57 then Some (c - 48)
      else if 97 \<le> c \<and> c \<le> 102 then Some (c - 97 + 10)
      else if 65 \<le> c \<and> c \<le> 70 then Some (c - 65 + 10)
      else None)"

definition hex_byte :: "u8 \<Rightarrow> rstr" where
  "hex_byte b =
     [unwrap_or (from_digit16 (unat b div 16)) 48, unwrap_or (from_digit16 (unat b mod 16)) 48]"

definition hex :: "u8 list \<Rightarrow> rstr" where
  "hex bytes = concat (map hex_byte bytes)"

text \<open>The loop of \<^verbatim>\<open>unhex\<close> over the remaining slots, on the remaining raw bytes.\<close>

fun unhex_loop :: "nat \<Rightarrow> u8 list \<Rightarrow> u8 list option" where
  "unhex_loop 0 raw = Some []"
| "unhex_loop (Suc n) (a # b # raw) =
     and_then (to_digit16 (unat a)) (\<lambda>high.
     and_then (to_digit16 (unat b)) (\<lambda>low.
     if high * 16 + low < 256
     then map_option (\<lambda>bs. word_of_nat (high * 16 + low) # bs) (unhex_loop n raw)
     else None))"
| "unhex_loop (Suc n) _ = None"

definition unhex :: "rstr \<Rightarrow> u8 list option" where
  "unhex text = (if str_len text \<noteq> 64 then None else unhex_loop 32 (as_bytes text))"

section \<open>Envelopes\<close>

record fault_state_entry =
  fse_key :: retry_key
  fse_phase :: fault_phase
  fse_category :: failure_category
  fse_ordinal :: retry_ordinal
  fse_revision :: classifier_revision

record fault_state_envelope =
  env_checkpoint_digest :: "u8 list"
  env_entries :: "fault_state_entry list"

definition MAX_BYTES :: nat where "MAX_BYTES = 64 * 1024"
definition MAX_ENTRIES :: nat where "MAX_ENTRIES = 256"
definition FORMAT :: rstr where "FORMAT = lit ''oxide-batch.fault-state''"
definition FORMAT_VERSION :: u16 where "FORMAT_VERSION = 1"
definition SCHEMA_VERSION :: u32 where "SCHEMA_VERSION = 1"

definition zero_digest :: "u8 list" where "zero_digest = replicate 32 0"

definition envelope_empty :: fault_state_envelope where
  "envelope_empty = \<lparr>env_checkpoint_digest = zero_digest, env_entries = []\<rparr>"

text \<open>\<^verbatim>\<open>windows(2).any(|pair| P(pair[0], pair[1]))\<close>.\<close>

definition windows2_any :: "('a \<Rightarrow> 'a \<Rightarrow> bool) \<Rightarrow> 'a list \<Rightarrow> bool" where
  "windows2_any P xs = list_ex (\<lambda>(a, b). P a b) (zip xs (tl xs))"

definition envelope_new ::
  "u8 list \<Rightarrow> fault_state_entry list \<Rightarrow> fault_state_format_error + fault_state_envelope" where
  "envelope_new checkpoint_digest given =
     (if length given > MAX_ENTRIES then Err (TooManyEntries MAX_ENTRIES)
      else
        let entries = sort_key fse_key given in
        if windows2_any (\<lambda>a b. fse_key a = fse_key b) entries then Err DuplicateKey
        else if entries = [] \<and> checkpoint_digest \<noteq> zero_digest then Err CheckpointMismatch
        else if entries \<noteq> [] \<and> checkpoint_digest = zero_digest then Err CheckpointMismatch
        else Ok \<lparr>env_checkpoint_digest = checkpoint_digest, env_entries = entries\<rparr>)"

text \<open>
  \<^verbatim>\<open>slice::binary_search_by\<close> by key: bisection between \<open>lo\<close> and \<open>hi\<close>; \<open>Ok\<close> the index of
  the key, \<open>Err\<close> the insertion point.
\<close>

function bisect :: "'k::linorder list \<Rightarrow> 'k \<Rightarrow> nat \<Rightarrow> nat \<Rightarrow> nat + nat" where
  "bisect ks k lo hi =
     (if hi \<le> lo then Err lo
      else let mid = (lo + hi) div 2 in
           if ks ! mid = k then Ok mid
           else if ks ! mid < k then bisect ks k (Suc mid) hi
           else bisect ks k lo mid)"
  by pat_completeness auto

termination by (relation "measure (\<lambda>(ks, k, lo, hi). hi - lo)") auto

declare bisect.simps [simp del]

definition binary_search_by_key :: "fault_state_entry list \<Rightarrow> retry_key \<Rightarrow> nat + nat" where
  "binary_search_by_key entries k = bisect (map fse_key entries) k 0 (length entries)"

definition envelope_entry :: "fault_state_envelope \<Rightarrow> retry_key \<Rightarrow> fault_state_entry option" where
  "envelope_entry env k =
     (case binary_search_by_key (env_entries env) k of
        Err _ \<Rightarrow> None
      | Ok index \<Rightarrow> Some (env_entries env ! index))"

definition envelope_reserved_ordinal :: "fault_state_envelope \<Rightarrow> retry_key \<Rightarrow> retry_ordinal option" where
  "envelope_reserved_ordinal env k = map_option fse_ordinal (envelope_entry env k)"

definition envelope_reserved ::
  "fault_state_envelope \<Rightarrow> fault_state_entry \<Rightarrow> u8 list \<Rightarrow> retry_state_limit
     \<Rightarrow> fault_state_error + fault_state_envelope" where
  "envelope_reserved env entry checkpoint_digest limit =
     (if env_entries env \<noteq> [] \<and> env_checkpoint_digest env \<noteq> checkpoint_digest
      then Err (Corrupt CheckpointMismatch)
      else
        res_bind (map_err (\<lambda>_. StaleReservation)
          (checked_next (unwrap_or (envelope_reserved_ordinal env (fse_key entry))
                                   retry_ordinal_initial))) (\<lambda>expected.
        if fse_ordinal entry \<noteq> expected then Err StaleReservation
        else
          case binary_search_by_key (env_entries env) (fse_key entry) of
            Ok index \<Rightarrow>
              Ok \<lparr>env_checkpoint_digest = checkpoint_digest,
                  env_entries = (env_entries env)[index := entry]\<rparr>
          | Err index \<Rightarrow>
              if length (env_entries env) \<ge> unat limit
              then Err (CapacityExhausted (ucast limit))
              else Ok \<lparr>env_checkpoint_digest = checkpoint_digest,
                       env_entries = take index (env_entries env) @ entry # drop index (env_entries env)\<rparr>))"

definition envelope_validate_for ::
  "fault_state_envelope \<Rightarrow> retry_limit \<Rightarrow> retry_state_limit \<Rightarrow> u8 list
     \<Rightarrow> fault_state_format_error + unit" where
  "envelope_validate_for env retry_limit state_limit checkpoint_digest =
     (if length (env_entries env) > unat state_limit then Err (TooManyEntries (unat state_limit))
      else if list_ex (\<lambda>e. fse_ordinal e > retry_limit) (env_entries env)
      then Err (OrdinalAboveLimit (ucast retry_limit))
      else if env_entries env \<noteq> [] \<and> env_checkpoint_digest env \<noteq> checkpoint_digest
      then Err CheckpointMismatch
      else Ok ())"

section \<open>The canonical format\<close>

definition entry_to_json :: "fault_state_entry \<Rightarrow> json" where
  "entry_to_json e =
     JObject
       (bt_insert (lit ''revision'') (JString (fse_revision e))
       (bt_insert (lit ''phase'') (JString (lit (fault_phase_as_str (fse_phase e))))
       (bt_insert (lit ''ordinal'') (JNumber (PosInt (ucast (fse_ordinal e))))
       (bt_insert (lit ''key'') (JString (hex (fse_key e)))
       (bt_insert (lit ''category'') (JString (lit (durable_code (fse_category e)))) [])))))"

definition u32_try_from_u64 :: "u64 \<Rightarrow> u32 option" where
  "u32_try_from_u64 v = (if unat v < 2 ^ 32 then Some (ucast v) else None)"

definition entry_from_json :: "json \<Rightarrow> fault_state_format_error + fault_state_entry" where
  "entry_from_json v =
     res_bind (ok_or (as_object v) MalformedEntry) (\<lambda>object.
     res_bind (ok_or (and_then (and_then (bt_get object (lit ''key'')) as_str) unhex)
                MalformedEntry) (\<lambda>key.
     res_bind (ok_or (and_then (and_then (bt_get object (lit ''phase'')) as_str)
                fault_phase_from_durable_name) UnknownEnumeration) (\<lambda>phase.
     res_bind (ok_or (and_then (and_then (bt_get object (lit ''category'')) as_str)
                from_durable_code) UnknownEnumeration) (\<lambda>category.
     res_bind (ok_or (and_then (and_then (and_then (bt_get object (lit ''ordinal'')) as_u64)
                u32_try_from_u64) (\<lambda>n. res_ok (retry_ordinal_new n))) MalformedEntry) (\<lambda>ordinal.
     res_bind (ok_or (and_then (and_then (bt_get object (lit ''revision'')) as_str)
                (\<lambda>s. res_ok (classifier_revision_new s))) MalformedEntry) (\<lambda>revision.
     Ok \<lparr>fse_key = key, fse_phase = phase, fse_category = category, fse_ordinal = ordinal,
         fse_revision = revision\<rparr>))))))"

definition envelope_json :: "fault_state_envelope \<Rightarrow> json" where
  "envelope_json env =
     JObject
       (bt_insert (lit ''entries'') (JArray (map entry_to_json (env_entries env)))
       (bt_insert (lit ''checkpoint'') (JString (hex (env_checkpoint_digest env))) []))"

definition to_canonical_json ::
  "to_vec \<Rightarrow> fault_state_envelope \<Rightarrow> fault_state_format_error + u8 list" where
  "to_canonical_json to_vec env =
     res_bind (ok_or (to_vec (envelope_json env)) Malformed) (\<lambda>bytes.
     if length bytes > MAX_BYTES then Err (TooLarge MAX_BYTES) else Ok bytes)"

definition envelope_checksum ::
  "to_vec \<Rightarrow> (u8 list \<Rightarrow> u8 list) \<Rightarrow> fault_state_envelope \<Rightarrow> fault_state_format_error + u8 list" where
  "envelope_checksum to_vec sha env =
     res_bind (to_canonical_json to_vec env) (\<lambda>bytes. Ok (sha bytes))"

definition from_canonical_json ::
  "to_vec \<Rightarrow> from_slice \<Rightarrow> (u8 list \<Rightarrow> u8 list) \<Rightarrow> u16 \<Rightarrow> rstr \<Rightarrow> u32 \<Rightarrow> u8 list \<Rightarrow> u8 list
     \<Rightarrow> fault_state_format_error + fault_state_envelope" where
  "from_canonical_json to_vec from_slice sha format_version schema schema_version bytes checksum =
     (if format_version \<noteq> FORMAT_VERSION \<or> schema \<noteq> FORMAT then Err UnsupportedFormat
      else if schema_version \<noteq> SCHEMA_VERSION then Err UnsupportedSchemaVersion
      else if length bytes > MAX_BYTES then Err (TooLarge MAX_BYTES)
      else
        res_bind (ok_or (from_slice bytes) Malformed) (\<lambda>v.
        res_bind (ok_or (as_object v) Malformed) (\<lambda>object.
        res_bind (ok_or (and_then (and_then (bt_get object (lit ''checkpoint'')) as_str) unhex)
                   Malformed) (\<lambda>checkpoint_digest.
        res_bind (ok_or (and_then (bt_get object (lit ''entries'')) as_array) Malformed) (\<lambda>raw.
        if length raw > MAX_ENTRIES then Err (TooManyEntries MAX_ENTRIES)
        else
          res_bind (collect_results (map entry_from_json raw)) (\<lambda>entries.
          if windows2_any (\<lambda>a b. fse_key a \<ge> fse_key b) entries then Err UnsortedEntries
          else
            res_bind (envelope_new checkpoint_digest entries) (\<lambda>envelope.
            res_bind (envelope_checksum to_vec sha envelope) (\<lambda>sum.
            if sum \<noteq> checksum then Err ChecksumMismatch else Ok envelope))))))))"

section \<open>The in-memory store\<close>

record retry_entry =
  re_ordinal :: retry_ordinal
  re_resolved :: bool

record in_memory_fault_state =
  im_limit :: retry_state_limit
  im_entries :: "(retry_key, retry_entry) btree_map"

definition in_memory_new :: "retry_state_limit \<Rightarrow> in_memory_fault_state" where
  "in_memory_new limit = \<lparr>im_limit = limit, im_entries = []\<rparr>"

definition im_reserved_ordinal ::
  "retry_key \<Rightarrow> in_memory_fault_state \<Rightarrow> fault_state_error + retry_ordinal option" where
  "im_reserved_ordinal k s = Ok (map_option re_ordinal (bt_get (im_entries s) k))"

definition unresolved_count :: "in_memory_fault_state \<Rightarrow> nat" where
  "unresolved_count s = length (filter (\<lambda>e. \<not> re_resolved e) (map snd (im_entries s)))"

definition im_reserve ::
  "retry_reservation \<Rightarrow> in_memory_fault_state \<Rightarrow> (fault_state_error + unit) \<times> in_memory_fault_state" where
  "im_reserve reservation s =
     (case checked_next (case bt_get (im_entries s) (rr_key reservation) of
                           None \<Rightarrow> retry_ordinal_initial
                         | Some entry \<Rightarrow> re_ordinal entry) of
        Err _ \<Rightarrow> (Err StaleReservation, s)
      | Ok expected \<Rightarrow>
          if rr_ordinal reservation \<noteq> expected then (Err StaleReservation, s)
          else if \<not> bt_contains (im_entries s) (rr_key reservation)
                  \<and> unresolved_count s \<ge> unat (im_limit s)
          then (Err (CapacityExhausted (ucast (im_limit s))), s)
          else (Ok (), s\<lparr>im_entries :=
                 bt_insert (rr_key reservation)
                   \<lparr>re_ordinal = rr_ordinal reservation, re_resolved = False\<rparr> (im_entries s)\<rparr>))"

definition im_resolve :: "retry_key \<Rightarrow> in_memory_fault_state \<Rightarrow> in_memory_fault_state" where
  "im_resolve k s =
     (case bt_get (im_entries s) k of
        None \<Rightarrow> s
      | Some entry \<Rightarrow> s\<lparr>im_entries := bt_insert k (entry\<lparr>re_resolved := True\<rparr>) (im_entries s)\<rparr>)"

definition im_clear_resolved :: "in_memory_fault_state \<Rightarrow> in_memory_fault_state" where
  "im_clear_resolved s =
     s\<lparr>im_entries := bt_retain (\<lambda>_ entry. \<not> re_resolved entry) (im_entries s)\<rparr>"

definition im_unresolved :: "in_memory_fault_state \<Rightarrow> fault_state_error + u32" where
  "im_unresolved s =
     (if unresolved_count s < 2 ^ 32 then Ok (word_of_nat (unresolved_count s)) else Err Unavailable)"

section \<open>Runtime bundle and inherited totals\<close>

definition fault_runtime_new :: "fault_policy \<Rightarrow> chunk_delivery_mode \<Rightarrow> fault_policy_error + unit" where
  "fault_runtime_new p mode = validate_capabilities p (mode = AtomicSameResource)"

record retry_counts =
  rc_read :: u64
  rc_process :: u64
  rc_write :: u64

definition retry_counts_zero :: retry_counts where
  "retry_counts_zero = \<lparr>rc_read = 0, rc_process = 0, rc_write = 0\<rparr>"

definition retry_counts_increment :: "fault_phase \<Rightarrow> retry_counts \<Rightarrow> retry_counts" where
  "retry_counts_increment phase c =
     (case phase of
        PhRead \<Rightarrow> c\<lparr>rc_read := saturating_add (rc_read c) 1\<rparr>
      | PhProcess \<Rightarrow> c\<lparr>rc_process := saturating_add (rc_process c) 1\<rparr>
      | PhWrite \<Rightarrow> c\<lparr>rc_write := saturating_add (rc_write c) 1\<rparr>
      | _ \<Rightarrow> c)"

record fault_progress =
  fpr_retries :: retry_counts
  fpr_skips :: skip_counts
  fpr_rollbacks :: u64
  fpr_no_rollbacks :: u64

definition fault_progress_none :: fault_progress where
  "fault_progress_none =
     \<lparr>fpr_retries = retry_counts_zero, fpr_skips = skip_counts_zero, fpr_rollbacks = 0,
      fpr_no_rollbacks = 0\<rparr>"

section \<open>Hexadecimal round trip\<close>

lemma digit16_roundtrip: "d < 16 \<Longrightarrow> to_digit16 (unwrap_or (from_digit16 d) 48) = Some d"
  by (auto simp: from_digit16_def to_digit16_def)

lemma from_digit16_ascii: "unwrap_or (from_digit16 d) 48 < 128"
  by (auto simp: from_digit16_def)

lemma as_bytes_hex_Cons:
  "as_bytes (hex (b # bs)) =
     word_of_nat (unwrap_or (from_digit16 (unat b div 16)) 48)
     # word_of_nat (unwrap_or (from_digit16 (unat b mod 16)) 48) # as_bytes (hex bs)"
  using from_digit16_ascii by (simp add: hex_def hex_byte_def as_bytes_def utf8_char_def)

lemma unat_u8_bound: "unat (b :: u8) < 256"
  using unsigned_less [of b] by simp

lemma unhex_loop_hex: "unhex_loop (length bs) (as_bytes (hex bs)) = Some bs"
proof (induction bs)
  case (Cons b bs)
  have high: "unat b div 16 < 16" using unat_u8_bound [of b] by simp
  have small: "unat (word_of_nat (unwrap_or (from_digit16 d) 48) :: u8) = unwrap_or (from_digit16 d) 48" for d
    using from_digit16_ascii [of d] by (simp add: less_trans)
  have "unat b div 16 * 16 + unat b mod 16 = unat b" by simp
  then show ?case
    using Cons.IH digit16_roundtrip [OF high] digit16_roundtrip [of "unat b mod 16"] unat_u8_bound [of b]
    by (simp add: as_bytes_hex_Cons small)
qed simp

lemma str_len_hex: "str_len (hex bs) = 2 * length bs"
  using from_digit16_ascii by (induction bs) (simp_all add: hex_def hex_byte_def utf8_width_def)

lemma unhex_hex [simp]: "length bs = 32 \<Longrightarrow> unhex (hex bs) = Some bs"
  using unhex_loop_hex [of bs] by (simp add: unhex_def str_len_hex)

section \<open>Binary search\<close>

lemma bisect_correct:
  assumes "sorted_wrt (<) ks" and "lo \<le> hi" and "hi \<le> length ks"
    and "\<forall>j < lo. ks ! j < k" and "\<forall>j. hi \<le> j \<and> j < length ks \<longrightarrow> k < ks ! j"
  shows "case bisect ks k lo hi of
      Ok i \<Rightarrow> i < length ks \<and> ks ! i = k
    | Err i \<Rightarrow> i \<le> length ks \<and> (\<forall>j < i. ks ! j < k) \<and> (\<forall>j. i \<le> j \<and> j < length ks \<longrightarrow> k < ks ! j)"
  using assms
proof (induction ks k lo hi rule: bisect.induct)
  case (1 ks k lo hi)
  let ?mid = "(lo + hi) div 2"
  show ?case
  proof (cases "hi \<le> lo")
    case True
    with "1.prems" show ?thesis by (subst bisect.simps) simp
  next
    case False
    then have mid: "lo \<le> ?mid" "?mid < hi" by auto
    have le: "ks ! i \<le> ks ! j" if "i \<le> j" "j < length ks" for i j
      using "1.prems"(1) that by (cases "i = j") (auto simp: sorted_wrt_iff_nth_less less_imp_le)
    consider "ks ! ?mid = k" | "ks ! ?mid < k" | "k < ks ! ?mid" by fastforce
    then show ?thesis
    proof cases
      case a: 1
      with False mid "1.prems" show ?thesis by (subst bisect.simps) (simp add: Let_def)
    next
      case b: 2
      have "ks ! j < k" if "j < Suc ?mid" for j
        using le [of j ?mid] b mid "1.prems"(3) that by fastforce
      with b False mid "1.prems" "1.IH"(1) [OF False refl] show ?thesis
        by (subst bisect.simps) (simp add: Let_def less_imp_neq)
    next
      case c: 3
      have "k < ks ! j" if "?mid \<le> j" "j < length ks" for j
        using le [OF that] c by simp
      moreover have "\<not> ks ! ?mid < k" "ks ! ?mid \<noteq> k" using c by auto
      ultimately show ?thesis
        using False mid "1.prems" "1.IH"(2) [OF False refl] by (subst bisect.simps) (simp add: Let_def)
    qed
  qed
qed

corollary bisect_all:
  assumes "sorted_wrt (<) ks"
  shows "case bisect ks k 0 (length ks) of
      Ok i \<Rightarrow> i < length ks \<and> ks ! i = k
    | Err i \<Rightarrow> i \<le> length ks \<and> (\<forall>j < i. ks ! j < k) \<and> (\<forall>j. i \<le> j \<and> j < length ks \<longrightarrow> k < ks ! j)"
  by (rule bisect_correct [OF assms]) auto

section \<open>The envelope is a map from keys to entries\<close>

definition env_sorted :: "fault_state_envelope \<Rightarrow> bool" where
  "env_sorted env \<longleftrightarrow> sorted_wrt (<) (map fse_key (env_entries env))"

definition env_map :: "fault_state_entry list \<Rightarrow> (retry_key, fault_state_entry) btree_map" where
  "env_map es = map (\<lambda>e. (fse_key e, e)) es"

lemma env_map_wf: "bt_wf (env_map es) = sorted_wrt (<) (map fse_key es)"
  by (simp add: bt_wf_def env_map_def comp_def)

lemma binary_search_Ok:
  assumes "sorted_wrt (<) (map fse_key es)" and "binary_search_by_key es k = Ok i"
  shows "i < length es" and "fse_key (es ! i) = k"
  using bisect_all [OF assms(1), of k] assms(2)
  by (auto simp: binary_search_by_key_def)

lemma binary_search_Err:
  assumes "sorted_wrt (<) (map fse_key es)" and "binary_search_by_key es k = Err i"
  shows "i \<le> length es" and "\<forall>e \<in> set (take i es). fse_key e < k"
    and "\<forall>e \<in> set (drop i es). k < fse_key e"
proof -
  have *: "i \<le> length es" "\<forall>j < i. map fse_key es ! j < k"
      "\<forall>j. i \<le> j \<and> j < length es \<longrightarrow> k < map fse_key es ! j"
    using bisect_all [OF assms(1), of k] assms(2) by (auto simp: binary_search_by_key_def)
  show "i \<le> length es" by (fact *)
  show "\<forall>e \<in> set (take i es). fse_key e < k" using *(1,2) by (auto simp: in_set_conv_nth)
  show "\<forall>e \<in> set (drop i es). k < fse_key e" using *(1,3) by (auto simp: in_set_conv_nth)
qed

lemma bt_insert_middle:
  assumes "\<forall>a \<in> fst ` set m. a < k" and "\<forall>b \<in> fst ` set n. k < b"
  shows "bt_insert k v (m @ n) = m @ (k, v) # n"
    and "bt_insert k v (m @ (k, w) # n) = m @ (k, v) # n"
proof -
  show "bt_insert k v (m @ n) = m @ (k, v) # n"
    using assms
  proof (induction m)
    case Nil
    then show ?case by (cases n) auto
  qed auto
  show "bt_insert k v (m @ (k, w) # n) = m @ (k, v) # n"
    using assms(1) by (induction m) auto
qed

lemma envelope_entry_map:
  assumes "env_sorted env"
  shows "envelope_entry env k = bt_get (env_map (env_entries env)) k"
proof -
  let ?es = "env_entries env"
  have sorted: "sorted_wrt (<) (map fse_key ?es)" using assms by (simp add: env_sorted_def)
  show ?thesis
  proof (cases "binary_search_by_key ?es k")
    case (Inr i)
    note at = binary_search_Ok [OF sorted Inr]
    then have "(k, ?es ! i) \<in> set (env_map ?es)"
      by (auto simp: env_map_def intro!: image_eqI [of _ _ "?es ! i"])
    then have "bt_get (env_map ?es) k = Some (?es ! i)"
      using sorted by (simp add: bt_get_Some_iff env_map_wf)
    with Inr show ?thesis by (simp add: envelope_entry_def)
  next
    case (Inl i)
    note split = binary_search_Err [OF sorted Inl]
    have "k \<notin> fse_key ` (set (take i ?es) \<union> set (drop i ?es))" using split(2,3) by force
    then have "k \<notin> fst ` set (env_map ?es)"
      by (simp add: env_map_def image_image set_append [symmetric] del: set_append)
    then have "bt_get (env_map ?es) k = None" by (simp add: bt_get_None_iff)
    with Inl show ?thesis by (simp add: envelope_entry_def)
  qed
qed

lemma envelope_insert_map:
  assumes "sorted_wrt (<) (map fse_key es)"
  shows "binary_search_by_key es (fse_key e) = Ok i \<Longrightarrow>
      env_map (es[i := e]) = bt_insert (fse_key e) e (env_map es)"
    and "binary_search_by_key es (fse_key e) = Err i \<Longrightarrow>
      env_map (take i es @ e # drop i es) = bt_insert (fse_key e) e (env_map es)"
proof -
  assume found: "binary_search_by_key es (fse_key e) = Ok i"
  note at = binary_search_Ok [OF assms found]
  then have es: "es = take i es @ es ! i # drop (Suc i) es" by (simp add: id_take_nth_drop)
  have eq: "env_map es = env_map (take i es) @ (fse_key e, es ! i) # env_map (drop (Suc i) es)"
    using arg_cong [OF es, of env_map] at(2) by (simp add: env_map_def)
  have "bt_wf (env_map es)" using assms by (simp add: env_map_wf)
  then have "\<forall>a \<in> fst ` set (env_map (take i es)). a < fse_key e"
    and "\<forall>b \<in> fst ` set (env_map (drop (Suc i) es)). fse_key e < b"
    by (auto simp: eq bt_wf_append bt_wf_Cons)
  note ins = bt_insert_middle(2) [OF this, of e "es ! i"]
  with eq show "env_map (es[i := e]) = bt_insert (fse_key e) e (env_map es)"
    using at by (simp add: upd_conv_take_nth_drop env_map_def)
next
  assume missing: "binary_search_by_key es (fse_key e) = Err i"
  note split = binary_search_Err [OF assms missing]
  have "env_map es = env_map (take i es) @ env_map (drop i es)"
    by (simp add: env_map_def flip: map_append)
  with bt_insert_middle(1) [of "env_map (take i es)" "fse_key e" "env_map (drop i es)" e] split(2,3)
  show "env_map (take i es @ e # drop i es) = bt_insert (fse_key e) e (env_map es)"
    by (auto simp: env_map_def)
qed

lemma envelope_reserved_Ok:
  assumes "env_sorted env" and "envelope_reserved env e cd limit = Ok env'"
  shows "env_map (env_entries env') = bt_insert (fse_key e) e (env_map (env_entries env))"
    and "env_checkpoint_digest env' = cd"
    and "env_entries env = [] \<or> env_checkpoint_digest env = cd"
    and "checked_next (unwrap_or (envelope_reserved_ordinal env (fse_key e)) 0) = Ok (fse_ordinal e)"
    and "env_sorted env'"
    and "length (env_entries env') \<le> max (length (env_entries env)) (unat limit)"
proof -
  have sorted: "sorted_wrt (<) (map fse_key (env_entries env))"
    using assms(1) by (simp add: env_sorted_def)
  show m: "env_map (env_entries env') = bt_insert (fse_key e) e (env_map (env_entries env))"
  proof (cases "binary_search_by_key (env_entries env) (fse_key e)")
    case (Inl i)
    then show ?thesis
      using assms(2) envelope_insert_map(2) [OF sorted Inl]
      by (fastforce simp: envelope_reserved_def split: if_splits)
  next
    case (Inr i)
    then show ?thesis
      using assms(2) envelope_insert_map(1) [OF sorted Inr]
      by (fastforce simp: envelope_reserved_def split: if_splits)
  qed
  then have "bt_wf (env_map (env_entries env'))"
    using sorted by (simp add: env_map_wf flip: env_map_wf)
  then show "env_sorted env'" by (simp add: env_map_wf env_sorted_def)
  from assms(2) show "env_checkpoint_digest env' = cd"
    and "env_entries env = [] \<or> env_checkpoint_digest env = cd"
    and "checked_next (unwrap_or (envelope_reserved_ordinal env (fse_key e)) 0) = Ok (fse_ordinal e)"
    and "length (env_entries env') \<le> max (length (env_entries env)) (unat limit)"
    by (auto simp: envelope_reserved_def retry_ordinal_initial_def split: if_splits sum.splits)
qed

section \<open>The reservation contract\<close>

text \<open>
  What \<^verbatim>\<open>FaultStateStore\<close> promises its client: a reservation is accepted only when its ordinal
  directly follows the stored one for the same key, an accepted one is stored and nothing else
  changes, a refused one changes nothing.
\<close>

definition spent_ordinals ::
  "('x \<Rightarrow> retry_key) \<Rightarrow> ('x \<Rightarrow> retry_ordinal) \<Rightarrow> retry_key \<Rightarrow> 'x list \<Rightarrow> ('e + unit) list \<Rightarrow> nat list" where
  "spent_ordinals target wanted k xs rs =
     map (\<lambda>(x, r). unat (wanted x)) (filter (\<lambda>(x, r). is_ok r \<and> target x = k) (zip xs rs))"

lemma spent_ordinals_simps [simp]:
  "spent_ordinals target wanted k [] rs = []"
  "spent_ordinals target wanted k (x # xs) (r # rs) =
     (if is_ok r \<and> target x = k then [unat (wanted x)] else []) @ spent_ordinals target wanted k xs rs"
  by (simp_all add: spent_ordinals_def)

locale reservation_store =
  fixes inv :: "'s \<Rightarrow> bool"
    and stored :: "'s \<Rightarrow> retry_key \<Rightarrow> retry_ordinal option"
    and reserve :: "'x \<Rightarrow> 's \<Rightarrow> ('e + unit) \<times> 's"
    and target :: "'x \<Rightarrow> retry_key"
    and wanted :: "'x \<Rightarrow> retry_ordinal"
  assumes reserve_inv: "inv s \<Longrightarrow> inv (snd (reserve x s))"
    and reserve_next: "inv s \<Longrightarrow> fst (reserve x s) = Ok () \<Longrightarrow>
      unat (wanted x) = Suc (unat (unwrap_or (stored s (target x)) 0))"
    and reserve_stores: "inv s \<Longrightarrow> fst (reserve x s) = Ok () \<Longrightarrow>
      stored (snd (reserve x s)) = (stored s)(target x \<mapsto> wanted x)"
    and reserve_refused: "inv s \<Longrightarrow> \<not> is_ok (fst (reserve x s)) \<Longrightarrow> snd (reserve x s) = s"
begin

abbreviation level :: "'s \<Rightarrow> retry_key \<Rightarrow> nat" where
  "level s k \<equiv> unat (unwrap_or (stored s k) 0)"

lemma level_step:
  assumes "inv s"
  shows "level (snd (reserve x s)) k =
     level s k + (if is_ok (fst (reserve x s)) \<and> target x = k then 1 else 0)"
proof (cases "is_ok (fst (reserve x s))")
  case True
  then have "fst (reserve x s) = Ok ()" by (simp add: is_ok_iff)
  with True reserve_next [OF assms this] reserve_stores [OF assms this] show ?thesis by simp
next
  case False
  with reserve_refused [OF assms this] show ?thesis by simp
qed

lemma run_spends_consecutively:
  assumes "inv s"
  shows "spent_ordinals target wanted k xs (fst (run_ops reserve xs s))
      = [Suc (level s k) ..< Suc (level (snd (run_ops reserve xs s)) k)]
    \<and> level s k \<le> level (snd (run_ops reserve xs s)) k"
  using assms
proof (induction xs arbitrary: s)
  case (Cons x xs)
  let ?s = "snd (reserve x s)"
  note IH = Cons.IH [OF reserve_inv [OF Cons.prems, of x]]
  have hd: "unat (wanted x) = Suc (level s k)" if "is_ok (fst (reserve x s))" "target x = k"
    using reserve_next [OF Cons.prems, of x] that by (auto simp: is_ok_iff)
  show ?case
    using IH hd level_step [OF Cons.prems, of x k]
    by (auto simp: upt_conv_Cons)
qed simp

end

definition envelope_reserve_step ::
  "fault_state_entry \<times> u8 list \<times> retry_state_limit \<Rightarrow> fault_state_envelope
     \<Rightarrow> (fault_state_error + unit) \<times> fault_state_envelope" where
  "envelope_reserve_step x env =
     (case x of (entry, cd, limit) \<Rightarrow>
        case envelope_reserved env entry cd limit of
          Ok env' \<Rightarrow> (Ok (), env')
        | Err e \<Rightarrow> (Err e, env))"

definition im_stored :: "in_memory_fault_state \<Rightarrow> retry_key \<Rightarrow> retry_ordinal option" where
  "im_stored s k = map_option re_ordinal (bt_get (im_entries s) k)"

lemma checked_next_unat: "checked_next r = Ok n \<Longrightarrow> unat n = Suc (unat r)"
  by (auto simp: checked_next_def dest: checked_add_unat)

lemma im_reserve_Ok:
  assumes "fst (im_reserve x s) = Ok ()"
  shows "checked_next (unwrap_or (im_stored s (rr_key x)) 0) = Ok (rr_ordinal x)"
    and "snd (im_reserve x s) = s\<lparr>im_entries :=
      bt_insert (rr_key x) \<lparr>re_ordinal = rr_ordinal x, re_resolved = False\<rparr> (im_entries s)\<rparr>"
    and "bt_contains (im_entries s) (rr_key x) \<or> unresolved_count s < unat (im_limit s)"
  using assms
  by (auto simp: im_reserve_def im_stored_def retry_ordinal_initial_def
      split: sum.splits if_splits option.splits)

lemma im_reserve_refused: "\<not> is_ok (fst (im_reserve x s)) \<Longrightarrow> snd (im_reserve x s) = s"
  by (auto simp: im_reserve_def split: sum.splits if_splits)

interpretation mem_store: reservation_store "\<lambda>s. bt_wf (im_entries s)" im_stored im_reserve rr_key rr_ordinal
proof
  fix s :: in_memory_fault_state and x :: retry_reservation
  assume wf: "bt_wf (im_entries s)"
  show "bt_wf (im_entries (snd (im_reserve x s)))"
    using wf by (auto simp: im_reserve_def split: sum.splits if_splits)
  show "snd (im_reserve x s) = s" if "\<not> is_ok (fst (im_reserve x s))"
    using that by (rule im_reserve_refused)
  assume ok: "fst (im_reserve x s) = Ok ()"
  show "unat (rr_ordinal x) = Suc (unat (unwrap_or (im_stored s (rr_key x)) 0))"
    using checked_next_unat [OF im_reserve_Ok(1) [OF ok]] .
  show "im_stored (snd (im_reserve x s)) = (im_stored s)(rr_key x \<mapsto> rr_ordinal x)"
    by (auto simp: im_reserve_Ok(2) [OF ok] im_stored_def bt_get_insert)
qed

interpretation env_store: reservation_store env_sorted envelope_reserved_ordinal envelope_reserve_step
  "\<lambda>x. fse_key (fst x)" "\<lambda>x. fse_ordinal (fst x)"
proof
  fix s and x :: "fault_state_entry \<times> u8 list \<times> retry_state_limit"
  assume sorted: "env_sorted s"
  obtain entry cd limit where x: "x = (entry, cd, limit)" by (cases x) auto
  show "env_sorted (snd (envelope_reserve_step x s))"
    using sorted envelope_reserved_Ok(5) [OF sorted]
    by (auto simp: x envelope_reserve_step_def split: sum.splits)
  show "snd (envelope_reserve_step x s) = s" if "\<not> is_ok (fst (envelope_reserve_step x s))"
    using that by (auto simp: x envelope_reserve_step_def split: sum.splits)
  assume "fst (envelope_reserve_step x s) = Ok ()"
  then obtain s' where ok: "envelope_reserved s entry cd limit = Ok s'"
    by (auto simp: x envelope_reserve_step_def split: sum.splits)
  note eff = envelope_reserved_Ok [OF sorted ok]
  show "unat (fse_ordinal (fst x))
      = Suc (unat (unwrap_or (envelope_reserved_ordinal s (fse_key (fst x))) 0))"
    using checked_next_unat [OF eff(4)] by (simp add: x)
  show "envelope_reserved_ordinal (snd (envelope_reserve_step x s))
      = (envelope_reserved_ordinal s)(fse_key (fst x) \<mapsto> fse_ordinal (fst x))"
    using ok eff(1) by (auto simp: x envelope_reserve_step_def envelope_reserved_ordinal_def
        envelope_entry_map [OF sorted] envelope_entry_map [OF eff(5)] bt_get_insert)
qed

section \<open>Well-formed envelopes and the durable round trip\<close>

definition entry_wf :: "fault_state_entry \<Rightarrow> bool" where
  "entry_wf e \<longleftrightarrow> length (fse_key e) = 32 \<and> name_valid MAX_TOKEN_BYTES (fse_revision e)"

definition envelope_wf :: "fault_state_envelope \<Rightarrow> bool" where
  "envelope_wf env \<longleftrightarrow>
     length (env_checkpoint_digest env) = 32 \<and> env_sorted env \<and>
     list_all entry_wf (env_entries env) \<and> length (env_entries env) \<le> MAX_ENTRIES \<and>
     (env_entries env = [] \<longleftrightarrow> env_checkpoint_digest env = zero_digest)"

lemma fault_phase_roundtrip [simp]:
  "fault_phase_from_durable_name (lit (fault_phase_as_str p)) = Some p"
  by (cases p) (simp_all add: fault_phase_from_durable_name_def lit_def)

lemma unat_ucast_u16_u64: "unat (ucast (w :: u16) :: u64) = unat w"
proof -
  have "unat w < 2 ^ 16" using unsigned_less [of w] by simp
  then show ?thesis by (simp add: unsigned_ucast_eq take_bit_nat_eq_self)
qed

lemma ordinal_json_roundtrip:
  "and_then (u32_try_from_u64 (ucast (r :: u16))) (\<lambda>n. res_ok (retry_ordinal_new n)) = Some r"
proof -
  have small: "unat r < 2 ^ 16" using unsigned_less [of r] by simp
  have narrow: "(ucast (ucast r :: u64) :: u32) = ucast r"
    by transfer (simp add: take_bit_take_bit)
  have again: "(ucast (ucast r :: u32) :: u16) = r"
    by transfer (simp add: take_bit_take_bit)
  show ?thesis
    using small by (simp add: u32_try_from_u64_def unat_ucast_u16_u64 narrow retry_ordinal_new_def
        u16_try_from_u32_def unat_ucast_u16_u32 again)
qed

lemma entry_json_roundtrip:
  assumes "entry_wf e"
  shows "entry_from_json (entry_to_json e) = Ok e"
proof -
  have "classifier_revision_new (fse_revision e) = Ok (fse_revision e)"
    using assms by (simp add: entry_wf_def classifier_revision_new_def definition_token_new_Ok_iff)
  moreover obtain v where "u32_try_from_u64 (ucast (fse_ordinal e)) = Some v"
      "res_ok (retry_ordinal_new v) = Some (fse_ordinal e)"
    using ordinal_json_roundtrip [of "fse_ordinal e"] by auto
  ultimately show ?thesis
    using assms
    by (simp add: entry_from_json_def entry_to_json_def bt_get_insert entry_wf_def
        del: bt_insert.simps)
qed

lemma windows2_any_sorted:
  fixes f :: "'a \<Rightarrow> 'b::linorder"
  assumes "sorted_wrt (<) (map f xs)"
  shows "\<not> windows2_any (\<lambda>a b. f a \<ge> f b) xs" and "\<not> windows2_any (\<lambda>a b. f a = f b) xs"
proof -
  have "f a < f b" if "(a, b) \<in> set (zip xs (tl xs))" for a b
  proof -
    from that obtain i where "i < length (tl xs)" "a = xs ! i" "b = tl xs ! i"
      by (auto simp: in_set_zip)
    then show ?thesis
      using assms by (simp add: nth_tl sorted_wrt_iff_nth_less)
  qed
  note less = this
  show "\<not> windows2_any (\<lambda>a b. f a \<ge> f b) xs"
    using less by (fastforce simp: windows2_any_def list_ex_iff)
  show "\<not> windows2_any (\<lambda>a b. f a = f b) xs"
    using less by (fastforce simp: windows2_any_def list_ex_iff)
qed

lemma windows2_any_eq_distinct:
  fixes f :: "'a \<Rightarrow> 'b::linorder"
  assumes "sorted (map f xs)"
  shows "\<not> windows2_any (\<lambda>a b. f a = f b) xs \<longleftrightarrow> sorted_wrt (<) (map f xs)"
proof
  assume none: "\<not> windows2_any (\<lambda>a b. f a = f b) xs"
  have step: "f (xs ! i) < f (xs ! Suc i)" if "Suc i < length xs" for i
  proof -
    have "f (xs ! i) \<le> f (xs ! Suc i)"
      using assms that by (simp add: sorted_iff_nth_mono)
    moreover have "(xs ! i, xs ! Suc i) \<in> set (zip xs (tl xs))"
      using that by (auto simp: in_set_zip nth_tl intro!: exI [of _ i])
    then have "f (xs ! i) \<noteq> f (xs ! Suc i)"
      using none by (auto simp: windows2_any_def list_ex_iff)
    ultimately show ?thesis by simp
  qed
  show "sorted_wrt (<) (map f xs)"
    using step by (simp add: sorted_wrt_iff_nth_Suc_transp [OF transp_on_less])
qed (rule windows2_any_sorted(2))

lemma envelope_new_sorted:
  assumes "envelope_wf env"
  shows "envelope_new (env_checkpoint_digest env) (env_entries env) = Ok env"
proof -
  have sorted: "sorted_wrt (<) (map fse_key (env_entries env))"
    using assms by (simp add: envelope_wf_def env_sorted_def)
  then have "sorted (map fse_key (env_entries env))" by (simp add: strict_sorted_iff)
  then have "sort_key fse_key (env_entries env) = env_entries env" by (rule sort_key_id_if_sorted)
  with assms windows2_any_sorted(2) [OF sorted] show ?thesis
    by (auto simp: envelope_new_def envelope_wf_def Let_def)
qed

text \<open>Every envelope the reader accepts is well formed.\<close>

lemma unhex_loop_length: "unhex_loop n raw = Some bs \<Longrightarrow> length bs = n"
  by (induction n raw arbitrary: bs rule: unhex_loop.induct) (auto split: if_splits)

lemma unhex_length: "unhex s = Some bs \<Longrightarrow> length bs = 32"
  by (auto simp: unhex_def dest: unhex_loop_length split: if_splits)

lemma entry_from_json_wf: "entry_from_json v = Ok e \<Longrightarrow> entry_wf e"
  by (auto simp: entry_from_json_def entry_wf_def res_ok_def classifier_revision_new_def
      definition_token_new_Ok_iff dest: unhex_length split: sum.splits)

lemma collect_results_set:
  "collect_results rs = Ok xs \<Longrightarrow> x \<in> set xs \<Longrightarrow> Ok x \<in> set rs"
  by (induction rs arbitrary: xs) auto

lemma envelope_new_Ok:
  assumes "envelope_new cd es = Ok env"
  shows "env_checkpoint_digest env = cd" and "env_sorted env" and "set (env_entries env) = set es"
    and "length (env_entries env) \<le> MAX_ENTRIES"
    and "env_entries env = [] \<longleftrightarrow> env_checkpoint_digest env = zero_digest"
proof -
  let ?s = "sort_key fse_key es"
  have env: "env = \<lparr>env_checkpoint_digest = cd, env_entries = ?s\<rparr>"
    and ok: "length es \<le> MAX_ENTRIES" "\<not> windows2_any (\<lambda>a b. fse_key a = fse_key b) ?s"
      "?s = [] \<longleftrightarrow> cd = zero_digest"
    using assms by (auto simp: envelope_new_def Let_def split: if_splits)
  show "env_checkpoint_digest env = cd" and "set (env_entries env) = set es"
    and "length (env_entries env) \<le> MAX_ENTRIES"
    using ok(1) by (simp_all add: env)
  show "env_sorted env"
    using windows2_any_eq_distinct [OF sorted_sort_key, of fse_key es] ok(2)
    by (simp add: env env_sorted_def)
  show "env_entries env = [] \<longleftrightarrow> env_checkpoint_digest env = zero_digest"
    using ok(3) by (simp add: env)
qed

lemma from_canonical_json_wf:
  assumes "from_canonical_json to_vec from_slice sha fv schema sv bytes checksum = Ok env"
  shows "envelope_wf env"
proof -
  from assms obtain cd s raw es where
    cd: "unhex s = Some cd" and es: "collect_results (map entry_from_json raw) = Ok es"
    and new: "envelope_new cd es = Ok env"
    by (auto simp: from_canonical_json_def split: if_splits)
  note env = envelope_new_Ok [OF new]
  have "entry_wf e" if "e \<in> set es" for e
    using collect_results_set [OF es that] entry_from_json_wf by auto
  with env unhex_length [OF cd] show ?thesis by (simp add: envelope_wf_def list_all_iff)
qed

lemma from_canonical_json_checksum:
  assumes "from_canonical_json to_vec from_slice sha fv schema sv bytes checksum = Ok env"
  shows "envelope_checksum to_vec sha env = Ok checksum"
  using assms by (auto simp: from_canonical_json_def split: if_splits)

section \<open>The unresolved keys of the in-memory store\<close>

lemma count_bt_insert:
  assumes "bt_wf m"
  shows "length (filter P (map snd (bt_insert k v m)))
      + (case bt_get m k of None \<Rightarrow> 0 | Some w \<Rightarrow> if P w then 1 else 0)
    = length (filter P (map snd m)) + (if P v then 1 else 0)"
  using assms
proof (induction k v m rule: bt_insert.induct)
  case (2 k v l w m)
  have "bt_get m k = None" if "k = l \<or> k < l"
    using "2.prems" that by (force simp: bt_wf_Cons bt_get_None_iff)
  with 2 show ?case by (auto simp: bt_wf_Cons bt_get_def)
qed simp

lemma im_reserve_capacity:
  assumes "bt_wf (im_entries s)" and "unresolved_count s \<le> unat (im_limit s)"
    and "\<forall>e. bt_get (im_entries s) (rr_key x) = Some e \<longrightarrow> \<not> re_resolved e"
  shows "unresolved_count (snd (im_reserve x s)) \<le> unat (im_limit s)"
proof (cases "is_ok (fst (im_reserve x s))")
  case False
  with assms(2) im_reserve_refused show ?thesis by simp
next
  case True
  then have ok: "fst (im_reserve x s) = Ok ()" by (simp add: is_ok_iff)
  show ?thesis
    using im_reserve_Ok(2,3) [OF ok] assms(2,3)
      count_bt_insert [OF assms(1), of "\<lambda>e. \<not> re_resolved e" "rr_key x"
        "\<lparr>re_ordinal = rr_ordinal x, re_resolved = False\<rparr>"]
    by (auto simp: unresolved_count_def bt_contains_def split: option.splits)
qed

text \<open>
  The capacity test looks at new keys only. A key that was resolved and is reserved again before
  its chunk commits becomes unresolved without being tested, so the number of unresolved keys can
  exceed the configured limit: with a limit of one, reserve a first key, resolve it, reserve a
  second key, and reserve the first key again.
\<close>

definition capacity_overrun :: in_memory_fault_state where
  "capacity_overrun =
     (let a = [1]; b = [2];
          reservation = (\<lambda>k n. \<lparr>rr_key = k, rr_phase = PhWrite, rr_category = CatTimeout, rr_ordinal = n\<rparr>);
          s1 = snd (im_reserve (reservation a 1) (in_memory_new 1));
          s2 = im_resolve a s1;
          s3 = snd (im_reserve (reservation b 1) s2)
      in snd (im_reserve (reservation a 2) s3))"

lemma in_memory_capacity_overrun:
  "im_limit capacity_overrun = 1 \<and> unresolved_count capacity_overrun = 2"
  by (simp add: capacity_overrun_def Let_def im_reserve_def im_resolve_def in_memory_new_def
      checked_next_def checked_add_def retry_ordinal_initial_def bt_get_def bt_contains_def
      unresolved_count_def)

text \<open>
  Accepting a reservation under the zero checkpoint digest gives an envelope that the reader
  refuses: \<open>envelope_reserved\<close> does not test the digest it stores.
\<close>

lemma reserved_zero_digest_not_readable:
  assumes "envelope_reserved envelope_empty e zero_digest limit = Ok env"
  shows "\<not> envelope_wf env"
proof -
  have "env_sorted envelope_empty" by (simp add: env_sorted_def envelope_empty_def)
  note eff = envelope_reserved_Ok [OF this assms]
  have "env_map (env_entries env) \<noteq> []"
    unfolding eff(1) by (simp add: envelope_empty_def env_map_def)
  then have "env_entries env \<noteq> []" by (auto simp: env_map_def)
  with eff(2) show ?thesis by (simp add: envelope_wf_def)
qed

section \<open>Retry keys identify the failed unit\<close>

lemma phase_bytes_inject:
  assumes "as_bytes (lit (fault_phase_as_str p)) @ 0 # r = as_bytes (lit (fault_phase_as_str q)) @ 0 # s"
  shows "p = q \<and> r = s"
  using assms by (cases p; cases q) (simp_all add: lit_def as_bytes_def utf8_char_def)

lemma length_word_word_of_nat: "n < 2 ^ LENGTH('a) \<Longrightarrow> (length_word n :: 'a::len word) = word_of_nat n"
  by (simp add: length_word_def)

lemma step_name_prefix_delimiting:
  "self_delimiting {s. str_ok s \<and> str_len s < 2 ^ 64}
     (\<lambda>s. to_be_bytes (word_of_nat (str_len s) :: u64) @ as_bytes s)"
proof (rule self_delimitingI)
  fix x y r s
  assume ok: "x \<in> {s. str_ok s \<and> str_len s < 2 ^ 64}" "y \<in> {s. str_ok s \<and> str_len s < 2 ^ 64}"
    and "(to_be_bytes (word_of_nat (str_len x) :: u64) @ as_bytes x) @ r
      = (to_be_bytes (word_of_nat (str_len y) :: u64) @ as_bytes y) @ s"
  then have eq: "(to_be_bytes (length_word (length (as_bytes x)) :: u64) @ as_bytes x) @ r
      = (to_be_bytes (length_word (length (as_bytes y)) :: u64) @ as_bytes y) @ s"
    by (simp add: length_word_word_of_nat)
  have "as_bytes x = as_bytes y"
    by (rule self_delimitingD(1) [OF self_delimiting_length_prefix [where 'n = 64] _ _ eq])
       (use ok in simp_all)
  with ok show "x = y" by (simp add: as_bytes_inject)
qed

section \<open>Properties\<close>

text \<open>
  The bytes hashed into a retry key determine the failed unit of work: equal inputs have the
  same definition digest, step name, phase, checkpoint digest and ordinal. So two different
  units share a retry key only through a collision of the hash function.
\<close>

lemma retry_key_identifies:
  assumes "length d = 32" "length d' = 32" "length c = 32" "length c' = 32"
    and "step_name_new n = Ok n" "step_name_new n' = Ok n'" "str_ok n" "str_ok n'"
  shows "(retry_key_input d n p c r = retry_key_input d' n' p' c' r' \<longleftrightarrow>
            d = d' \<and> n = n' \<and> p = p' \<and> c = c' \<and> r = r')
     \<and> (retry_key_derive sha d n p c r = retry_key_derive sha d' n' p' c' r' \<longrightarrow>
            (d = d' \<and> n = n' \<and> p = p' \<and> c = c' \<and> r = r') \<or> (\<exists>x y. x \<noteq> y \<and> sha x = sha y))"
proof -
  have names: "x \<in> {s. str_ok s \<and> str_len s < 2 ^ 64}" if "step_name_new x = Ok x" "str_ok x" for x
    using that by (simp add: step_name_new_def domain_name_new_Ok_iff name_valid_def
        MAX_DOMAIN_NAME_BYTES_def)
  have "d = d' \<and> n = n' \<and> p = p' \<and> c = c' \<and> r = r'"
    if eq: "retry_key_input d n p c r = retry_key_input d' n' p' c' r'"
  proof -
    let ?tail = "\<lambda>p c r. as_bytes (lit (fault_phase_as_str p)) @ 0 # c @ to_be_bytes (r :: u64)"
    from eq assms(1,2) have d: "d = d'"
      and rest: "(to_be_bytes (word_of_nat (str_len n) :: u64) @ as_bytes n) @ ?tail p c r
        = (to_be_bytes (word_of_nat (str_len n') :: u64) @ as_bytes n') @ ?tail p' c' r'"
      by (simp_all add: retry_key_input_def)
    note split = self_delimitingD [OF step_name_prefix_delimiting names [OF assms(5,7)]
        names [OF assms(6,8)] rest]
    from phase_bytes_inject [OF split(2)] have "p = p'" "c @ to_be_bytes r = c' @ to_be_bytes r'" by auto
    then show ?thesis using d split(1) assms(3,4) by (simp add: to_be_bytes_inject)
  qed
  then show ?thesis by (auto simp: retry_key_derive_def)
qed

lemma retry_key_identifies_witness:
  "retry_key_input zero_digest (lit ''load'') PhRead zero_digest 1
     \<noteq> retry_key_input zero_digest (lit ''load'') PhWrite zero_digest 1"
  using retry_key_identifies
    [of zero_digest zero_digest zero_digest zero_digest "lit ''load''" "lit ''load''" PhRead 1 PhWrite 1
        "\<lambda>bs. take 32 bs"]
  by (simp add: zero_digest_def step_name_new_def domain_name_new_Ok_iff name_valid_def lit_def
      MAX_DOMAIN_NAME_BYTES_def str_ok_def scalar_value_def utf8_width_def is_whitespace_def
      is_control_def)

text \<open>
  C37. No retry ordinal is ever spent twice or skipped: in any sequence of reservations against
  the durable envelope or the in-memory store, the ordinals accepted for one key are exactly the
  consecutive numbers from the stored ordinal plus one up to the stored ordinal afterwards;
  stale and concurrent requests are refused.
\<close>

theorem reservations_consecutive:
  assumes "env_sorted env" and "bt_wf (im_entries s)"
  shows "spent_ordinals (\<lambda>x. fse_key (fst x)) (\<lambda>x. fse_ordinal (fst x)) k xs
       (fst (run_ops envelope_reserve_step xs env))
     = [Suc (unat (unwrap_or (envelope_reserved_ordinal env k) 0)) ..<
        Suc (unat (unwrap_or (envelope_reserved_ordinal (snd (run_ops envelope_reserve_step xs env)) k) 0))]
   \<and> spent_ordinals rr_key rr_ordinal k ys (fst (run_ops im_reserve ys s))
     = [Suc (unat (unwrap_or (im_stored s k) 0)) ..<
        Suc (unat (unwrap_or (im_stored (snd (run_ops im_reserve ys s)) k) 0))]"
  using env_store.run_spends_consecutively [OF assms(1)] mem_store.run_spends_consecutively [OF assms(2)]
  by blast

theorem reservations_consecutive_witness:
  "let x = \<lparr>rr_key = [1], rr_phase = PhWrite, rr_category = CatTimeout, rr_ordinal = 1\<rparr>;
       s = in_memory_new 4 in
   spent_ordinals rr_key rr_ordinal [1] [x, x] (fst (run_ops im_reserve [x, x] s)) = [1]"
proof -
  let ?x = "\<lparr>rr_key = [1], rr_phase = PhWrite, rr_category = CatTimeout, rr_ordinal = 1\<rparr>"
  have "unat (unwrap_or (im_stored (snd (run_ops im_reserve [?x, ?x] (in_memory_new 4))) [1]) 0) = 1"
    "unat (unwrap_or (im_stored (in_memory_new 4) [1]) 0) = 0"
    by (simp_all add: im_reserve_def in_memory_new_def im_stored_def checked_next_def checked_add_def
        retry_ordinal_initial_def bt_get_def bt_contains_def unresolved_count_def)
  then show ?thesis
    using reservations_consecutive [of envelope_empty "in_memory_new 4" "[1]" "[]" "[?x, ?x]"]
    unfolding Let_def by (simp add: env_sorted_def envelope_empty_def in_memory_new_def)
qed

text \<open>
  C38. The durable envelope round-trips. If serde_json reads back the bytes it wrote for a
  well-formed envelope, then storing the envelope and reading it with its checksum gives the
  same envelope; conversely everything the reader accepts is well formed (32-byte digests,
  strictly sorted distinct keys, at most 256 entries, the zero checkpoint digest exactly when
  empty) and its canonical form has the stored checksum.
\<close>

theorem envelope_roundtrip:
  assumes "envelope_wf env" and "to_canonical_json to_vec env = Ok bytes"
    and serde_json_reads_back: "from_slice bytes = Some (envelope_json env)"
  shows "from_canonical_json to_vec from_slice sha FORMAT_VERSION FORMAT SCHEMA_VERSION bytes (sha bytes)
       = Ok env
    \<and> (\<forall>fv schema sv bytes' checksum env'.
         from_canonical_json to_vec from_slice sha fv schema sv bytes' checksum = Ok env' \<longrightarrow>
         envelope_wf env' \<and> envelope_checksum to_vec sha env' = Ok checksum
         \<and> fv = FORMAT_VERSION \<and> schema = FORMAT \<and> sv = SCHEMA_VERSION)"
proof (intro conjI allI impI)
  have sorted: "sorted_wrt (<) (map fse_key (env_entries env))"
    and digest: "length (env_checkpoint_digest env) = 32"
    using assms(1) by (simp_all add: envelope_wf_def env_sorted_def)
  have "collect_results (map entry_from_json (map entry_to_json (env_entries env))) = Ok (env_entries env)"
    by (rule collect_results_map_Ok)
       (use assms(1) in \<open>simp add: envelope_wf_def list_all_iff entry_json_roundtrip\<close>)
  moreover have "bt_get (bt_insert (lit ''entries'') a (bt_insert (lit ''checkpoint'') b []))
      (lit ''checkpoint'') = Some b"
    "bt_get (bt_insert (lit ''entries'') a (bt_insert (lit ''checkpoint'') b [])) (lit ''entries'')
      = Some a" for a b :: json
    by (simp_all add: bt_get_insert del: bt_insert.simps)
  moreover have "length bytes \<le> MAX_BYTES" "envelope_checksum to_vec sha env = Ok (sha bytes)"
    using assms(2) by (auto simp: to_canonical_json_def envelope_checksum_def split: if_splits)
  moreover have "length (env_entries env) \<le> MAX_ENTRIES" using assms(1) by (simp add: envelope_wf_def)
  ultimately show "from_canonical_json to_vec from_slice sha FORMAT_VERSION FORMAT SCHEMA_VERSION
      bytes (sha bytes) = Ok env"
    using assms(3) digest windows2_any_sorted(1) [OF sorted] envelope_new_sorted [OF assms(1)]
    by (simp add: from_canonical_json_def envelope_json_def del: bt_insert.simps map_map)
next
  fix fv schema sv bytes' checksum env'
  assume ok: "from_canonical_json to_vec from_slice sha fv schema sv bytes' checksum = Ok env'"
  show "envelope_wf env'" and "envelope_checksum to_vec sha env' = Ok checksum"
    using from_canonical_json_wf [OF ok] from_canonical_json_checksum [OF ok] by simp_all
  show "fv = FORMAT_VERSION" and "schema = FORMAT" and "sv = SCHEMA_VERSION"
    using ok by (auto simp: from_canonical_json_def split: if_splits)
qed

definition example_entry :: fault_state_entry where
  "example_entry =
     \<lparr>fse_key = replicate 32 7, fse_phase = PhWrite, fse_category = CatTimeout, fse_ordinal = 3,
      fse_revision = lit ''v1''\<rparr>"

definition example_envelope :: fault_state_envelope where
  "example_envelope = \<lparr>env_checkpoint_digest = replicate 32 1, env_entries = [example_entry]\<rparr>"

text \<open>A concrete codec for the witness: one byte names the value it was given.\<close>

definition tag_codec_write :: to_vec where
  "tag_codec_write v = (if v = envelope_json example_envelope then Some [42] else None)"

definition tag_codec_read :: from_slice where
  "tag_codec_read bs = (if bs = [42] then Some (envelope_json example_envelope) else None)"

theorem envelope_roundtrip_witness:
  "from_canonical_json tag_codec_write tag_codec_read (\<lambda>bs. take 32 bs) FORMAT_VERSION FORMAT
     SCHEMA_VERSION [42] [42] = Ok example_envelope"
proof -
  have "envelope_wf example_envelope"
    by (simp add: envelope_wf_def example_envelope_def example_entry_def env_sorted_def entry_wf_def
        name_valid_def lit_def MAX_TOKEN_BYTES_def MAX_ENTRIES_def utf8_width_def is_whitespace_def
        is_control_def zero_digest_def replicate_eq_replicate)
  moreover have "to_canonical_json tag_codec_write example_envelope = Ok [42]"
    by (simp add: to_canonical_json_def tag_codec_write_def MAX_BYTES_def)
  moreover have "tag_codec_read [42] = Some (envelope_json example_envelope)"
    by (simp add: tag_codec_read_def)
  ultimately have "from_canonical_json tag_codec_write tag_codec_read (\<lambda>bs. take 32 bs) FORMAT_VERSION
      FORMAT SCHEMA_VERSION [42] ((\<lambda>bs. take 32 bs) [42]) = Ok example_envelope"
    using envelope_roundtrip by blast
  then show ?thesis by simp
qed

text \<open>
  Accepting a reservation keeps the envelope well formed and bounded: with a 32-byte
  nonzero checkpoint digest, a valid entry and a configured capacity, the result is well formed,
  holds at most the larger of the old size and the capacity, stores exactly the new entry under
  its key, keeps every other entry, and passes the validation the next attempt runs when the
  ordinals are within the retry limit.
\<close>

lemma reserved_wf:
  assumes "envelope_wf env" and "envelope_reserved env e cd limit = Ok env'"
    and "entry_wf e" and "length cd = 32" and "cd \<noteq> zero_digest"
    and "retry_state_limit_new (ucast limit) = Ok limit"
    and "envelope_validate_for env retry_limit limit cd = Ok ()" and "fse_ordinal e \<le> retry_limit"
  shows "envelope_wf env' \<and> length (env_entries env') \<le> unat limit
    \<and> envelope_entry env' = (envelope_entry env)(fse_key e \<mapsto> e)
    \<and> envelope_validate_for env' retry_limit limit cd = Ok ()"
proof -
  have sorted: "env_sorted env" using assms(1) by (simp add: envelope_wf_def)
  note eff = envelope_reserved_Ok [OF sorted assms(2)]
  have "set (env_map (env_entries env')) \<subseteq> insert (fse_key e, e) (set (env_map (env_entries env)))"
    unfolding eff(1) by (rule set_bt_insert_subset)
  then have entries: "set (env_entries env') \<subseteq> insert e (set (env_entries env))"
    by (auto simp: env_map_def)
  have "env_map (env_entries env') \<noteq> []"
    unfolding eff(1) by simp
  then have nonempty: "env_entries env' \<noteq> []" by (auto simp: env_map_def)
  have old: "length (env_entries env) \<le> unat limit"
      "\<forall>x \<in> set (env_entries env). fse_ordinal x \<le> retry_limit"
    using assms(7) by (auto simp: envelope_validate_for_def list_ex_iff split: if_splits)
  have "unat (ucast limit :: u32) \<le> 256"
    using assms(6) by (auto simp: retry_state_limit_new_def MAX_RETRY_STATE_def word_le_nat_alt
        split: if_splits)
  then have small: "unat limit \<le> MAX_ENTRIES" by (simp add: unat_ucast_u16_u32 MAX_ENTRIES_def)
  have len: "length (env_entries env') \<le> unat limit" using eff(6) old(1) by simp
  have "envelope_wf env'"
    using assms(1,3,4,5) eff(2,5) entries nonempty len small
    by (auto simp: envelope_wf_def list_all_iff)
  moreover have "envelope_entry env' k = ((envelope_entry env)(fse_key e \<mapsto> e)) k" for k
    by (simp add: envelope_entry_map [OF sorted] envelope_entry_map [OF eff(5)] eff(1) bt_get_insert)
  moreover have "envelope_validate_for env' retry_limit limit cd = Ok ()"
    using len entries old(2) assms(8) eff(2)
    by (auto simp: envelope_validate_for_def list_ex_iff not_less)
  ultimately show ?thesis using len by blast
qed

lemma reserved_wf_witness:
  "\<exists>env'. envelope_reserved example_envelope (example_entry\<lparr>fse_ordinal := 4\<rparr>) (replicate 32 1) 8 = Ok env'
     \<and> envelope_wf env' \<and> length (env_entries env') \<le> 8"
proof -
  let ?e = "example_entry\<lparr>fse_ordinal := 4\<rparr>"
  let ?env' = "\<lparr>env_checkpoint_digest = replicate 32 1, env_entries = [?e]\<rparr>"
  have search: "binary_search_by_key [example_entry] (fse_key example_entry) = Ok 0"
    by (simp add: binary_search_by_key_def bisect.simps)
  have ok: "envelope_reserved example_envelope ?e (replicate 32 1) 8 = Ok ?env'"
    by (simp add: envelope_reserved_def envelope_reserved_ordinal_def envelope_entry_def search
        example_envelope_def checked_next_def checked_add_def)
       (simp add: example_entry_def)
  have "envelope_wf example_envelope" "entry_wf ?e" "replicate 32 1 \<noteq> zero_digest"
    by (simp_all add: envelope_wf_def example_envelope_def example_entry_def env_sorted_def entry_wf_def
        name_valid_def lit_def MAX_TOKEN_BYTES_def MAX_ENTRIES_def utf8_width_def is_whitespace_def
        is_control_def zero_digest_def replicate_eq_replicate)
  moreover have "retry_state_limit_new (ucast (8 :: u16)) = Ok (8 :: u16)"
    by (simp add: retry_state_limit_new_def MIN_RETRY_STATE_def MAX_RETRY_STATE_def
        u16_try_from_u32_def)
  moreover have "envelope_validate_for example_envelope 9 8 (replicate 32 1) = Ok ()" "fse_ordinal ?e \<le> 9"
    by (simp_all add: envelope_validate_for_def example_envelope_def example_entry_def)
  ultimately have "envelope_wf ?env' \<and> length (env_entries ?env') \<le> unat (8 :: u16)"
    using reserved_wf [OF _ ok] by simp
  with ok show ?thesis by auto
qed

text \<open>
  The in-memory store bounds its unresolved keys only for keys that are not resolved: a
  reservation of a new or still unresolved key keeps the number of unresolved keys within the
  configured limit, and resolving or clearing keys never raises it; but re-reserving a resolved
  key that its chunk has not cleared yet is not counted, and so the limit can be exceeded.
\<close>

lemma in_memory_capacity:
  "(bt_wf (im_entries s) \<and> unresolved_count s \<le> unat (im_limit s)
      \<and> (\<forall>e. bt_get (im_entries s) (rr_key x) = Some e \<longrightarrow> \<not> re_resolved e) \<longrightarrow>
      unresolved_count (snd (im_reserve x s)) \<le> unat (im_limit s))
   \<and> (bt_wf (im_entries s) \<longrightarrow>
        unresolved_count (im_resolve k s) \<le> unresolved_count s
        \<and> unresolved_count (im_clear_resolved s) = unresolved_count s)
   \<and> im_limit capacity_overrun = 1 \<and> unresolved_count capacity_overrun = 2"
proof (intro conjI impI)
  assume wf: "bt_wf (im_entries s)"
  show "unresolved_count (im_resolve k s) \<le> unresolved_count s"
  proof (cases "bt_get (im_entries s) k")
    case (Some e)
    with count_bt_insert [OF wf, of "\<lambda>e. \<not> re_resolved e" k "e\<lparr>re_resolved := True\<rparr>"] show ?thesis
      by (simp add: im_resolve_def unresolved_count_def)
  qed (simp add: im_resolve_def)
  show "unresolved_count (im_clear_resolved s) = unresolved_count s"
    by (simp add: unresolved_count_def im_clear_resolved_def bt_retain_def filter_map comp_def)
qed (use im_reserve_capacity in_memory_capacity_overrun in blast)+

lemma in_memory_capacity_witness:
  "let x = \<lparr>rr_key = [1], rr_phase = PhWrite, rr_category = CatTimeout, rr_ordinal = 1\<rparr> in
   unresolved_count (snd (im_reserve x (in_memory_new 4))) \<le> 4"
  unfolding Let_def
  using in_memory_capacity
    [of "in_memory_new 4" "\<lparr>rr_key = [1], rr_phase = PhWrite, rr_category = CatTimeout, rr_ordinal = 1\<rparr>"]
  by (simp add: in_memory_new_def unresolved_count_def)
end
