(* ===== verification/Flow_Manifest.thy ===== *)
theory Flow_Manifest
  imports Flow_Nodes Fault_State
begin

text \<open>
  The canonical manifest of a compiled flow, from the \<^verbatim>\<open>manifest_value\<close> projections of
  \<^verbatim>\<open>oxide-batch-plan\<close>. The manifest is what a definition fingerprint hashes, so the lemmas say
  exactly which parts of a declaration it determines.
\<close>

section \<open>Projections\<close>

definition start_controls_manifest :: "start_controls \<Rightarrow> json" where
  "start_controls_manifest controls =
     (let v = json_object
        [(''allow_start_if_complete'', JBool (stc_allow_start_if_complete controls)),
         (''start_limit'', json_unsigned (stc_start_limit controls))]
      in if stc_restart_policy controls = RpNotRestartable
         then object_insert ''restart_policy'' (json_literal ''not_restartable'') v
         else v)"

fun flow_target_manifest :: "flow_target \<Rightarrow> json" where
  "flow_target_manifest (TargetNode i) = json_object [(''node'', json_string i)]"
| "flow_target_manifest (TargetTerminal kind) =
     json_object [(''terminal'', json_literal (terminal_kind_as_str kind))]"

definition chunk_declaration_manifest :: "chunk_component_revisions \<Rightarrow> json" where
  "chunk_declaration_manifest revisions =
     (let restart = ccr_restart revisions;
          v = json_object
            [(''checkpoint'', json_object
                [(''schema'', json_string (crc_checkpoint_schema restart)),
                 (''version'', json_unsigned (crc_checkpoint_schema_version restart))]),
             (''components'', json_object
                [(''checkpoint'', json_string (ccr_checkpoint revisions)),
                 (''processor'', json_string (ccr_processor revisions)),
                 (''reader'', json_string (ccr_reader revisions)),
                 (''writer'', json_string (ccr_writer revisions))]),
             (''context'', json_object
                [(''schema'', json_string (crc_context_schema restart)),
                 (''version'', json_unsigned (crc_context_schema_version restart))]),
             (''delivery_mode'', json_literal (delivery_mode_manifest_name (crc_delivery_mode restart)))]
      in if crc_in_flight_policy restart = RollbackChunk
         then object_insert ''in_flight_policy'' (json_literal ''rollback_chunk'') v
         else v)"

text \<open>\<^verbatim>\<open>u64::try_from(duration.as_millis()).unwrap_or(u64::MAX)\<close>.\<close>

definition millis_u64 :: "duration \<Rightarrow> u64" where
  "millis_u64 d = (let ms = d div 10 ^ 6 in if ms < 2 ^ 64 then word_of_nat ms else - 1)"

definition fault_rule_manifest :: "fault_rule \<Rightarrow> json" where
  "fault_rule_manifest rule =
     json_object
       [(''category'', json_literal (failure_category_as_str (fr_category rule))),
        (''phase'', json_literal (fault_phase_as_str (fr_phase rule))),
        (''retryable'', JBool (fa_retryable (fr_action rule))),
        (''skip'', case fa_skip (fr_action rule) of
                     None \<Rightarrow> JNull
                   | Some skip \<Rightarrow> json_literal (rollback_disposition_as_str skip))]"

definition fault_manifest_value :: "fault_policy \<Rightarrow> json" where
  "fault_manifest_value policy =
     (let backoff = fp_backoff policy in
      json_object
        [(''backoff'', json_object
            [(''initial_ms'', json_unsigned (millis_u64 (bp_initial backoff))),
             (''kind'', json_literal (backoff_kind_as_str (bp_kind backoff))),
             (''maximum_ms'', json_unsigned (millis_u64 (bp_maximum backoff))),
             (''multiplier'', json_unsigned (bp_multiplier backoff))]),
         (''classifier'', json_object
            [(''revision'', json_string (fc_revision (fp_classifier policy))),
             (''rules'', JArray (map fault_rule_manifest (fc_rules (fp_classifier policy))))]),
         (''retry_limit'', json_unsigned (fp_retry_limit policy)),
         (''retry_state_limit'', json_unsigned (fp_retry_state_limit policy)),
         (''skip_limit'', json_unsigned (fp_skip_limit policy))])"

definition fault_option_manifest :: "fault_policy option \<Rightarrow> json" where
  "fault_option_manifest fault = (case fault of None \<Rightarrow> JNull | Some p \<Rightarrow> fault_manifest_value p)"

fun step_components_manifest :: "step_components \<Rightarrow> json" where
  "step_components_manifest (Tasklet revision) =
     json_object [(''component'', json_string revision),
                  (''delivery_mode'', json_literal ''best_effort''),
                  (''transaction_boundary'', json_literal ''tasklet_completion'')]"
| "step_components_manifest (ChunkStep chunk_size revisions) =
     object_insert ''transaction_boundary'' (json_literal ''chunk'')
       (object_insert ''size'' (json_unsigned chunk_size) (chunk_declaration_manifest revisions))"

definition step_manifest_value :: "step_node \<Rightarrow> json" where
  "step_manifest_value step =
     (let v = json_object
        [(''id'', json_string (sn_id step)),
         (''kind'', json_literal ''step''),
         (''listeners'', JArray (map json_string (sn_listeners step))),
         (''policy'', fault_option_manifest (sn_fault step)),
         (''start'', start_controls_manifest (sn_start step)),
         (''step'', json_object
            [(''declaration'', step_components_manifest (sn_components step)),
             (''kind'', json_literal (step_components_kind_name (sn_components step))),
             (''name'', json_string (sn_step_name step))])]
      in case sn_repeat step of
           None \<Rightarrow> v
         | Some repeat \<Rightarrow> object_insert ''repeat'' (repeat_manifest_value repeat) v)"

definition decision_manifest_value :: "decision_node \<Rightarrow> json" where
  "decision_manifest_value node =
     json_object
       [(''decision'', json_object
           [(''input_version'', json_unsigned (dn_input_version node)),
            (''revision'', json_string (dn_revision node))]),
        (''id'', json_string (dn_id node)),
        (''kind'', json_literal ''decision'')]"

definition split_branch_manifest_value :: "split_branch \<Rightarrow> json" where
  "split_branch_manifest_value branch = JArray (map step_manifest_value (sb_steps branch))"

definition split_manifest_value :: "split_node \<Rightarrow> json" where
  "split_manifest_value node =
     json_object
       [(''branches'', JArray (map split_branch_manifest_value (spn_branches node))),
        (''failure_policy'', json_literal (local_failure_policy_as_str (spn_failure_policy node))),
        (''id'', json_string (spn_id node)),
        (''join'', json_string (spn_join node)),
        (''kind'', json_literal ''split'')]"

definition join_manifest_value :: "join_node \<Rightarrow> json" where
  "join_manifest_value node = json_object [(''id'', json_string (jn_id node)), (''kind'', json_literal ''join'')]"

definition partitioned_step_manifest_value :: "partitioned_step_node \<Rightarrow> json" where
  "partitioned_step_manifest_value node =
     json_object
       [(''aggregation'', json_string (psn_aggregation node)),
        (''failure_policy'', json_literal (local_failure_policy_as_str (psn_failure_policy node))),
        (''id'', json_string (psn_id node)),
        (''kind'', json_literal ''partitioned_step''),
        (''partition_count'', json_unsigned (psn_partitions node)),
        (''partitioner'', json_string (psn_partitioner node)),
        (''start'', start_controls_manifest (psn_start node)),
        (''step_name'', json_string (psn_step_name node)),
        (''worker'', step_manifest_value (psn_worker node))]"

definition selector_path_manifest :: "selector_path \<Rightarrow> json" where
  "selector_path_manifest path = JArray (map JString path)"

fun nested_job_source_manifest :: "nested_job_parameter_source \<Rightarrow> json" where
  "nested_job_source_manifest (ParentParameter name) =
     json_object [(''kind'', json_literal ''parent_parameter''), (''name'', json_string name)]"
| "nested_job_source_manifest (ParentJobContext schema version path) =
     json_object [(''kind'', json_literal ''parent_job_context''),
                  (''path'', selector_path_manifest path),
                  (''schema'', json_string schema),
                  (''schema_version'', json_unsigned version)]"
| "nested_job_source_manifest (ParentStepContext node schema version path) =
     json_object [(''kind'', json_literal ''parent_step_context''),
                  (''node'', json_string node),
                  (''path'', selector_path_manifest path),
                  (''schema'', json_string schema),
                  (''schema_version'', json_unsigned version)]"
| "nested_job_source_manifest (FrameworkParameter source) =
     json_object [(''field'', json_literal (framework_parameter_source_as_str source)),
                  (''kind'', json_literal ''framework'')]"

fun parameter_role_manifest :: "parameter_role \<Rightarrow> string" where
  "parameter_role_manifest Identifying = ''identifying''"
| "parameter_role_manifest NonIdentifying = ''non_identifying''"

definition nested_job_mapping_manifest :: "nested_job_parameter_mapping \<Rightarrow> json" where
  "nested_job_mapping_manifest m =
     json_object
       [(''coercion'', json_literal (parameter_coercion_as_str (njm_coercion m))),
        (''expected'', json_literal (parameter_value_kind_as_str (njm_expected m))),
        (''missing'', json_literal (missing_parameter_policy_as_str (njm_missing m))),
        (''role'', json_literal (parameter_role_manifest (njm_role m))),
        (''source'', nested_job_source_manifest (njm_source m)),
        (''target'', json_string (njm_target m))]"

definition nested_job_manifest_value :: "nested_job_node \<Rightarrow> json" where
  "nested_job_manifest_value node =
     (let child = njn_child_definition node;
          child_name = unwrap_or (di_job_name child) [] in
      json_object
        [(''child'', json_object
            [(''fingerprint'', json_string (hex (di_manifest_digest child))),
             (''format'', json_unsigned (di_manifest_format child)),
             (''job'', json_string child_name),
             (''revision'', json_string (di_revision child))]),
         (''id'', json_string (njn_id node)),
         (''kind'', json_literal ''nested_job''),
         (''mapping_revision'', json_string (njn_mapping_revision node)),
         (''parameters'', JArray (map nested_job_mapping_manifest (njn_mappings node)))])"

definition custom_leaf_manifest_value :: "custom_leaf_node \<Rightarrow> json" where
  "custom_leaf_manifest_value node =
     json_object
       [(''handler_revision'', json_string (cln_handler_revision node)),
        (''id'', json_string (cln_id node)),
        (''kind'', json_literal ''custom_leaf''),
        (''leaf_kind'', json_string (cln_kind node)),
        (''listeners'', JArray (map json_string (cln_listeners node))),
        (''policy'', fault_option_manifest (cln_fault node)),
        (''start'', start_controls_manifest (cln_start node)),
        (''state_schema'', json_object
           [(''id'', json_string (cln_state_schema_id node)),
            (''version'', json_unsigned (cln_state_schema_version node))]),
        (''step_name'', json_string (cln_step_name node))]"

fun late_bound_source_manifest :: "late_bound_source \<Rightarrow> json" where
  "late_bound_source_manifest (LbsJobParameter name) =
     json_object [(''kind'', json_literal ''job_parameter''), (''name'', json_string name)]"
| "late_bound_source_manifest (LbsJobContext schema version path) =
     json_object [(''kind'', json_literal ''job_context''),
                  (''path'', selector_path_manifest path),
                  (''schema'', json_string schema),
                  (''schema_version'', json_unsigned version)]"
| "late_bound_source_manifest (LbsStepContext node schema version path) =
     json_object [(''kind'', json_literal ''step_context''),
                  (''node'', json_string node),
                  (''path'', selector_path_manifest path),
                  (''schema'', json_string schema),
                  (''schema_version'', json_unsigned version)]"
| "late_bound_source_manifest (LbsFramework source) =
     json_object [(''field'', json_literal (scope_framework_source_as_str source)),
                  (''kind'', json_literal ''framework'')]"

definition late_bound_input_manifest :: "late_bound_input \<Rightarrow> json" where
  "late_bound_input_manifest i =
     json_object
       [(''coercion'', json_literal (parameter_coercion_as_str (lbi_coercion i))),
        (''expected'', json_literal (parameter_value_kind_as_str (lbi_expected i))),
        (''missing'', json_literal (missing_parameter_policy_as_str (lbi_missing i))),
        (''name'', json_string (lbi_name i)),
        (''source'', late_bound_source_manifest (lbi_source i))]"

definition scoped_component_manifest :: "scoped_component_definition \<Rightarrow> json" where
  "scoped_component_manifest c =
     json_object
       [(''factory'', json_object
           [(''kind'', json_string (scd_factory_kind c)),
            (''revision'', json_string (scd_factory_revision c))]),
        (''id'', json_string (scd_id c)),
        (''inputs'', JArray (map late_bound_input_manifest (scd_inputs c))),
        (''resolver'', json_object
           [(''kind'', json_string (scd_resolver_kind c)),
            (''revision'', json_string (scd_resolver_revision c))]),
        (''scope'', json_literal (scope_kind_as_str (scd_scope c)))]"

fun flow_node_manifest_value :: "flow_node \<Rightarrow> json" where
  "flow_node_manifest_value (FnStep node) = step_manifest_value node"
| "flow_node_manifest_value (FnDecision node) = decision_manifest_value node"
| "flow_node_manifest_value (FnNestedJob node) = nested_job_manifest_value node"
| "flow_node_manifest_value (FnCustomLeaf node) = custom_leaf_manifest_value node"
| "flow_node_manifest_value (FnSplit node) = split_manifest_value node"
| "flow_node_manifest_value (FnJoin node) = join_manifest_value node"
| "flow_node_manifest_value (FnPartitionedStep node) = partitioned_step_manifest_value node"

definition flow_transition_manifest_value :: "flow_transition \<Rightarrow> json" where
  "flow_transition_manifest_value t =
     json_object
       [(''pattern'', json_string (ft_pattern t)),
        (''source'', json_string (ft_source t)),
        (''target'', flow_target_manifest (ft_target t))]"

definition flow_manifest ::
  "job_name \<Rightarrow> node_id \<Rightarrow> (node_id, flow_node) btree_map
   \<Rightarrow> (node_id, flow_transition list) btree_map \<Rightarrow> bool \<Rightarrow> json" where
  "flow_manifest job_name entry nodes transitions local_scale =
     json_object
       [(''entry'', json_string entry),
        (''format'', json_unsigned (if local_scale then MANIFEST_FORMAT_LOCAL_SCALE else MANIFEST_FORMAT_FLOW)),
        (''job'', json_string job_name),
        (''nodes'', JArray (map (\<lambda>(i, node). flow_node_manifest_value node) nodes)),
        (''transitions'', JArray (concat (map (\<lambda>(i, edges). map flow_transition_manifest_value edges) transitions)))]"

section \<open>What the manifest determines\<close>

lemma object_insert_object: "object_insert k v (json_object ms) = json_object (ms @ [(k, v)])"
  by (simp add: json_object_def object_members_def bt_collect_def)

lemma json_object_neq:
  assumes "map_of (rev ms) k \<noteq> map_of (rev ns) k"
  shows "json_object ms \<noteq> json_object ns"
proof
  assume "json_object ms = json_object ns"
  then have "json_get (json_object ms) k = json_get (json_object ns) k" by simp
  with assms show False by simp
qed

lemma ucast_u64_inject:
  assumes "LENGTH('a::len) \<le> 64"
  shows "(ucast (v :: 'a word) :: u64) = ucast w \<longleftrightarrow> v = w"
proof
  assume "(ucast v :: u64) = ucast w"
  then have "(try_from_u64 (ucast v :: u64) :: 'a word option) = try_from_u64 (ucast w :: u64)" by (rule arg_cong)
  then show "v = w" by (simp only: try_from_u64_ucast [OF assms] option.inject)
qed simp

lemma json_unsigned_inject:
  "json_unsigned (v :: u16) = json_unsigned w \<longleftrightarrow> v = w"
  "json_unsigned (a :: u32) = json_unsigned b \<longleftrightarrow> a = b"
  "json_unsigned (c :: u64) = json_unsigned d \<longleftrightarrow> c = d"
  by (simp_all add: json_unsigned_def ucast_u64_inject)

lemma json_string_inject [simp]:
  "json_string a = json_string b \<longleftrightarrow> a = b" "json_literal x = json_literal y \<longleftrightarrow> x = y"
  by (simp_all add: json_string_def json_literal_def)

lemmas manifest_inject = json_object_inject json_unsigned_inject object_insert_object

lemma start_controls_manifest_inject:
  "start_controls_manifest a = start_controls_manifest b \<longleftrightarrow> a = b"
proof
  assume eq: "start_controls_manifest a = start_controls_manifest b"
  have "stc_restart_policy a = stc_restart_policy b"
    using arg_cong [OF eq, of "\<lambda>j. json_get j ''restart_policy''"]
    by (cases "stc_restart_policy a"; cases "stc_restart_policy b")
       (simp_all add: start_controls_manifest_def Let_def)
  with eq show "a = b"
    by (cases "stc_restart_policy a")
       (auto simp: start_controls_manifest_def Let_def manifest_inject intro: start_controls.equality)
qed simp

lemma rollback_disposition_as_str_inject:
  "rollback_disposition_as_str a = rollback_disposition_as_str b \<longleftrightarrow> a = b"
  by (cases a; cases b) simp_all

lemma backoff_kind_as_str_inject: "backoff_kind_as_str a = backoff_kind_as_str b \<longleftrightarrow> a = b"
  by (cases a; cases b) simp_all

lemma fault_phase_as_str_inject: "fault_phase_as_str a = fault_phase_as_str b \<longleftrightarrow> a = b"
  by (cases a; cases b) simp_all

lemma failure_category_as_str_inject: "failure_category_as_str a = failure_category_as_str b \<longleftrightarrow> a = b"
  by (cases a; cases b) simp_all

lemma delivery_mode_inject: "delivery_mode_manifest_name a = delivery_mode_manifest_name b \<longleftrightarrow> a = b"
  by (cases a; cases b) simp_all

lemma fault_rule_manifest_inject: "fault_rule_manifest a = fault_rule_manifest b \<longleftrightarrow> a = b"
proof -
  have skip: "(case x of None \<Rightarrow> JNull | Some d \<Rightarrow> json_literal (rollback_disposition_as_str d)) =
      (case y of None \<Rightarrow> JNull | Some d \<Rightarrow> json_literal (rollback_disposition_as_str d)) \<longleftrightarrow> x = y" for x y
    by (cases x; cases y) (auto simp: json_literal_def rollback_disposition_as_str_inject)
  show ?thesis
    by (auto simp: fault_rule_manifest_def manifest_inject skip fault_phase_as_str_inject
        failure_category_as_str_inject intro!: fault_rule.equality fault_action.equality)
qed

text \<open>A fault policy with its backoff rounded down to whole milliseconds.\<close>

definition whole_millis :: "fault_policy \<Rightarrow> fault_policy" where
  "whole_millis p = p\<lparr>fp_backoff := (fp_backoff p)
     \<lparr>bp_initial := unat (millis_u64 (bp_initial (fp_backoff p))),
      bp_maximum := unat (millis_u64 (bp_maximum (fp_backoff p)))\<rparr>\<rparr>"

lemma fault_manifest_inject:
  "fault_manifest_value p = fault_manifest_value q \<longleftrightarrow> whole_millis p = whole_millis q"
proof -
  have "map fault_rule_manifest xs = map fault_rule_manifest ys \<longleftrightarrow> xs = ys" for xs ys
    by (rule inj_map_eq_map) (simp add: inj_def fault_rule_manifest_inject)
  then show ?thesis
    by (cases p; cases q; cases "fp_backoff p"; cases "fp_backoff q";
        cases "fp_classifier p"; cases "fp_classifier q")
       (auto simp: fault_manifest_value_def Let_def whole_millis_def manifest_inject
         backoff_kind_as_str_inject intro: word_unat_eq_iff [THEN iffD2])
qed

text \<open>The chunk declaration as far as the flow manifest records it.\<close>

definition without_streams :: "chunk_component_revisions \<Rightarrow> chunk_component_revisions" where
  "without_streams c = c\<lparr>ccr_streams := [], ccr_completion_policy := None\<rparr>"

lemma chunk_declaration_inject:
  "chunk_declaration_manifest c = chunk_declaration_manifest d \<longleftrightarrow> without_streams c = without_streams d"
proof
  assume eq: "chunk_declaration_manifest c = chunk_declaration_manifest d"
  have policy: "crc_in_flight_policy (ccr_restart c) = crc_in_flight_policy (ccr_restart d)"
    using arg_cong [OF eq, of "\<lambda>j. json_get j ''in_flight_policy''"]
    by (cases "crc_in_flight_policy (ccr_restart c)"; cases "crc_in_flight_policy (ccr_restart d)")
       (simp_all add: chunk_declaration_manifest_def Let_def)
  with eq show "without_streams c = without_streams d"
    by (cases c; cases d; cases "ccr_restart c"; cases "ccr_restart d"; cases "crc_in_flight_policy (ccr_restart c)")
       (auto simp: chunk_declaration_manifest_def Let_def manifest_inject delivery_mode_inject without_streams_def)
next
  assume "without_streams c = without_streams d"
  then have "ccr_restart c = ccr_restart d" "ccr_reader c = ccr_reader d" "ccr_processor c = ccr_processor d"
    "ccr_writer c = ccr_writer d" "ccr_checkpoint c = ccr_checkpoint d"
    by (cases c; cases d; simp add: without_streams_def)+
  then show "chunk_declaration_manifest c = chunk_declaration_manifest d"
    by (simp add: chunk_declaration_manifest_def)
qed

fun same_components :: "step_components \<Rightarrow> step_components \<Rightarrow> bool" where
  "same_components (Tasklet r) (Tasklet r') \<longleftrightarrow> r = r'"
| "same_components (ChunkStep n c) (ChunkStep n' c') \<longleftrightarrow> n = n' \<and> without_streams c = without_streams c'"
| "same_components (ChunkStep n c) (Tasklet r) \<longleftrightarrow> False"
| "same_components (Tasklet r) (ChunkStep n c) \<longleftrightarrow> False"

lemma is_object_chunk_declaration [simp]: "is_object (chunk_declaration_manifest c)"
  by (simp add: chunk_declaration_manifest_def Let_def)

lemma tasklet_neq_chunk: "step_components_manifest (Tasklet r) \<noteq> step_components_manifest (ChunkStep n c)"
proof
  assume "step_components_manifest (Tasklet r) = step_components_manifest (ChunkStep n c)"
  from arg_cong [OF this, of "\<lambda>j. json_get j ''size''"] show False by simp
qed

lemma step_components_manifest_inject:
  "step_components_manifest a = step_components_manifest b \<longleftrightarrow> same_components a b"
proof (cases "(a, b)" rule: same_components.cases)
  case (2 n c n' c')
  have ins: "object_insert ''transaction_boundary'' x (object_insert ''size'' v (chunk_declaration_manifest c)) =
      object_insert ''transaction_boundary'' x (object_insert ''size'' w (chunk_declaration_manifest c'))
      \<longleftrightarrow> v = w \<and> chunk_declaration_manifest c = chunk_declaration_manifest c'" for v w x
  proof
    assume eq: "object_insert ''transaction_boundary'' x (object_insert ''size'' v (chunk_declaration_manifest c)) =
      object_insert ''transaction_boundary'' x (object_insert ''size'' w (chunk_declaration_manifest c'))"
    have policy: "crc_in_flight_policy (ccr_restart c) = crc_in_flight_policy (ccr_restart c')"
      using arg_cong [OF eq, of "\<lambda>j. json_get j ''in_flight_policy''"]
      by (cases "crc_in_flight_policy (ccr_restart c)"; cases "crc_in_flight_policy (ccr_restart c')")
         (simp_all add: chunk_declaration_manifest_def Let_def)
    with eq show "v = w \<and> chunk_declaration_manifest c = chunk_declaration_manifest c'"
      by (cases "crc_in_flight_policy (ccr_restart c)")
         (auto simp: chunk_declaration_manifest_def Let_def manifest_inject)
  qed simp
  show ?thesis using 2 by (simp add: ins json_unsigned_inject chunk_declaration_inject)
next
  case (3 n c r)
  then show ?thesis using tasklet_neq_chunk [of r n c] by (metis prod.inject same_components.simps(3))
next
  case (4 r n c)
  then show ?thesis using tasklet_neq_chunk [of r n c] by (metis prod.inject same_components.simps(4))
next
  case (1 r r')
  then show ?thesis by (simp add: manifest_inject)
qed

lemma fault_option_manifest_inject:
  "fault_option_manifest p = fault_option_manifest q \<longleftrightarrow> map_option whole_millis p = map_option whole_millis q"
  by (cases p; cases q)
     (auto simp: fault_option_manifest_def fault_manifest_inject [symmetric] fault_manifest_value_def
       json_object_def Let_def)

text \<open>
  The manifest of a step node determines its restart meaning, and nothing else: two steps
  have the same manifest, and hence contribute the same bytes to a definition fingerprint,
  exactly when they agree on identifier, step name, listeners, start controls, repeat member, on
  the fault policy up to whole milliseconds of backoff, and on the components up to the chunk
  stream revisions and the completion-policy revision.
\<close>

lemma step_manifest_determines:
  "step_manifest_value s = step_manifest_value t \<longleftrightarrow>
     sn_id s = sn_id t \<and> sn_step_name s = sn_step_name t \<and> sn_listeners s = sn_listeners t
     \<and> sn_start s = sn_start t
     \<and> map_option repeat_manifest_value (sn_repeat s) = map_option repeat_manifest_value (sn_repeat t)
     \<and> map_option whole_millis (sn_fault s) = map_option whole_millis (sn_fault t)
     \<and> same_components (sn_components s) (sn_components t)"
proof -
  have strings: "map json_string xs = map json_string ys \<longleftrightarrow> xs = ys" for xs ys
    by (rule inj_map_eq_map) (simp add: inj_def)
  have kind: "same_components a b \<Longrightarrow> step_components_kind_name a = step_components_kind_name b" for a b
    by (cases "(a, b)" rule: same_components.cases) simp_all
  have repeat: "sn_repeat s = None \<longleftrightarrow> sn_repeat t = None" if "step_manifest_value s = step_manifest_value t"
    using arg_cong [OF that, of "\<lambda>j. json_get j ''repeat''"]
    by (simp add: step_manifest_value_def Let_def split: option.splits)
  show ?thesis
  proof (cases "sn_repeat s = None \<longleftrightarrow> sn_repeat t = None")
    case False
    with repeat show ?thesis by (cases "sn_repeat s"; cases "sn_repeat t") auto
  next
    case True
    then show ?thesis
      by (cases "sn_repeat s"; cases "sn_repeat t")
         (auto simp: step_manifest_value_def Let_def manifest_inject strings kind
           start_controls_manifest_inject fault_option_manifest_inject step_components_manifest_inject)
  qed
qed

text \<open>
  The documentation of \<^verbatim>\<open>ComponentStreamIdentity\<close> says that a stream takes part in the chunk
  definition fingerprint, and that of \<^verbatim>\<open>with_completion_policy_revision\<close> that the policy revision
  is restart-relevant. This holds for one-step definitions only. In a flow the chunk declaration
  drops both, so registering a stream or a completion policy does not change the manifest, while
  it always changes the one-step manifest of the same step.
\<close>

lemma flow_fingerprint_ignores_streams:
  "chunk_declaration_manifest (with_stream_revision i r c) = chunk_declaration_manifest c
   \<and> chunk_declaration_manifest (with_completion_policy_revision r c) = chunk_declaration_manifest c
   \<and> chunk_manifest job step n (with_stream_revision i r c)
       \<noteq> chunk_manifest job step n (c\<lparr>ccr_streams := []\<rparr>)
   \<and> chunk_manifest job step n (with_completion_policy_revision r c)
       \<noteq> chunk_manifest job step n (c\<lparr>ccr_completion_policy := None\<rparr>)"
proof (intro conjI)
  show "chunk_declaration_manifest (with_stream_revision i r c) = chunk_declaration_manifest c"
    "chunk_declaration_manifest (with_completion_policy_revision r c) = chunk_declaration_manifest c"
    by (simp_all add: chunk_declaration_inject without_streams_def with_stream_revision_def
        with_completion_policy_revision_def)
  have "json_get (chunk_manifest job step n (with_stream_revision i r c)) ''streams'' \<noteq> None"
    "json_get (chunk_manifest job step n (c\<lparr>ccr_streams := []\<rparr>)) ''streams'' = None"
    by (simp_all add: chunk_manifest_def Let_def with_stream_revision_def split: option.splits)
  then show "chunk_manifest job step n (with_stream_revision i r c)
       \<noteq> chunk_manifest job step n (c\<lparr>ccr_streams := []\<rparr>)" by metis
  have "json_get (chunk_manifest job step n (with_completion_policy_revision r c)) ''completion_policy'' \<noteq> None"
    "json_get (chunk_manifest job step n (c\<lparr>ccr_completion_policy := None\<rparr>)) ''completion_policy'' = None"
    by (simp_all add: chunk_manifest_def Let_def with_completion_policy_revision_def)
  then show "chunk_manifest job step n (with_completion_policy_revision r c)
       \<noteq> chunk_manifest job step n (c\<lparr>ccr_completion_policy := None\<rparr>)" by metis
qed

end
