(* ===== verification/Graph_Search.thy ===== *)
theory Graph_Search
  imports Batch_Prelude
begin

text \<open>
  Depth-first search with a visited set and a path set, as the flow compiler runs it twice. The
  locale fixes one search by its equations; its lemmas say that the search accepts exactly when
  no cycle can be reached, and that it then has visited exactly what can be reached.
\<close>

locale dfs =
  fixes visit :: "'n \<Rightarrow> 'n set \<Rightarrow> 'n set \<Rightarrow> 'e + 'n set \<times> 'n set"
    and visit_edges :: "'n list \<Rightarrow> 'n set \<Rightarrow> 'n set \<Rightarrow> 'e + 'n set \<times> 'n set"
    and succs :: "'n \<Rightarrow> 'n list"
    and cyclic :: "'n \<Rightarrow> 'e"
    and U :: "'n set"
  assumes visit_eq: "n \<in> U \<Longrightarrow> visit n V P =
      (if n \<in> P then Err (cyclic n)
       else if n \<in> V then Ok (V, P)
       else res_bind (visit_edges (succs n) (insert n V) (insert n P)) (\<lambda>(V, P). Ok (V, P - {n})))"
    and edges_Nil: "visit_edges [] V P = Ok (V, P)"
    and edges_Cons: "n \<in> U \<Longrightarrow> visit_edges (n # ns) V P =
      res_bind (visit n V P) (\<lambda>(V, P). visit_edges ns V P)"
    and finite_U: "finite U"
    and closed_U: "n \<in> U \<Longrightarrow> set (succs n) \<subseteq> U"
begin

definition edge :: "('n \<times> 'n) set" where
  "edge = {(m, n). m \<in> U \<and> n \<in> set (succs m)}"

text \<open>The finished nodes: closed under successors, on no cycle.\<close>

definition finished :: "'n set \<Rightarrow> bool" where
  "finished D \<longleftrightarrow> edge `` D \<subseteq> D \<and> (\<forall>n \<in> D. (n, n) \<notin> edge\<^sup>+)"

definition leads :: "'n set \<Rightarrow> 'n set \<Rightarrow> bool" where
  "leads P N \<longleftrightarrow> (\<forall>p \<in> P. \<forall>n \<in> N. (p, n) \<in> edge\<^sup>+)"

definition search_ok :: "'n set \<Rightarrow> 'n set \<Rightarrow> 'n set \<Rightarrow> 'e + 'n set \<times> 'n set \<Rightarrow> bool" where
  "search_ok N V P r \<longleftrightarrow>
     (case r of
        Ok (V', P') \<Rightarrow> P' = P \<and> V \<subseteq> V' \<and> V' \<subseteq> U \<and> N \<subseteq> V' - P \<and> finished (V' - P) \<and> V' - V \<subseteq> edge\<^sup>* `` N
      | Err e \<Rightarrow> \<exists>n. e = cyclic n \<and> (n, n) \<in> edge\<^sup>+ \<and> n \<in> edge\<^sup>* `` N)"

lemma closed_rtrancl: "(m, n) \<in> edge\<^sup>* \<Longrightarrow> edge `` D \<subseteq> D \<Longrightarrow> m \<in> D \<Longrightarrow> n \<in> D"
  by (induction rule: rtrancl_induct) auto

lemma edge_in_U: "(m, n) \<in> edge \<Longrightarrow> n \<in> U"
  using closed_U by (auto simp: edge_def)

text \<open>Finishing a node whose successors are all finished.\<close>

lemma finished_insert:
  assumes "finished D" and "set (succs n) \<subseteq> D" and "n \<notin> D" and "n \<in> U"
  shows "finished (insert n D)"
proof -
  have closed: "edge `` D \<subseteq> D" and acyc: "\<forall>m \<in> D. (m, m) \<notin> edge\<^sup>+"
    using assms(1) by (auto simp: finished_def)
  have "(n, n) \<notin> edge\<^sup>+"
  proof
    assume "(n, n) \<in> edge\<^sup>+"
    then obtain m where "(n, m) \<in> edge" "(m, n) \<in> edge\<^sup>*" by (auto dest: tranclD)
    then have "m \<in> D" using assms(2) by (auto simp: edge_def)
    with closed_rtrancl [OF \<open>(m, n) \<in> edge\<^sup>*\<close> closed] assms(3) show False by blast
  qed
  moreover have "edge `` insert n D \<subseteq> insert n D" using closed assms(2) by (auto simp: edge_def)
  ultimately show ?thesis using acyc by (auto simp: finished_def)
qed

lemma search:
  "set ns \<subseteq> U \<Longrightarrow> P \<subseteq> V \<Longrightarrow> V \<subseteq> U \<Longrightarrow> finished (V - P) \<Longrightarrow> leads P (set ns) \<Longrightarrow>
   search_ok (set ns) V P (visit_edges ns V P)"
proof (induction "(card (U - V), length ns)" arbitrary: ns V P
    rule: wf_induct_rule [OF wf_lex_prod [OF wf_less_than wf_less_than]])
  case (1 ns V P)
  note IH = "1.hyps" and prems = "1.prems"
  show ?case
  proof (cases ns)
    case Nil
    with prems show ?thesis by (simp add: edges_Nil search_ok_def)
  next
    case (Cons n rest)
    have n: "n \<in> U" and rest: "set rest \<subseteq> U" using prems(1) Cons by auto
    have first: "search_ok {n} V P (visit n V P)"
    proof (cases "n \<in> P \<or> n \<in> V")
      case True
      with prems Cons show ?thesis by (auto simp: visit_eq [OF n] search_ok_def leads_def)
    next
      case False
      then have new: "n \<notin> P" "n \<notin> V" by auto
      have less: "card (U - insert n V) < card (U - V)"
        using n new finite_U by (intro psubset_card_mono) auto
      have "insert n V - insert n P = V - P" using new by auto
      moreover have "leads (insert n P) (set (succs n))"
        using prems(5) Cons n
        by (auto simp: leads_def edge_def intro: trancl_into_trancl)
      ultimately have inner: "search_ok (set (succs n)) (insert n V) (insert n P)
          (visit_edges (succs n) (insert n V) (insert n P))"
        using prems closed_U [OF n] n less by (intro IH) auto
      show ?thesis
      proof (cases "visit_edges (succs n) (insert n V) (insert n P)")
        case (Inl e)
        then obtain m where "e = cyclic m" "(m, m) \<in> edge\<^sup>+" "m \<in> edge\<^sup>* `` set (succs n)"
          using inner by (auto simp: search_ok_def)
        moreover from this have "m \<in> edge\<^sup>* `` {n}"
          using n by (auto simp: edge_def intro: converse_rtrancl_into_rtrancl)
        ultimately show ?thesis using Inl new by (auto simp: visit_eq [OF n] search_ok_def)
      next
        case (Inr r)
        obtain V' P' where r: "r = (V', P')" by fastforce
        with inner Inr have inner': "P' = insert n P" "insert n V \<subseteq> V'" "V' \<subseteq> U"
            "set (succs n) \<subseteq> V' - insert n P" "finished (V' - insert n P)"
            "V' - insert n V \<subseteq> edge\<^sup>* `` set (succs n)"
          by (auto simp: search_ok_def)
        have "finished (insert n (V' - insert n P))"
          using inner' n by (intro finished_insert) auto
        moreover have "insert n (V' - insert n P) = V' - P" using inner'(2) new by auto
        moreover have "edge\<^sup>* `` set (succs n) \<subseteq> edge\<^sup>* `` {n}"
          using n by (auto simp: edge_def intro: converse_rtrancl_into_rtrancl)
        then have "V' - V \<subseteq> edge\<^sup>* `` {n}" using inner'(6) by blast
        ultimately show ?thesis
          using Inr r inner' new by (auto simp: visit_eq [OF n] search_ok_def)
      qed
    qed
    show ?thesis
    proof (cases "visit n V P")
      case (Inl e)
      with first Cons n show ?thesis by (auto simp: edges_Cons search_ok_def)
    next
      case (Inr r)
      obtain V' P' where r: "r = (V', P')" by fastforce
      with first Inr have f: "P' = P" "V \<subseteq> V'" "V' \<subseteq> U" "n \<in> V' - P" "finished (V' - P)"
          "V' - V \<subseteq> edge\<^sup>* `` {n}"
        by (auto simp: search_ok_def)
      have "card (U - V') \<le> card (U - V)" using f finite_U by (intro card_mono) auto
      then have tail: "search_ok (set rest) V' P (visit_edges rest V' P)"
        using f prems rest Cons by (intro IH) (auto simp: leads_def)
      have step: "visit_edges ns V P = visit_edges rest V' P"
        using Inr r f(1) Cons by (simp add: edges_Cons [OF n])
      have reach: "W - V \<subseteq> edge\<^sup>* `` set ns" if "W - V' \<subseteq> edge\<^sup>* `` set rest" for W
        using that f(6) unfolding Cons by auto
      show ?thesis
      proof (cases "visit_edges rest V' P")
        case (Inl e)
        then show ?thesis using tail Cons unfolding step by (auto simp: search_ok_def)
      next
        case (Inr a)
        then obtain W where W: "visit_edges rest V' P = Ok (W, P)" "V' \<subseteq> W" "W \<subseteq> U"
            "set rest \<subseteq> W - P" "finished (W - P)" "W - V' \<subseteq> edge\<^sup>* `` set rest"
          using tail by (cases a) (auto simp: search_ok_def)
        with reach [OF W(6)] f Cons show ?thesis unfolding step by (simp add: search_ok_def) blast
      qed
    qed
  qed
qed

lemma visit_search:
  assumes "n \<in> U"
  shows "search_ok {n} {} {} (visit n {} {})"
proof -
  have "search_ok (set [n]) {} {} (visit_edges [n] {} {})"
    using assms by (intro search) (auto simp: finished_def leads_def)
  moreover have "visit_edges [n] {} {} = visit n {} {}"
    by (cases "visit n {} {}") (auto simp: edges_Cons [OF assms] edges_Nil)
  ultimately show ?thesis by simp
qed

text \<open>From a node the search succeeds exactly when it reaches no cycle, with all it can reach.\<close>

lemma visit_accepts_iff:
  assumes "n \<in> U"
  shows "visit n {} {} = Ok (V, P) \<longleftrightarrow>
    (\<forall>m. (n, m) \<in> edge\<^sup>* \<longrightarrow> (m, m) \<notin> edge\<^sup>+) \<and> V = edge\<^sup>* `` {n} \<and> P = {}"
proof -
  have ok: "(\<forall>m. (n, m) \<in> edge\<^sup>* \<longrightarrow> (m, m) \<notin> edge\<^sup>+) \<and> V' = edge\<^sup>* `` {n} \<and> P' = {}"
    if "visit n {} {} = Ok (V', P')" for V' P'
  proof -
    have v: "P' = {}" "n \<in> V'" "finished V'" "V' \<subseteq> edge\<^sup>* `` {n}"
      using visit_search [OF assms] that by (auto simp: search_ok_def)
    then have "edge\<^sup>* `` {n} \<subseteq> V'" using closed_rtrancl [of _ _ V'] by (auto simp: finished_def)
    with v show ?thesis by (auto simp: finished_def)
  qed
  show ?thesis
  proof
    assume "visit n {} {} = Ok (V, P)"
    then show "(\<forall>m. (n, m) \<in> edge\<^sup>* \<longrightarrow> (m, m) \<notin> edge\<^sup>+) \<and> V = edge\<^sup>* `` {n} \<and> P = {}" by (rule ok)
  next
    assume r: "(\<forall>m. (n, m) \<in> edge\<^sup>* \<longrightarrow> (m, m) \<notin> edge\<^sup>+) \<and> V = edge\<^sup>* `` {n} \<and> P = {}"
    show "visit n {} {} = Ok (V, P)"
    proof (cases "visit n {} {}")
      case (Inl e)
      then show ?thesis using visit_search [OF assms] r by (auto simp: search_ok_def)
    next
      case (Inr a)
      then show ?thesis using ok [of "fst a" "snd a"] r by (cases a) auto
    qed
  qed
qed

lemma visit_rejects:
  assumes "n \<in> U" and "visit n {} {} = Err e"
  shows "\<exists>m. e = cyclic m \<and> (n, m) \<in> edge\<^sup>* \<and> (m, m) \<in> edge\<^sup>+"
  using visit_search [OF assms(1)] assms(2) by (auto simp: search_ok_def)

end

end
