(* ===== verification/Flow_Compile.thy ===== *)
theory Flow_Compile
  imports Flow_Manifest Graph_Search
begin

text \<open>
  The flow compiler for graphs without advanced features, \<^verbatim>\<open>FlowGraph::compile\<close> of \<^verbatim>\<open>lib.rs\<close> of
  \<^verbatim>\<open>oxide-batch-plan\<close>, the compiled plan and the selection of a transition.
\<close>

section \<open>The compiled plan\<close>

text \<open>A \<^verbatim>\<open>BTreeSet\<close> of members is the list of its elements in order.\<close>

record compiled_flow_scope =
  cfs_entry :: node_id
  cfs_members :: "node_id list"

record compiled_execution_plan =
  cep_definition :: definition_identity
  cep_job_restart_policy :: restart_policy
  cep_parameter_incrementer :: "parameter_incrementer_identity option"
  cep_scoped_components :: "(scope_kind \<times> scoped_component_id, scoped_component_definition) btree_map"
  cep_entry :: node_id
  cep_root_scope :: compiled_flow_scope
  cep_nodes :: "(node_id, flow_node) btree_map"
  cep_transitions :: "(node_id, flow_transition list) btree_map"
  cep_split_branch_scopes :: "(node_id \<times> nat, compiled_flow_scope) btree_map"
  cep_nested_scopes :: "(node_id, compiled_flow_scope) btree_map"
  cep_decision_sequences :: "(node_id, u64) btree_map"

definition select_target ::
  "compiled_execution_plan \<Rightarrow> node_id \<Rightarrow> exit_code \<Rightarrow> flow_selection_error + flow_target" where
  "select_target plan i code =
     res_bind (ok_or (bt_get (cep_transitions plan) i) (UnknownNode i)) (\<lambda>edges.
     ok_or (map_option ft_target (List.find (\<lambda>edge. exit_pattern_matches (ft_pattern edge) code) edges))
       (UnmappedExitOutcome i code))"

section \<open>Sorting\<close>

text \<open>\<^verbatim>\<open>slice::sort_by\<close>, a stable sort by a comparison function.\<close>

fun insert_by :: "('a \<Rightarrow> 'a \<Rightarrow> ordering) \<Rightarrow> 'a \<Rightarrow> 'a list \<Rightarrow> 'a list" where
  "insert_by c x [] = [x]"
| "insert_by c x (y # ys) = (if c x y = OrdGreater then y # insert_by c x ys else x # y # ys)"

fun sort_by :: "('a \<Rightarrow> 'a \<Rightarrow> ordering) \<Rightarrow> 'a list \<Rightarrow> 'a list" where
  "sort_by c [] = []"
| "sort_by c (x # xs) = insert_by c x (sort_by c xs)"

definition transition_cmp :: "flow_transition \<Rightarrow> flow_transition \<Rightarrow> ordering" where
  "transition_cmp left right =
     then_with
       (then_with
         (specificity_cmp (exit_pattern_specificity (ft_pattern right))
                          (exit_pattern_specificity (ft_pattern left)))
         (cmp (ft_pattern left) (ft_pattern right)))
       (cmp (flow_target_sort_key (ft_target left)) (flow_target_sort_key (ft_target right)))"

definition sort_transitions :: "flow_transition list \<Rightarrow> flow_transition list" where
  "sort_transitions edges = sort_by transition_cmp edges"

section \<open>Structural checks\<close>

fun is_join :: "flow_node \<Rightarrow> bool" where
  "is_join (FnJoin _) = True"
| "is_join _ = False"

fun is_split :: "flow_node \<Rightarrow> bool" where
  "is_split (FnSplit _) = True"
| "is_split _ = False"

text \<open>
  \<^verbatim>\<open>BTreeMap::insert\<close> returning the previous value, as the loops use it to detect duplicates.
\<close>

fun collect_nodes ::
  "flow_node list \<Rightarrow> (node_id, flow_node) btree_map \<Rightarrow> plan_error + (node_id, flow_node) btree_map" where
  "collect_nodes [] nodes = Ok nodes"
| "collect_nodes (node # rest) nodes =
     (if bt_contains nodes (flow_node_id node) then Err (DuplicateNodeId (flow_node_id node))
      else collect_nodes rest (bt_insert (flow_node_id node) node nodes))"

record local_scale_state =
  lss_embedded_ids :: "node_id set"
  lss_join_owners :: "(node_id, node_id) btree_map"
  lss_local_scale :: bool

definition embed_id ::
  "(node_id, flow_node) btree_map \<Rightarrow> node_id \<Rightarrow> local_scale_state \<Rightarrow> plan_error + local_scale_state" where
  "embed_id nodes i s =
     (if bt_contains nodes i \<or> i \<in> lss_embedded_ids s then Err (DuplicateNodeId i)
      else Ok (s\<lparr>lss_embedded_ids := insert i (lss_embedded_ids s)\<rparr>))"

definition check_branch ::
  "(node_id, flow_node) btree_map \<Rightarrow> node_id \<Rightarrow> split_branch \<Rightarrow> local_scale_state
   \<Rightarrow> plan_error + local_scale_state" where
  "check_branch nodes i branch s =
     (if \<not> (1 \<le> length (sb_steps branch) \<and> length (sb_steps branch) \<le> MAX_BRANCH_STEPS)
      then Err (InvalidBranchLength i MAX_BRANCH_STEPS)
      else try_fold (\<lambda>step. embed_id nodes (sn_id step)) (sb_steps branch) s)"

definition check_split ::
  "node_id \<Rightarrow> (node_id, flow_node) btree_map \<Rightarrow> node_id \<Rightarrow> split_node \<Rightarrow> local_scale_state
   \<Rightarrow> plan_error + local_scale_state" where
  "check_split entry nodes i split s =
     (let s = s\<lparr>lss_local_scale := True\<rparr> in
      if i = entry then Err (SplitIsEntry i)
      else if \<not> (2 \<le> length (spn_branches split) \<and> length (spn_branches split) \<le> MAX_SPLIT_BRANCHES)
      then Err (InvalidSplitBranchCount i 2 MAX_SPLIT_BRANCHES)
      else if unat (sbu_max_parallel_branches (spn_budget split)) > length (spn_branches split)
      then Err (ParallelBudgetExceedsBranches i (length (spn_branches split)))
      else if \<not> is_some_and (bt_get nodes (spn_join split)) is_join
      then Err (InvalidSplitJoin i (spn_join split))
      else (case bt_get (lss_join_owners s) (spn_join split) of
              Some first \<Rightarrow> Err (JoinHasMultipleOwners (spn_join split) first i)
            | None \<Rightarrow>
                try_fold (check_branch nodes i) (spn_branches split)
                  (s\<lparr>lss_join_owners := bt_insert (spn_join split) i (lss_join_owners s)\<rparr>)))"

fun check_local_scale_node ::
  "node_id \<Rightarrow> (node_id, flow_node) btree_map \<Rightarrow> node_id \<times> flow_node \<Rightarrow> local_scale_state
   \<Rightarrow> plan_error + local_scale_state" where
  "check_local_scale_node entry nodes (i, FnSplit split) s = check_split entry nodes i split s"
| "check_local_scale_node entry nodes (i, FnJoin join) s = Ok (s\<lparr>lss_local_scale := True\<rparr>)"
| "check_local_scale_node entry nodes (i, FnPartitionedStep p) s =
     embed_id nodes (sn_id (psn_worker p)) (s\<lparr>lss_local_scale := True\<rparr>)"
| "check_local_scale_node entry nodes (i, _) s = Ok s"

definition check_local_scale_subset ::
  "node_id \<Rightarrow> (node_id, flow_node) btree_map \<Rightarrow> plan_error + bool" where
  "check_local_scale_subset entry nodes =
     res_bind (try_fold (check_local_scale_node entry nodes) nodes
                 \<lparr>lss_embedded_ids = {}, lss_join_owners = [], lss_local_scale = False\<rparr>) (\<lambda>s.
     if length nodes + card (lss_embedded_ids s) > MAX_NODES then Err (TooManyNodes MAX_NODES)
     else res_bind (try_each (\<lambda>(i, node).
              ensure (\<not> (is_join node \<and> \<not> bt_contains (lss_join_owners s) i)) (OrphanJoin i)) nodes)
            (\<lambda>_. Ok (lss_local_scale s)))"

definition check_transition :: "(node_id, flow_node) btree_map \<Rightarrow> flow_transition \<Rightarrow> plan_error + unit" where
  "check_transition nodes t =
     (if \<not> bt_contains nodes (ft_source t) then Err (UndefinedNode (ft_source t))
      else res_bind
        (case ft_target t of
           TargetNode target \<Rightarrow>
             (if \<not> bt_contains nodes target then Err (UndefinedNode target)
              else if is_some_and (bt_get nodes target) is_join then Err (JoinHasExternalEntry target)
              else Ok ())
         | TargetTerminal _ \<Rightarrow> Ok ())
        (\<lambda>_. if is_some_and (bt_get nodes (ft_source t)) is_split
              then Err (SplitHasExplicitTransition (ft_source t)) else Ok ()))"

definition add_transition ::
  "(node_id, flow_node) btree_map \<Rightarrow> flow_transition \<Rightarrow> (node_id, flow_transition list) btree_map
   \<Rightarrow> plan_error + (node_id, flow_transition list) btree_map" where
  "add_transition nodes t outgoing =
     res_bind (check_transition nodes t) (\<lambda>_.
       let edges = unwrap_or (bt_get outgoing (ft_source t)) [] in
       if length edges = MAX_OUTGOING_TRANSITIONS
       then Err (TooManyOutgoingTransitions (ft_source t) MAX_OUTGOING_TRANSITIONS)
       else Ok (bt_insert (ft_source t) (edges @ [t]) outgoing))"

fun check_unambiguous :: "node_id \<Rightarrow> flow_transition list \<Rightarrow> plan_error + unit" where
  "check_unambiguous node [] = Ok ()"
| "check_unambiguous node (left # rest) =
     res_bind (try_each (\<lambda>right.
         ensure (\<not> (exit_pattern_specificity (ft_pattern left) = exit_pattern_specificity (ft_pattern right)
                   \<and> exit_pattern_intersects (ft_pattern left) (ft_pattern right)))
           (AmbiguousTransition node (ft_pattern left) (ft_pattern right))) rest)
       (\<lambda>_. check_unambiguous node rest)"

definition check_outgoing ::
  "(node_id, flow_transition list) btree_map \<Rightarrow> node_id \<times> flow_node \<Rightarrow> plan_error + unit" where
  "check_outgoing outgoing = (\<lambda>(i, node).
     if is_split node then Ok ()
     else (case bt_get outgoing i of
             None \<Rightarrow> Err (MissingTransition i)
           | Some edges \<Rightarrow>
               if edges = [] then Err (MissingTransition i) else check_unambiguous i edges))"

section \<open>Reachability and cycles\<close>

definition target_nodes :: "flow_transition list \<Rightarrow> node_id list" where
  "target_nodes edges =
     concat (map (\<lambda>edge. case ft_target edge of TargetNode i \<Rightarrow> [i] | TargetTerminal _ \<Rightarrow> []) edges)"

text \<open>The nodes \<^verbatim>\<open>visit\<close> recurs into, in order: the join of a split, then the targets of the edges.\<close>

definition flow_successors ::
  "(node_id, flow_node) btree_map \<Rightarrow> (node_id, flow_transition list) btree_map \<Rightarrow> node_id \<Rightarrow> node_id list" where
  "flow_successors nodes transitions i =
     (case bt_get nodes i of Some (FnSplit split) \<Rightarrow> [spn_join split] | _ \<Rightarrow> [])
     @ (case bt_get transitions i of Some edges \<Rightarrow> target_nodes edges | None \<Rightarrow> [])"

function (sequential) visit ::
    "(node_id, flow_node) btree_map \<Rightarrow> (node_id, flow_transition list) btree_map \<Rightarrow> node_id
     \<Rightarrow> node_id set \<Rightarrow> node_id set \<Rightarrow> plan_error + node_id set \<times> node_id set"
  and visit_all ::
    "(node_id, flow_node) btree_map \<Rightarrow> (node_id, flow_transition list) btree_map \<Rightarrow> node_id list
     \<Rightarrow> node_id set \<Rightarrow> node_id set \<Rightarrow> plan_error + node_id set \<times> node_id set"
where
  "visit nodes transitions node visited on_path =
     (if node \<in> on_path then Err (CyclicGraph node)
      else if node \<in> visited then Ok (visited, on_path)
      else res_bind (visit_all nodes transitions (flow_successors nodes transitions node)
                       (insert node visited) (insert node on_path))
             (\<lambda>(visited, on_path). Ok (visited, on_path - {node})))"
| "visit_all nodes transitions [] visited on_path = Ok (visited, on_path)"
| "visit_all nodes transitions (node # rest) visited on_path =
     res_bind (visit nodes transitions node visited on_path) (\<lambda>(visited, on_path).
     visit_all nodes transitions rest visited on_path)"
  by pat_completeness auto

text \<open>Every node a search can reach is the start, a join or a target, so the visited set grows to a bound.\<close>

definition mentioned ::
  "(node_id, flow_node) btree_map \<Rightarrow> (node_id, flow_transition list) btree_map \<Rightarrow> node_id set" where
  "mentioned nodes transitions =
     (\<Union>i \<in> fst ` set nodes \<union> fst ` set transitions. set (flow_successors nodes transitions i))"

lemma finite_mentioned: "finite (mentioned nodes transitions)"
  by (simp add: mentioned_def)

lemma successors_mentioned: "set (flow_successors nodes transitions i) \<subseteq> mentioned nodes transitions"
proof (cases "i \<in> fst ` set nodes \<union> fst ` set transitions")
  case True
  then show ?thesis unfolding mentioned_def by blast
next
  case False
  then have "bt_get nodes i = None" "bt_get transitions i = None"
    by (simp_all add: bt_get_None_iff)
  then show ?thesis by (simp add: flow_successors_def)
qed

lemma visit_grows:
  "visit_visit_all_dom (Inl (nodes, transitions, node, visited, on_path)) \<Longrightarrow>
   visit nodes transitions node visited on_path = Ok (v, p) \<Longrightarrow> visited \<subseteq> v"
  "visit_visit_all_dom (Inr (nodes, transitions, rest, visited, on_path)) \<Longrightarrow>
   visit_all nodes transitions rest visited on_path = Ok (v, p) \<Longrightarrow> visited \<subseteq> v"
proof (induction nodes transitions node visited on_path and nodes transitions rest visited on_path
    arbitrary: v p and v p rule: visit_visit_all.pinduct)
  case (1 nodes transitions node visited on_path)
  then show ?case by (auto simp: visit.psimps split: if_splits)
next
  case (2 nodes transitions visited on_path)
  then show ?case by (simp add: visit_all.psimps)
next
  case (3 nodes transitions node rest visited on_path)
  then show ?case by (fastforce simp: visit_all.psimps)
qed

definition unvisited :: "(node_id, flow_node) btree_map \<Rightarrow> (node_id, flow_transition list) btree_map
    \<Rightarrow> node_id list \<Rightarrow> node_id set \<Rightarrow> nat" where
  "unvisited nodes transitions ns visited = card ((mentioned nodes transitions \<union> set ns) - visited)"

lemma unvisited_mono:
  "set ns \<subseteq> set ms \<Longrightarrow> v \<subseteq> w \<Longrightarrow> unvisited nodes transitions ns w \<le> unvisited nodes transitions ms v"
  unfolding unvisited_def by (intro card_mono) (auto simp: finite_mentioned)

lemma unvisited_descend:
  assumes "node \<notin> visited"
  shows "unvisited nodes transitions (flow_successors nodes transitions node) (insert node visited)
    < unvisited nodes transitions [node] visited"
  unfolding unvisited_def
  using assms successors_mentioned [of nodes transitions node]
  by (intro psubset_card_mono) (auto simp: finite_mentioned)

definition search_measure where
  "search_measure = measures
    [case_sum (\<lambda>(nodes, transitions, n, v, p). unvisited nodes transitions [n] v)
              (\<lambda>(nodes, transitions, ns, v, p). unvisited nodes transitions ns v),
     case_sum (\<lambda>(nodes, transitions, n, v, p). 0)
              (\<lambda>(nodes, transitions, ns, v, p). Suc (length ns))]"

lemma search_measure_wf: "wf search_measure"
  by (simp add: search_measure_def)

lemma search_measure_next:
  assumes "visited \<subseteq> v"
  shows "(Inr (nodes, transitions, rest, v, p), Inr (nodes, transitions, node # rest, visited, on_path))
    \<in> search_measure"
proof -
  have "unvisited nodes transitions rest v \<le> unvisited nodes transitions (node # rest) visited"
    using assms by (intro unvisited_mono) auto
  then show ?thesis by (auto simp: search_measure_def)
qed

lemma search_measure_enter:
  "(Inl (nodes, transitions, node, visited, on_path), Inr (nodes, transitions, node # rest, visited, on_path))
    \<in> search_measure"
proof -
  have "unvisited nodes transitions [node] visited \<le> unvisited nodes transitions (node # rest) visited"
    by (intro unvisited_mono) auto
  then show ?thesis by (auto simp: search_measure_def)
qed

termination visit
proof (relation search_measure)
  fix nodes transitions node rest visited on_path x v p
  assume "visit nodes transitions node visited on_path = Ok x" and "(v, p) = x"
    and "visit_visit_all_dom (Inl (nodes, transitions, node, visited, on_path))"
  then show "(Inr (nodes, transitions, rest, v, p), Inr (nodes, transitions, node # rest, visited, on_path))
      \<in> search_measure"
    by (intro search_measure_next visit_grows(1) [where p = p]) simp_all
qed (simp_all add: search_measure_wf search_measure_enter, simp add: search_measure_def unvisited_descend)

declare visit.simps [simp del]

definition check_reachable_and_acyclic ::
  "node_id \<Rightarrow> (node_id, flow_node) btree_map \<Rightarrow> (node_id, flow_transition list) btree_map
   \<Rightarrow> plan_error + unit" where
  "check_reachable_and_acyclic entry nodes transitions =
     res_bind (visit nodes transitions entry {} {}) (\<lambda>(visited, on_path).
     try_each (\<lambda>(i, node). ensure (i \<in> visited) (UnreachableNode i)) nodes)"

section \<open>Compilation\<close>

text \<open>
  The path of \<^verbatim>\<open>compile\<close> for a graph that does not need the advanced format: the validated maps of
  nodes and sorted transitions, and whether the local-scale manifest format applies.
\<close>

definition compile_graph ::
  "flow_graph \<Rightarrow> plan_error +
     node_id \<times> (node_id, flow_node) btree_map \<times> (node_id, flow_transition list) btree_map \<times> bool" where
  "compile_graph g =
     res_bind (ok_or (fg_entry g) MissingEntryNode) (\<lambda>entry.
     if length (fg_nodes g) > MAX_NODES then Err (TooManyNodes MAX_NODES)
     else if length (fg_transitions g) > MAX_TRANSITIONS then Err (TooManyTransitions MAX_TRANSITIONS)
     else
       res_bind (collect_nodes (fg_nodes g) []) (\<lambda>nodes.
       if \<not> bt_contains nodes entry then Err (UndefinedNode entry)
       else
         res_bind (check_local_scale_subset entry nodes) (\<lambda>local_scale.
         res_bind (try_fold (add_transition nodes) (fg_transitions g) []) (\<lambda>outgoing.
         res_bind (try_each (check_outgoing outgoing) nodes) (\<lambda>_.
         let compiled = map (\<lambda>(i, edges). (i, sort_transitions edges)) outgoing in
         res_bind (check_reachable_and_acyclic entry nodes compiled) (\<lambda>_.
         Ok (entry, nodes, compiled, local_scale)))))))"

definition compile_basic ::
  "to_vec \<Rightarrow> from_slice \<Rightarrow> sha256 \<Rightarrow> flow_graph \<Rightarrow> job_name \<Rightarrow> definition_revision
   \<Rightarrow> plan_error + compiled_execution_plan" where
  "compile_basic to_vec from_slice sha256 g job_name revision =
     res_bind (compile_graph g) (\<lambda>(entry, nodes, compiled, local_scale).
     res_bind (ok_or (to_vec (flow_manifest job_name entry nodes compiled local_scale))
                 (PlanManifest ManifestEncoding)) (\<lambda>canonical.
     res_bind (map_err PlanManifest (from_flow_manifest to_vec from_slice sha256 job_name revision canonical))
       (\<lambda>definition_id.
     Ok \<lparr>cep_definition = definition_id, cep_job_restart_policy = RpRestartable,
         cep_parameter_incrementer = None, cep_scoped_components = [],
         cep_entry = entry, cep_root_scope = \<lparr>cfs_entry = entry, cfs_members = map fst nodes\<rparr>,
         cep_nodes = nodes, cep_transitions = compiled,
         cep_split_branch_scopes = [], cep_nested_scopes = [], cep_decision_sequences = []\<rparr>)))"

definition compatibility_edges :: "node_id \<Rightarrow> plan_error + flow_transition list" where
  "compatibility_edges entry =
     collect_results (map (\<lambda>(code, terminal).
         res_bind (exit_pattern_new (lit code)) (\<lambda>pattern.
         Ok \<lparr>ft_source = entry, ft_pattern = pattern, ft_target = TargetTerminal terminal\<rparr>))
       [(''COMPLETED'', TkComplete), (''FAILED'', TkFail), (''STOPPED'', TkStop)])"

definition compatibility_one_step ::
  "definition_identity \<Rightarrow> step_node \<Rightarrow> plan_error + compiled_execution_plan" where
  "compatibility_one_step definition_id step =
     (let entry = sn_id step; nodes = bt_insert entry (FnStep step) [] in
      res_bind (compatibility_edges entry) (\<lambda>edges.
      res_bind (check_unambiguous entry edges) (\<lambda>_.
      Ok \<lparr>cep_definition = definition_id, cep_job_restart_policy = RpRestartable,
          cep_parameter_incrementer = None, cep_scoped_components = [],
          cep_entry = entry, cep_root_scope = \<lparr>cfs_entry = entry, cfs_members = map fst nodes\<rparr>,
          cep_nodes = nodes, cep_transitions = bt_insert entry edges [],
          cep_split_branch_scopes = [], cep_nested_scopes = [], cep_decision_sequences = []\<rparr>)))"

end
