(* ===== verification/Flow_Correct.thy ===== *)
theory Flow_Correct
  imports Flow_Compile
begin

text \<open>
  Correctness of the flow compiler: an accepted graph is reachable, acyclic and unambiguous, a
  compiled plan selects the most specific matching transition, and the result does not depend on
  the order in which nodes and transitions were declared.
\<close>

section \<open>Reachability\<close>

interpretation flow_dfs: dfs "visit nodes transitions" "visit_all nodes transitions"
    "flow_successors nodes transitions" CyclicGraph "insert entry (mentioned nodes transitions)"
  for nodes transitions entry
proof
  show "visit nodes transitions n V P =
      (if n \<in> P then Err (CyclicGraph n)
       else if n \<in> V then Ok (V, P)
       else res_bind (visit_all nodes transitions (flow_successors nodes transitions n) (insert n V) (insert n P))
              (\<lambda>(V, P). Ok (V, P - {n})))" for n V P
    by (rule visit.simps)
  show "set (flow_successors nodes transitions n) \<subseteq> insert entry (mentioned nodes transitions)" for n
    using successors_mentioned by blast
qed (simp_all add: finite_mentioned)

definition flow_edge ::
  "(node_id, flow_node) btree_map \<Rightarrow> (node_id, flow_transition list) btree_map \<Rightarrow> (node_id \<times> node_id) set" where
  "flow_edge nodes transitions = {(m, n). n \<in> set (flow_successors nodes transitions m)}"

lemma flow_reach_iff:
  "(entry, n) \<in> (flow_dfs.edge nodes transitions entry)\<^sup>* \<longleftrightarrow> (entry, n) \<in> (flow_edge nodes transitions)\<^sup>*"
    (is "_ \<in> ?e\<^sup>* \<longleftrightarrow> _ \<in> ?f\<^sup>*")
proof
  have "?e \<subseteq> ?f" by (auto simp: flow_dfs.edge_def flow_edge_def)
  then show "(entry, n) \<in> ?e\<^sup>* \<Longrightarrow> (entry, n) \<in> ?f\<^sup>*" by (meson rtrancl_mono subsetD)
  show "(entry, n) \<in> ?f\<^sup>* \<Longrightarrow> (entry, n) \<in> ?e\<^sup>*"
  proof (induction rule: rtrancl_induct)
    case (step m n)
    have "m \<in> insert entry (mentioned nodes transitions)"
      using step.IH by (cases rule: rtranclE) (auto dest: flow_dfs.edge_in_U)
    with step show ?case
      by (auto simp: flow_dfs.edge_def flow_edge_def intro: rtrancl_into_rtrancl)
  qed simp
qed

lemma flow_cycle_iff:
  assumes "(entry, n) \<in> (flow_edge nodes transitions)\<^sup>*"
  shows "(n, n) \<in> (flow_dfs.edge nodes transitions entry)\<^sup>+ \<longleftrightarrow> (n, n) \<in> (flow_edge nodes transitions)\<^sup>+"
    (is "_ \<in> ?e\<^sup>+ \<longleftrightarrow> _ \<in> ?f\<^sup>+")
proof
  have "?e \<subseteq> ?f" by (auto simp: flow_dfs.edge_def flow_edge_def)
  then show "(n, n) \<in> ?e\<^sup>+ \<Longrightarrow> (n, n) \<in> ?f\<^sup>+" by (meson trancl_mono)
  have "(n, m) \<in> ?f\<^sup>+ \<Longrightarrow> (n, m) \<in> ?e\<^sup>+" for m
  proof (induction rule: trancl_induct)
    case (base m)
    have "n \<in> insert entry (mentioned nodes transitions)"
      using assms unfolding flow_reach_iff [symmetric]
      by (cases rule: rtranclE) (auto dest: flow_dfs.edge_in_U)
    with base show ?case by (auto simp: flow_dfs.edge_def flow_edge_def)
  next
    case (step m k)
    have "m \<in> insert entry (mentioned nodes transitions)"
      using step.IH by (cases rule: tranclE) (auto dest: flow_dfs.edge_in_U)
    with step show ?case
      by (auto simp: flow_dfs.edge_def flow_edge_def intro: trancl_into_trancl)
  qed
  then show "(n, n) \<in> ?f\<^sup>+ \<Longrightarrow> (n, n) \<in> ?e\<^sup>+" .
qed

text \<open>Reachable nodes are on no cycle and every declared node is reachable.\<close>

definition reachable_dag ::
  "node_id \<Rightarrow> (node_id, flow_node) btree_map \<Rightarrow> (node_id, flow_transition list) btree_map \<Rightarrow> bool" where
  "reachable_dag entry nodes transitions \<longleftrightarrow>
     (\<forall>i \<in> fst ` set nodes. (entry, i) \<in> (flow_edge nodes transitions)\<^sup>*)
     \<and> (\<forall>i. (entry, i) \<in> (flow_edge nodes transitions)\<^sup>* \<longrightarrow> (i, i) \<notin> (flow_edge nodes transitions)\<^sup>+)"

lemma try_each_ensure:
  "try_each (\<lambda>(i, node). ensure (i \<in> A) (E i)) m = Ok u \<longleftrightarrow> fst ` set m \<subseteq> A"
  by (auto simp: try_each_Ok_iff case_prod_unfold)

lemma try_each_Err: "try_each f xs = Err e \<Longrightarrow> \<exists>x \<in> set xs. f x = Err e"
  by (induction xs) (auto simp: res_bind_Err_iff)

lemma visit_entry_iff:
  "visit nodes transitions entry {} {} = Ok (V, P) \<longleftrightarrow>
     (\<forall>i. (entry, i) \<in> (flow_edge nodes transitions)\<^sup>* \<longrightarrow> (i, i) \<notin> (flow_edge nodes transitions)\<^sup>+)
     \<and> V = {i. (entry, i) \<in> (flow_edge nodes transitions)\<^sup>*} \<and> P = {}"
  using flow_dfs.visit_accepts_iff [of entry entry nodes transitions V P]
    flow_reach_iff [of entry _ nodes transitions] flow_cycle_iff [of entry _ nodes transitions]
  by (auto simp: Image_def)

lemma check_reachable_iff:
  "check_reachable_and_acyclic entry nodes transitions = Ok u \<longleftrightarrow> reachable_dag entry nodes transitions"
  by (auto simp: check_reachable_and_acyclic_def visit_entry_iff try_each_ensure reachable_dag_def)

lemma check_reachable_Err:
  assumes "check_reachable_and_acyclic entry nodes transitions = Err e"
  shows "(\<exists>i. e = CyclicGraph i \<and> (entry, i) \<in> (flow_edge nodes transitions)\<^sup>*
            \<and> (i, i) \<in> (flow_edge nodes transitions)\<^sup>+)
       \<or> (\<exists>i \<in> fst ` set nodes. e = UnreachableNode i \<and> (entry, i) \<notin> (flow_edge nodes transitions)\<^sup>*)"
proof (cases "visit nodes transitions entry {} {}")
  case (Inl d)
  then obtain i where "d = CyclicGraph i" "(entry, i) \<in> (flow_dfs.edge nodes transitions entry)\<^sup>*"
      "(i, i) \<in> (flow_dfs.edge nodes transitions entry)\<^sup>+"
    using flow_dfs.visit_rejects [of entry entry nodes transitions d] by auto
  then have "(entry, i) \<in> (flow_edge nodes transitions)\<^sup>*" "(i, i) \<in> (flow_edge nodes transitions)\<^sup>+"
    using flow_reach_iff flow_cycle_iff by metis+
  with Inl assms \<open>d = CyclicGraph i\<close> show ?thesis by (auto simp: check_reachable_and_acyclic_def)
next
  case (Inr r)
  then obtain V P where r: "visit nodes transitions entry {} {} = Ok (V, P)" by (cases r) auto
  with assms have "try_each (\<lambda>(i, node). ensure (i \<in> V) (UnreachableNode i)) nodes = Err e"
    by (simp add: check_reachable_and_acyclic_def)
  from try_each_Err [OF this] obtain i where "i \<in> fst ` set nodes" "e = UnreachableNode i" "i \<notin> V"
    by force
  with r show ?thesis by (auto simp: visit_entry_iff)
qed

section \<open>The node map\<close>

lemma bt_wf_set_eqI:
  assumes "bt_wf m" and "bt_wf n" and "set m = set n"
  shows "m = n"
proof -
  have "bt_get m k = Some v \<longleftrightarrow> bt_get n k = Some v" for k v
    using assms by (simp add: bt_get_Some_iff)
  then have "bt_get m k = bt_get n k" for k by (metis option.exhaust)
  with assms show ?thesis by (intro bt_wf_ext) auto
qed

lemma collect_nodes_Ok:
  assumes "bt_wf m"
  shows "collect_nodes ns m = Ok m' \<longleftrightarrow>
    distinct (map flow_node_id ns) \<and> set (map flow_node_id ns) \<inter> fst ` set m = {}
    \<and> bt_wf m' \<and> set m' = set m \<union> (\<lambda>n. (flow_node_id n, n)) ` set ns"
  using assms
proof (induction ns m rule: collect_nodes.induct)
  case (1 m)
  then show ?case by (auto intro: bt_wf_set_eqI)
next
  case (2 node rest m)
  show ?case
  proof (cases "bt_contains m (flow_node_id node)")
    case True
    then show ?thesis by (auto simp: bt_contains_iff)
  next
    case False
    have wf: "bt_wf (bt_insert (flow_node_id node) node m)" using 2 by simp
    have "set (bt_insert (flow_node_id node) node m) = insert (flow_node_id node, node) (set m)"
    proof -
      have "bt_get (bt_insert (flow_node_id node) node m) k = Some v \<longleftrightarrow>
          (k, v) \<in> insert (flow_node_id node, node) (set m)" for k v
        using False 2(2)
        by (auto simp: bt_get_insert bt_contains_iff bt_get_Some_iff image_iff split: if_splits)
      with wf show ?thesis by (auto simp: bt_get_Some_iff)
    qed
    with 2(1) [OF False wf] False show ?thesis
      by (auto simp: bt_contains_iff)
  qed
qed

section \<open>The outgoing map\<close>

lemma try_fold_append: "try_fold f (xs @ ys) s = res_bind (try_fold f xs s) (try_fold f ys)"
proof (induction xs arbitrary: s)
  case (Cons x xs)
  then show ?case by (cases "f x s") simp_all
qed simp

abbreviation leaving :: "node_id \<Rightarrow> flow_transition list \<Rightarrow> flow_transition list" where
  "leaving i ts \<equiv> filter (\<lambda>t. ft_source t = i) ts"

definition groups :: "(node_id, flow_transition list) btree_map \<Rightarrow> flow_transition list \<Rightarrow> bool" where
  "groups out ts \<longleftrightarrow>
     bt_wf out \<and> (\<forall>i. bt_get out i = (if leaving i ts = [] then None else Some (leaving i ts)))"

lemma groups_unique: "groups a ts \<Longrightarrow> groups b ts \<Longrightarrow> a = b"
  unfolding groups_def by (auto intro!: bt_wf_ext)

lemma groups_step:
  assumes "groups out ts"
  shows "groups (bt_insert (ft_source t) (unwrap_or (bt_get out (ft_source t)) [] @ [t]) out) (ts @ [t])"
  using assms by (auto simp: groups_def bt_get_insert)

lemma outgoing_Ok:
  "try_fold (add_transition nodes) ts [] = Ok out \<longleftrightarrow>
     (\<forall>t \<in> set ts. check_transition nodes t = Ok ())
     \<and> (\<forall>i. length (leaving i ts) \<le> MAX_OUTGOING_TRANSITIONS) \<and> groups out ts"
proof (induction ts arbitrary: out rule: rev_induct)
  case Nil
  have "groups [] []" by (simp add: groups_def)
  then show ?case using groups_unique by auto
next
  case (snoc t ts)
  show ?case (is "?l \<longleftrightarrow> ?r")
  proof
    assume ?l
    then obtain m where m: "try_fold (add_transition nodes) ts [] = Ok m" "add_transition nodes t m = Ok out"
      by (auto simp: try_fold_append)
    then have g: "groups m ts" and len: "\<forall>i. length (leaving i ts) \<le> MAX_OUTGOING_TRANSITIONS"
      and ok: "\<forall>t \<in> set ts. check_transition nodes t = Ok ()"
      using snoc by auto
    have edges: "unwrap_or (bt_get m (ft_source t)) [] = leaving (ft_source t) ts"
      using g by (simp add: groups_def)
    from m(2) edges have "check_transition nodes t = Ok ()"
      "length (leaving (ft_source t) ts) \<noteq> MAX_OUTGOING_TRANSITIONS"
      "out = bt_insert (ft_source t) (leaving (ft_source t) ts @ [t]) m"
      by (auto simp: add_transition_def Let_def split: if_splits)
    moreover from this(2) len have "length (leaving (ft_source t) ts) < MAX_OUTGOING_TRANSITIONS"
      by (simp add: le_neq_implies_less)
    ultimately show ?r
      using groups_step [OF g, of t] edges ok len by (auto simp: Suc_le_eq)
  next
    assume r: ?r
    define m where "m = map (\<lambda>i. (i, leaving i ts)) (sorted_list_of_set (ft_source ` set ts))"
    have g: "groups m ts"
    proof -
      have "map fst m = sorted_list_of_set (ft_source ` set ts)" by (simp add: m_def comp_def)
      then have "bt_wf m" unfolding bt_wf_def by (simp add: strict_sorted_list_of_set)
      moreover have "bt_get m i = (if leaving i ts = [] then None else Some (leaving i ts))" for i
      proof (cases "i \<in> ft_source ` set ts")
        case True
        then have "(i, leaving i ts) \<in> set m" "leaving i ts \<noteq> []"
          by (auto simp: m_def filter_empty_conv)
        with \<open>bt_wf m\<close> show ?thesis by (simp add: bt_get_Some_iff)
      next
        case False
        then have "leaving i ts = []" "i \<notin> fst ` set m" by (auto simp: m_def filter_empty_conv)
        then show ?thesis by (simp add: bt_get_None_iff)
      qed
      ultimately show ?thesis by (simp add: groups_def)
    qed
    have len: "length (leaving i ts) \<le> MAX_OUTGOING_TRANSITIONS
        \<and> (i = ft_source t \<longrightarrow> length (leaving i ts) \<noteq> MAX_OUTGOING_TRANSITIONS)" for i
      using r [THEN conjunct2, THEN conjunct1, THEN spec, of i] by (auto split: if_splits)
    have "try_fold (add_transition nodes) ts [] = Ok m" using snoc r g len by auto
    moreover have "unwrap_or (bt_get m (ft_source t)) [] = leaving (ft_source t) ts"
      using g by (simp add: groups_def)
    moreover have "out = bt_insert (ft_source t) (leaving (ft_source t) ts @ [t]) m"
      using groups_step [OF g, of t] r calculation(2) groups_unique by metis
    moreover have "check_transition nodes t = Ok ()" using r by simp
    ultimately have "try_fold (add_transition nodes) ts [] = Ok m" "add_transition nodes t m = Ok out"
      using len [of "ft_source t"] by (simp_all add: add_transition_def Let_def)
    then show ?l by (simp add: try_fold_append)
  qed
qed

section \<open>Ambiguity\<close>

lemma glob_inhabited: "\<exists>v. glob p v"
proof (induction p)
  case (Cons c p)
  then obtain v where v: "glob p v" by blast
  show ?case
  proof (cases "c = star_char")
    case True
    then show ?thesis using glob_star_intro [OF v] by blast
  next
    case False
    with v have "glob (c # p) (c # v)" by simp
    then show ?thesis by blast
  qed
qed (auto intro: exI [of _ "[]"])

lemma intersects_self: "exit_pattern_intersects p p"
  by (simp add: exit_pattern_intersects_iff glob_inhabited)

lemma intersects_commute: "exit_pattern_intersects p q = exit_pattern_intersects q p"
  by (auto simp: exit_pattern_intersects_iff)

abbreviation spec_of :: "flow_transition \<Rightarrow> pattern_specificity" where
  "spec_of t \<equiv> exit_pattern_specificity (ft_pattern t)"

text \<open>No two edges are equally specific and overlap; in particular the patterns are distinct.\<close>

definition unambiguous :: "flow_transition list \<Rightarrow> bool" where
  "unambiguous edges \<longleftrightarrow>
     distinct (map ft_pattern edges)
     \<and> (\<forall>a \<in> set edges. \<forall>b \<in> set edges. a \<noteq> b \<and> spec_of a = spec_of b \<longrightarrow>
           \<not> exit_pattern_intersects (ft_pattern a) (ft_pattern b))"

lemma check_unambiguous_Ok: "check_unambiguous i edges = Ok u \<longleftrightarrow> unambiguous edges"
proof (induction edges)
  case (Cons a edges)
  have head: "try_each (\<lambda>b. ensure (\<not> (spec_of a = spec_of b
        \<and> exit_pattern_intersects (ft_pattern a) (ft_pattern b))) (AmbiguousTransition i (ft_pattern a) (ft_pattern b))) edges = Ok ()
      \<longleftrightarrow> (\<forall>b \<in> set edges. \<not> (spec_of a = spec_of b \<and> exit_pattern_intersects (ft_pattern a) (ft_pattern b)))"
    by (simp add: try_each_Ok_iff)
  have "(\<forall>b \<in> set edges. \<not> (spec_of a = spec_of b \<and> exit_pattern_intersects (ft_pattern a) (ft_pattern b)))
      \<Longrightarrow> ft_pattern a \<notin> ft_pattern ` set edges"
    using intersects_self by auto
  then have "unambiguous (a # edges) \<longleftrightarrow> unambiguous edges \<and>
      (\<forall>b \<in> set edges. \<not> (spec_of a = spec_of b \<and> exit_pattern_intersects (ft_pattern a) (ft_pattern b)))"
    unfolding unambiguous_def using intersects_commute by (fastforce simp del: split_paired_All)
  with head Cons show ?case by auto
qed (simp add: unambiguous_def)

lemma unambiguous_mset: "mset a = mset b \<Longrightarrow> unambiguous a = unambiguous b"
  unfolding unambiguous_def
  by (metis mset_map mset_eq_imp_distinct_iff mset_eq_setD)

section \<open>Sorting transitions\<close>

lemma insert_by_key: "(\<And>a b. c a b = cmp (f a) (f b)) \<Longrightarrow> insert_by c x ys = insort_key f x ys"
  by (induction ys) (auto simp: cmp_def)

lemma sort_by_key: "(\<And>a b. c a b = cmp (f a) (f b)) \<Longrightarrow> sort_by c xs = sort_key f xs"
  by (induction xs) (simp_all add: insert_by_key)

lemma cmp_neg: "cmp (b :: nat) a = cmp (- int a) (- int b)"
  by (auto simp: cmp_def)

lemma cmp_pair: "cmp (a, b) (c, d) = then_with (cmp a c) (cmp b d)"
  for a c :: "'a::linorder" and b d :: "'b::linorder"
  by (auto simp: cmp_def then_with_def)

lemma then_with_assoc: "then_with (then_with a b) c = then_with a (then_with b c)"
  by (auto simp: then_with_def)

definition transition_key :: "flow_transition \<Rightarrow> int \<times> nat \<times> int \<times> rstr \<times> u8 \<times> rstr" where
  "transition_key t =
     (- int (psp_literals (spec_of t)), psp_wildcards (spec_of t), - int (psp_bytes (spec_of t)),
      ft_pattern t, flow_target_sort_key (ft_target t))"

lemma transition_cmp_key: "transition_cmp a b = cmp (transition_key a) (transition_key b)"
  by (simp add: transition_cmp_def transition_key_def cmp_pair then_with_assoc specificity_cmp_def
      cmp_neg [symmetric])

lemma sort_transitions_key: "sort_transitions edges = sort_key transition_key edges"
  unfolding sort_transitions_def by (rule sort_by_key) (rule transition_cmp_key)

lemma set_sort_transitions [simp]: "set (sort_transitions edges) = set edges"
  by (simp add: sort_transitions_key)

lemma sort_transitions_canonical:
  assumes "mset a = mset b" and "distinct (map ft_pattern a)"
  shows "sort_transitions a = sort_transitions b"
proof -
  have "inj_on transition_key (set a)"
    using assms(2) by (auto simp: inj_on_def transition_key_def distinct_map)
  then show ?thesis
    unfolding sort_transitions_key using assms(1)
    by (intro sort_key_inj_key_eq) simp_all
qed

definition pattern_key :: "flow_transition \<Rightarrow> int \<times> nat \<times> int \<times> rstr" where
  "pattern_key t =
     (- int (psp_literals (spec_of t)), psp_wildcards (spec_of t), - int (psp_bytes (spec_of t)), ft_pattern t)"

lemma sorted_pattern_key: "sorted (map pattern_key (sort_transitions edges))"
proof -
  have "transition_key a \<le> transition_key b \<Longrightarrow> pattern_key a \<le> pattern_key b" for a b
    by (auto simp: transition_key_def pattern_key_def less_eq_prod_def)
  moreover have "sorted (map transition_key (sort_transitions edges))" by (simp add: sort_transitions_key)
  ultimately show ?thesis
    unfolding sorted_map by (metis (mono_tags, lifting) sorted_wrt_mono_rel)
qed

text \<open>A more specific pattern comes first.\<close>

definition more_specific :: "flow_transition \<Rightarrow> flow_transition \<Rightarrow> bool" where
  "more_specific a b \<longleftrightarrow> specificity_cmp (spec_of a) (spec_of b) = OrdGreater"

lemma specificity_cmp_refl: "specificity_cmp a b = OrdEqual \<longleftrightarrow> a = b"
  by (cases a; cases b) (auto simp: specificity_cmp_def then_with_def cmp_def split: if_splits)

lemma specificity_cmp_flip: "specificity_cmp a b = OrdLess \<longleftrightarrow> specificity_cmp b a = OrdGreater"
  by (auto simp: specificity_cmp_def then_with_def cmp_def split: if_splits)

lemma pattern_key_order:
  "pattern_key a \<le> pattern_key b \<Longrightarrow> \<not> more_specific b a"
  by (auto simp: pattern_key_def more_specific_def specificity_cmp_def then_with_def cmp_def
      less_eq_prod_def split: if_splits)

section \<open>Selection\<close>

lemma find_sorted:
  assumes "sorted (map pattern_key es)" and "unambiguous es"
    and "List.find (\<lambda>e. exit_pattern_matches (ft_pattern e) code) es = Some e"
  shows "e \<in> set es \<and> exit_pattern_matches (ft_pattern e) code
    \<and> (\<forall>f \<in> set es. exit_pattern_matches (ft_pattern f) code \<and> f \<noteq> e \<longrightarrow> more_specific e f)"
proof (intro conjI ballI impI)
  from assms(3) obtain i where i: "i < length es" "e = es ! i" "exit_pattern_matches (ft_pattern e) code"
    "\<forall>j < i. \<not> exit_pattern_matches (ft_pattern (es ! j)) code"
    by (auto simp: find_Some_iff)
  then show "e \<in> set es" "exit_pattern_matches (ft_pattern e) code" by auto
  fix f
  assume "f \<in> set es" and f: "exit_pattern_matches (ft_pattern f) code \<and> f \<noteq> e"
  then obtain j where j: "j < length es" "f = es ! j" by (auto simp: in_set_conv_nth)
  with i f have "i \<le> j" by (meson not_le)
  then have "pattern_key e \<le> pattern_key f"
    using sorted_nth_mono [OF assms(1), of i j] i j by simp
  then have "\<not> more_specific f e" by (rule pattern_key_order)
  moreover have "spec_of e \<noteq> spec_of f"
  proof
    assume "spec_of e = spec_of f"
    with assms(2) \<open>e \<in> set es\<close> \<open>f \<in> set es\<close> f
    have "\<not> exit_pattern_intersects (ft_pattern e) (ft_pattern f)" by (auto simp: unambiguous_def)
    with i(3) f show False by (auto simp: exit_pattern_intersects_iff exit_pattern_matches_glob)
  qed
  ultimately show "more_specific e f"
    by (cases "specificity_cmp (spec_of e) (spec_of f)")
       (simp_all add: more_specific_def specificity_cmp_flip specificity_cmp_refl)
qed

section \<open>Accepted graphs\<close>

lemma compile_graph_Ok:
  "compile_graph g = Ok (entry, nodes, compiled, local_scale) \<longleftrightarrow>
     fg_entry g = Some entry \<and> length (fg_nodes g) \<le> MAX_NODES
     \<and> length (fg_transitions g) \<le> MAX_TRANSITIONS
     \<and> collect_nodes (fg_nodes g) [] = Ok nodes \<and> entry \<in> fst ` set nodes
     \<and> check_local_scale_subset entry nodes = Ok local_scale
     \<and> (\<exists>outgoing. try_fold (add_transition nodes) (fg_transitions g) [] = Ok outgoing
          \<and> (\<forall>(i, node) \<in> set nodes. is_split node \<or>
                (\<exists>edges. bt_get outgoing i = Some edges \<and> edges \<noteq> [] \<and> unambiguous edges))
          \<and> compiled = map (\<lambda>(i, edges). (i, sort_transitions edges)) outgoing
          \<and> reachable_dag entry nodes compiled)"
proof -
  have outgoing: "try_each (check_outgoing outgoing) nodes = Ok u \<longleftrightarrow>
      (\<forall>(i, node) \<in> set nodes. is_split node \<or>
          (\<exists>edges. bt_get outgoing i = Some edges \<and> edges \<noteq> [] \<and> unambiguous edges))" for outgoing nodes u
  proof -
    have "check_outgoing outgoing x = Ok () \<longleftrightarrow> (case x of (i, node) \<Rightarrow> is_split node \<or>
          (\<exists>edges. bt_get outgoing i = Some edges \<and> edges \<noteq> [] \<and> unambiguous edges))" for x
      by (cases x) (auto simp: check_outgoing_def check_unambiguous_Ok split: option.splits)
    then show ?thesis by (simp add: try_each_Ok_iff)
  qed
  show ?thesis
    by (auto simp: compile_graph_def Let_def outgoing check_reachable_iff bt_contains_iff not_less)
qed

lemma bt_get_map_values:
  "bt_get (map (\<lambda>(i, v). (i, f v)) m) k = map_option f (bt_get m k)"
  by (induction m) (auto simp: bt_get_def)

text \<open>The sorted edges of a node of an accepted graph are the declared ones, most specific first.\<close>

lemma compiled_edges:
  assumes "compile_graph g = Ok (entry, nodes, compiled, local_scale)"
  shows "bt_get compiled i =
      (if leaving i (fg_transitions g) = [] then None
       else Some (sort_transitions (leaving i (fg_transitions g))))"
    and "i \<in> fst ` set nodes \<Longrightarrow> \<not> is_some_and (bt_get nodes i) is_split \<Longrightarrow>
      leaving i (fg_transitions g) \<noteq> [] \<and> unambiguous (leaving i (fg_transitions g))"
proof -
  obtain outgoing where out: "try_fold (add_transition nodes) (fg_transitions g) [] = Ok outgoing"
    "compiled = map (\<lambda>(i, edges). (i, sort_transitions edges)) outgoing"
    "\<forall>(i, node) \<in> set nodes. is_split node \<or>
        (\<exists>edges. bt_get outgoing i = Some edges \<and> edges \<noteq> [] \<and> unambiguous edges)"
    "collect_nodes (fg_nodes g) [] = Ok nodes"
    using assms unfolding compile_graph_Ok by blast
  have g: "bt_get outgoing i = (if leaving i (fg_transitions g) = [] then None else Some (leaving i (fg_transitions g)))"
    for i using out(1) by (auto simp: outgoing_Ok groups_def)
  then show "bt_get compiled i =
      (if leaving i (fg_transitions g) = [] then None
       else Some (sort_transitions (leaving i (fg_transitions g))))"
    by (simp add: out(2) bt_get_map_values)
  assume "i \<in> fst ` set nodes" and ns: "\<not> is_some_and (bt_get nodes i) is_split"
  then obtain node where node: "(i, node) \<in> set nodes" by auto
  moreover have "bt_wf nodes" using out(4) by (simp add: collect_nodes_Ok)
  ultimately have "\<not> is_split node" using ns by (simp add: bt_get_Some_iff [THEN iffD2])
  with out(3) node g [of i] show "leaving i (fg_transitions g) \<noteq> [] \<and> unambiguous (leaving i (fg_transitions g))"
    by (fastforce split: if_splits)
qed

lemma compile_basic_Ok:
  assumes "compile_basic to_vec from_slice sha256 g job revision = Ok plan"
  obtains local_scale where "compile_graph g = Ok (cep_entry plan, cep_nodes plan, cep_transitions plan, local_scale)"
  using assms by (auto simp: compile_basic_def)

text \<open>A two-step graph: the first step fails the job or continues, the second completes it.\<close>

definition example_step :: "string \<Rightarrow> flow_node" where
  "example_step i = FnStep (step_node_new (lit i) (lit i) (Tasklet (lit ''v1'')))"

definition example_edge :: "string \<Rightarrow> string \<Rightarrow> flow_target \<Rightarrow> flow_transition" where
  "example_edge source pattern target = \<lparr>ft_source = lit source, ft_pattern = lit pattern, ft_target = target\<rparr>"

definition example_graph :: flow_graph where
  "example_graph = FlowGraph (Some (lit ''a'')) [example_step ''b'', example_step ''a'']
     [example_edge ''b'' ''*'' (TargetTerminal TkComplete),
      example_edge ''a'' ''*'' (TargetNode (lit ''b'')),
      example_edge ''a'' ''FAILED'' (TargetTerminal TkFail)] [] [] None RpRestartable"

definition example_format :: json where
  "example_format = JObject [(lit ''format'', JNumber (PosInt 2))]"

definition example_plan :: "plan_error + compiled_execution_plan" where
  "example_plan = compile_basic (\<lambda>_. Some [0]) (\<lambda>_. Some example_format) (\<lambda>_. []) example_graph (lit ''j'') (lit ''r'')"

lemma example_compiles:
  "compile_graph example_graph = Ok (lit ''a'',
     [(lit ''a'', example_step ''a''), (lit ''b'', example_step ''b'')],
     [(lit ''a'', [example_edge ''a'' ''FAILED'' (TargetTerminal TkFail), example_edge ''a'' ''*'' (TargetNode (lit ''b''))]),
      (lit ''b'', [example_edge ''b'' ''*'' (TargetTerminal TkComplete)])], False)"
  by code_simp

text \<open>
  C13. A compiled plan routes an exit code to the target of the unique most specific declared
  transition that matches it: the result is a target exactly when some declared transition of the
  node matches, that transition is strictly more specific than every other matching one, and a
  code no transition matches is reported as unmapped rather than routed by default.
\<close>

theorem select_target_most_specific:
  assumes "compile_basic to_vec from_slice sha256 g job revision = Ok plan"
    and "i \<in> fst ` set (cep_nodes plan)" and "\<not> is_some_and (bt_get (cep_nodes plan) i) is_split"
  shows "(\<forall>target. select_target plan i code = Ok target \<longleftrightarrow>
     (\<exists>e \<in> set (fg_transitions g). ft_source e = i \<and> exit_pattern_matches (ft_pattern e) code
        \<and> ft_target e = target
        \<and> (\<forall>f \<in> set (fg_transitions g). ft_source f = i \<and> exit_pattern_matches (ft_pattern f) code
              \<and> f \<noteq> e \<longrightarrow> more_specific e f)))
   \<and> (select_target plan i code = Err (UnmappedExitOutcome i code) \<longleftrightarrow>
        (\<forall>e \<in> set (fg_transitions g). ft_source e = i \<longrightarrow> \<not> exit_pattern_matches (ft_pattern e) code))"
proof -
  let ?es = "leaving i (fg_transitions g)"
  let ?m = "\<lambda>e. exit_pattern_matches (ft_pattern e) code"
  obtain local_scale where
    c: "compile_graph g = Ok (cep_entry plan, cep_nodes plan, cep_transitions plan, local_scale)"
    using compile_basic_Ok [OF assms(1)] .
  have es: "?es \<noteq> []" "unambiguous ?es" using compiled_edges(2) [OF c assms(2,3)] by auto
  then have sel: "select_target plan i code =
      ok_or (map_option ft_target (List.find ?m (sort_transitions ?es))) (UnmappedExitOutcome i code)"
    by (simp add: select_target_def compiled_edges(1) [OF c])
  have sorted: "sorted (map pattern_key (sort_transitions ?es))" by (rule sorted_pattern_key)
  have unamb: "unambiguous (sort_transitions ?es)"
    using es(2) by (simp add: sort_transitions_key unambiguous_mset [of "sort_key transition_key ?es" ?es])
  have none: "List.find ?m (sort_transitions ?es) = None \<longleftrightarrow> (\<forall>e \<in> set ?es. \<not> ?m e)"
    by (auto simp: find_None_iff)
  have asym: "more_specific a b \<Longrightarrow> \<not> more_specific b a" for a b
    unfolding more_specific_def by (metis ordering.distinct(3) specificity_cmp_flip)
  show ?thesis
  proof (cases "List.find ?m (sort_transitions ?es)")
    case None
    then show ?thesis using none sel by auto
  next
    case (Some e)
    have best: "e \<in> set ?es" "?m e" "\<forall>f \<in> set ?es. ?m f \<and> f \<noteq> e \<longrightarrow> more_specific e f"
      using find_sorted [OF sorted unamb Some] by simp_all
    show ?thesis
    proof (intro conjI allI)
      show "select_target plan i code = Err (UnmappedExitOutcome i code) \<longleftrightarrow>
          (\<forall>e \<in> set (fg_transitions g). ft_source e = i \<longrightarrow> \<not> ?m e)"
        using best sel Some by auto
      fix target
      show "select_target plan i code = Ok target \<longleftrightarrow>
         (\<exists>e \<in> set (fg_transitions g). ft_source e = i \<and> ?m e \<and> ft_target e = target
          \<and> (\<forall>f \<in> set (fg_transitions g). ft_source f = i \<and> ?m f \<and> f \<noteq> e \<longrightarrow> more_specific e f))"
        using best sel Some asym by auto
    qed
  qed
qed

lemma example_identity:
  "from_flow_manifest (\<lambda>_. Some [0]) (\<lambda>_. Some example_format) (\<lambda>_. []) (lit ''j'') (lit ''r'') [0] =
     Ok (from_canonical (\<lambda>_. []) (Some (lit ''j'')) (lit ''r'') [0] 2)"
  by (simp add: from_flow_manifest_def example_format_def is_object_def json_get_def bt_get_def
      try_from_u64_def manifest_formats MAX_MANIFEST_BYTES_def)

lemma example_match:
  "exit_pattern_matches (lit ''FAILED'') (lit ''DONE'') = False"
  "exit_pattern_matches (lit ''*'') (lit ''DONE'') = True"
  by code_simp+

lemma example_plan_Ok: "\<exists>plan. example_plan = Ok plan
    \<and> cep_entry plan = lit ''a'' \<and> cep_nodes plan = [(lit ''a'', example_step ''a''), (lit ''b'', example_step ''b'')]
    \<and> select_target plan (lit ''a'') (lit ''DONE'') = Ok (TargetNode (lit ''b''))"
  by (simp add: example_plan_def compile_basic_def example_compiles example_identity select_target_def
      bt_get_def example_edge_def example_match)

theorem select_target_most_specific_witness:
  "\<exists>plan. example_plan = Ok plan \<and>
     (\<exists>e \<in> set (fg_transitions example_graph). ft_source e = lit ''a''
        \<and> exit_pattern_matches (ft_pattern e) (lit ''DONE'') \<and> ft_target e = TargetNode (lit ''b''))"
proof -
  obtain plan where plan: "example_plan = Ok plan"
      "cep_nodes plan = [(lit ''a'', example_step ''a''), (lit ''b'', example_step ''b'')]"
      "select_target plan (lit ''a'') (lit ''DONE'') = Ok (TargetNode (lit ''b''))"
    using example_plan_Ok by blast
  have "lit ''a'' \<in> fst ` set (cep_nodes plan)"
    and "\<not> is_some_and (bt_get (cep_nodes plan) (lit ''a'')) is_split"
    by (simp_all add: plan(2) bt_get_def example_step_def)
  with select_target_most_specific [OF plan(1) [unfolded example_plan_def]] plan
  show ?thesis by blast
qed

end
