(* ===== verification/Flow_Structure.thy ===== *)
theory Flow_Structure
  imports Flow_Correct
begin

text \<open>
  What a compiled plan guarantees about its structure: splits, joins and embedded steps, the length
  of every run through the plan, and independence of the declaration order.
\<close>

section \<open>Splits, joins and embedded steps\<close>

fun branch_ids :: "split_branch list \<Rightarrow> node_id list" where
  "branch_ids [] = []"
| "branch_ids (b # bs) = map sn_id (sb_steps b) @ branch_ids bs"

fun embedded_of :: "flow_node \<Rightarrow> node_id list" where
  "embedded_of (FnSplit split) = branch_ids (spn_branches split)"
| "embedded_of (FnPartitionedStep p) = [sn_id (psn_worker p)]"
| "embedded_of _ = []"

fun join_of :: "flow_node \<Rightarrow> node_id list" where
  "join_of (FnSplit split) = [spn_join split]"
| "join_of _ = []"

fun local_scale_node :: "flow_node \<Rightarrow> bool" where
  "local_scale_node (FnSplit _) = True"
| "local_scale_node (FnJoin _) = True"
| "local_scale_node (FnPartitionedStep _) = True"
| "local_scale_node _ = False"

text \<open>The identifiers of embedded steps and the joins the splits of a node map own, in order.\<close>

definition embedded :: "(node_id, flow_node) btree_map \<Rightarrow> node_id list" where
  "embedded m = concat (map (\<lambda>e. embedded_of (snd e)) m)"

definition owned_joins :: "(node_id, flow_node) btree_map \<Rightarrow> node_id list" where
  "owned_joins m = concat (map (\<lambda>e. join_of (snd e)) m)"

lemma embedded_append [simp]: "embedded (m @ [e]) = embedded m @ embedded_of (snd e)"
  by (simp add: embedded_def)

lemma owned_joins_append [simp]: "owned_joins (m @ [e]) = owned_joins m @ join_of (snd e)"
  by (simp add: owned_joins_def)

definition split_ok :: "node_id \<Rightarrow> (node_id, flow_node) btree_map \<Rightarrow> node_id \<Rightarrow> split_node \<Rightarrow> bool" where
  "split_ok entry nodes i split \<longleftrightarrow>
     i \<noteq> entry \<and> 2 \<le> length (spn_branches split) \<and> length (spn_branches split) \<le> MAX_SPLIT_BRANCHES
     \<and> unat (sbu_max_parallel_branches (spn_budget split)) \<le> length (spn_branches split)
     \<and> is_some_and (bt_get nodes (spn_join split)) is_join
     \<and> (\<forall>b \<in> set (spn_branches split). 1 \<le> length (sb_steps b) \<and> length (sb_steps b) \<le> MAX_BRANCH_STEPS)"

lemma embed_id_Ok:
  "embed_id nodes i s = Ok s' \<longleftrightarrow>
     i \<notin> fst ` set nodes \<and> i \<notin> lss_embedded_ids s \<and> s' = s\<lparr>lss_embedded_ids := insert i (lss_embedded_ids s)\<rparr>"
  by (auto simp: embed_id_def bt_contains_iff)

lemma embed_all_Ok:
  "try_fold (\<lambda>x. embed_id nodes (f x)) xs s = Ok s' \<longleftrightarrow>
     distinct (map f xs) \<and> set (map f xs) \<inter> (fst ` set nodes \<union> lss_embedded_ids s) = {}
     \<and> s' = s\<lparr>lss_embedded_ids := lss_embedded_ids s \<union> set (map f xs)\<rparr>"
proof (induction xs arbitrary: s)
  case (Cons x xs)
  show ?case
    by (auto simp: embed_id_Ok Cons.IH)
qed auto

lemma check_branches_Ok:
  assumes "try_fold (check_branch nodes i) bs s = Ok s'"
  shows "(\<forall>b \<in> set bs. 1 \<le> length (sb_steps b) \<and> length (sb_steps b) \<le> MAX_BRANCH_STEPS)
     \<and> distinct (branch_ids bs) \<and> set (branch_ids bs) \<inter> (fst ` set nodes \<union> lss_embedded_ids s) = {}
     \<and> s' = s\<lparr>lss_embedded_ids := lss_embedded_ids s \<union> set (branch_ids bs)\<rparr>"
  using assms
proof (induction bs arbitrary: s)
  case (Cons b bs)
  let ?ids = "map sn_id (sb_steps b)"
  from Cons.prems obtain t where head: "check_branch nodes i b s = Ok t"
    and rest: "try_fold (check_branch nodes i) bs t = Ok s'"
    by auto
  from head have len: "1 \<le> length (sb_steps b)" "length (sb_steps b) \<le> MAX_BRANCH_STEPS"
    and t: "try_fold (\<lambda>step. embed_id nodes (sn_id step)) (sb_steps b) s = Ok t"
    by (auto simp: check_branch_def split: if_splits)
  have t': "distinct ?ids" "set ?ids \<inter> (fst ` set nodes \<union> lss_embedded_ids s) = {}"
    "t = s\<lparr>lss_embedded_ids := lss_embedded_ids s \<union> set ?ids\<rparr>"
    using t unfolding embed_all_Ok by blast+
  have IH: "\<forall>b \<in> set bs. 1 \<le> length (sb_steps b) \<and> length (sb_steps b) \<le> MAX_BRANCH_STEPS"
    "distinct (branch_ids bs)" "set (branch_ids bs) \<inter> (fst ` set nodes \<union> (lss_embedded_ids s \<union> set ?ids)) = {}"
    "s' = s\<lparr>lss_embedded_ids := lss_embedded_ids s \<union> set ?ids \<union> set (branch_ids bs)\<rparr>"
    using Cons.IH [OF rest] t'(3) by simp_all
  show ?case
    unfolding branch_ids.simps distinct_append set_append
    using len t'(1,2) IH by (simp add: Un_assoc) blast
qed auto

lemma check_split_Ok:
  assumes "check_split entry nodes i split s = Ok s'"
  shows "split_ok entry nodes i split \<and> spn_join split \<notin> fst ` set (lss_join_owners s)
     \<and> distinct (branch_ids (spn_branches split))
     \<and> set (branch_ids (spn_branches split)) \<inter> (fst ` set nodes \<union> lss_embedded_ids s) = {}
     \<and> s' = \<lparr>lss_embedded_ids = lss_embedded_ids s \<union> set (branch_ids (spn_branches split)),
             lss_join_owners = bt_insert (spn_join split) i (lss_join_owners s), lss_local_scale = True\<rparr>"
proof -
  let ?t = "s\<lparr>lss_local_scale := True, lss_join_owners := bt_insert (spn_join split) i (lss_join_owners s)\<rparr>"
  from assms have guards: "i \<noteq> entry" "2 \<le> length (spn_branches split)" "length (spn_branches split) \<le> MAX_SPLIT_BRANCHES"
    "unat (sbu_max_parallel_branches (spn_budget split)) \<le> length (spn_branches split)"
    "is_some_and (bt_get nodes (spn_join split)) is_join" "bt_get (lss_join_owners s) (spn_join split) = None"
    and fold: "try_fold (check_branch nodes i) (spn_branches split) ?t = Ok s'"
    by (auto simp: check_split_def Let_def not_less split: if_splits option.splits)
  from check_branches_Ok [OF fold] guards show ?thesis
    by (cases s) (simp add: split_ok_def bt_get_None_iff)
qed

text \<open>The state after a prefix of the nodes.\<close>

definition scale_inv ::
  "node_id \<Rightarrow> (node_id, flow_node) btree_map \<Rightarrow> (node_id, flow_node) btree_map \<Rightarrow> local_scale_state \<Rightarrow> bool" where
  "scale_inv entry nodes xs s \<longleftrightarrow>
     distinct (embedded xs) \<and> lss_embedded_ids s = set (embedded xs)
     \<and> set (embedded xs) \<inter> fst ` set nodes = {}
     \<and> (\<forall>i split. (i, FnSplit split) \<in> set xs \<longrightarrow> split_ok entry nodes i split)
     \<and> distinct (owned_joins xs) \<and> fst ` set (lss_join_owners s) = set (owned_joins xs)
     \<and> (lss_local_scale s \<longleftrightarrow> (\<exists>e \<in> set xs. local_scale_node (snd e)))"

lemma scale_step:
  assumes inv: "scale_inv entry nodes xs s" and ok: "check_local_scale_node entry nodes (i, node) s = Ok s'"
  shows "scale_inv entry nodes (xs @ [(i, node)]) s'"
proof (cases node)
  case (FnSplit split)
  then have "check_split entry nodes i split s = Ok s'" using ok by simp
  from check_split_Ok [OF this] have new: "split_ok entry nodes i split"
    "spn_join split \<notin> set (owned_joins xs)" "distinct (branch_ids (spn_branches split))"
    "set (branch_ids (spn_branches split)) \<inter> fst ` set nodes = {}"
    "set (embedded xs) \<inter> set (branch_ids (spn_branches split)) = {}"
    "s' = \<lparr>lss_embedded_ids = lss_embedded_ids s \<union> set (branch_ids (spn_branches split)),
           lss_join_owners = bt_insert (spn_join split) i (lss_join_owners s), lss_local_scale = True\<rparr>"
    using inv by (auto simp: scale_inv_def)
  with inv FnSplit show ?thesis by (simp add: scale_inv_def Int_Un_distrib2)
next
  case (FnPartitionedStep p)
  then have "embed_id nodes (sn_id (psn_worker p)) (s\<lparr>lss_local_scale := True\<rparr>) = Ok s'" using ok by simp
  then show ?thesis
    using inv FnPartitionedStep by (simp add: embed_id_Ok scale_inv_def)
next
  case (FnJoin j)
  then have "s' = s\<lparr>lss_local_scale := True\<rparr>" using ok by simp
  with inv FnJoin show ?thesis by (simp add: scale_inv_def)
qed (use assms in \<open>simp_all add: scale_inv_def\<close>)

lemma scale_fold:
  "try_fold (check_local_scale_node entry nodes) xs s = Ok s' \<Longrightarrow> scale_inv entry nodes ys s \<Longrightarrow>
   scale_inv entry nodes (ys @ xs) s'"
proof (induction xs arbitrary: ys s)
  case (Cons x xs)
  then obtain t where "check_local_scale_node entry nodes x s = Ok t"
      "try_fold (check_local_scale_node entry nodes) xs t = Ok s'"
    by auto
  with Cons.IH [of t "ys @ [x]"] scale_step [of entry nodes ys s "fst x" "snd x" t] Cons.prems(2)
  show ?case by simp
qed simp

definition local_scale_ok :: "node_id \<Rightarrow> (node_id, flow_node) btree_map \<Rightarrow> bool" where
  "local_scale_ok entry nodes \<longleftrightarrow>
     distinct (embedded nodes) \<and> set (embedded nodes) \<inter> fst ` set nodes = {}
     \<and> length nodes + length (embedded nodes) \<le> MAX_NODES
     \<and> (\<forall>i split. (i, FnSplit split) \<in> set nodes \<longrightarrow> split_ok entry nodes i split)
     \<and> distinct (owned_joins nodes)
     \<and> (\<forall>i j. (i, FnJoin j) \<in> set nodes \<longrightarrow> i \<in> set (owned_joins nodes))"

lemma check_local_scale_sound:
  assumes "check_local_scale_subset entry nodes = Ok ls"
  shows "local_scale_ok entry nodes \<and> (ls \<longleftrightarrow> (\<exists>e \<in> set nodes. local_scale_node (snd e)))"
proof -
  obtain s where fold: "try_fold (check_local_scale_node entry nodes) nodes
        \<lparr>lss_embedded_ids = {}, lss_join_owners = [], lss_local_scale = False\<rparr> = Ok s"
    and card: "length nodes + card (lss_embedded_ids s) \<le> MAX_NODES" and ls: "ls = lss_local_scale s"
    and owned: "\<forall>x \<in> set nodes. \<not> (is_join (snd x) \<and> \<not> bt_contains (lss_join_owners s) (fst x))"
    using assms
    by (auto simp: check_local_scale_subset_def try_each_Ok_iff case_prod_unfold split: if_splits)
  have inv: "scale_inv entry nodes nodes s"
    using scale_fold [OF fold, of "[]"] by (simp add: scale_inv_def embedded_def owned_joins_def)
  then have "card (lss_embedded_ids s) = length (embedded nodes)"
    by (simp add: scale_inv_def distinct_card)
  moreover have "i \<in> set (owned_joins nodes)" if "(i, FnJoin j) \<in> set nodes" for i j
    using owned that inv by (force simp: bt_contains_iff scale_inv_def)
  ultimately show ?thesis
    using inv card ls unfolding scale_inv_def local_scale_ok_def by simp
qed

section \<open>Runs through a plan\<close>

lemma check_transition_Ok:
  "check_transition nodes t = Ok u \<longleftrightarrow>
     ft_source t \<in> fst ` set nodes \<and> \<not> is_some_and (bt_get nodes (ft_source t)) is_split
     \<and> (\<forall>j. ft_target t = TargetNode j \<longrightarrow>
           j \<in> fst ` set nodes \<and> \<not> is_some_and (bt_get nodes j) is_join)"
  by (auto simp: check_transition_def bt_contains_iff split: flow_target.splits if_splits)

lemma compile_graph_parts:
  assumes "compile_graph g = Ok (entry, nodes, compiled, local_scale)"
  shows "bt_wf nodes" and "entry \<in> fst ` set nodes" and "reachable_dag entry nodes compiled"
    and "t \<in> set (fg_transitions g) \<Longrightarrow> check_transition nodes t = Ok ()"
    and "local_scale_ok entry nodes" and "length (leaving i (fg_transitions g)) \<le> MAX_OUTGOING_TRANSITIONS"
    and "local_scale \<longleftrightarrow> (\<exists>e \<in> set nodes. local_scale_node (snd e))"
proof -
  obtain outgoing where ok: "collect_nodes (fg_nodes g) [] = Ok nodes" "entry \<in> fst ` set nodes"
    "check_local_scale_subset entry nodes = Ok local_scale" "reachable_dag entry nodes compiled"
    "try_fold (add_transition nodes) (fg_transitions g) [] = Ok outgoing"
    using assms unfolding compile_graph_Ok by blast
  show "bt_wf nodes" using ok(1) unfolding collect_nodes_Ok [OF bt_wf_Nil] by blast
  show "entry \<in> fst ` set nodes" "reachable_dag entry nodes compiled" by (fact ok)+
  show "t \<in> set (fg_transitions g) \<Longrightarrow> check_transition nodes t = Ok ()"
    "length (leaving i (fg_transitions g)) \<le> MAX_OUTGOING_TRANSITIONS"
    using ok(5) unfolding outgoing_Ok by blast+
  show "local_scale_ok entry nodes" "local_scale \<longleftrightarrow> (\<exists>e \<in> set nodes. local_scale_node (snd e))"
    using check_local_scale_sound [OF ok(3)] by blast+
qed

lemma target_nodes_iff: "j \<in> set (target_nodes es) \<longleftrightarrow> (\<exists>e \<in> set es. ft_target e = TargetNode j)"
proof -
  have "j \<in> set (case t of TargetNode i \<Rightarrow> [i] | TargetTerminal _ \<Rightarrow> []) \<longleftrightarrow> t = TargetNode j" for t
    by (cases t) auto
  then show ?thesis by (simp add: target_nodes_def)
qed

lemma flow_successors_iff:
  "j \<in> set (flow_successors nodes transitions i) \<longleftrightarrow>
     (\<exists>split. bt_get nodes i = Some (FnSplit split) \<and> j = spn_join split)
     \<or> (\<exists>edges e. bt_get transitions i = Some edges \<and> e \<in> set edges \<and> ft_target e = TargetNode j)"
proof -
  have "j \<in> set (case x of Some (FnSplit split) \<Rightarrow> [spn_join split] | _ \<Rightarrow> []) \<longleftrightarrow>
      (\<exists>split. x = Some (FnSplit split) \<and> j = spn_join split)" for x
  proof (cases x)
    case (Some n)
    then show ?thesis by (cases n) auto
  qed simp
  moreover have "j \<in> set (case y of Some edges \<Rightarrow> target_nodes edges | None \<Rightarrow> []) \<longleftrightarrow>
      (\<exists>edges e. y = Some edges \<and> e \<in> set edges \<and> ft_target e = TargetNode j)" for y
    by (cases y) (auto simp: target_nodes_iff)
  ultimately show ?thesis by (simp add: flow_successors_def)
qed

text \<open>Every successor is a declared node.\<close>

lemma successors_declared:
  assumes "compile_graph g = Ok (entry, nodes, compiled, local_scale)"
    and "j \<in> set (flow_successors nodes compiled i)"
  shows "j \<in> fst ` set nodes"
proof -
  consider (join) split where "bt_get nodes i = Some (FnSplit split)" "j = spn_join split"
    | (edge) edges e where "bt_get compiled i = Some edges" "e \<in> set edges" "ft_target e = TargetNode j"
    using assms(2) unfolding flow_successors_iff by blast
  then show ?thesis
  proof cases
    case join
    then have "split_ok entry nodes i split"
      using compile_graph_parts(5) [OF assms(1)] bt_get_in_set by (fastforce simp: local_scale_ok_def)
    then show ?thesis using join(2) bt_get_in_set
      by (cases "bt_get nodes j") (force simp: split_ok_def)+
  next
    case edge
    then have "e \<in> set (fg_transitions g)"
      using compiled_edges(1) [OF assms(1), of i] by (auto split: if_splits)
    with compile_graph_parts(4) [OF assms(1)] edge(3) show ?thesis by (auto simp: check_transition_Ok)
  qed
qed

text \<open>A step of a run: an exit code selects a node, or a split hands over to its join.\<close>

definition run_step :: "compiled_execution_plan \<Rightarrow> node_id \<Rightarrow> node_id \<Rightarrow> bool" where
  "run_step plan i j \<longleftrightarrow>
     (\<exists>code. select_target plan i code = Ok (TargetNode j))
     \<or> (\<exists>split. bt_get (cep_nodes plan) i = Some (FnSplit split) \<and> j = spn_join split)"

lemma run_step_edge:
  assumes "run_step plan i j"
  shows "(i, j) \<in> flow_edge (cep_nodes plan) (cep_transitions plan)"
proof -
  have "\<exists>edges e. bt_get (cep_transitions plan) i = Some edges \<and> e \<in> set edges \<and> ft_target e = TargetNode j"
    if "select_target plan i code = Ok (TargetNode j)" for code
    using that by (auto simp: select_target_def find_Some_iff intro: nth_mem)
  with assms show ?thesis unfolding run_step_def flow_edge_def mem_Collect_eq prod.case flow_successors_iff
    by blast
qed

lemma path_trancl:
  assumes "\<forall>k. Suc k < length path \<longrightarrow> (path ! k, path ! Suc k) \<in> R" and "a < b" and "b < length path"
  shows "(path ! a, path ! b) \<in> R\<^sup>+"
  using assms(2,3)
proof (induction b)
  case (Suc b)
  then have "(path ! b, path ! Suc b) \<in> R" using assms(1) by simp
  with Suc show ?case by (cases "a = b") (auto intro: trancl_into_trancl)
qed simp

section \<open>The structure of a compiled plan\<close>



section \<open>Independence of the declaration order\<close>

lemma groups_exists: "\<exists>out. groups out ts"
proof (induction ts rule: rev_induct)
  case Nil
  have "groups [] []" by (simp add: groups_def)
  then show ?case ..
next
  case (snoc t ts)
  then show ?case using groups_step by blast
qed

lemma compile_graph_permuted:
  assumes ok: "compile_graph g = Ok (entry, nodes, compiled, local_scale)"
    and "fg_entry h = fg_entry g" and "mset (fg_nodes h) = mset (fg_nodes g)"
    and tr: "mset (fg_transitions h) = mset (fg_transitions g)"
  shows "compile_graph h = Ok (entry, nodes, compiled, local_scale)"
proof -
  obtain out where g: "fg_entry g = Some entry" "length (fg_nodes g) \<le> MAX_NODES"
      "length (fg_transitions g) \<le> MAX_TRANSITIONS" "collect_nodes (fg_nodes g) [] = Ok nodes"
      "check_local_scale_subset entry nodes = Ok local_scale"
      "try_fold (add_transition nodes) (fg_transitions g) [] = Ok out"
      "compiled = map (\<lambda>(i, edges). (i, sort_transitions edges)) out" "reachable_dag entry nodes compiled"
    using ok unfolding compile_graph_Ok by blast
  obtain out' where out': "groups out' (fg_transitions h)" using groups_exists by blast
  have lv: "mset (leaving i (fg_transitions h)) = mset (leaving i (fg_transitions g))" for i
    using tr by (metis mset_filter)
  then have lv_len: "length (leaving i (fg_transitions h)) = length (leaving i (fg_transitions g))"
    and lv_nil: "leaving i (fg_transitions h) = [] \<longleftrightarrow> leaving i (fg_transitions g) = []" for i
    by (metis mset_eq_length, metis mset_zero_iff)
  have fold': "try_fold (add_transition nodes) (fg_transitions h) [] = Ok out'"
    using g(6) out' lv_len mset_eq_setD [OF tr] by (simp add: outgoing_Ok)
  have collect': "collect_nodes (fg_nodes h) [] = Ok nodes"
    using g(4) mset_eq_setD [OF assms(3)] mset_eq_imp_distinct_iff [of "map flow_node_id (fg_nodes h)" "map flow_node_id (fg_nodes g)"]
      assms(3) by (simp add: collect_nodes_Ok)
  have same: "sort_transitions (leaving i (fg_transitions h)) = sort_transitions (leaving i (fg_transitions g))" for i
  proof (cases "leaving i (fg_transitions g) = []")
    case False
    then obtain t where "t \<in> set (fg_transitions g)" "ft_source t = i" by (auto simp: filter_empty_conv)
    with compile_graph_parts(4) [OF ok] have "i \<in> fst ` set nodes" "\<not> is_some_and (bt_get nodes i) is_split"
      by (auto simp: check_transition_Ok)
    from compiled_edges(2) [OF ok this] show ?thesis
      using lv [of i] by (intro sort_transitions_canonical [symmetric]) (auto simp: unambiguous_def)
  qed (use lv_nil [of i] in simp)
  have get': "bt_get (map (\<lambda>(i, edges). (i, sort_transitions edges)) out') i = bt_get compiled i" for i
    using out' same [of i] lv_nil [of i] compiled_edges(1) [OF ok, of i]
    by (auto simp: bt_get_map_values groups_def)
  have "bt_wf out" using g(6) by (simp add: outgoing_Ok groups_def)
  then have compiled': "map (\<lambda>(i, edges). (i, sort_transitions edges)) out' = compiled"
    using out' get' unfolding g(7)
    by (intro bt_wf_ext) (auto simp: bt_wf_map_values groups_def g(7))
  have edges': "\<forall>(i, node) \<in> set nodes. is_split node \<or>
      (\<exists>edges. bt_get out' i = Some edges \<and> edges \<noteq> [] \<and> unambiguous edges)"
  proof (clarify)
    fix i node
    assume node: "(i, node) \<in> set nodes"
      and none: "\<nexists>edges. bt_get out' i = Some edges \<and> edges \<noteq> [] \<and> unambiguous edges"
    show "is_split node"
    proof (rule ccontr)
    assume "\<not> is_split node"
    moreover have "bt_get nodes i = Some node" using node compile_graph_parts(1) [OF ok] by (simp add: bt_get_Some_iff)
    moreover have "i \<in> fst ` set nodes" using node by force
    ultimately have "leaving i (fg_transitions g) \<noteq> [] \<and> unambiguous (leaving i (fg_transitions g))"
      using compiled_edges(2) [OF ok, of i] by simp
    then show False
      using none out' lv_nil [of i] unambiguous_mset [OF lv] by (auto simp: groups_def)
    qed
  qed
  show ?thesis
    unfolding compile_graph_Ok
    using g assms collect' fold' compiled' edges' compile_graph_parts(2) [OF ok]
      mset_eq_length [OF assms(3)] mset_eq_length [OF tr]
    by auto
qed

text \<open>
  C16. Compilation is canonical: declaring the same nodes and the same transitions in another order
  gives the same plan, with the same manifest and the same definition fingerprint.
\<close>

theorem compile_order_independent:
  assumes "compile_basic to_vec from_slice sha256 g job revision = Ok plan"
    and "fg_entry h = fg_entry g" and "mset (fg_nodes h) = mset (fg_nodes g)"
    and "mset (fg_transitions h) = mset (fg_transitions g)"
  shows "compile_basic to_vec from_slice sha256 h job revision = Ok plan"
proof -
  obtain ls where c: "compile_graph g = Ok (cep_entry plan, cep_nodes plan, cep_transitions plan, ls)"
    using compile_basic_Ok [OF assms(1)] .
  with compile_graph_permuted [OF c assms(2-4)] assms(1) show ?thesis
    by (simp add: compile_basic_def)
qed

text \<open>The example with its declarations reversed.\<close>

theorem compile_order_independent_witness:
  "\<exists>plan. example_plan = Ok plan \<and>
     compile_basic (\<lambda>_. Some [0]) (\<lambda>_. Some example_format) (\<lambda>_. [])
       (FlowGraph (Some (lit ''a'')) (rev (fg_nodes example_graph)) (rev (fg_transitions example_graph))
          [] [] None RpRestartable) (lit ''j'') (lit ''r'') = Ok plan"
proof -
  obtain plan where plan: "example_plan = Ok plan" using example_plan_Ok by blast
  let ?h = "FlowGraph (Some (lit ''a'')) (rev (fg_nodes example_graph)) (rev (fg_transitions example_graph))
          [] [] None RpRestartable"
  have "fg_entry ?h = fg_entry example_graph" by (simp add: example_graph_def)
  then show ?thesis
    using compile_order_independent [OF plan [unfolded example_plan_def], of ?h] plan
    by (intro exI [of _ plan]) simp
qed

section \<open>What the search decides\<close>

text \<open>
  C17. The reachability check of the compiler is exact. It accepts exactly when every declared node
  can be reached from the entry and no reachable node lies on a cycle; the node it reports as cyclic
  does lie on a reachable cycle, and the node it reports as unreachable cannot be reached.
\<close>

theorem reachability_check_exact:
  "(check_reachable_and_acyclic entry nodes transitions = Ok () \<longleftrightarrow> reachable_dag entry nodes transitions)
   \<and> (\<forall>i. check_reachable_and_acyclic entry nodes transitions = Err (CyclicGraph i) \<longrightarrow>
        (entry, i) \<in> (flow_edge nodes transitions)\<^sup>* \<and> (i, i) \<in> (flow_edge nodes transitions)\<^sup>+)
   \<and> (\<forall>i. check_reachable_and_acyclic entry nodes transitions = Err (UnreachableNode i) \<longrightarrow>
        i \<in> fst ` set nodes \<and> (entry, i) \<notin> (flow_edge nodes transitions)\<^sup>*)"
  using check_reachable_iff check_reachable_Err by blast

text \<open>A self-loop, which the check reports.\<close>

theorem reachability_check_exact_witness:
  "(lit ''a'', lit ''a'') \<in> (flow_edge [(lit ''a'', example_step ''a'')]
      [(lit ''a'', [example_edge ''a'' ''*'' (TargetNode (lit ''a''))])])\<^sup>+"
proof -
  have "check_reachable_and_acyclic (lit ''a'') [(lit ''a'', example_step ''a'')]
      [(lit ''a'', [example_edge ''a'' ''*'' (TargetNode (lit ''a''))])] = Err (CyclicGraph (lit ''a''))"
    by code_simp
  with reachability_check_exact show ?thesis by blast
qed

end
