(* ===== verification/Flow_Advanced.thy ===== *)
theory Flow_Advanced
  imports Flow_Structure
begin

text \<open>
  The compiler of graphs with advanced features, \<^verbatim>\<open>advanced.rs\<close> of \<^verbatim>\<open>oxide-batch-plan\<close>: nested flows,
  graph-valued split branches, nested jobs, custom leaves, repeat wrappers, scoped components and
  restart policies; and \<^verbatim>\<open>FlowGraph::compile\<close> as a whole.  The methods of \<^verbatim>\<open>AdvancedCompiler\<close> take
  \<^verbatim>\<open>&mut self\<close> and the caller drops the compiler on an error, so they return an error or the new state.
\<close>

section \<open>The compiler's state\<close>

record nested_record =
  nr_scope :: compiled_flow_scope
  nr_exits :: "flow_transition list"

record advanced_compiler =
  ac_nodes :: "(node_id, flow_node) btree_map"
  ac_transitions :: "(node_id, flow_transition list) btree_map"
  ac_split_branch_scopes :: "(node_id \<times> nat, compiled_flow_scope) btree_map"
  ac_nested_records :: "(node_id, nested_record) btree_map"
  ac_all_ids :: "node_id set"
  ac_structural_branches :: nat
  ac_declared_transitions :: nat
  ac_scoped_components :: "(scope_kind \<times> scoped_component_id, scoped_component_definition) btree_map"
  ac_repeat_ids :: "repeat_id set"
  ac_job_restart_policy :: restart_policy

definition advanced_compiler_default :: advanced_compiler where
  "advanced_compiler_default =
     \<lparr>ac_nodes = [], ac_transitions = [], ac_split_branch_scopes = [], ac_nested_records = [],
      ac_all_ids = {}, ac_structural_branches = 0, ac_declared_transitions = 0,
      ac_scoped_components = [], ac_repeat_ids = {}, ac_job_restart_policy = RpRestartable\<rparr>"

section \<open>Reserving identities\<close>

definition check_materialized_nodes :: "advanced_compiler \<Rightarrow> plan_error + unit" where
  "check_materialized_nodes c =
     ensure (card (ac_all_ids c) + ac_structural_branches c \<le> MAX_NODES) (TooManyNodes MAX_NODES)"

definition reserve_id :: "node_id \<Rightarrow> advanced_compiler \<Rightarrow> plan_error + advanced_compiler" where
  "reserve_id i c =
     (if i \<in> ac_all_ids c then Err (DuplicateNodeId i)
      else (let c = c\<lparr>ac_all_ids := insert i (ac_all_ids c)\<rparr> in
        res_bind (check_materialized_nodes c) (\<lambda>_. Ok c)))"

definition register_step_repeat :: "step_node \<Rightarrow> advanced_compiler \<Rightarrow> plan_error + advanced_compiler" where
  "register_step_repeat step c =
     (case sn_repeat step of
        None \<Rightarrow> Ok c
      | Some repeat \<Rightarrow>
          res_bind (map_err DuplicateRepeatId (repeat_register_ids repeat (ac_repeat_ids c))) (\<lambda>ids.
          Ok (c\<lparr>ac_repeat_ids := ids\<rparr>)))"

fun register_node_repeats :: "flow_node \<Rightarrow> advanced_compiler \<Rightarrow> plan_error + advanced_compiler" where
  "register_node_repeats (FnStep step) c = register_step_repeat step c"
| "register_node_repeats (FnPartitionedStep p) c = register_step_repeat (psn_worker p) c"
| "register_node_repeats (FnSplit split) c =
     try_fold register_step_repeat (concat (map sb_steps (spn_branches split))) c"
| "register_node_repeats _ c = Ok c"

definition install_scoped_component ::
  "scoped_component_definition \<Rightarrow> advanced_compiler \<Rightarrow> plan_error + advanced_compiler" where
  "install_scoped_component component c =
     (let key = (scd_scope component, scd_id component) in
      if bt_contains (ac_scoped_components c) key
      then Err (DuplicateScopedComponent (scd_scope component) (scd_id component))
      else if length (filter (\<lambda>((scope, _), _). scope = scd_scope component) (ac_scoped_components c))
                = MAX_SCOPED_COMPONENTS
      then Err (TooManyScopedComponents MAX_SCOPED_COMPONENTS)
      else Ok (c\<lparr>ac_scoped_components := bt_insert key component (ac_scoped_components c)\<rparr>))"

fun collect_nested ::
  "(node_id, flow_node) btree_map \<Rightarrow> nested_flow list \<Rightarrow> (node_id, nested_flow) btree_map
   \<Rightarrow> plan_error + (node_id, nested_flow) btree_map" where
  "collect_nested nodes [] nested = Ok nested"
| "collect_nested nodes (flow # rest) nested =
     (if bt_contains nodes (nf_id flow) \<or> bt_contains nested (nf_id flow)
      then Err (DuplicateNodeId (nf_id flow))
      else collect_nested nodes rest (bt_insert (nf_id flow) flow nested))"

text \<open>
  The transition total is a \<^verbatim>\<open>usize\<close>; it stays below 4,097 and a vector has fewer than \<open>2 ^ 63\<close>
  elements, so its \<^verbatim>\<open>checked_add\<close> does not fail and the bound decides.
\<close>

definition prepare_scope ::
  "flow_graph \<Rightarrow> nat \<Rightarrow> advanced_compiler \<Rightarrow> plan_error +
     (node_id \<times> (node_id, flow_node) btree_map \<times> (node_id, nested_flow) btree_map \<times> flow_transition list)
     \<times> advanced_compiler" where
  "prepare_scope g depth c =
     (if depth > MAX_FLOW_COMPOSITION_DEPTH then Err (CompositionDepthExceeded MAX_FLOW_COMPOSITION_DEPTH)
      else
        let c = (if fg_job_restart_policy g = RpNotRestartable
                 then c\<lparr>ac_job_restart_policy := RpNotRestartable\<rparr> else c) in
        res_bind (try_fold install_scoped_component (fg_scoped_components g) c) (\<lambda>c.
        let c = c\<lparr>ac_declared_transitions := ac_declared_transitions c + length (fg_transitions g)\<rparr> in
        if ac_declared_transitions c > MAX_TRANSITIONS then Err (TooManyTransitions MAX_TRANSITIONS)
        else
          res_bind (ok_or (fg_entry g) MissingEntryNode) (\<lambda>declared_entry.
          res_bind (collect_nodes (fg_nodes g) []) (\<lambda>local_nodes.
          res_bind (try_fold (\<lambda>(i, node). register_node_repeats node) local_nodes c) (\<lambda>c.
          res_bind (collect_nested local_nodes (fg_nested_flows g) []) (\<lambda>nested.
          if \<not> bt_contains local_nodes declared_entry \<and> \<not> bt_contains nested declared_entry
          then Err (UndefinedNode declared_entry)
          else
            res_bind (try_fold reserve_id (map fst local_nodes @ map fst nested) c) (\<lambda>c.
            Ok ((declared_entry, local_nodes, nested, fg_transitions g), c))))))))"

section \<open>Nested scopes and splits\<close>

text \<open>
  The two places where \<^verbatim>\<open>compile_scope\<close> calls itself take the recursive call, at the next depth, as
  the argument \<open>rec\<close>.
\<close>

type_synonym scope_compiler =
  "flow_graph \<Rightarrow> advanced_compiler \<Rightarrow> plan_error + compiled_flow_scope \<times> advanced_compiler"

definition compile_nested_scopes ::
  "scope_compiler \<Rightarrow> (node_id, nested_flow) btree_map \<Rightarrow> advanced_compiler
   \<Rightarrow> plan_error + (node_id, compiled_flow_scope) btree_map \<times> advanced_compiler" where
  "compile_nested_scopes rec nested c =
     try_fold (\<lambda>(i, flow) (scopes, c).
       res_bind (rec (nf_graph flow) c) (\<lambda>(scope, c). Ok (bt_insert i scope scopes, c))) nested ([], c)"

definition materialize_branch ::
  "scope_compiler \<Rightarrow> node_id \<Rightarrow> nat \<times> split_branch \<Rightarrow> advanced_compiler \<Rightarrow> plan_error + advanced_compiler" where
  "materialize_branch rec i = (\<lambda>(ordinal, branch) c.
     let c = c\<lparr>ac_structural_branches := ac_structural_branches c + 1\<rparr> in
     res_bind (check_materialized_nodes c) (\<lambda>_.
     case sb_flow branch of
       Some flow \<Rightarrow>
         res_bind (rec flow c) (\<lambda>(scope, c).
         Ok (c\<lparr>ac_split_branch_scopes := bt_insert (i, ordinal) scope (ac_split_branch_scopes c)\<rparr>))
     | None \<Rightarrow>
         if \<not> (1 \<le> length (sb_steps branch) \<and> length (sb_steps branch) \<le> MAX_BRANCH_STEPS)
         then Err (InvalidBranchLength i MAX_BRANCH_STEPS)
         else try_fold (\<lambda>step. reserve_id (sn_id step)) (sb_steps branch) c))"

definition materialize_split ::
  "scope_compiler \<Rightarrow> node_id \<Rightarrow> node_id \<Rightarrow> split_node \<Rightarrow> node_id set
   \<Rightarrow> (node_id, node_id) btree_map \<times> advanced_compiler
   \<Rightarrow> plan_error + (node_id, node_id) btree_map \<times> advanced_compiler" where
  "materialize_split rec declared_entry i split join_ids = (\<lambda>(join_owners, c).
     if i = declared_entry then Err (SplitIsEntry i)
     else if \<not> (2 \<le> length (spn_branches split) \<and> length (spn_branches split) \<le> MAX_SPLIT_BRANCHES)
     then Err (InvalidSplitBranchCount i 2 MAX_SPLIT_BRANCHES)
     else if unat (sbu_max_parallel_branches (spn_budget split)) > length (spn_branches split)
     then Err (ParallelBudgetExceedsBranches i (length (spn_branches split)))
     else if spn_join split \<notin> join_ids then Err (InvalidSplitJoin i (spn_join split))
     else (case bt_get join_owners (spn_join split) of
             Some first \<Rightarrow> Err (JoinHasMultipleOwners (spn_join split) first i)
           | None \<Rightarrow>
               res_bind (try_fold (materialize_branch rec i) (enumerate 0 (spn_branches split)) c) (\<lambda>c.
               Ok (bt_insert (spn_join split) i join_owners, c))))"

fun materialize_node ::
  "scope_compiler \<Rightarrow> node_id \<Rightarrow> node_id set \<Rightarrow> node_id \<times> flow_node
   \<Rightarrow> (node_id, node_id) btree_map \<times> advanced_compiler
   \<Rightarrow> plan_error + (node_id, node_id) btree_map \<times> advanced_compiler" where
  "materialize_node rec declared_entry join_ids (i, FnSplit split) s =
     materialize_split rec declared_entry i split join_ids s"
| "materialize_node rec declared_entry join_ids (i, FnPartitionedStep p) (join_owners, c) =
     res_bind (reserve_id (sn_id (psn_worker p)) c) (\<lambda>c. Ok (join_owners, c))"
| "materialize_node rec declared_entry join_ids (i, _) s = Ok s"

definition materialize_local_structure ::
  "scope_compiler \<Rightarrow> node_id \<Rightarrow> (node_id, flow_node) btree_map \<Rightarrow> advanced_compiler
   \<Rightarrow> plan_error + advanced_compiler" where
  "materialize_local_structure rec declared_entry local_nodes c =
     (let join_ids = fst ` set (filter (\<lambda>(i, node). is_join node) local_nodes) in
      res_bind (try_fold (materialize_node rec declared_entry join_ids) local_nodes ([], c))
        (\<lambda>(join_owners, c).
      res_bind (try_each (\<lambda>(i, node).
          ensure (\<not> (is_join node \<and> \<not> bt_contains join_owners i)) (OrphanJoin i)) local_nodes)
        (\<lambda>_. Ok c)))"

section \<open>Transitions of a scope\<close>

definition validate_transition_adv ::
  "node_id set \<Rightarrow> (node_id, flow_node) btree_map \<Rightarrow> flow_transition \<Rightarrow> plan_error + unit" where
  "validate_transition_adv declared_ids local_nodes t =
     (if ft_source t \<notin> declared_ids then Err (UndefinedNode (ft_source t))
      else res_bind
        (case ft_target t of
           TargetNode target \<Rightarrow>
             (if target \<notin> declared_ids then Err (UndefinedNode target)
              else if is_some_and (bt_get local_nodes target) is_join then Err (JoinHasExternalEntry target)
              else Ok ())
         | TargetTerminal _ \<Rightarrow> Ok ())
        (\<lambda>_. if is_some_and (bt_get local_nodes (ft_source t)) is_split
              then Err (SplitHasExplicitTransition (ft_source t)) else Ok ()))"

type_synonym edge_map = "(node_id, flow_transition list) btree_map"

definition push_edge :: "flow_transition \<Rightarrow> edge_map \<Rightarrow> plan_error + edge_map" where
  "push_edge t m =
     (let edges = unwrap_or (bt_get m (ft_source t)) [] in
      if length edges = MAX_OUTGOING_TRANSITIONS
      then Err (TooManyOutgoingTransitions (ft_source t) MAX_OUTGOING_TRANSITIONS)
      else Ok (bt_insert (ft_source t) (edges @ [t]) m))"

definition partition_transitions ::
  "flow_transition list \<Rightarrow> (node_id, flow_node) btree_map \<Rightarrow> (node_id, compiled_flow_scope) btree_map
   \<Rightarrow> plan_error + edge_map \<times> edge_map" where
  "partition_transitions transitions local_nodes nested_scopes =
     (let declared_ids = fst ` set local_nodes \<union> fst ` set nested_scopes in
      try_fold (\<lambda>t (outgoing, nested_exits).
        res_bind (validate_transition_adv declared_ids local_nodes t) (\<lambda>_.
        if bt_contains nested_scopes (ft_source t)
        then res_bind (push_edge t nested_exits) (\<lambda>nested_exits. Ok (outgoing, nested_exits))
        else res_bind (push_edge t outgoing) (\<lambda>outgoing. Ok (outgoing, nested_exits))))
        transitions ([], []))"

definition validate_nested_exits ::
  "(node_id, compiled_flow_scope) btree_map \<Rightarrow> edge_map \<Rightarrow> plan_error + edge_map" where
  "validate_nested_exits nested_scopes nested_exits =
     try_fold (\<lambda>(owner, _) exits.
       case bt_get exits owner of
         None \<Rightarrow> Err (MissingTransition owner)
       | Some edges \<Rightarrow>
           if edges = [] then Err (MissingTransition owner)
           else res_bind (check_unambiguous owner edges) (\<lambda>_.
             Ok (bt_insert owner (sort_transitions edges) exits))) nested_scopes nested_exits"

fun resolve_nested_target :: "(node_id, compiled_flow_scope) btree_map \<Rightarrow> flow_target \<Rightarrow> flow_target" where
  "resolve_nested_target nested_scopes (TargetNode i) =
     (case bt_get nested_scopes i of None \<Rightarrow> TargetNode i | Some scope \<Rightarrow> TargetNode (cfs_entry scope))"
| "resolve_nested_target nested_scopes (TargetTerminal kind) = TargetTerminal kind"

definition resolve_edge :: "(node_id, compiled_flow_scope) btree_map \<Rightarrow> flow_transition \<Rightarrow> flow_transition" where
  "resolve_edge nested_scopes t = t\<lparr>ft_target := resolve_nested_target nested_scopes (ft_target t)\<rparr>"

text \<open>The three terminal codes are valid exit codes, so the validation of \<^verbatim>\<open>ExitCode::new\<close> succeeds.\<close>

fun terminal_code_literal :: "terminal_kind \<Rightarrow> string" where
  "terminal_code_literal TkComplete = ''COMPLETED''"
| "terminal_code_literal TkFail = ''FAILED''"
| "terminal_code_literal TkStop = ''STOPPED''"

definition normalized_terminal_code :: "terminal_kind \<Rightarrow> plan_error + exit_code" where
  "normalized_terminal_code terminal =
     map_err (\<lambda>_. PlanManifest ManifestEncoding) (exit_code_new (lit (terminal_code_literal terminal)))"

definition rewrite_edge ::
  "node_id \<Rightarrow> flow_transition list \<Rightarrow> flow_transition \<Rightarrow> plan_error + flow_transition" where
  "rewrite_edge owner exits edge =
     (case ft_target edge of
        TargetNode _ \<Rightarrow> Ok edge
      | TargetTerminal terminal \<Rightarrow>
          res_bind (normalized_terminal_code terminal) (\<lambda>code.
          res_bind (ok_or (List.find (\<lambda>candidate. exit_pattern_matches (ft_pattern candidate) code) exits)
                      (UnmappedNestedFlowExit owner code)) (\<lambda>selected.
          Ok (edge\<lparr>ft_target := ft_target selected\<rparr>))))"

definition rewrite_nested_terminals ::
  "node_id \<Rightarrow> compiled_flow_scope \<Rightarrow> flow_transition list \<Rightarrow> edge_map \<Rightarrow> plan_error + edge_map" where
  "rewrite_nested_terminals owner scope exits transitions =
     try_fold (\<lambda>source transitions.
       case bt_get transitions source of
         None \<Rightarrow> Ok transitions
       | Some edges \<Rightarrow>
           res_bind (collect_results (map (rewrite_edge owner exits) edges)) (\<lambda>edges.
           Ok (bt_insert source edges transitions))) (cfs_members scope) transitions"

definition normalize_nested_boundaries ::
  "(node_id, compiled_flow_scope) btree_map \<Rightarrow> edge_map \<Rightarrow> edge_map \<Rightarrow> advanced_compiler
   \<Rightarrow> plan_error + edge_map \<times> advanced_compiler" where
  "normalize_nested_boundaries nested_scopes nested_exits outgoing c =
     (let outgoing = map (\<lambda>(source, edges). (source, map (resolve_edge nested_scopes) edges)) outgoing in
      res_bind (try_fold (\<lambda>(owner, scope) c.
        res_bind (ok_or (bt_get nested_exits owner) (MissingTransition owner)) (\<lambda>exits.
        let normalized = map (resolve_edge nested_scopes) exits in
        res_bind (rewrite_nested_terminals owner scope normalized (ac_transitions c)) (\<lambda>transitions.
        Ok (c\<lparr>ac_transitions := transitions,
              ac_nested_records := bt_insert owner \<lparr>nr_scope = scope, nr_exits = normalized\<rparr>
                                     (ac_nested_records c)\<rparr>)))) nested_scopes c) (\<lambda>c.
      Ok (outgoing, c)))"

definition install_local_nodes ::
  "(node_id, flow_node) btree_map \<Rightarrow> advanced_compiler \<Rightarrow> plan_error + advanced_compiler" where
  "install_local_nodes local_nodes c =
     try_fold (\<lambda>(i, node) c.
       if bt_contains (ac_nodes c) i then Err (DuplicateNodeId i)
       else Ok (c\<lparr>ac_nodes := bt_insert i node (ac_nodes c)\<rparr>)) local_nodes c"

definition install_transitions :: "edge_map \<Rightarrow> advanced_compiler \<Rightarrow> plan_error + advanced_compiler" where
  "install_transitions outgoing c =
     try_fold (\<lambda>(source, edges) c.
       if bt_contains (ac_transitions c) source then Err (DuplicateNodeId source)
       else Ok (c\<lparr>ac_transitions := bt_insert source (sort_transitions edges) (ac_transitions c)\<rparr>)) outgoing c"

section \<open>Validation of a scope\<close>

function (sequential) visit_scope ::
    "(node_id, flow_node) btree_map \<Rightarrow> edge_map \<Rightarrow> node_id set \<Rightarrow> node_id
     \<Rightarrow> node_id set \<Rightarrow> node_id set \<Rightarrow> plan_error + node_id set \<times> node_id set"
  and visit_scope_all ::
    "(node_id, flow_node) btree_map \<Rightarrow> edge_map \<Rightarrow> node_id set \<Rightarrow> node_id list
     \<Rightarrow> node_id set \<Rightarrow> node_id set \<Rightarrow> plan_error + node_id set \<times> node_id set"
where
  "visit_scope nodes transitions members i visited on_path =
     (if i \<in> on_path then Err (CyclicGraph i)
      else if i \<in> visited then Ok (visited, on_path)
      else
        res_bind (case bt_get nodes i of
            Some (FnSplit split) \<Rightarrow> ensure (spn_join split \<in> members) (InvalidSplitJoin i (spn_join split))
          | _ \<Rightarrow> Ok ()) (\<lambda>_.
        res_bind (visit_scope_all nodes transitions members (flow_successors nodes transitions i)
                    (insert i visited) (insert i on_path))
          (\<lambda>(visited, on_path). Ok (visited, on_path - {i}))))"
| "visit_scope_all nodes transitions members [] visited on_path = Ok (visited, on_path)"
| "visit_scope_all nodes transitions members (i # rest) visited on_path =
     res_bind (visit_scope nodes transitions members i visited on_path) (\<lambda>(visited, on_path).
     visit_scope_all nodes transitions members rest visited on_path)"
  by pat_completeness auto

text \<open>Up to the join test this is the search of the basic compiler, which gives its termination.\<close>

lemma visit_scope_grows:
  "visit_scope_visit_scope_all_dom (Inl (nodes, transitions, members, i, visited, on_path)) \<Longrightarrow>
   visit_scope nodes transitions members i visited on_path = Ok (v, p) \<Longrightarrow> visited \<subseteq> v"
  "visit_scope_visit_scope_all_dom (Inr (nodes, transitions, members, rest, visited, on_path)) \<Longrightarrow>
   visit_scope_all nodes transitions members rest visited on_path = Ok (v, p) \<Longrightarrow> visited \<subseteq> v"
proof (induction nodes transitions members i visited on_path and nodes transitions members rest visited on_path
    arbitrary: v p and v p rule: visit_scope_visit_scope_all.pinduct)
  case (1 nodes transitions members i visited on_path)
  then show ?case by (auto simp: visit_scope.psimps split: if_splits)
next
  case (2 nodes transitions members visited on_path)
  then show ?case by (simp add: visit_scope_all.psimps)
next
  case (3 nodes transitions members i rest visited on_path)
  then show ?case by (fastforce simp: visit_scope_all.psimps)
qed

definition scope_search_measure where
  "scope_search_measure = inv_image search_measure
     (map_sum (\<lambda>(nodes, transitions, members :: node_id set, i, v, p). (nodes, transitions, i, v, p))
              (\<lambda>(nodes, transitions, members, is, v, p). (nodes, transitions, is, v, p)))"

termination visit_scope
proof (relation scope_search_measure)
  show "wf scope_search_measure" by (simp add: scope_search_measure_def search_measure_wf)
next
  fix nodes transitions members i rest visited on_path x v p
  assume "visit_scope nodes transitions members i visited on_path = Ok x" and "(v, p) = x"
    and "visit_scope_visit_scope_all_dom (Inl (nodes, transitions, members, i, visited, on_path))"
  then have "visited \<subseteq> v" by (intro visit_scope_grows(1) [where p = p]) simp_all
  then show "(Inr (nodes, transitions, members, rest, v, p), Inr (nodes, transitions, members, i # rest, visited, on_path))
      \<in> scope_search_measure"
    by (simp add: scope_search_measure_def search_measure_next)
qed (simp_all add: scope_search_measure_def search_measure_enter, simp add: search_measure_def unvisited_descend)

declare visit_scope.simps [simp del]

definition validate_member ::
  "advanced_compiler \<Rightarrow> node_id set \<Rightarrow> node_id \<Rightarrow> plan_error + unit" where
  "validate_member c members i =
     res_bind (ok_or (bt_get (ac_nodes c) i) (UndefinedNode i)) (\<lambda>node.
     if is_split node then Ok ()
     else (case bt_get (ac_transitions c) i of
             None \<Rightarrow> Err (MissingTransition i)
           | Some edges \<Rightarrow>
               if edges = [] then Err (MissingTransition i)
               else res_bind (check_unambiguous i edges) (\<lambda>_.
                 try_each (\<lambda>edge. case ft_target edge of
                     TargetNode target \<Rightarrow> ensure (target \<in> members) (UndefinedNode target)
                   | TargetTerminal _ \<Rightarrow> Ok ()) edges)))"

definition validate_scope :: "advanced_compiler \<Rightarrow> node_id \<Rightarrow> node_id list \<Rightarrow> plan_error + unit" where
  "validate_scope c entry members =
     (if entry \<notin> set members then Err (UndefinedNode entry)
      else
        res_bind (try_each (validate_member c (set members)) members) (\<lambda>_.
        res_bind (visit_scope (ac_nodes c) (ac_transitions c) (set members) entry {} {}) (\<lambda>(visited, on_path).
        try_each (\<lambda>i. ensure (i \<in> visited) (UnreachableNode i)) members)))"

section \<open>Compilation of a scope\<close>

definition scope_members ::
  "(node_id, flow_node) btree_map \<Rightarrow> (node_id, compiled_flow_scope) btree_map \<Rightarrow> node_id list" where
  "scope_members local_nodes nested_scopes =
     sorted_list_of_set (fst ` set local_nodes \<union> (\<Union>(i, scope) \<in> set nested_scopes. set (cfs_members scope)))"

function compile_scope ::
  "nat \<Rightarrow> flow_graph \<Rightarrow> advanced_compiler \<Rightarrow> plan_error + compiled_flow_scope \<times> advanced_compiler" where
  "compile_scope depth g c =
     res_bind (prepare_scope g depth c) (\<lambda>((declared_entry, local_nodes, nested, transitions), c).
     res_bind (compile_nested_scopes (compile_scope (depth + 1)) nested c) (\<lambda>(nested_scopes, c).
     res_bind (materialize_local_structure (compile_scope (depth + 1)) declared_entry local_nodes c) (\<lambda>c.
     res_bind (partition_transitions transitions local_nodes nested_scopes) (\<lambda>(outgoing, nested_exits).
     res_bind (validate_nested_exits nested_scopes nested_exits) (\<lambda>nested_exits.
     res_bind (normalize_nested_boundaries nested_scopes nested_exits outgoing c) (\<lambda>(outgoing, c).
     let members = scope_members local_nodes nested_scopes;
         entry = (case bt_get nested_scopes declared_entry of
                    None \<Rightarrow> declared_entry | Some scope \<Rightarrow> cfs_entry scope) in
     res_bind (install_local_nodes local_nodes c) (\<lambda>c.
     res_bind (install_transitions outgoing c) (\<lambda>c.
     res_bind (validate_scope c entry members) (\<lambda>_.
     Ok (\<lparr>cfs_entry = entry, cfs_members = members\<rparr>, c))))))))))"
  by pat_completeness auto

lemma prepare_scope_depth: "prepare_scope g depth c = Ok r \<Longrightarrow> depth \<le> MAX_FLOW_COMPOSITION_DEPTH"
  by (simp add: prepare_scope_def split: if_splits)

termination compile_scope
  by (relation "measure (\<lambda>(depth, g, c). Suc MAX_FLOW_COMPOSITION_DEPTH - depth)")
     (auto dest!: prepare_scope_depth)

declare compile_scope.simps [simp del]

text \<open>For evaluation, a scope is unfolded only once its graph is known.\<close>

lemmas compile_scope_code [code] = compile_scope.simps [of _ "FlowGraph entry nodes transitions nested scoped inc policy"
  for entry nodes transitions nested scoped inc policy]

section \<open>The manifest and the plan\<close>

definition assign_decision_sequences :: "edge_map \<Rightarrow> plan_error + (node_id, u64) btree_map" where
  "assign_decision_sequences transitions =
     try_fold (\<lambda>(index, source, edges) sequences.
       res_bind (ok_or (checked_add (word_of_nat index) 1) (TooManyTransitions MAX_TRANSITIONS)) (\<lambda>sequence.
       Ok (bt_insert source sequence sequences))) (enumerate 0 transitions) []"

definition members_manifest :: "compiled_flow_scope \<Rightarrow> json" where
  "members_manifest scope = JArray (map json_string (cfs_members scope))"

definition advanced_branch_manifest ::
  "node_id \<Rightarrow> (node_id \<times> nat, compiled_flow_scope) btree_map \<Rightarrow> nat \<times> split_branch \<Rightarrow> json" where
  "advanced_branch_manifest i branch_scopes = (\<lambda>(ordinal, branch).
     case bt_get branch_scopes (i, ordinal) of
       None \<Rightarrow> json_object
         [(''kind'', json_literal ''linear''),
          (''ordinal'', json_unsigned (word_of_nat (ordinal + 1) :: u64)),
          (''steps'', JArray (map step_manifest_value (sb_steps branch)))]
     | Some scope \<Rightarrow> json_object
         [(''entry'', json_string (cfs_entry scope)),
          (''kind'', json_literal ''flow''),
          (''members'', members_manifest scope),
          (''ordinal'', json_unsigned (word_of_nat (ordinal + 1) :: u64))])"

definition advanced_node_value ::
  "(node_id \<times> nat, compiled_flow_scope) btree_map \<Rightarrow> flow_node \<Rightarrow> json" where
  "advanced_node_value branch_scopes node =
     (case node of
        FnSplit split \<Rightarrow> json_object
          [(''branches'', JArray (map (advanced_branch_manifest (spn_id split) branch_scopes)
                                    (enumerate 0 (spn_branches split)))),
           (''failure_policy'', json_literal (local_failure_policy_as_str (spn_failure_policy split))),
           (''id'', json_string (spn_id split)),
           (''join'', json_string (spn_join split)),
           (''kind'', json_literal ''split'')]
      | _ \<Rightarrow> flow_node_manifest_value node)"

definition advanced_node_manifest ::
  "(node_id \<times> nat, compiled_flow_scope) btree_map \<Rightarrow> u64 option \<Rightarrow> flow_node \<Rightarrow> json" where
  "advanced_node_manifest branch_scopes decision_sequence node =
     (let v = advanced_node_value branch_scopes node in
      case decision_sequence of
        None \<Rightarrow> v
      | Some sequence \<Rightarrow> object_insert ''decision_sequence'' (json_unsigned sequence) v)"

definition nested_manifest :: "node_id \<Rightarrow> nested_record \<Rightarrow> json" where
  "nested_manifest owner record =
     json_object
       [(''entry'', json_string (cfs_entry (nr_scope record))),
        (''exits'', JArray (map flow_transition_manifest_value (nr_exits record))),
        (''id'', json_string owner),
        (''kind'', json_literal ''nested_flow''),
        (''members'', members_manifest (nr_scope record))]"

definition advanced_manifest_nodes :: "advanced_compiler \<Rightarrow> (node_id, u64) btree_map \<Rightarrow> (node_id, json) btree_map" where
  "advanced_manifest_nodes c decision_sequences =
     fold (\<lambda>(owner, record). bt_insert owner (nested_manifest owner record)) (ac_nested_records c)
       (map (\<lambda>(i, node).
          (i, advanced_node_manifest (ac_split_branch_scopes c) (bt_get decision_sequences i) node)) (ac_nodes c))"

definition advanced_manifest ::
  "advanced_compiler \<Rightarrow> job_name \<Rightarrow> compiled_flow_scope \<Rightarrow> (node_id, u64) btree_map
   \<Rightarrow> parameter_incrementer_identity option \<Rightarrow> json" where
  "advanced_manifest c job_name root_scope decision_sequences parameter_incrementer =
     (let v = json_object
        [(''entry'', json_string (cfs_entry root_scope)),
         (''format'', json_unsigned MANIFEST_FORMAT_ADVANCED_FLOW),
         (''job'', json_string job_name),
         (''nodes'', JArray (map snd (advanced_manifest_nodes c decision_sequences))),
         (''transitions'', JArray (concat (map (\<lambda>(i, edges). map flow_transition_manifest_value edges)
                                             (ac_transitions c))))];
          v = (if ac_job_restart_policy c = RpNotRestartable
               then object_insert ''restart_policy'' (json_literal ''not_restartable'') v else v);
          v = (case parameter_incrementer of
                 None \<Rightarrow> v
               | Some identity \<Rightarrow> object_insert ''parameter_incrementer''
                   (json_object [(''kind'', json_string (pii_kind identity)),
                                 (''revision'', json_string (pii_revision identity))]) v)
      in if ac_scoped_components c = [] then v
         else object_insert ''scoped_components''
                (JArray (map (\<lambda>(key, component). scoped_component_manifest component)
                           (ac_scoped_components c))) v)"

definition compile_advanced ::
  "to_vec \<Rightarrow> from_slice \<Rightarrow> sha256 \<Rightarrow> flow_graph \<Rightarrow> job_name \<Rightarrow> definition_revision
   \<Rightarrow> plan_error + compiled_execution_plan" where
  "compile_advanced to_vec from_slice sha256 g job_name revision =
     res_bind (compile_scope 1 g advanced_compiler_default) (\<lambda>(root_scope, c).
     res_bind (assign_decision_sequences (ac_transitions c)) (\<lambda>decision_sequences.
     res_bind (ok_or (to_vec (advanced_manifest c job_name root_scope decision_sequences
                                (fg_parameter_incrementer g))) (PlanManifest ManifestEncoding)) (\<lambda>canonical.
     res_bind (map_err PlanManifest (from_flow_manifest to_vec from_slice sha256 job_name revision canonical))
       (\<lambda>definition_id.
     Ok \<lparr>cep_definition = definition_id, cep_job_restart_policy = ac_job_restart_policy c,
         cep_parameter_incrementer = fg_parameter_incrementer g,
         cep_scoped_components = ac_scoped_components c,
         cep_entry = cfs_entry root_scope, cep_root_scope = root_scope,
         cep_nodes = ac_nodes c, cep_transitions = ac_transitions c,
         cep_split_branch_scopes = ac_split_branch_scopes c,
         cep_nested_scopes = map (\<lambda>(i, record). (i, nr_scope record)) (ac_nested_records c),
         cep_decision_sequences = decision_sequences\<rparr>))))"

definition flow_compile ::
  "to_vec \<Rightarrow> from_slice \<Rightarrow> sha256 \<Rightarrow> flow_graph \<Rightarrow> job_name \<Rightarrow> definition_revision
   \<Rightarrow> plan_error + compiled_execution_plan" where
  "flow_compile to_vec from_slice sha256 g job_name revision =
     (if requires_advanced_format g then compile_advanced to_vec from_slice sha256 g job_name revision
      else compile_basic to_vec from_slice sha256 g job_name revision)"

end
