(* ===== verification/Flow_Advanced_Correct.thy ===== *)
theory Flow_Advanced_Correct
  imports Flow_Advanced
begin

text \<open>
  Correctness of the advanced compiler: every scope a plan executes, the root and each graph-valued
  split branch, is closed, reachable and acyclic, and every transition list is complete,
  unambiguous and sorted from the most specific pattern on.
\<close>

section \<open>Transition lists\<close>

definition routed :: "flow_transition list \<Rightarrow> bool" where
  "routed edges \<longleftrightarrow> edges \<noteq> [] \<and> unambiguous edges \<and> sorted (map pattern_key edges)"

text \<open>All three parts depend on the patterns alone, so retargeting keeps them.\<close>

lemma unambiguous_patterns:
  "unambiguous es \<longleftrightarrow> distinct (map ft_pattern es)
     \<and> (\<forall>p \<in> set (map ft_pattern es). \<forall>q \<in> set (map ft_pattern es).
          p \<noteq> q \<and> exit_pattern_specificity p = exit_pattern_specificity q \<longrightarrow> \<not> exit_pattern_intersects p q)"
proof -
  have "a = b" if "distinct (map ft_pattern es)" "a \<in> set es" "b \<in> set es" "ft_pattern a = ft_pattern b" for a b
    using that by (auto simp: distinct_map inj_on_def)
  then show ?thesis unfolding unambiguous_def by auto
qed

lemma pattern_key_eq:
  "pattern_key t = (\<lambda>p. (- int (psp_literals (exit_pattern_specificity p)), psp_wildcards (exit_pattern_specificity p),
      - int (psp_bytes (exit_pattern_specificity p)), p)) (ft_pattern t)"
  by (simp add: pattern_key_def)

lemma pattern_key_cong: "map ft_pattern es = map ft_pattern fs \<Longrightarrow> map pattern_key es = map pattern_key fs"
proof (induction es arbitrary: fs)
  case (Cons e es)
  then obtain f gs where "fs = f # gs" "ft_pattern e = ft_pattern f" "map ft_pattern es = map ft_pattern gs"
    by (auto simp: Cons_eq_map_conv)
  with Cons.IH [of gs] show ?case by (simp add: pattern_key_eq)
qed simp

lemma routed_retarget: "map ft_pattern es = map ft_pattern fs \<Longrightarrow> routed es = routed fs"
  unfolding routed_def unambiguous_patterns
  by (metis pattern_key_cong map_is_Nil_conv)

lemma routed_sort:
  assumes "es \<noteq> []" and "unambiguous (sort_transitions es)"
  shows "routed (sort_transitions es)"
proof -
  have "length (sort_transitions es) = length es" by (simp add: sort_transitions_key)
  with assms(1) have "sort_transitions es \<noteq> []" by auto
  with assms(2) sorted_pattern_key [of es] show ?thesis by (simp add: routed_def)
qed

lemma collect_results_Ok_map:
  "collect_results (map f xs) = Ok ys \<Longrightarrow> length ys = length xs \<and> (\<forall>k < length xs. f (xs ! k) = Ok (ys ! k))"
proof (induction xs arbitrary: ys)
  case (Cons x xs)
  then obtain y zs where "f x = Ok y" "collect_results (map f xs) = Ok zs" "ys = y # zs" by auto
  with Cons.IH [of zs] show ?case by (auto simp: nth_Cons split: nat.splits)
qed simp

lemma rewrite_edge_pattern: "rewrite_edge owner exits e = Ok f \<Longrightarrow> ft_pattern f = ft_pattern e"
  by (auto simp: rewrite_edge_def split: flow_target.splits)

lemma rewrite_edges_patterns:
  assumes "collect_results (map (rewrite_edge owner exits) es) = Ok fs"
  shows "map ft_pattern fs = map ft_pattern es"
proof (rule nth_equalityI)
  show "length (map ft_pattern fs) = length (map ft_pattern es)"
    using collect_results_Ok_map [OF assms] by simp
  fix k
  assume "k < length (map ft_pattern fs)"
  with collect_results_Ok_map [OF assms] show "map ft_pattern fs ! k = map ft_pattern es ! k"
    by (auto dest: rewrite_edge_pattern)
qed

section \<open>Closed scopes\<close>

definition scope_closed ::
  "(node_id, flow_node) btree_map \<Rightarrow> edge_map \<Rightarrow> node_id \<Rightarrow> node_id set \<Rightarrow> bool" where
  "scope_closed nodes transitions entry members \<longleftrightarrow>
     entry \<in> members \<and> members \<subseteq> fst ` set nodes
     \<and> (\<forall>i \<in> members. is_some_and (bt_get nodes i) is_split
          \<or> (\<exists>edges. bt_get transitions i = Some edges \<and> edges \<noteq> [] \<and> unambiguous edges))
     \<and> (\<forall>i \<in> members. set (flow_successors nodes transitions i) \<subseteq> members)
     \<and> (\<forall>i \<in> members. (entry, i) \<in> (flow_edge nodes transitions)\<^sup>*)
     \<and> (\<forall>i \<in> members. (i, i) \<notin> (flow_edge nodes transitions)\<^sup>+)"

lemma closed_trancl:
  assumes "\<forall>i \<in> M. set (flow_successors n t i) \<subseteq> M" and "\<forall>i \<in> M. flow_successors n' t' i = flow_successors n t i"
    and "i \<in> M" and "(i, j) \<in> (flow_edge n t)\<^sup>+"
  shows "j \<in> M \<and> (i, j) \<in> (flow_edge n' t')\<^sup>+"
  using assms(4)
proof (induction rule: trancl_induct)
  case (base j)
  with assms(1-3) show ?case by (auto simp: flow_edge_def)
next
  case (step j k)
  with assms(1,2) have "k \<in> M" "(j, k) \<in> flow_edge n' t'" by (auto simp: flow_edge_def)
  with step show ?case by (auto intro: trancl_into_trancl)
qed

lemma scope_closed_agree:
  assumes "scope_closed n t e M"
    and "\<forall>i \<in> M. bt_get n' i = bt_get n i" and "\<forall>i \<in> M. bt_get t' i = bt_get t i"
  shows "scope_closed n' t' e M"
proof -
  have succ: "\<forall>i \<in> M. flow_successors n' t' i = flow_successors n t i"
    using assms(2,3) by (simp add: flow_successors_def)
  have closed: "\<forall>i \<in> M. set (flow_successors n t i) \<subseteq> M" "\<forall>i \<in> M. set (flow_successors n' t' i) \<subseteq> M"
    using assms(1) succ by (auto simp: scope_closed_def)
  have "M \<subseteq> fst ` set n'"
  proof
    fix i
    assume "i \<in> M"
    then have "bt_get n' i \<noteq> None"
      using assms(1,2) by (metis bt_get_None_iff scope_closed_def subsetD)
    then show "i \<in> fst ` set n'" by (simp add: bt_get_None_iff)
  qed
  moreover have "(e, i) \<in> (flow_edge n' t')\<^sup>*" if "i \<in> M" for i
    using assms(1) that closed_trancl [OF closed(1) succ, of e i]
    by (auto simp: scope_closed_def rtrancl_eq_or_trancl)
  moreover have "(i, i) \<notin> (flow_edge n' t')\<^sup>+" if "i \<in> M" for i
    using assms(1) that closed_trancl [OF closed(2), of n t i i] succ by (auto simp: scope_closed_def)
  ultimately show ?thesis using assms closed(2) by (simp add: scope_closed_def)
qed

text \<open>The search of a scope agrees with the search of the basic compiler where it succeeds.\<close>

lemma visit_scope_visit:
  "visit_scope nodes transitions members i visited on_path = Ok r \<Longrightarrow>
     visit nodes transitions i visited on_path = Ok r"
  "visit_scope_all nodes transitions members rest visited on_path = Ok r \<Longrightarrow>
     visit_all nodes transitions rest visited on_path = Ok r"
proof (induction nodes transitions members i visited on_path and nodes transitions members rest visited on_path
    arbitrary: r and r rule: visit_scope_visit_scope_all.induct)
  case (1 nodes transitions members i visited on_path)
  show ?case
    using 1(2) 1(1)
    by (simp add: visit_scope.simps [of _ _ _ i] visit.simps [of _ _ i] split: if_splits) blast
next
  case (2 nodes transitions members visited on_path)
  then show ?case by simp
next
  case (3 nodes transitions members i rest visited on_path)
  from 3(3) obtain v p where v: "visit_scope nodes transitions members i visited on_path = Ok (v, p)"
      "visit_scope_all nodes transitions members rest v p = Ok r"
    by auto
  from 3(1) [OF v(1)] 3(2) [OF v(1) refl v(2)] show ?case by simp
qed

lemma visit_scope_joins:
  "visit_scope nodes transitions members i visited on_path = Ok (v, p) \<Longrightarrow>
     j \<in> v - visited \<Longrightarrow> bt_get nodes j = Some (FnSplit split) \<Longrightarrow> spn_join split \<in> members"
  "visit_scope_all nodes transitions members rest visited on_path = Ok (v, p) \<Longrightarrow>
     j \<in> v - visited \<Longrightarrow> bt_get nodes j = Some (FnSplit split) \<Longrightarrow> spn_join split \<in> members"
proof (induction nodes transitions members i visited on_path and nodes transitions members rest visited on_path
    arbitrary: v p and v p rule: visit_scope_visit_scope_all.induct)
  case (1 nodes transitions members i visited on_path)
  show ?case
  proof (cases "i \<in> on_path \<or> i \<in> visited")
    case True
    with 1(2,3) show ?thesis by (auto simp: visit_scope.simps split: if_splits)
  next
    case False
    with 1(2) obtain q where enter: "(case bt_get nodes i of
            Some (FnSplit split) \<Rightarrow> ensure (spn_join split \<in> members) (InvalidSplitJoin i (spn_join split))
          | _ \<Rightarrow> Ok ()) = Ok ()"
        and q: "visit_scope_all nodes transitions members (flow_successors nodes transitions i)
            (insert i visited) (insert i on_path) = Ok (v, q)"
      by (auto simp: visit_scope.simps [of nodes transitions members i])
    show ?thesis
    proof (cases "j = i")
      case True
      with enter 1(4) show ?thesis by simp
    next
      case other: False
      from False 1(1) [OF _ _ enter q] 1(3,4) other show ?thesis by auto
    qed
  qed
next
  case (2 nodes transitions members visited on_path)
  then show ?case by auto
next
  case (3 nodes transitions members i rest visited on_path)
  from 3(3) obtain w q where w: "visit_scope nodes transitions members i visited on_path = Ok (w, q)"
      "visit_scope_all nodes transitions members rest w q = Ok (v, p)"
    by auto
  from 3(1) [OF w(1)] 3(2) [OF w(1) refl w(2)] 3(4,5) show ?case by blast
qed

lemma validate_member_Ok:
  "validate_member c members i = Ok u \<longleftrightarrow> (\<exists>node. bt_get (ac_nodes c) i = Some node \<and> (is_split node
     \<or> (\<exists>edges. bt_get (ac_transitions c) i = Some edges \<and> edges \<noteq> [] \<and> unambiguous edges
          \<and> (\<forall>e \<in> set edges. \<forall>j. ft_target e = TargetNode j \<longrightarrow> j \<in> members))))"
proof -
  have "(case ft_target e of TargetNode target \<Rightarrow> ensure (target \<in> members) (UndefinedNode target)
      | TargetTerminal _ \<Rightarrow> Ok ()) = Ok () \<longleftrightarrow> (\<forall>j. ft_target e = TargetNode j \<longrightarrow> j \<in> members)" for e
    by (cases "ft_target e") auto
  then show ?thesis
    by (auto simp: validate_member_def check_unambiguous_Ok try_each_Ok_iff split: option.splits)
qed

lemma validate_scope_closed:
  assumes "validate_scope c entry members = Ok u"
    and "\<forall>i \<in> set members. is_some_and (bt_get (ac_nodes c) i) is_split \<longrightarrow> bt_get (ac_transitions c) i = None"
  shows "scope_closed (ac_nodes c) (ac_transitions c) entry (set members)"
proof -
  let ?n = "ac_nodes c" and ?t = "ac_transitions c" and ?M = "set members"
  from assms(1) obtain visited on_path where v: "entry \<in> ?M" "\<forall>i \<in> ?M. validate_member c ?M i = Ok ()"
      "visit_scope ?n ?t ?M entry {} {} = Ok (visited, on_path)" "?M \<subseteq> visited"
    by (auto simp: validate_scope_def try_each_Ok_iff split: if_splits)
  have search: "\<forall>i. (entry, i) \<in> (flow_edge ?n ?t)\<^sup>* \<longrightarrow> (i, i) \<notin> (flow_edge ?n ?t)\<^sup>+"
      "visited = {i. (entry, i) \<in> (flow_edge ?n ?t)\<^sup>*}"
    using visit_scope_visit(1) [OF v(3)] by (simp_all add: visit_entry_iff)
  have "set (flow_successors ?n ?t i) \<subseteq> ?M" if i: "i \<in> ?M" for i
  proof -
    obtain node where node: "bt_get ?n i = Some node" "is_split node \<or>
        (\<exists>edges. bt_get ?t i = Some edges \<and> edges \<noteq> [] \<and> unambiguous edges
          \<and> (\<forall>e \<in> set edges. \<forall>j. ft_target e = TargetNode j \<longrightarrow> j \<in> ?M))"
      using v(2) i unfolding validate_member_Ok by blast
    show ?thesis
    proof (cases node)
      case (FnSplit split)
      with visit_scope_joins(1) [OF v(3), of i split] v(4) i node(1) have "spn_join split \<in> ?M" by blast
      with assms(2) i node(1) FnSplit show ?thesis by (auto simp: flow_successors_iff)
    qed (use node in \<open>auto simp: flow_successors_iff\<close>)
  qed
  moreover have "?M \<subseteq> fst ` set ?n"
    using v(2) unfolding validate_member_Ok by (metis bt_get_None_iff option.distinct(1) subsetI)
  moreover have "is_some_and (bt_get ?n i) is_split
      \<or> (\<exists>edges. bt_get ?t i = Some edges \<and> edges \<noteq> [] \<and> unambiguous edges)" if "i \<in> ?M" for i
    using v(2) that unfolding validate_member_Ok by force
  moreover have "(entry, i) \<in> (flow_edge ?n ?t)\<^sup>*" if "i \<in> ?M" for i
    using v(4) that search(2) by blast
  ultimately show ?thesis using v(1) search(1) by (simp add: scope_closed_def)
qed

section \<open>The compiler's invariant\<close>

text \<open>
  Transition lists belong to declared nodes that are not splits and are routed; compiled split-branch
  scopes are closed.
\<close>

definition compiler_inv :: "advanced_compiler \<Rightarrow> bool" where
  "compiler_inv c \<longleftrightarrow>
     (\<forall>i es. bt_get (ac_transitions c) i = Some es \<longrightarrow>
        is_some_and (bt_get (ac_nodes c) i) (\<lambda>node. \<not> is_split node) \<and> routed es)
     \<and> (\<forall>(k, s) \<in> set (ac_split_branch_scopes c).
          scope_closed (ac_nodes c) (ac_transitions c) (cfs_entry s) (set (cfs_members s)))"

definition node_keys :: "advanced_compiler \<Rightarrow> node_id set" where
  "node_keys c = fst ` set (ac_nodes c)"

lemma node_keys_iff: "i \<in> node_keys c \<longleftrightarrow> bt_get (ac_nodes c) i \<noteq> None"
  by (simp add: node_keys_def bt_get_None_iff)

text \<open>What a compilation step leaves alone: declared nodes, their transitions, earlier branch scopes.\<close>

definition compiler_ext :: "advanced_compiler \<Rightarrow> advanced_compiler \<Rightarrow> bool" where
  "compiler_ext c d \<longleftrightarrow>
     (\<forall>i \<in> node_keys c. bt_get (ac_nodes d) i = bt_get (ac_nodes c) i
        \<and> bt_get (ac_transitions d) i = bt_get (ac_transitions c) i)
     \<and> (\<forall>(k, s) \<in> set (ac_split_branch_scopes d).
          (k, s) \<in> set (ac_split_branch_scopes c) \<or> set (cfs_members s) \<inter> node_keys c = {})"

definition same_core :: "advanced_compiler \<Rightarrow> advanced_compiler \<Rightarrow> bool" where
  "same_core c d \<longleftrightarrow> ac_nodes d = ac_nodes c \<and> ac_transitions d = ac_transitions c
     \<and> ac_split_branch_scopes d = ac_split_branch_scopes c"

lemma compiler_ext_keys: "compiler_ext c d \<Longrightarrow> node_keys c \<subseteq> node_keys d"
  unfolding compiler_ext_def by (metis node_keys_iff subsetI)

lemma same_core_inv: "same_core c d \<Longrightarrow> compiler_inv d = compiler_inv c"
  and same_core_ext: "same_core c d \<Longrightarrow> compiler_ext c d"
  and same_core_refl: "same_core c c"
  and same_core_trans: "same_core c d \<Longrightarrow> same_core d e \<Longrightarrow> same_core c e"
  by (auto simp: same_core_def compiler_inv_def compiler_ext_def node_keys_def)

lemma compiler_ext_refl: "compiler_ext c c"
  by (auto simp: compiler_ext_def)

lemma compiler_ext_trans:
  assumes "compiler_ext c d" and "compiler_ext d e"
  shows "compiler_ext c e"
proof -
  have keys: "node_keys c \<subseteq> node_keys d" using assms(1) by (rule compiler_ext_keys)
  have "bt_get (ac_nodes e) i = bt_get (ac_nodes c) i
        \<and> bt_get (ac_transitions e) i = bt_get (ac_transitions c) i" if "i \<in> node_keys c" for i
    using assms keys that unfolding compiler_ext_def by (metis subsetD)
  moreover have "(k, s) \<in> set (ac_split_branch_scopes c) \<or> set (cfs_members s) \<inter> node_keys c = {}"
    if "(k, s) \<in> set (ac_split_branch_scopes e)" for k s
  proof -
    from assms(2) that have "(k, s) \<in> set (ac_split_branch_scopes d) \<or> set (cfs_members s) \<inter> node_keys d = {}"
      by (auto simp: compiler_ext_def)
    with assms(1) keys show ?thesis by (auto simp: compiler_ext_def)
  qed
  ultimately show ?thesis unfolding compiler_ext_def by blast
qed

text \<open>A set of declared nodes no branch scope holds stays untouched by later branch scopes.\<close>

definition unbranched :: "node_id set \<Rightarrow> advanced_compiler \<Rightarrow> bool" where
  "unbranched N c \<longleftrightarrow> N \<subseteq> node_keys c \<and> (\<forall>(k, s) \<in> set (ac_split_branch_scopes c). set (cfs_members s) \<inter> N = {})"

lemma unbranched_ext: "unbranched N c \<Longrightarrow> compiler_ext c d \<Longrightarrow> unbranched N d"
  using compiler_ext_keys [of c d] by (fastforce simp: unbranched_def compiler_ext_def)

lemma unbranched_Un: "unbranched N c \<Longrightarrow> unbranched M c \<Longrightarrow> unbranched (N \<union> M) c"
  unfolding unbranched_def by blast

lemma unbranched_mono: "unbranched N c \<Longrightarrow> M \<subseteq> N \<Longrightarrow> unbranched M c"
  unfolding unbranched_def by blast

text \<open>What compiling one scope achieves.\<close>

definition scope_step :: "advanced_compiler \<Rightarrow> compiled_flow_scope \<Rightarrow> advanced_compiler \<Rightarrow> bool" where
  "scope_step c s d \<longleftrightarrow>
     compiler_inv d \<and> compiler_ext c d
     \<and> scope_closed (ac_nodes d) (ac_transitions d) (cfs_entry s) (set (cfs_members s))
     \<and> set (cfs_members s) \<inter> node_keys c = {} \<and> unbranched (set (cfs_members s)) d"

definition scope_compiler_ok :: "scope_compiler \<Rightarrow> bool" where
  "scope_compiler_ok rec \<longleftrightarrow>
     (\<forall>g c s d. compiler_inv c \<longrightarrow> rec g c = Ok (s, d) \<longrightarrow> scope_step c s d)"

section \<open>Steps that keep nodes, transitions and branch scopes\<close>

lemma reserve_id_core: "reserve_id i c = Ok d \<Longrightarrow> same_core c d"
  by (auto simp: reserve_id_def same_core_def Let_def split: if_splits)

lemma register_step_repeat_core: "register_step_repeat step c = Ok d \<Longrightarrow> same_core c d"
  by (auto simp: register_step_repeat_def same_core_def split: option.splits)

lemma try_fold_core:
  assumes "try_fold f xs c = Ok d" and "\<And>x c d. x \<in> set xs \<Longrightarrow> f x c = Ok d \<Longrightarrow> same_core c d"
  shows "same_core c d"
  using assms(1) same_core_refl
  by (rule try_fold_invariant) (auto intro: same_core_trans assms(2))

lemma register_node_repeats_core: "register_node_repeats node c = Ok d \<Longrightarrow> same_core c d"
  by (cases "(node, c)" rule: register_node_repeats.cases)
     (auto intro: register_step_repeat_core same_core_refl try_fold_core [OF _ register_step_repeat_core])

lemma install_scoped_core: "install_scoped_component k c = Ok d \<Longrightarrow> same_core c d"
  by (auto simp: install_scoped_component_def same_core_def Let_def split: if_splits)

lemma prepare_scope_parts:
  assumes "prepare_scope g depth c = Ok ((entry, local_nodes, nested, ts), d)"
  shows "same_core c d" and "collect_nodes (fg_nodes g) [] = Ok local_nodes" and "ts = fg_transitions g"
proof -
  let ?c = "if fg_job_restart_policy g = RpNotRestartable then c\<lparr>ac_job_restart_policy := RpNotRestartable\<rparr> else c"
  from assms obtain c1 c2 where steps: "try_fold install_scoped_component (fg_scoped_components g) ?c = Ok c1"
      "try_fold (\<lambda>(i, node). register_node_repeats node) local_nodes
         (c1\<lparr>ac_declared_transitions := ac_declared_transitions c1 + length (fg_transitions g)\<rparr>) = Ok c2"
      "try_fold reserve_id (map fst local_nodes @ map fst nested) c2 = Ok d"
    and rest: "collect_nodes (fg_nodes g) [] = Ok local_nodes" "ts = fg_transitions g"
    by (auto simp: prepare_scope_def Let_def split: if_splits)
  show "collect_nodes (fg_nodes g) [] = Ok local_nodes" "ts = fg_transitions g" using rest .
  have "same_core c ?c" by (simp add: same_core_def)
  moreover have "same_core ?c c1" by (rule try_fold_core [OF steps(1)]) (rule install_scoped_core)
  moreover have "same_core c1 (c1\<lparr>ac_declared_transitions := ac_declared_transitions c1 + length (fg_transitions g)\<rparr>)"
    by (simp add: same_core_def)
  moreover have "same_core \<dots> c2"
    by (rule try_fold_core [OF steps(2)]) (auto intro: register_node_repeats_core)
  moreover have "same_core c2 d" by (rule try_fold_core [OF steps(3)]) (rule reserve_id_core)
  ultimately show "same_core c d" by (meson same_core_trans)
qed

section \<open>Nested scopes and split branches\<close>

text \<open>The members of all scopes of a map.\<close>

definition all_members :: "(node_id, compiled_flow_scope) btree_map \<Rightarrow> node_id set" where
  "all_members scopes = (\<Union>(i, s) \<in> set scopes. set (cfs_members s))"

lemma all_members_insert:
  "all_members (bt_insert i s scopes) \<subseteq> set (cfs_members s) \<union> all_members scopes"
  using set_bt_insert_subset [of i s scopes] by (fastforce simp: all_members_def)

lemma compile_nested_scopes_ok:
  assumes "compile_nested_scopes rec nested c = Ok (scopes, d)" and "scope_compiler_ok rec" and "compiler_inv c"
  shows "compiler_inv d \<and> compiler_ext c d \<and> all_members scopes \<inter> node_keys c = {} \<and> unbranched (all_members scopes) d"
proof -
  let ?P = "\<lambda>(scopes, d). compiler_inv d \<and> compiler_ext c d \<and> all_members scopes \<inter> node_keys c = {}
      \<and> unbranched (all_members scopes) d"
  have "?P (scopes, d)"
    using assms(1) [unfolded compile_nested_scopes_def]
  proof (rule try_fold_invariant)
    show "?P ([], c)"
      using assms(3) by (auto simp: compiler_ext_refl all_members_def unbranched_def)
  next
    fix x st st'
    assume "?P st" and step: "(case x of (i, flow) \<Rightarrow> \<lambda>(scopes, c).
        res_bind (rec (nf_graph flow) c) (\<lambda>(scope, c). Ok (bt_insert i scope scopes, c))) st = Ok st'"
    obtain i flow where x: "x = (i, flow)" by (cases x)
    obtain ss e where st: "st = (ss, e)" by (cases st)
    from step obtain s e' where e': "rec (nf_graph flow) e = Ok (s, e')" "st' = (bt_insert i s ss, e')"
      by (auto simp: x st)
    have pre: "compiler_inv e" "compiler_ext c e" "all_members ss \<inter> node_keys c = {}" "unbranched (all_members ss) e"
      using \<open>?P st\<close> by (simp_all add: st)
    then have ok: "scope_step e s e'" using assms(2) e'(1) by (auto simp: scope_compiler_ok_def)
    then have new: "compiler_inv e'" "compiler_ext e e'" "set (cfs_members s) \<inter> node_keys e = {}"
        "unbranched (set (cfs_members s)) e'"
      by (auto simp: scope_step_def)
    have "unbranched (set (cfs_members s) \<union> all_members ss) e'"
      using unbranched_Un [OF new(4) unbranched_ext [OF pre(4) new(2)]] .
    moreover have "(set (cfs_members s) \<union> all_members ss) \<inter> node_keys c = {}"
      using new(3) pre(3) compiler_ext_keys [OF pre(2)] by blast
    ultimately have "all_members (bt_insert i s ss) \<inter> node_keys c = {}" "unbranched (all_members (bt_insert i s ss)) e'"
      using all_members_insert [of i s ss] unbranched_mono by blast+
    then show "?P st'"
      using new(1) compiler_ext_trans [OF pre(2) new(2)] by (simp add: e'(2))
  qed
  then show ?thesis by simp
qed

lemma materialize_branch_ok:
  assumes "materialize_branch rec i x c = Ok d" and "scope_compiler_ok rec" and "compiler_inv c"
  shows "compiler_inv d \<and> compiler_ext c d"
proof -
  obtain ordinal branch where x: "x = (ordinal, branch)" by (cases x)
  let ?c = "c\<lparr>ac_structural_branches := ac_structural_branches c + 1\<rparr>"
  have core: "same_core c ?c" by (simp add: same_core_def)
  show ?thesis
  proof (cases "sb_flow branch")
    case None
    with assms(1) have "try_fold (\<lambda>step. reserve_id (sn_id step)) (sb_steps branch) ?c = Ok d"
      by (auto simp: materialize_branch_def x Let_def split: if_splits)
    then have "same_core ?c d" by (rule try_fold_core) (rule reserve_id_core)
    with core have "same_core c d" by (rule same_core_trans)
    with assms(3) show ?thesis by (simp add: same_core_inv same_core_ext)
  next
    case (Some flow)
    with assms(1) obtain s e where e: "rec flow ?c = Ok (s, e)"
        "d = e\<lparr>ac_split_branch_scopes := bt_insert (i, ordinal) s (ac_split_branch_scopes e)\<rparr>"
      by (auto simp: materialize_branch_def x Let_def)
    have "scope_step ?c s e"
      using assms(2,3) e(1) same_core_inv [OF core] unfolding scope_compiler_ok_def by blast
    then have s: "compiler_inv e" "compiler_ext c e"
        "scope_closed (ac_nodes e) (ac_transitions e) (cfs_entry s) (set (cfs_members s))"
        "set (cfs_members s) \<inter> node_keys c = {}"
      using same_core_ext [OF core] by (auto simp: scope_step_def node_keys_def intro: compiler_ext_trans)
    have sub: "set (ac_split_branch_scopes d) \<subseteq> insert ((i, ordinal), s) (set (ac_split_branch_scopes e))"
      using set_bt_insert_subset by (simp add: e(2))
    have "compiler_inv d"
      using s(1,3) sub unfolding compiler_inv_def by (fastforce simp: e(2))
    moreover have "compiler_ext c d"
      using s(2,4) sub unfolding compiler_ext_def by (fastforce simp: e(2))
    ultimately show ?thesis ..
  qed
qed

lemma materialize_local_structure_ok:
  assumes "materialize_local_structure rec entry local_nodes c = Ok d" and "scope_compiler_ok rec" and "compiler_inv c"
  shows "compiler_inv d \<and> compiler_ext c d"
proof -
  let ?joins = "fst ` set (filter (\<lambda>(i, node). is_join node) local_nodes)"
  let ?P = "\<lambda>e. compiler_inv e \<and> compiler_ext c e"
  from assms(1) obtain owners where "try_fold (materialize_node rec entry ?joins) local_nodes ([], c) = Ok (owners, d)"
    by (auto simp: materialize_local_structure_def Let_def)
  then have "?P (snd (owners, d))"
  proof (rule try_fold_invariant)
    show "?P (snd ([], c))" using assms(3) compiler_ext_refl by simp
  next
    fix x st st'
    assume P: "?P (snd st)" and step: "materialize_node rec entry ?joins x st = Ok st'"
    obtain owners e where st: "st = (owners, e)" by (cases st)
    obtain i node where x: "x = (i, node)" by (cases x)
    show "?P (snd st')"
    proof (cases node)
      case (FnSplit split)
      with step obtain e' where e': "try_fold (materialize_branch rec i) (enumerate 0 (spn_branches split)) e = Ok e'"
          "snd st' = e'"
        by (auto simp: x st materialize_split_def split: if_splits option.splits)
      from e'(1) have "?P e'"
        using P assms(2) by (rule_tac try_fold_invariant [where P = ?P])
          (auto simp: st dest: materialize_branch_ok intro: compiler_ext_trans)
      then show ?thesis by (simp add: e'(2))
    next
      case (FnPartitionedStep p)
      with step obtain e' where "reserve_id (sn_id (psn_worker p)) e = Ok e'" "snd st' = e'"
        by (auto simp: x st)
      with P show ?thesis
        using reserve_id_core [of "sn_id (psn_worker p)" e e']
        by (auto simp: st same_core_inv intro: compiler_ext_trans same_core_ext)
    qed (use step P in \<open>auto simp: x st\<close>)
  qed
  then show ?thesis by simp
qed

section \<open>Transitions of a scope\<close>

lemma validate_transition_adv_Ok:
  assumes "validate_transition_adv ids local_nodes t = Ok u"
  shows "ft_source t \<in> ids \<and> \<not> is_some_and (bt_get local_nodes (ft_source t)) is_split"
  using assms by (auto simp: validate_transition_adv_def split: if_splits)

lemma partition_transitions_ok:
  assumes "partition_transitions ts local_nodes nested_scopes = Ok (outgoing, exits)"
  shows "\<forall>(i, es) \<in> set outgoing.
    i \<in> fst ` set local_nodes \<and> \<not> is_some_and (bt_get local_nodes i) is_split \<and> es \<noteq> []"
proof -
  let ?P = "\<lambda>m :: edge_map. \<forall>(i, es) \<in> set m.
      i \<in> fst ` set local_nodes \<and> \<not> is_some_and (bt_get local_nodes i) is_split \<and> es \<noteq> []"
  have "?P (fst (outgoing, exits))"
    using assms [unfolded partition_transitions_def Let_def]
  proof (rule try_fold_invariant)
    fix t st st'
    assume P: "?P (fst st)" and step: "(case st of (outgoing, nested_exits) \<Rightarrow>
        res_bind (validate_transition_adv (fst ` set local_nodes \<union> fst ` set nested_scopes) local_nodes t) (\<lambda>_.
        if bt_contains nested_scopes (ft_source t)
        then res_bind (push_edge t nested_exits) (\<lambda>nested_exits. Ok (outgoing, nested_exits))
        else res_bind (push_edge t outgoing) (\<lambda>outgoing. Ok (outgoing, nested_exits)))) = Ok st'"
    obtain out ex where st: "st = (out, ex)" by (cases st)
    show "?P (fst st')"
    proof (cases "bt_contains nested_scopes (ft_source t)")
      case True
      with step have "fst st' = out" by (auto simp: st)
      with P show ?thesis by (simp add: st)
    next
      case False
      with step obtain out' where out': "push_edge t out = Ok out'" "fst st' = out'"
          "validate_transition_adv (fst ` set local_nodes \<union> fst ` set nested_scopes) local_nodes t = Ok ()"
        by (auto simp: st)
      have source: "ft_source t \<in> fst ` set local_nodes" "\<not> is_some_and (bt_get local_nodes (ft_source t)) is_split"
        using validate_transition_adv_Ok [OF out'(3)] False by (simp_all add: bt_contains_iff)
      obtain es where "out' = bt_insert (ft_source t) (es @ [t]) out"
        using out'(1) by (auto simp: push_edge_def Let_def split: if_splits)
      then have sub: "set out' \<subseteq> insert (ft_source t, es @ [t]) (set out)" by (simp add: set_bt_insert_subset)
      show ?thesis
      proof (rule ballI)
        fix e
        assume "e \<in> set (fst st')"
        then consider "e = (ft_source t, es @ [t])" | "e \<in> set (fst st)" using sub out'(2) st by auto
        then show "case e of (i, es) \<Rightarrow>
            i \<in> fst ` set local_nodes \<and> \<not> is_some_and (bt_get local_nodes i) is_split \<and> es \<noteq> []"
        proof cases
          case 1
          with source show ?thesis by simp
        next
          case 2
          with P show ?thesis by (rule bspec)
        qed
      qed
    qed
  qed simp
  then show ?thesis by simp
qed

text \<open>A step that only retargets transitions leaving nodes of \<open>N\<close>.\<close>

definition retargeted :: "node_id set \<Rightarrow> edge_map \<Rightarrow> edge_map \<Rightarrow> bool" where
  "retargeted N s t \<longleftrightarrow>
     (\<forall>i. i \<notin> N \<longrightarrow> bt_get t i = bt_get s i)
     \<and> (\<forall>i. map_option (map ft_pattern) (bt_get t i) = map_option (map ft_pattern) (bt_get s i))"

lemma retargeted_trans: "retargeted N s t \<Longrightarrow> retargeted N t u \<Longrightarrow> retargeted N s u"
  by (simp add: retargeted_def)

lemma rewrite_nested_terminals_ok:
  assumes "rewrite_nested_terminals owner scope exits s = Ok t"
  shows "retargeted (set (cfs_members scope)) s t"
  using assms [unfolded rewrite_nested_terminals_def]
proof (rule try_fold_invariant)
  show "retargeted (set (cfs_members scope)) s s" by (simp add: retargeted_def)
next
  fix source u v
  assume source: "source \<in> set (cfs_members scope)" and u: "retargeted (set (cfs_members scope)) s u"
    and step: "(case bt_get u source of None \<Rightarrow> Ok u
       | Some edges \<Rightarrow> res_bind (collect_results (map (rewrite_edge owner exits) edges)) (\<lambda>edges.
           Ok (bt_insert source edges u))) = Ok v"
  have "retargeted (set (cfs_members scope)) u v"
    using source step by (auto simp: retargeted_def bt_get_insert dest!: rewrite_edges_patterns split: option.splits)
  with u show "retargeted (set (cfs_members scope)) s v" by (rule retargeted_trans)
qed

lemma retargeted_mono: "retargeted N s t \<Longrightarrow> N \<subseteq> M \<Longrightarrow> retargeted M s t"
  unfolding retargeted_def by blast

lemma normalize_nested_boundaries_ok:
  assumes "normalize_nested_boundaries scopes exits outgoing c = Ok (outgoing', d)"
  shows "outgoing' = map (\<lambda>(source, edges). (source, map (resolve_edge scopes) edges)) outgoing"
    and "ac_nodes d = ac_nodes c" and "ac_split_branch_scopes d = ac_split_branch_scopes c"
    and "retargeted (all_members scopes) (ac_transitions c) (ac_transitions d)"
proof -
  let ?P = "\<lambda>d. ac_nodes d = ac_nodes c \<and> ac_split_branch_scopes d = ac_split_branch_scopes c
      \<and> retargeted (all_members scopes) (ac_transitions c) (ac_transitions d)"
  let ?f = "\<lambda>(owner, scope) c.
        res_bind (ok_or (bt_get exits owner) (MissingTransition owner)) (\<lambda>exits.
        let normalized = map (resolve_edge scopes) exits in
        res_bind (rewrite_nested_terminals owner scope normalized (ac_transitions c)) (\<lambda>transitions.
        Ok (c\<lparr>ac_transitions := transitions,
              ac_nested_records := bt_insert owner \<lparr>nr_scope = scope, nr_exits = normalized\<rparr>
                                     (ac_nested_records c)\<rparr>)))"
  from assms have fold: "try_fold ?f scopes c = Ok d"
    and out: "outgoing' = map (\<lambda>(source, edges). (source, map (resolve_edge scopes) edges)) outgoing"
    by (auto simp: normalize_nested_boundaries_def Let_def)
  from fold have "?P d"
  proof (rule try_fold_invariant)
    show "?P c" by (simp add: retargeted_def)
  next
    fix x e e'
    assume x: "x \<in> set scopes" and P: "?P e" and step: "?f x e = Ok e'"
    obtain owner scope where os: "x = (owner, scope)" by (cases x)
    from step obtain ex t where t: "rewrite_nested_terminals owner scope ex (ac_transitions e) = Ok t"
        "ac_transitions e' = t" "ac_nodes e' = ac_nodes e" "ac_split_branch_scopes e' = ac_split_branch_scopes e"
      by (auto simp: os Let_def)
    have "set (cfs_members scope) \<subseteq> all_members scopes" using x by (auto simp: os all_members_def)
    from retargeted_mono [OF rewrite_nested_terminals_ok [OF t(1)] this] P t(2-4)
    show "?P e'" by (auto intro: retargeted_trans)
  qed
  with out show "outgoing' = map (\<lambda>(source, edges). (source, map (resolve_edge scopes) edges)) outgoing"
    and "ac_nodes d = ac_nodes c" and "ac_split_branch_scopes d = ac_split_branch_scopes c"
    and "retargeted (all_members scopes) (ac_transitions c) (ac_transitions d)"
    by simp_all
qed

lemma retargeted_inv:
  assumes "compiler_inv c" and "unbranched N c" and "ac_nodes d = ac_nodes c"
    and "ac_split_branch_scopes d = ac_split_branch_scopes c"
    and r: "retargeted N (ac_transitions c) (ac_transitions d)"
  shows "compiler_inv d"
proof -
  have "is_some_and (bt_get (ac_nodes d) i) (\<lambda>node. \<not> is_split node) \<and> routed es"
    if get: "bt_get (ac_transitions d) i = Some es" for i es
  proof -
    have "map_option (map ft_pattern) (bt_get (ac_transitions c) i) = Some (map ft_pattern es)"
      using r get unfolding retargeted_def by (metis option.map(2))
    then obtain es' where es': "bt_get (ac_transitions c) i = Some es'" "map ft_pattern es' = map ft_pattern es"
      by auto
    with assms(1,3) routed_retarget [OF es'(2)] show ?thesis by (simp add: compiler_inv_def)
  qed
  moreover have "scope_closed (ac_nodes d) (ac_transitions d) (cfs_entry s) (set (cfs_members s))"
    if "(k, s) \<in> set (ac_split_branch_scopes d)" for k s
  proof (rule scope_closed_agree)
    show "scope_closed (ac_nodes c) (ac_transitions c) (cfs_entry s) (set (cfs_members s))"
      using that assms(1,4) by (auto simp: compiler_inv_def)
    have "set (cfs_members s) \<inter> N = {}" using that assms(2,4) by (auto simp: unbranched_def)
    then show "\<forall>i \<in> set (cfs_members s). bt_get (ac_transitions d) i = bt_get (ac_transitions c) i"
      using r unfolding retargeted_def by blast
  qed (simp add: assms(3))
  ultimately show ?thesis by (auto simp: compiler_inv_def)
qed

section \<open>Installing a scope\<close>

lemma bt_get_Cons: "bt_get ((i, v) # m) j = (if j = i then Some v else bt_get m j)"
  by (simp add: bt_get_def)

lemma install_local_nodes_ok:
  "install_local_nodes xs c = Ok d \<Longrightarrow>
     ac_transitions d = ac_transitions c \<and> ac_split_branch_scopes d = ac_split_branch_scopes c
     \<and> fst ` set xs \<inter> node_keys c = {}
     \<and> (\<forall>i. bt_get (ac_nodes d) i = (case bt_get xs i of None \<Rightarrow> bt_get (ac_nodes c) i | Some n \<Rightarrow> Some n))"
proof (induction xs arbitrary: c)
  case (Cons x xs)
  obtain i n where x: "x = (i, n)" by (cases x)
  let ?c = "c\<lparr>ac_nodes := bt_insert i n (ac_nodes c)\<rparr>"
  from Cons.prems have fresh: "i \<notin> node_keys c" and "install_local_nodes xs ?c = Ok d"
    by (auto simp: install_local_nodes_def x bt_contains_iff node_keys_def split: if_splits)
  note IH = Cons.IH [OF this(2)]
  have keys: "node_keys ?c = insert i (node_keys c)" by (simp add: node_keys_def)
  then have "bt_get xs i = None" using IH by (auto simp: bt_get_None_iff)
  then have "bt_get (ac_nodes d) j = (case bt_get (x # xs) j of None \<Rightarrow> bt_get (ac_nodes c) j | Some n \<Rightarrow> Some n)" for j
    using IH by (cases "bt_get xs j") (auto simp: x bt_get_Cons bt_get_insert)
  with IH keys fresh show ?case by (auto simp: x)
qed (simp add: install_local_nodes_def)

lemma install_transitions_ok:
  "install_transitions xs c = Ok d \<Longrightarrow>
     ac_nodes d = ac_nodes c \<and> ac_split_branch_scopes d = ac_split_branch_scopes c
     \<and> (\<forall>i. bt_get (ac_transitions d) i =
          (case bt_get xs i of None \<Rightarrow> bt_get (ac_transitions c) i | Some es \<Rightarrow> Some (sort_transitions es)))"
proof (induction xs arbitrary: c)
  case (Cons x xs)
  obtain i es where x: "x = (i, es)" by (cases x)
  let ?c = "c\<lparr>ac_transitions := bt_insert i (sort_transitions es) (ac_transitions c)\<rparr>"
  from Cons.prems have "install_transitions xs ?c = Ok d"
    by (auto simp: install_transitions_def x split: if_splits)
  then have IH: "ac_nodes d = ac_nodes c" "ac_split_branch_scopes d = ac_split_branch_scopes c"
      "\<forall>j. bt_get (ac_transitions d) j = (case bt_get xs j of
          None \<Rightarrow> bt_get (ac_transitions ?c) j | Some es \<Rightarrow> Some (sort_transitions es))"
    using Cons.IH by auto
  have "bt_get xs i = None"
  proof (rule ccontr)
    assume "bt_get xs i \<noteq> None"
    moreover have "try_fold (\<lambda>(source, edges) c.
       if bt_contains (ac_transitions c) source then Err (DuplicateNodeId source)
       else Ok (c\<lparr>ac_transitions := bt_insert source (sort_transitions edges) (ac_transitions c)\<rparr>)) ys e \<noteq> Ok d"
      if "bt_get ys i \<noteq> None" and "bt_contains (ac_transitions e) i" for ys e
      using that
    proof (induction ys arbitrary: e)
      case (Cons y ys)
      then show ?case
        by (cases y) (auto simp: bt_get_Cons bt_contains_def bt_get_insert split: if_splits)
    qed simp
    ultimately show False
      using \<open>install_transitions xs ?c = Ok d\<close>
      by (auto simp: install_transitions_def bt_contains_def bt_get_insert)
  qed
  with IH show ?case by (auto simp: x bt_get_insert bt_get_Cons split: option.splits)
qed (simp add: install_transitions_def)

text \<open>The last part of \<open>compile_scope\<close>: installing and validating on top of the nested scopes.\<close>

lemma install_scope_step:
  assumes inv: "compiler_inv c" and N: "unbranched N c" and wf: "bt_wf local_nodes"
    and out: "\<forall>(i, es) \<in> set outgoing.
      i \<in> fst ` set local_nodes \<and> \<not> is_some_and (bt_get local_nodes i) is_split \<and> es \<noteq> []"
    and c1: "install_local_nodes local_nodes c = Ok c1" and c2: "install_transitions outgoing c1 = Ok d"
    and members: "set members = fst ` set local_nodes \<union> N"
    and valid: "validate_scope d entry members = Ok u"
  shows "compiler_inv d" and "compiler_ext c d"
    and "scope_closed (ac_nodes d) (ac_transitions d) entry (set members)" and "unbranched (set members) d"
    and "fst ` set local_nodes \<inter> node_keys c = {}"
proof -
  note i1 = install_local_nodes_ok [OF c1] and i2 = install_transitions_ok [OF c2]
  have scopes: "ac_split_branch_scopes d = ac_split_branch_scopes c" using i1 i2 by simp
  show fresh: "fst ` set local_nodes \<inter> node_keys c = {}" using i1 by blast
  have nodes: "bt_get (ac_nodes d) i = (case bt_get local_nodes i of None \<Rightarrow> bt_get (ac_nodes c) i | Some n \<Rightarrow> Some n)" for i
    using i1 i2 by simp
  have trans: "bt_get (ac_transitions d) i =
      (case bt_get outgoing i of None \<Rightarrow> bt_get (ac_transitions c) i | Some es \<Rightarrow> Some (sort_transitions es))" for i
    using i1 i2 by (cases "bt_get outgoing i") simp_all
  have local_out: "i \<in> fst ` set local_nodes \<and> \<not> is_some_and (bt_get local_nodes i) is_split \<and> es \<noteq> []"
    if "bt_get outgoing i = Some es" for i es
    using out bt_get_in_set [OF that] by blast
  have old: "bt_get (ac_nodes d) i = bt_get (ac_nodes c) i \<and> bt_get (ac_transitions d) i = bt_get (ac_transitions c) i"
    if "i \<in> node_keys c" for i
  proof -
    have "i \<notin> fst ` set local_nodes" using that fresh by blast
    moreover from this local_out have "bt_get outgoing i = None" by (cases "bt_get outgoing i") auto
    ultimately show ?thesis using nodes trans by (simp add: bt_get_None_iff [THEN iffD2])
  qed
  then show ext: "compiler_ext c d" by (auto simp: compiler_ext_def scopes)
  have old_trans: "i \<in> node_keys c" if "bt_get (ac_transitions c) i = Some es" for i es
    using inv that by (cases "bt_get (ac_nodes c) i") (fastforce simp: compiler_inv_def node_keys_iff)+
  have no_split: "is_some_and (bt_get (ac_nodes d) i) (\<lambda>node. \<not> is_split node)"
    if "bt_get (ac_transitions d) i = Some es" for i es
  proof (cases "bt_get outgoing i")
    case None
    with that trans have "bt_get (ac_transitions c) i = Some es" by simp
    with inv old old_trans show ?thesis by (auto simp: compiler_inv_def)
  next
    case (Some es')
    with local_out have "i \<in> fst ` set local_nodes" "\<not> is_some_and (bt_get local_nodes i) is_split" by auto
    then obtain n where "bt_get local_nodes i = Some n" "\<not> is_split n"
      by (cases "bt_get local_nodes i") (auto simp: bt_get_None_iff)
    with nodes show ?thesis by simp
  qed
  show closed: "scope_closed (ac_nodes d) (ac_transitions d) entry (set members)"
  proof (rule validate_scope_closed [OF valid], intro ballI impI)
    fix i
    assume "is_some_and (bt_get (ac_nodes d) i) is_split"
    then show "bt_get (ac_transitions d) i = None"
      using no_split [of i] by (cases "bt_get (ac_transitions d) i"; cases "bt_get (ac_nodes d) i") auto
  qed
  show "unbranched (set members) d"
  proof -
    have "set (cfs_members s) \<subseteq> node_keys c" if "(k, s) \<in> set (ac_split_branch_scopes c)" for k s
      using inv that by (auto simp: compiler_inv_def scope_closed_def node_keys_def)
    then have "unbranched (fst ` set local_nodes) d"
      using fresh closed members unfolding unbranched_def scopes scope_closed_def node_keys_def by blast
    then show ?thesis
      unfolding members by (rule unbranched_Un) (rule unbranched_ext [OF N ext])
  qed
  have "routed es" if get: "bt_get (ac_transitions d) i = Some es" for i es
  proof (cases "bt_get outgoing i")
    case None
    with get trans inv show ?thesis by (auto simp: compiler_inv_def)
  next
    case (Some es')
    then have es: "es = sort_transitions es'" "es' \<noteq> []" "i \<in> set members"
      using get trans local_out members by auto
    have "\<not> is_some_and (bt_get (ac_nodes d) i) is_split"
      using no_split [OF get] by (cases "bt_get (ac_nodes d) i") auto
    with closed es(3) get have "unambiguous es" by (auto simp: scope_closed_def)
    with es show ?thesis by (simp add: routed_sort)
  qed
  moreover have "scope_closed (ac_nodes d) (ac_transitions d) (cfs_entry s) (set (cfs_members s))"
    if "(k, s) \<in> set (ac_split_branch_scopes d)" for k s
  proof -
    have sc: "scope_closed (ac_nodes c) (ac_transitions c) (cfs_entry s) (set (cfs_members s))"
      using inv that scopes by (auto simp: compiler_inv_def)
    then have "\<forall>i \<in> set (cfs_members s). i \<in> node_keys c" by (auto simp: scope_closed_def node_keys_def)
    with old show ?thesis by (intro scope_closed_agree [OF sc]) auto
  qed
  ultimately show "compiler_inv d" using no_split by (auto simp: compiler_inv_def)
qed

lemma compile_scope_ok:
  assumes "compile_scope depth g c = Ok (s, d)" and "compiler_inv c"
  shows "scope_step c s d"
  using assms
proof (induction depth g c arbitrary: s d rule: compile_scope.induct)
  case (1 depth g c)
  let ?rec = "compile_scope (depth + 1)"
  from 1(3) obtain declared local_nodes nested ts c0 nested_scopes c1 c2 outgoing exits exits' outgoing' c3 c4
    where prep: "prepare_scope g depth c = Ok ((declared, local_nodes, nested, ts), c0)"
      and nest: "compile_nested_scopes ?rec nested c0 = Ok (nested_scopes, c1)"
      and mat: "materialize_local_structure ?rec declared local_nodes c1 = Ok c2"
      and part: "partition_transitions ts local_nodes nested_scopes = Ok (outgoing, exits)"
      and norm: "normalize_nested_boundaries nested_scopes exits' outgoing c2 = Ok (outgoing', c3)"
      and inst: "install_local_nodes local_nodes c3 = Ok c4" "install_transitions outgoing' c4 = Ok d"
      and valid: "validate_scope d (cfs_entry s) (scope_members local_nodes nested_scopes) = Ok ()"
      and s: "cfs_members s = scope_members local_nodes nested_scopes"
    unfolding compile_scope.simps [of depth g c] by (auto simp: Let_def)
  have rec: "scope_compiler_ok ?rec"
    unfolding scope_compiler_ok_def using 1(1) [OF prep refl refl refl refl] by blast
  have core: "same_core c c0" using prepare_scope_parts(1) [OF prep] .
  then have inv0: "compiler_inv c0" using 1(4) by (simp add: same_core_inv)
  note n = compile_nested_scopes_ok [OF nest rec inv0]
  note m = materialize_local_structure_ok [OF mat rec conjunct1 [OF n]]
  have N2: "unbranched (all_members nested_scopes) c2" using n m unbranched_ext by blast
  note r = normalize_nested_boundaries_ok [OF norm]
  have inv3: "compiler_inv c3" using retargeted_inv [OF conjunct1 [OF m] N2 r(2,3,4)] .
  have N3: "unbranched (all_members nested_scopes) c3" using N2 r(2,3) by (simp add: unbranched_def node_keys_def)
  have ext02: "compiler_ext c0 c2" using n m compiler_ext_trans by blast
  have ext03: "compiler_ext c0 c3"
  proof -
    have "bt_get (ac_transitions c3) i = bt_get (ac_transitions c2) i" if "i \<in> node_keys c0" for i
      using r(4) n that by (auto simp: retargeted_def)
    with ext02 r(2,3) show ?thesis by (auto simp: compiler_ext_def)
  qed
  have wf: "bt_wf local_nodes" using prepare_scope_parts(2) [OF prep] by (simp add: collect_nodes_Ok)
  have out: "\<forall>(i, es) \<in> set outgoing'.
      i \<in> fst ` set local_nodes \<and> \<not> is_some_and (bt_get local_nodes i) is_split \<and> es \<noteq> []"
    using partition_transitions_ok [OF part] unfolding r(1) by fastforce
  have members: "set (cfs_members s) = fst ` set local_nodes \<union> all_members nested_scopes"
  proof -
    have "finite (\<Union>(i, scope) \<in> set nested_scopes. set (cfs_members scope))" by auto
    then show ?thesis unfolding s scope_members_def all_members_def by simp
  qed
  note step = install_scope_step [OF inv3 N3 wf out inst members valid [folded s]]
  have "node_keys c \<subseteq> node_keys c3"
    using core compiler_ext_keys [OF ext03] by (simp add: same_core_def node_keys_def)
  moreover have "all_members nested_scopes \<inter> node_keys c = {}"
    using n core by (simp add: same_core_def node_keys_def)
  ultimately have "set (cfs_members s) \<inter> node_keys c = {}" using step(5) unfolding members by blast
  moreover have "compiler_ext c d"
    using same_core_ext [OF core] ext03 step(2) by (meson compiler_ext_trans)
  ultimately show ?case using step(1,3,4) by (simp add: scope_step_def)
qed

section \<open>An example with a nested flow and a graph-valued branch\<close>

definition example_leaf_graph :: "string \<Rightarrow> flow_graph" where
  "example_leaf_graph i = FlowGraph (Some (lit i)) [example_step i]
     [example_edge i ''*'' (TargetTerminal TkComplete)] [] [] None RpRestartable"

definition example_split :: split_node where
  "example_split = SplitNode (lit ''p'')
     [SplitBranch [] (Some (example_leaf_graph ''x'')),
      SplitBranch [step_node_new (lit ''y'') (lit ''y'') (Tasklet (lit ''r''))] None]
     (lit ''j'') \<lparr>sbu_max_parallel_branches = 2, sbu_repository_pool_size = 3\<rparr> CancelSiblings"

definition example_advanced_graph :: flow_graph where
  "example_advanced_graph = FlowGraph (Some (lit ''n''))
     [FnSplit example_split, FnJoin \<lparr>jn_id = lit ''j''\<rparr>]
     [example_edge ''n'' ''COMPLETED'' (TargetNode (lit ''p'')), example_edge ''n'' ''*'' (TargetTerminal TkFail),
      example_edge ''j'' ''*'' (TargetTerminal TkComplete)]
     [NestedFlow (lit ''n'') (example_leaf_graph ''s'')] [] None RpRestartable"

lemma example_advanced_scope:
  "map_sum id (\<lambda>(s, c). (s, map fst (ac_nodes c), ac_transitions c, ac_split_branch_scopes c))
     (compile_scope 1 example_advanced_graph advanced_compiler_default) =
   Ok (\<lparr>cfs_entry = lit ''s'', cfs_members = [lit ''j'', lit ''p'', lit ''s'']\<rparr>,
       [lit ''j'', lit ''p'', lit ''s'', lit ''x''],
       [(lit ''j'', [example_edge ''j'' ''*'' (TargetTerminal TkComplete)]),
        (lit ''s'', [example_edge ''s'' ''*'' (TargetNode (lit ''p''))]),
        (lit ''x'', [example_edge ''x'' ''*'' (TargetTerminal TkComplete)])],
       [((lit ''p'', 0), \<lparr>cfs_entry = lit ''x'', cfs_members = [lit ''x'']\<rparr>)])"
  by code_simp

lemma example_advanced_format:
  "requires_advanced_format example_advanced_graph" "\<not> requires_advanced_format example_graph"
  by code_simp+

definition example_advanced_plan :: "plan_error + compiled_execution_plan" where
  "example_advanced_plan =
     flow_compile (\<lambda>_. Some [0]) (\<lambda>_. Some example_format) (\<lambda>_. []) example_advanced_graph (lit ''j'') (lit ''r'')"

lemma try_fold_total:
  assumes "\<And>x s. x \<in> set xs \<Longrightarrow> \<exists>t. f x s = Ok t"
  shows "\<exists>t. try_fold f xs s = Ok t"
  using assms
proof (induction xs arbitrary: s)
  case (Cons x xs)
  then obtain t where "f x s = Ok t" by fastforce
  with Cons show ?case by simp
qed simp

text \<open>The number of a decision fits into 64 bits, so numbering never fails.\<close>

lemma assign_decision_sequences_total:
  assumes "length transitions < 2 ^ 64"
  shows "\<exists>m. assign_decision_sequences transitions = Ok m"
  unfolding assign_decision_sequences_def
proof (rule try_fold_total)
  fix x :: "nat \<times> node_id \<times> flow_transition list" and s :: "(node_id, u64) btree_map"
  assume "x \<in> set (enumerate 0 transitions)"
  then have "fst x < length transitions" by (simp add: in_set_enumerate_eq)
  then obtain k e where x: "x = (k, e)" "k < length transitions" by (metis prod.collapse)
  then have "unat (word_of_nat k :: u64) = k" using assms by (simp add: unsigned_of_nat take_bit_nat_eq_self)
  then have "checked_add (word_of_nat k :: u64) 1 \<noteq> None"
    using x(2) assms by (simp add: checked_add_None_iff)
  then show "\<exists>t. (case x of (index, source, edges) \<Rightarrow> \<lambda>sequences.
       res_bind (ok_or (checked_add (word_of_nat index) 1) (TooManyTransitions MAX_TRANSITIONS)) (\<lambda>sequence.
       Ok (bt_insert source sequence sequences))) s = Ok t"
    using x(1) by (cases e) auto
qed

lemma example_advanced_plan_Ok:
  "\<exists>plan. example_advanced_plan = Ok plan
     \<and> cep_root_scope plan = \<lparr>cfs_entry = lit ''s'', cfs_members = [lit ''j'', lit ''p'', lit ''s'']\<rparr>
     \<and> bt_get (cep_transitions plan) (lit ''s'') = Some [example_edge ''s'' ''*'' (TargetNode (lit ''p''))]"
proof -
  obtain s c where c: "compile_scope 1 example_advanced_graph advanced_compiler_default = Ok (s, c)"
      "s = \<lparr>cfs_entry = lit ''s'', cfs_members = [lit ''j'', lit ''p'', lit ''s'']\<rparr>"
      "ac_transitions c = [(lit ''j'', [example_edge ''j'' ''*'' (TargetTerminal TkComplete)]),
        (lit ''s'', [example_edge ''s'' ''*'' (TargetNode (lit ''p''))]),
        (lit ''x'', [example_edge ''x'' ''*'' (TargetTerminal TkComplete)])]"
    using example_advanced_scope
    by (cases "compile_scope 1 example_advanced_graph advanced_compiler_default") auto
  obtain m where "assign_decision_sequences (ac_transitions c) = Ok m"
    using assign_decision_sequences_total [of "ac_transitions c"] c(3) by auto
  then show ?thesis
    using c(2,3)
    by (auto simp: example_advanced_plan_def flow_compile_def example_advanced_format compile_advanced_def c(1)
        c(1) [unfolded One_nat_def] example_identity bt_get_def)
qed

section \<open>Plans\<close>

text \<open>The execution scopes of a plan: its root and its graph-valued split branches.\<close>

definition execution_scope :: "compiled_execution_plan \<Rightarrow> compiled_flow_scope \<Rightarrow> bool" where
  "execution_scope plan s \<longleftrightarrow>
     s = cep_root_scope plan \<or> (\<exists>k. (k, s) \<in> set (cep_split_branch_scopes plan))"

lemma compile_advanced_scopes:
  assumes "compile_advanced to_vec from_slice sha256 g job revision = Ok plan"
  shows "execution_scope plan s \<Longrightarrow>
      scope_closed (cep_nodes plan) (cep_transitions plan) (cfs_entry s) (set (cfs_members s))"
    and "bt_get (cep_transitions plan) i = Some es \<Longrightarrow> routed es"
    and "cfs_entry (cep_root_scope plan) = cep_entry plan"
proof -
  from assms obtain c where c: "compile_scope 1 g advanced_compiler_default = Ok (cep_root_scope plan, c)"
      "cep_nodes plan = ac_nodes c" "cep_transitions plan = ac_transitions c"
      "cep_split_branch_scopes plan = ac_split_branch_scopes c"
    and e: "cfs_entry (cep_root_scope plan) = cep_entry plan"
    by (auto simp: compile_advanced_def)
  have "compiler_inv advanced_compiler_default"
    by (simp add: compiler_inv_def advanced_compiler_default_def)
  from compile_scope_ok [OF c(1) this] have step: "scope_step advanced_compiler_default (cep_root_scope plan) c" .
  then show "execution_scope plan s \<Longrightarrow>
      scope_closed (cep_nodes plan) (cep_transitions plan) (cfs_entry s) (set (cfs_members s))"
    using c(2-4) by (auto simp: scope_step_def compiler_inv_def execution_scope_def)
  show "bt_get (cep_transitions plan) i = Some es \<Longrightarrow> routed es"
    using step c(3) by (auto simp: scope_step_def compiler_inv_def)
  show "cfs_entry (cep_root_scope plan) = cep_entry plan" by (rule e)
qed

lemma compile_basic_scopes:
  assumes "compile_basic to_vec from_slice sha256 g job revision = Ok plan"
  shows "execution_scope plan s \<Longrightarrow>
      scope_closed (cep_nodes plan) (cep_transitions plan) (cfs_entry s) (set (cfs_members s))"
    and "bt_get (cep_transitions plan) i = Some es \<Longrightarrow> routed es"
    and "cfs_entry (cep_root_scope plan) = cep_entry plan"
proof -
  from assms obtain ls where c: "compile_graph g = Ok (cep_entry plan, cep_nodes plan, cep_transitions plan, ls)"
    and root: "cep_root_scope plan = \<lparr>cfs_entry = cep_entry plan, cfs_members = map fst (cep_nodes plan)\<rparr>"
      "cep_split_branch_scopes plan = []"
    by (auto simp: compile_basic_def)
  note parts = compile_graph_parts [OF c]
  show "cfs_entry (cep_root_scope plan) = cep_entry plan" by (simp add: root)
  have leaves: "leaving i (fg_transitions g) \<noteq> [] \<and> unambiguous (leaving i (fg_transitions g))
      \<and> bt_get (cep_transitions plan) i = Some (sort_transitions (leaving i (fg_transitions g)))"
    if "i \<in> fst ` set (cep_nodes plan)" "\<not> is_some_and (bt_get (cep_nodes plan) i) is_split" for i
    using compiled_edges [OF c, of i] that by simp
  have sorted_unamb: "unambiguous (sort_transitions es) = unambiguous es" for es
    by (rule unambiguous_mset) (simp add: sort_transitions_key)
  have "length (sort_transitions es) = length es" for es by (simp add: sort_transitions_key)
  then have sorted_nil: "sort_transitions es = [] \<longleftrightarrow> es = []" for es by (metis length_0_conv)
  show "routed es" if get: "bt_get (cep_transitions plan) i = Some es"
  proof -
    have es: "leaving i (fg_transitions g) \<noteq> []" "es = sort_transitions (leaving i (fg_transitions g))"
      using get compiled_edges(1) [OF c, of i] by (auto split: if_splits)
    then obtain t where "t \<in> set (fg_transitions g)" "ft_source t = i" by (auto simp: filter_empty_conv)
    with parts(4) have "i \<in> fst ` set (cep_nodes plan)" "\<not> is_some_and (bt_get (cep_nodes plan) i) is_split"
      by (auto simp: check_transition_Ok)
    from leaves [OF this] es show ?thesis by (auto simp: sorted_unamb intro: routed_sort)
  qed
  assume "execution_scope plan s"
  then have s: "cfs_entry s = cep_entry plan" "set (cfs_members s) = fst ` set (cep_nodes plan)"
    by (auto simp: execution_scope_def root)
  have "is_some_and (bt_get (cep_nodes plan) i) is_split
      \<or> (\<exists>edges. bt_get (cep_transitions plan) i = Some edges \<and> edges \<noteq> [] \<and> unambiguous edges)"
    if "i \<in> fst ` set (cep_nodes plan)" for i
    using leaves [OF that] sorted_unamb sorted_nil by auto
  then show "scope_closed (cep_nodes plan) (cep_transitions plan) (cfs_entry s) (set (cfs_members s))"
    using parts(2,3) successors_declared [OF c] unfolding s scope_closed_def reachable_dag_def by blast
qed

lemma flow_compile_scopes:
  assumes "flow_compile to_vec from_slice sha256 g job revision = Ok plan"
  shows "execution_scope plan s \<Longrightarrow>
      scope_closed (cep_nodes plan) (cep_transitions plan) (cfs_entry s) (set (cfs_members s))"
    and "bt_get (cep_transitions plan) i = Some es \<Longrightarrow> routed es"
    and "cfs_entry (cep_root_scope plan) = cep_entry plan"
  using assms compile_advanced_scopes compile_basic_scopes
  by (auto simp: flow_compile_def split: if_splits)

text \<open>
  C14. Every plan, with or without advanced features, executes well-formed scopes. The root scope starts
  at the plan's entry. In the root and in every graph-valued split branch each member is declared,
  reachable from the scope's entry and on no cycle, has transitions unless it is a split, and leads
  only to members. The transitions of every node are complete in this sense, not empty and no two of
  them equally specific and overlapping, after nested flows have been spliced into their parents.
\<close>

theorem plan_scopes_closed:
  assumes "flow_compile to_vec from_slice sha256 g job revision = Ok plan"
  shows "cfs_entry (cep_root_scope plan) = cep_entry plan
    \<and> (\<forall>s. execution_scope plan s \<longrightarrow>
         scope_closed (cep_nodes plan) (cep_transitions plan) (cfs_entry s) (set (cfs_members s)))
    \<and> (\<forall>i es. bt_get (cep_transitions plan) i = Some es \<longrightarrow> es \<noteq> [] \<and> unambiguous es)"
  using flow_compile_scopes [OF assms] by (auto simp: routed_def)

text \<open>A plan with a nested flow spliced in front of a split that has a graph-valued branch.\<close>

theorem plan_scopes_closed_witness:
  "\<exists>plan. example_advanced_plan = Ok plan
     \<and> scope_closed (cep_nodes plan) (cep_transitions plan) (lit ''s'') {lit ''j'', lit ''p'', lit ''s''}"
proof -
  obtain plan where plan: "example_advanced_plan = Ok plan"
      "cep_root_scope plan = \<lparr>cfs_entry = lit ''s'', cfs_members = [lit ''j'', lit ''p'', lit ''s'']\<rparr>"
    using example_advanced_plan_Ok by blast
  have "execution_scope plan (cep_root_scope plan)" by (simp add: execution_scope_def)
  then have "scope_closed (cep_nodes plan) (cep_transitions plan) (cfs_entry (cep_root_scope plan))
      (set (cfs_members (cep_root_scope plan)))"
    using plan_scopes_closed [OF plan(1) [unfolded example_advanced_plan_def]] by blast
  then show ?thesis using plan by (intro exI [of _ plan]) simp
qed

text \<open>
  C15. Runs of a plan end. Whatever exit codes its steps produce, a run through an execution scope, the
  root or a graph-valued split branch, from the scope's entry stays within the scope's members and
  never meets a node twice, so it visits at most as many nodes as the scope has.
\<close>

theorem flow_runs_end:
  assumes "flow_compile to_vec from_slice sha256 g job revision = Ok plan" and "execution_scope plan s"
    and "path \<noteq> []" and "hd path = cfs_entry s"
    and "\<forall>k. Suc k < length path \<longrightarrow> run_step plan (path ! k) (path ! Suc k)"
  shows "distinct path \<and> set path \<subseteq> set (cfs_members s) \<and> length path \<le> length (cfs_members s)"
proof -
  let ?E = "flow_edge (cep_nodes plan) (cep_transitions plan)" and ?M = "set (cfs_members s)"
  have closed: "scope_closed (cep_nodes plan) (cep_transitions plan) (cfs_entry s) ?M"
    using flow_compile_scopes(1) [OF assms(1,2)] .
  have links: "\<forall>k. Suc k < length path \<longrightarrow> (path ! k, path ! Suc k) \<in> ?E"
    using assms(5) run_step_edge by blast
  have in_M: "path ! k \<in> ?M" if "k < length path" for k
    using that
  proof (induction k)
    case 0
    then show ?case using assms(3,4) closed by (simp add: hd_conv_nth scope_closed_def)
  next
    case (Suc k)
    then have "path ! k \<in> ?M" "path ! Suc k \<in> set (flow_successors (cep_nodes plan) (cep_transitions plan) (path ! k))"
      using links by (auto simp: flow_edge_def)
    then show ?case using closed unfolding scope_closed_def by blast
  qed
  have "path ! a \<noteq> path ! b" if "a < b" "b < length path" for a b
  proof
    assume "path ! a = path ! b"
    with path_trancl [OF links that] have "(path ! b, path ! b) \<in> ?E\<^sup>+" by simp
    with in_M [OF that(2)] closed show False by (auto simp: scope_closed_def)
  qed
  then have dist: "distinct path" by (metis distinct_conv_nth linorder_neqE_nat)
  moreover have sub: "set path \<subseteq> ?M" using in_M by (auto simp: in_set_conv_nth)
  moreover have "card (set path) \<le> card ?M" by (intro card_mono sub) simp
  then have "length path \<le> length (cfs_members s)"
    using dist by (simp add: distinct_card le_trans [OF _ card_length])
  ultimately show ?thesis by blast
qed

text \<open>In the example the nested step hands over to the split.\<close>

theorem flow_runs_end_witness:
  "\<exists>plan. example_advanced_plan = Ok plan
     \<and> set [lit ''s'', lit ''p''] \<subseteq> set (cfs_members (cep_root_scope plan))"
proof -
  obtain plan where plan: "example_advanced_plan = Ok plan" "cfs_entry (cep_root_scope plan) = lit ''s''"
      "bt_get (cep_transitions plan) (lit ''s'') = Some [example_edge ''s'' ''*'' (TargetNode (lit ''p''))]"
    using example_advanced_plan_Ok by fastforce
  have "select_target plan (lit ''s'') (lit ''DONE'') = Ok (TargetNode (lit ''p''))"
    using plan(3) by (simp add: select_target_def example_edge_def example_match)
  then have "run_step plan (lit ''s'') (lit ''p'')" by (auto simp: run_step_def)
  then show ?thesis
    using flow_runs_end [OF plan(1) [unfolded example_advanced_plan_def], of "cep_root_scope plan" "[lit ''s'', lit ''p'']"]
      plan by (auto simp: execution_scope_def)
qed

end
