(* ===== verification/Flow_Readable.thy ===== *)
theory Flow_Readable
  imports Flow_Advanced_Correct
begin

text \<open>
  Whether the manifests the compiler writes can be read back: the reader of \<^verbatim>\<open>definition.rs\<close> does not
  know the node kind of a custom leaf.
\<close>

lemma try_fold_element:
  "try_fold f xs s = Ok t \<Longrightarrow> x \<in> set xs \<Longrightarrow> \<exists>a b. f x a = Ok b"
  by (induction xs arbitrary: s) auto

lemma count_node_kind:
  assumes "json_get node ''kind'' = Some (json_literal ''custom_leaf'')"
  shows "count_node node s \<noteq> Ok t"
proof -
  obtain members where "as_object node = Some members" "member_get members ''kind'' = Some (json_literal ''custom_leaf'')"
    using assms by (cases node) (auto simp: json_get_def member_get_def)
  then show ?thesis
    by (cases s) (simp add: count_node_def require_object_def Let_def)
qed

lemma advanced_manifest_get:
  "json_get (advanced_manifest c job root m inc) ''nodes'' = Some (JArray (map snd (advanced_manifest_nodes c m)))"
  "json_get (advanced_manifest c job root m inc) ''format'' = Some (json_unsigned MANIFEST_FORMAT_ADVANCED_FLOW)"
  by (simp_all add: advanced_manifest_def Let_def split: option.split)

lemma read_advanced_nodes:
  assumes "definition_manifest_read to_vec from_slice sha256 bytes = Ok m" and "from_slice bytes = Some document"
    and "json_get document ''format'' = Some (json_unsigned MANIFEST_FORMAT_ADVANCED_FLOW)"
    and "json_get document ''nodes'' = Some (JArray nodes)" and "node \<in> set nodes"
  shows "\<exists>s t. count_node node s = Ok t"
proof -
  obtain members where parts: "as_object document = Some members"
      "and_then (member_get members ''format'') as_u64 = Some (ucast (dm_format m))"
      "read_graph_counts document members (dm_format m) = Ok (dm_node_count m, dm_transition_count m)"
    using read_Ok_parts [OF assms(1)] assms(2) by auto
  have get: "member_get members k = json_get document k" for k
    using parts(1) by (cases document) (simp_all add: json_get_def member_get_def)
  have "(ucast (dm_format m) :: u64) = ucast MANIFEST_FORMAT_ADVANCED_FLOW"
    using parts(2) assms(3) by (simp add: get)
  then have "dm_format m = MANIFEST_FORMAT_ADVANCED_FLOW" by (simp add: ucast_u64_inject)
  with parts(3) obtain r where "advanced_graph_counts members = Ok r"
    by (auto simp: read_graph_counts_def manifest_formats)
  then have "\<exists>n. try_fold count_node nodes (length nodes, n) = Ok r"
    using assms(4) by (auto simp: advanced_graph_counts_def get_array_def get)
  then obtain n where "try_fold count_node nodes (length nodes, n) = Ok r" ..
  from try_fold_element [OF this assms(5)] show ?thesis .
qed

text \<open>Nested owners replace only their own entries among the node values.\<close>

lemma fold_nested_get:
  "i \<notin> fst ` set rs \<Longrightarrow>
   bt_get (fold (\<lambda>(owner, record). bt_insert owner (nested_manifest owner record)) rs m) i = bt_get m i"
  by (induction rs arbitrary: m) (auto simp: bt_get_insert)

lemma advanced_manifest_nodes_get:
  assumes "i \<notin> fst ` set (ac_nested_records c)"
  shows "bt_get (advanced_manifest_nodes c m) i =
    map_option (advanced_node_manifest (ac_split_branch_scopes c) (bt_get m i)) (bt_get (ac_nodes c) i)"
proof -
  have "bt_get (map (\<lambda>(i, node). (i, f i node)) ns) i = map_option (f i) (bt_get ns i)"
    for f :: "node_id \<Rightarrow> flow_node \<Rightarrow> json" and ns
    by (induction ns) (auto simp: bt_get_def)
  then show ?thesis using assms by (simp add: advanced_manifest_nodes_def fold_nested_get)
qed

lemma custom_leaf_kind:
  "json_get (advanced_node_manifest scopes sq (FnCustomLeaf leaf)) ''kind'' = Some (json_literal ''custom_leaf'')"
  by (simp add: advanced_node_manifest_def advanced_node_value_def custom_leaf_manifest_value_def Let_def
      split: option.split)


text \<open>One custom leaf that completes the job, with a codec for just its manifest.\<close>

definition example_custom_leaf :: custom_leaf_node where
  "example_custom_leaf =
     \<lparr>cln_id = lit ''a'', cln_step_name = lit ''a'', cln_kind = lit ''k'',
      cln_handler_revision = lit ''r'', cln_state_schema_id = lit ''s'', cln_state_schema_version = 1,
      cln_start = start_controls_default, cln_fault = None, cln_listeners = []\<rparr>"

definition example_leaf_plan_graph :: flow_graph where
  "example_leaf_plan_graph = FlowGraph (Some (lit ''a'')) [FnCustomLeaf example_custom_leaf]
     [example_edge ''a'' ''*'' (TargetTerminal TkComplete)] [] [] None RpRestartable"

lemma example_leaf_scope:
  "map_sum id (\<lambda>(s, c). (ac_nodes c, length (ac_transitions c), ac_nested_records c))
     (compile_scope 1 example_leaf_plan_graph advanced_compiler_default) =
   Ok ([(lit ''a'', FnCustomLeaf example_custom_leaf)], 1, [])"
  by code_simp

lemma is_object_advanced_manifest: "is_object (advanced_manifest c job root m inc)"
  by (simp add: advanced_manifest_def Let_def split: option.split)


end
