(* ===== verification/Unit_Of_Work.thy ===== *)
theory Unit_Of_Work
  imports Batch_Prelude
begin

text \<open>
  Units of work on a store with a revision.  A unit stages a copy of the committed state, operations
  change the copy, and a commit installs it only when the committed revision still is the one the unit
  began from.  Any number of units are open at once; an operation that fails abandons its unit.  The
  theory says what such a store gives: every state an interleaving of units reaches is one that running
  whole units one after the other reaches.
\<close>

section \<open>Interleaved and serial runs\<close>

fun run_all :: "('op \<Rightarrow> 'u \<Rightarrow> ('e + unit) \<times> 'u) \<Rightarrow> 'op list \<Rightarrow> 'u \<Rightarrow> ('e + unit) \<times> 'u" where
  "run_all run [] u = (Ok (), u)"
| "run_all run (x # xs) u = (case run x u of (Ok _, u') \<Rightarrow> run_all run xs u' | (Err e, u') \<Rightarrow> (Err e, u'))"

lemma run_all_snoc:
  "run_all run xs u = (Ok (), u') \<Longrightarrow> run x u' = (Ok (), u'') \<Longrightarrow> run_all run (xs @ [x]) u = (Ok (), u'')"
  by (induction xs arbitrary: u) (auto split: prod.splits sum.splits)

text \<open>The open units are numbered; a step of one of them leaves the others as they are.\<close>

inductive interleaved ::
  "('r \<Rightarrow> 'u) \<Rightarrow> ('op \<Rightarrow> 'u \<Rightarrow> ('e + unit) \<times> 'u) \<Rightarrow> ('u \<Rightarrow> 'r \<Rightarrow> ('e + unit) \<times> 'r) \<Rightarrow> 'r
   \<Rightarrow> 'r \<Rightarrow> (nat \<rightharpoonup> 'u) \<Rightarrow> bool"
  for begin_unit run commit r0 where
    initially: "interleaved begin_unit run commit r0 r0 Map.empty"
  | begins: "interleaved begin_unit run commit r0 r us \<Longrightarrow> us n = None \<Longrightarrow>
      interleaved begin_unit run commit r0 r (us(n \<mapsto> begin_unit r))"
  | operates: "interleaved begin_unit run commit r0 r us \<Longrightarrow> us n = Some u \<Longrightarrow> run x u = (Ok (), u') \<Longrightarrow>
      interleaved begin_unit run commit r0 r (us(n \<mapsto> u'))"
  | fails: "interleaved begin_unit run commit r0 r us \<Longrightarrow> us n = Some u \<Longrightarrow> run x u = (Err e, u') \<Longrightarrow>
      interleaved begin_unit run commit r0 r (us(n := None))"
  | rolls_back: "interleaved begin_unit run commit r0 r us \<Longrightarrow> us n = Some u \<Longrightarrow>
      interleaved begin_unit run commit r0 r (us(n := None))"
  | commits: "interleaved begin_unit run commit r0 r us \<Longrightarrow> us n = Some u \<Longrightarrow> commit u r = (res, r') \<Longrightarrow>
      interleaved begin_unit run commit r0 r' (us(n := None))"

text \<open>One unit at a time: begin, operate without an error, commit.\<close>

inductive serial ::
  "('r \<Rightarrow> 'u) \<Rightarrow> ('op \<Rightarrow> 'u \<Rightarrow> ('e + unit) \<times> 'u) \<Rightarrow> ('u \<Rightarrow> 'r \<Rightarrow> ('e + unit) \<times> 'r) \<Rightarrow> 'r \<Rightarrow> 'r \<Rightarrow> bool"
  for begin_unit run commit r0 where
    serial_initially: "serial begin_unit run commit r0 r0"
  | serial_unit: "serial begin_unit run commit r0 r \<Longrightarrow> run_all run xs (begin_unit r) = (Ok (), u) \<Longrightarrow>
      commit u r = (res, r') \<Longrightarrow> serial begin_unit run commit r0 r'"

lemma operates_all:
  assumes "interleaved begin_unit run commit r0 r us" and "us n = Some u" and "run_all run xs u = (Ok (), u')"
  shows "interleaved begin_unit run commit r0 r (us(n \<mapsto> u'))"
  using assms
proof (induction xs arbitrary: us u)
  case Nil
  then have "us(n \<mapsto> u') = us" by auto
  with Nil show ?case by simp
next
  case (Cons x xs)
  from Cons.prems(3) obtain v where v: "run x u = (Ok (), v)" "run_all run xs v = (Ok (), u')"
    by (auto split: prod.splits sum.splits)
  have "(us(n \<mapsto> v)) n = Some v" by simp
  from Cons.IH [OF operates [OF Cons.prems(1,2) v(1)] this v(2)] show ?case by (simp only: fun_upd_upd)
qed

section \<open>Stores with a revision\<close>

locale revision_store =
  fixes begin_unit :: "'r \<Rightarrow> 'u"
    and run :: "'op \<Rightarrow> 'u \<Rightarrow> ('e + unit) \<times> 'u"
    and commit :: "'u \<Rightarrow> 'r \<Rightarrow> ('e + unit) \<times> 'r"
    and revision :: "'r \<Rightarrow> u64"
    and base :: "'u \<Rightarrow> u64"
  assumes begin_base: "base (begin_unit r) = revision r"
    and run_base: "run x u = (Ok (), u') \<Longrightarrow> base u' = base u"
    and commit_current: "commit u r = (res, r') \<Longrightarrow> r' = r \<or> base u = revision r \<and> revision r < revision r'"
begin

text \<open>A unit whose base is the committed revision has run on the committed state itself.\<close>

lemma unit_is_current:
  assumes "interleaved begin_unit run commit r0 r us"
  shows "us n = Some u \<Longrightarrow>
    base u \<le> revision r \<and> (base u = revision r \<longrightarrow> (\<exists>xs. run_all run xs (begin_unit r) = (Ok (), u)))"
  using assms
proof (induction arbitrary: n u rule: interleaved.induct)
  case (begins r us m)
  then show ?case by (cases "n = m") (auto simp: begin_base intro: exI [of _ "[]"])
next
  case (operates r us m v x v')
  show ?case
  proof (cases "n = m")
    case True
    with operates have u: "u = v'" and v: "base v \<le> revision r"
        "base v = revision r \<longrightarrow> (\<exists>xs. run_all run xs (begin_unit r) = (Ok (), v))"
      by auto
    with operates(3) show ?thesis by (metis run_all_snoc run_base)
  next
    case False
    with operates show ?thesis by simp
  qed
next
  case (commits r us m v res r')
  then have "n \<noteq> m" "us n = Some u" by (auto split: if_splits)
  with commits.IH have u: "base u \<le> revision r"
      "base u = revision r \<longrightarrow> (\<exists>xs. run_all run xs (begin_unit r) = (Ok (), u))" by blast+
  from commit_current [OF commits(3)] show ?case using u by auto
qed (auto split: if_splits)

theorem interleaved_serial:
  "interleaved begin_unit run commit r0 r us \<Longrightarrow> serial begin_unit run commit r0 r"
proof (induction rule: interleaved.induct)
  case (commits r us n u res r')
  show ?case
  proof (cases "r' = r")
    case False
    with commit_current [OF commits(3)] have "base u = revision r" by simp
    with unit_is_current [OF commits(1,2)] obtain xs where "run_all run xs (begin_unit r) = (Ok (), u)" by blast
    from serial_unit [OF commits.IH this commits(3)] show ?thesis .
  qed (use commits in simp)
qed (auto intro: serial_initially)

text \<open>Two units that begin on the same committed state are not both installed.\<close>

lemma no_lost_commit:
  assumes "commit u r = (res, r')" and "r' \<noteq> r" and "base v = base u"
  shows "snd (commit v r') = r'"
proof -
  from commit_current [OF assms(1)] assms(2,3) have "base v < revision r'" by simp
  then have "base v \<noteq> revision r'" by simp
  with commit_current show ?thesis by (metis surjective_pairing)
qed

end

text \<open>What every whole unit keeps holds in every state a serial run reaches.\<close>

lemma serial_invariant:
  assumes "serial begin_unit run commit r0 r" and "I r0"
    and "\<And>r xs u res r'. I r \<Longrightarrow> run_all run xs (begin_unit r) = (Ok (), u) \<Longrightarrow> commit u r = (res, r') \<Longrightarrow> I r'"
  shows "I r"
  using assms(1,2) by induction (auto intro: assms(3))

lemma run_all_invariant:
  assumes "run_all run xs u = (Ok (), u')" and "J u"
    and "\<And>x u u'. J u \<Longrightarrow> run x u = (Ok (), u') \<Longrightarrow> J u'"
  shows "J u'"
  using assms(1,2) by (induction xs arbitrary: u) (auto split: prod.splits sum.splits intro: assms(3))

end
