(* ===== verification/State_Envelope.thy ===== *)
theory State_Envelope
  imports Repeat_Definition
begin

text \<open>
  Versioned durable state, \<^verbatim>\<open>state.rs\<close> of \<^verbatim>\<open>oxide-batch-core\<close>: schema identifiers and versions, byte and
  depth limits, the framework envelope around a checkpoint or an execution context, and the walk
  along the schema upgrades a codec declares.  A codec is application code behind the trait
  \<^verbatim>\<open>VersionedStateCodec\<close>, a record of functions here.
\<close>

section \<open>Kinds, errors and limits\<close>

definition FORMAT_VERSION_STATE :: u16 where "FORMAT_VERSION_STATE = 1"
definition DEFAULT_MAXIMUM_BYTES :: nat where "DEFAULT_MAXIMUM_BYTES = 64 * 1024"
definition DEFAULT_MAXIMUM_DEPTH :: nat where "DEFAULT_MAXIMUM_DEPTH = 16"
definition MAXIMUM_BYTES :: nat where "MAXIMUM_BYTES = 1024 * 1024"
definition MAXIMUM_DEPTH :: nat where "MAXIMUM_DEPTH = 64"
definition MAX_UPGRADE_CHAIN :: nat where "MAX_UPGRADE_CHAIN = 64"

datatype durable_state_kind = KindCheckpoint | KindExecutionContext | KindComponentState

fun durable_state_format :: "durable_state_kind \<Rightarrow> string" where
  "durable_state_format KindCheckpoint = ''oxide-batch.checkpoint''"
| "durable_state_format KindExecutionContext = ''oxide-batch.execution-context''"
| "durable_state_format KindComponentState = ''oxide-batch.component-state''"

datatype state_codec_error = CodecInvalidPayload | CodecUnsupportedSchemaVersion

datatype state_error =
    EmptySchemaId
  | SchemaIdTooLong nat
  | SchemaIdHasSurroundingWhitespace
  | SchemaIdContainsControl
  | ZeroSchemaVersion
  | InvalidByteLimit nat
  | InvalidDepthLimit nat
  | StateTooLarge durable_state_kind nat
  | StateTooDeep durable_state_kind nat
  | StateMalformed durable_state_kind
  | StateFormatMismatch durable_state_kind
  | UnsupportedFormatVersion durable_state_kind u16
  | SchemaMismatch durable_state_kind
  | NonIncreasingUpgrade state_schema_version state_schema_version
  | NoUpgradePath durable_state_kind state_schema_version state_schema_version
  | AmbiguousUpgrade durable_state_kind state_schema_version
  | UpgradeOvershootsCurrent durable_state_kind state_schema_version state_schema_version
  | UpgradeChainTooLong durable_state_kind nat
  | UpgradeProducedInvalidJson durable_state_kind
  | UnsupportedSchemaVersion durable_state_kind state_schema_version state_schema_version
  | InvalidPayload
  | PayloadNotObject
  | StateCodec state_codec_error

definition state_schema_id_new :: "rstr \<Rightarrow> state_error + state_schema_id" where
  "state_schema_id_new v =
     (if v = [] then Err EmptySchemaId
      else if str_len v > MAX_SCHEMA_ID_BYTES then Err (SchemaIdTooLong MAX_SCHEMA_ID_BYTES)
      else if trim v \<noteq> v then Err SchemaIdHasSurroundingWhitespace
      else if list_ex is_control v then Err SchemaIdContainsControl
      else Ok v)"

definition state_schema_version_new :: "u32 \<Rightarrow> state_error + state_schema_version" where
  "state_schema_version_new n = (if n = 0 then Err ZeroSchemaVersion else Ok n)"

record state_limits =
  sl_maximum_bytes :: nat
  sl_maximum_depth :: nat

definition state_limits_new :: "nat \<Rightarrow> nat \<Rightarrow> state_error + state_limits" where
  "state_limits_new maximum_bytes maximum_depth =
     (if maximum_bytes = 0 \<or> maximum_bytes > MAXIMUM_BYTES then Err (InvalidByteLimit MAXIMUM_BYTES)
      else if maximum_depth = 0 \<or> maximum_depth > MAXIMUM_DEPTH then Err (InvalidDepthLimit MAXIMUM_DEPTH)
      else Ok \<lparr>sl_maximum_bytes = maximum_bytes, sl_maximum_depth = maximum_depth\<rparr>)"

definition state_limits_default :: state_limits where
  "state_limits_default =
     \<lparr>sl_maximum_bytes = DEFAULT_MAXIMUM_BYTES, sl_maximum_depth = DEFAULT_MAXIMUM_DEPTH\<rparr>"

section \<open>Codecs and upgrades\<close>

record state_schema_upgrade =
  su_from :: state_schema_version
  su_to :: state_schema_version
  su_apply :: "u8 list \<Rightarrow> state_codec_error + u8 list"

definition state_schema_upgrade_new ::
  "state_schema_version \<Rightarrow> state_schema_version \<Rightarrow> (u8 list \<Rightarrow> state_codec_error + u8 list)
   \<Rightarrow> state_error + state_schema_upgrade" where
  "state_schema_upgrade_new from to apply =
     (if to \<le> from then Err (NonIncreasingUpgrade from to)
      else Ok \<lparr>su_from = from, su_to = to, su_apply = apply\<rparr>)"

record 'a state_codec =
  sco_schema_id :: state_schema_id
  sco_current_version :: state_schema_version
  sco_upgrades :: "state_schema_upgrade list"
  sco_encode :: "'a \<Rightarrow> state_codec_error + u8 list"
  sco_decode :: "u8 list \<Rightarrow> state_codec_error + 'a"

fun json_depth :: "json \<Rightarrow> nat" where
  "json_depth (JArray values) = 1 + fold max (map json_depth values) 0"
| "json_depth (JObject members) = 1 + fold max (map (\<lambda>(k, v). json_depth v) members) 0"
| "json_depth _ = 1"

definition check_upgraded :: "from_slice \<Rightarrow> durable_state_kind \<Rightarrow> u8 list \<Rightarrow> state_error + unit" where
  "check_upgraded from_slice kind payload =
     (if length payload > MAXIMUM_BYTES then Err (StateTooLarge kind MAXIMUM_BYTES)
      else res_bind (ok_or (from_slice payload) (UpgradeProducedInvalidJson kind)) (\<lambda>value.
        if \<not> is_object value then Err PayloadNotObject
        else if json_depth value > MAXIMUM_DEPTH then Err (StateTooDeep kind MAXIMUM_DEPTH)
        else Ok ()))"

text \<open>
  The loop of \<^verbatim>\<open>upgrade_schema_chain\<close>, with the number of upgrades applied so far.  \<^verbatim>\<open>edges.next()\<close>
  twice asks whether exactly one declared edge leaves the version.
\<close>

function upgrade_loop ::
  "from_slice \<Rightarrow> durable_state_kind \<Rightarrow> state_schema_version \<Rightarrow> state_schema_upgrade list
   \<Rightarrow> state_schema_version \<Rightarrow> nat \<Rightarrow> u8 list \<Rightarrow> state_error + u8 list" where
  "upgrade_loop from_slice kind current upgrades version applied payload =
     (if \<not> version < current then Ok payload
      else (case filter (\<lambda>u. su_from u = version) upgrades of
          [] \<Rightarrow> Err (NoUpgradePath kind version current)
        | edge # others \<Rightarrow>
            if others \<noteq> [] then Err (AmbiguousUpgrade kind version)
            else if su_to edge > current then Err (UpgradeOvershootsCurrent kind (su_to edge) current)
            else if applied + 1 > MAX_UPGRADE_CHAIN then Err (UpgradeChainTooLong kind MAX_UPGRADE_CHAIN)
            else
              res_bind (map_err StateCodec (su_apply edge payload)) (\<lambda>payload.
              res_bind (check_upgraded from_slice kind payload) (\<lambda>_.
              upgrade_loop from_slice kind current upgrades (su_to edge) (applied + 1) payload))))"
  by pat_completeness auto

termination upgrade_loop
  by (relation "measure (\<lambda>(f, k, c, us, v, applied, p). MAX_UPGRADE_CHAIN - applied)") auto

declare upgrade_loop.simps [simp del]

definition upgrade_schema_chain ::
  "from_slice \<Rightarrow> durable_state_kind \<Rightarrow> state_schema_version \<Rightarrow> 'a state_codec \<Rightarrow> u8 list
   \<Rightarrow> state_error + u8 list" where
  "upgrade_schema_chain from_slice kind recorded codec payload =
     upgrade_loop from_slice kind (sco_current_version codec) (sco_upgrades codec) recorded 0 payload"

section \<open>Envelopes\<close>

record versioned_state =
  vs_schema_id :: state_schema_id
  vs_schema_version :: state_schema_version
  vs_payload :: json
  vs_encoded_bytes :: nat

definition state_envelope ::
  "durable_state_kind \<Rightarrow> state_schema_id \<Rightarrow> state_schema_version \<Rightarrow> json \<Rightarrow> json" where
  "state_envelope kind schema_id schema_version payload =
     json_object
       [(''format'', json_literal (durable_state_format kind)),
        (''format_version'', json_unsigned FORMAT_VERSION_STATE),
        (''schema'', json_string schema_id),
        (''schema_version'', json_unsigned schema_version),
        (''payload'', payload)]"

definition state_from_parts ::
  "to_vec \<Rightarrow> durable_state_kind \<Rightarrow> state_schema_id \<Rightarrow> state_schema_version \<Rightarrow> json \<Rightarrow> state_limits
   \<Rightarrow> state_error + versioned_state" where
  "state_from_parts to_vec kind schema_id schema_version payload limits =
     (let envelope = state_envelope kind schema_id schema_version payload in
      res_bind (ok_or (to_vec envelope) (StateMalformed kind)) (\<lambda>bytes.
      if length bytes > sl_maximum_bytes limits then Err (StateTooLarge kind (sl_maximum_bytes limits))
      else if json_depth envelope > sl_maximum_depth limits
      then Err (StateTooDeep kind (sl_maximum_depth limits))
      else Ok \<lparr>vs_schema_id = schema_id, vs_schema_version = schema_version, vs_payload = payload,
               vs_encoded_bytes = length bytes\<rparr>))"

definition state_encode ::
  "to_vec \<Rightarrow> from_slice \<Rightarrow> durable_state_kind \<Rightarrow> 'a \<Rightarrow> 'a state_codec \<Rightarrow> state_limits
   \<Rightarrow> state_error + versioned_state" where
  "state_encode to_vec from_slice kind value codec limits =
     res_bind (map_err StateCodec (sco_encode codec value)) (\<lambda>payload_bytes.
     res_bind (ok_or (from_slice payload_bytes) InvalidPayload) (\<lambda>payload.
     if \<not> is_object payload then Err PayloadNotObject
     else state_from_parts to_vec kind (sco_schema_id codec) (sco_current_version codec) payload limits))"

definition from_transformed_payload ::
  "to_vec \<Rightarrow> from_slice \<Rightarrow> durable_state_kind \<Rightarrow> state_schema_id \<Rightarrow> state_schema_version \<Rightarrow> u8 list
   \<Rightarrow> state_limits \<Rightarrow> state_error + versioned_state" where
  "from_transformed_payload to_vec from_slice kind schema_id schema_version payload limits =
     res_bind (ok_or (from_slice payload) InvalidPayload) (\<lambda>payload.
     if \<not> is_object payload then Err PayloadNotObject
     else state_from_parts to_vec kind schema_id schema_version payload limits)"

definition state_from_json ::
  "from_slice \<Rightarrow> durable_state_kind \<Rightarrow> u8 list \<Rightarrow> state_limits \<Rightarrow> state_error + versioned_state" where
  "state_from_json from_slice kind bytes limits =
     (if length bytes > sl_maximum_bytes limits then Err (StateTooLarge kind (sl_maximum_bytes limits))
      else
        res_bind (ok_or (from_slice bytes) (StateMalformed kind)) (\<lambda>value.
        if json_depth value > sl_maximum_depth limits then Err (StateTooDeep kind (sl_maximum_depth limits))
        else
          res_bind (ok_or (as_object value) (StateMalformed kind)) (\<lambda>object.
          res_bind (ok_or (and_then (member_get object ''format'') as_str) (StateMalformed kind)) (\<lambda>format.
          if format \<noteq> lit (durable_state_format kind) then Err (StateFormatMismatch kind)
          else
            res_bind (ok_or (and_then (and_then (member_get object ''format_version'') as_u64) try_from_u64)
                        (StateMalformed kind)) (\<lambda>format_version.
            if format_version \<noteq> FORMAT_VERSION_STATE then Err (UnsupportedFormatVersion kind format_version)
            else
              res_bind (ok_or (and_then (member_get object ''schema'') as_str) (StateMalformed kind)) (\<lambda>schema_id.
              res_bind (state_schema_id_new schema_id) (\<lambda>schema_id.
              res_bind (ok_or (and_then (and_then (member_get object ''schema_version'') as_u64) try_from_u64)
                          (StateMalformed kind)) (\<lambda>schema_version.
              res_bind (state_schema_version_new schema_version) (\<lambda>schema_version.
              res_bind (ok_or (member_get object ''payload'') (StateMalformed kind)) (\<lambda>payload.
              if \<not> is_object payload then Err PayloadNotObject
              else Ok \<lparr>vs_schema_id = schema_id, vs_schema_version = schema_version, vs_payload = payload,
                       vs_encoded_bytes = length bytes\<rparr>))))))))))"

definition state_decode ::
  "to_vec \<Rightarrow> from_slice \<Rightarrow> durable_state_kind \<Rightarrow> versioned_state \<Rightarrow> 'a state_codec \<Rightarrow> state_error + 'a" where
  "state_decode to_vec from_slice kind s codec =
     (if vs_schema_id s \<noteq> sco_schema_id codec then Err (SchemaMismatch kind)
      else if vs_schema_version s > sco_current_version codec
      then Err (UnsupportedSchemaVersion kind (vs_schema_version s) (sco_current_version codec))
      else
        res_bind (ok_or (to_vec (vs_payload s)) (StateMalformed kind)) (\<lambda>payload.
        res_bind (upgrade_schema_chain from_slice kind (vs_schema_version s) codec payload) (\<lambda>payload.
        map_err StateCodec (sco_decode codec payload))))"

definition state_to_json ::
  "to_vec \<Rightarrow> durable_state_kind \<Rightarrow> versioned_state \<Rightarrow> state_error + u8 list" where
  "state_to_json to_vec kind s =
     ok_or (to_vec (state_envelope kind (vs_schema_id s) (vs_schema_version s) (vs_payload s)))
       (StateMalformed kind)"

definition state_payload_json ::
  "to_vec \<Rightarrow> durable_state_kind \<Rightarrow> versioned_state \<Rightarrow> state_error + u8 list" where
  "state_payload_json to_vec kind s = ok_or (to_vec (vs_payload s)) (StateMalformed kind)"

type_synonym checkpoint = versioned_state
type_synonym execution_context = versioned_state

definition generation_digest :: "to_vec \<Rightarrow> sha256 \<Rightarrow> checkpoint \<Rightarrow> digest" where
  "generation_digest to_vec sha256 s =
     (case state_to_json to_vec KindCheckpoint s of
        Err _ \<Rightarrow> replicate 32 0
      | Ok bytes \<Rightarrow> sha256 bytes)"

section \<open>The upgrade chain\<close>

text \<open>
  The chain a codec declares from a recorded version: at each version below the current one exactly
  one declared upgrade leaves it, and it does not overshoot.
\<close>

fun upgrade_path ::
  "state_schema_version \<Rightarrow> state_schema_upgrade list \<Rightarrow> state_schema_version \<Rightarrow> state_schema_upgrade list
   \<Rightarrow> bool" where
  "upgrade_path current upgrades version [] \<longleftrightarrow> \<not> version < current"
| "upgrade_path current upgrades version (e # es) \<longleftrightarrow>
     version < current \<and> filter (\<lambda>u. su_from u = version) upgrades = [e] \<and> su_to e \<le> current
     \<and> upgrade_path current upgrades (su_to e) es"

fun apply_upgrades ::
  "from_slice \<Rightarrow> durable_state_kind \<Rightarrow> state_schema_upgrade list \<Rightarrow> u8 list \<Rightarrow> state_error + u8 list" where
  "apply_upgrades from_slice kind [] payload = Ok payload"
| "apply_upgrades from_slice kind (e # es) payload =
     res_bind (map_err StateCodec (su_apply e payload)) (\<lambda>payload.
     res_bind (check_upgraded from_slice kind payload) (\<lambda>_. apply_upgrades from_slice kind es payload))"

lemma upgrade_loop_Ok:
  "upgrade_loop from_slice kind current upgrades version applied payload = Ok q \<longleftrightarrow>
   (\<exists>es. upgrade_path current upgrades version es \<and> (es = [] \<or> applied + length es \<le> MAX_UPGRADE_CHAIN)
      \<and> apply_upgrades from_slice kind es payload = Ok q)"
proof (induction from_slice kind current upgrades version applied payload rule: upgrade_loop.induct)
  case (1 from_slice kind current upgrades version applied payload)
  show ?case
  proof (cases "version < current")
    case False
    have "upgrade_path current upgrades version es \<longleftrightarrow> es = []" for es using False by (cases es) auto
    with False show ?thesis by (auto simp: upgrade_loop.simps)
  next
    case True
    show ?thesis
    proof (cases "\<exists>e. filter (\<lambda>u. su_from u = version) upgrades = [e] \<and> su_to e \<le> current \<and> applied + 1 \<le> MAX_UPGRADE_CHAIN")
      case False
      have "\<not> (upgrade_path current upgrades version es \<and> (es = [] \<or> applied + length es \<le> MAX_UPGRADE_CHAIN))" for es
        using True False by (cases es) auto
      moreover have "upgrade_loop from_slice kind current upgrades version applied payload \<noteq> Ok q"
        using True False by (auto simp: upgrade_loop.simps [of _ _ _ _ version] not_le split: list.splits)
      ultimately show ?thesis by blast
    next
      case True': True
      then obtain e where e: "filter (\<lambda>u. su_from u = version) upgrades = [e]" "su_to e \<le> current"
          "applied + 1 \<le> MAX_UPGRADE_CHAIN" by blast
      have loop: "upgrade_loop from_slice kind current upgrades version applied payload =
          res_bind (map_err StateCodec (su_apply e payload)) (\<lambda>payload.
          res_bind (check_upgraded from_slice kind payload) (\<lambda>_.
          upgrade_loop from_slice kind current upgrades (su_to e) (applied + 1) payload))"
        using True e by (simp add: upgrade_loop.simps [of _ _ _ _ version] leD)
      have IH: "upgrade_loop from_slice kind current upgrades (su_to e) (applied + 1) x = Ok q \<longleftrightarrow>
          (\<exists>es. upgrade_path current upgrades (su_to e) es \<and> (es = [] \<or> applied + 1 + length es \<le> MAX_UPGRADE_CHAIN)
            \<and> apply_upgrades from_slice kind es x = Ok q)"
        if "map_err StateCodec (su_apply e payload) = Ok x" "check_upgraded from_slice kind x = Ok u" for x u
        using 1 [of e "[]" x u] True e that by (simp add: leD)
      show ?thesis (is "?run \<longleftrightarrow> (\<exists>es. ?ok es)")
      proof
        assume ?run
        then obtain x u where x: "map_err StateCodec (su_apply e payload) = Ok x" "check_upgraded from_slice kind x = Ok u"
            "upgrade_loop from_slice kind current upgrades (su_to e) (applied + 1) x = Ok q"
          unfolding loop by auto
        then obtain es where "upgrade_path current upgrades (su_to e) es"
            "es = [] \<or> applied + 1 + length es \<le> MAX_UPGRADE_CHAIN" "apply_upgrades from_slice kind es x = Ok q"
          using IH by blast
        with x e True have "?ok (e # es)" by auto
        then show "\<exists>es. ?ok es" ..
      next
        assume "\<exists>es. ?ok es"
        then obtain es where es: "?ok es" ..
        then obtain fs where fs: "es = e # fs" "upgrade_path current upgrades (su_to e) fs"
          using True e by (cases es) auto
        with es obtain x u where x: "map_err StateCodec (su_apply e payload) = Ok x" "check_upgraded from_slice kind x = Ok u"
            "apply_upgrades from_slice kind fs x = Ok q"
          by auto
        moreover have "upgrade_loop from_slice kind current upgrades (su_to e) (applied + 1) x = Ok q"
          unfolding IH [OF x(1,2)] using fs es x(3) by auto
        ultimately show ?run unfolding loop by simp
      qed
    qed
  qed
qed

lemma upgrade_path_unique:
  "upgrade_path current upgrades version es \<Longrightarrow> upgrade_path current upgrades version fs \<Longrightarrow> es = fs"
proof (induction es arbitrary: version fs)
  case Nil
  then show ?case by (cases fs) auto
next
  case (Cons e es)
  then show ?case by (cases fs) auto
qed

lemma filter_singleton_mset: "mset us = mset vs \<Longrightarrow> filter P us = [e] \<longleftrightarrow> filter P vs = [e]"
  by (metis mset_filter mset_single_iff_right)

lemma upgrade_path_mset:
  "mset us = mset vs \<Longrightarrow> upgrade_path current us version es \<longleftrightarrow> upgrade_path current vs version es"
  by (induction es arbitrary: version) (auto simp: filter_singleton_mset [of us vs])

lemma upgrade_path_ends:
  "upgrade_path current upgrades version es \<Longrightarrow> version \<le> current \<Longrightarrow> (if es = [] then version else su_to (last es)) = current"
  by (induction es arbitrary: version) (auto split: if_splits)

text \<open>
  C23. Reading an older state applies exactly the chain its codec declares. The walk succeeds exactly
  when a declared chain of at most 64 upgrades leads from the recorded to the current version and
  every upgrade on it produces an acceptable payload; each version on the chain is left by exactly one
  declared upgrade, so the chain is unique, it ends at the current version, and neither the outcome
  nor the payload depends on the order in which the upgrades were declared.
\<close>

theorem upgrade_chain_exact:
  assumes "recorded \<le> sco_current_version codec"
  shows "(\<forall>q. upgrade_schema_chain from_slice kind recorded codec payload = Ok q \<longleftrightarrow>
       (\<exists>es. upgrade_path (sco_current_version codec) (sco_upgrades codec) recorded es
          \<and> length es \<le> MAX_UPGRADE_CHAIN \<and> apply_upgrades from_slice kind es payload = Ok q))
   \<and> (\<forall>es. upgrade_path (sco_current_version codec) (sco_upgrades codec) recorded es \<longrightarrow>
        (if es = [] then recorded else su_to (last es)) = sco_current_version codec
        \<and> (\<forall>fs. upgrade_path (sco_current_version codec) (sco_upgrades codec) recorded fs \<longrightarrow> fs = es))
   \<and> (\<forall>us q. mset us = mset (sco_upgrades codec) \<longrightarrow>
        (upgrade_schema_chain from_slice kind recorded (codec\<lparr>sco_upgrades := us\<rparr>) payload = Ok q \<longleftrightarrow>
         upgrade_schema_chain from_slice kind recorded codec payload = Ok q))"
proof (intro conjI allI impI)
  fix q
  show "upgrade_schema_chain from_slice kind recorded codec payload = Ok q \<longleftrightarrow>
       (\<exists>es. upgrade_path (sco_current_version codec) (sco_upgrades codec) recorded es
          \<and> length es \<le> MAX_UPGRADE_CHAIN \<and> apply_upgrades from_slice kind es payload = Ok q)"
  proof -
    have "es = [] \<or> 0 + length es \<le> MAX_UPGRADE_CHAIN \<longleftrightarrow> length es \<le> MAX_UPGRADE_CHAIN" for es :: "state_schema_upgrade list"
      by (cases es) auto
    then show ?thesis unfolding upgrade_schema_chain_def upgrade_loop_Ok by (simp only:)
  qed
next
  fix es
  assume path: "upgrade_path (sco_current_version codec) (sco_upgrades codec) recorded es"
  then show "(if es = [] then recorded else su_to (last es)) = sco_current_version codec"
    using assms by (rule upgrade_path_ends)
  show "fs = es" if "upgrade_path (sco_current_version codec) (sco_upgrades codec) recorded fs" for fs
    using that path by (rule upgrade_path_unique)
next
  fix us q
  assume "mset us = mset (sco_upgrades codec)"
  then have same: "upgrade_path c us v es = upgrade_path c (sco_upgrades codec) v es" for c v es
    by (rule upgrade_path_mset)
  show "upgrade_schema_chain from_slice kind recorded (codec\<lparr>sco_upgrades := us\<rparr>) payload = Ok q \<longleftrightarrow>
      upgrade_schema_chain from_slice kind recorded codec payload = Ok q"
    unfolding upgrade_schema_chain_def upgrade_loop_Ok by (simp add: same)
qed

text \<open>Two upgrades, declared newest first, that append a byte each.\<close>

definition example_upgrade :: "u32 \<Rightarrow> u8 \<Rightarrow> state_schema_upgrade" where
  "example_upgrade v b = \<lparr>su_from = v, su_to = v + 1, su_apply = \<lambda>p. Ok (p @ [b])\<rparr>"

definition example_codec :: "u8 list state_codec" where
  "example_codec = \<lparr>sco_schema_id = lit ''s'', sco_current_version = 3,
     sco_upgrades = [example_upgrade 2 8, example_upgrade 1 7], sco_encode = Ok, sco_decode = Ok\<rparr>"

theorem upgrade_chain_exact_witness:
  "upgrade_schema_chain (\<lambda>_. Some (JObject [])) KindCheckpoint 1 example_codec [] = Ok [7, 8]"
proof -
  have path: "upgrade_path (sco_current_version example_codec) (sco_upgrades example_codec) 1
      [example_upgrade 1 7, example_upgrade 2 8]"
    by (simp add: example_codec_def example_upgrade_def)
  moreover have "apply_upgrades (\<lambda>_. Some (JObject [])) KindCheckpoint [example_upgrade 1 7, example_upgrade 2 8] [] = Ok [7, 8]"
    by (simp add: example_upgrade_def check_upgraded_def MAXIMUM_BYTES_def MAXIMUM_DEPTH_def is_object_def)
  moreover have "length [example_upgrade 1 7, example_upgrade 2 8] \<le> MAX_UPGRADE_CHAIN"
    by (simp add: MAX_UPGRADE_CHAIN_def)
  ultimately have "\<exists>es. upgrade_path (sco_current_version example_codec) (sco_upgrades example_codec) 1 es
      \<and> length es \<le> MAX_UPGRADE_CHAIN
      \<and> apply_upgrades (\<lambda>_. Some (JObject [])) KindCheckpoint es [] = Ok [7, 8]"
    by blast
  moreover have "(1 :: u32) \<le> sco_current_version example_codec" by (simp add: example_codec_def)
  ultimately show ?thesis
    using upgrade_chain_exact [of 1 example_codec, THEN conjunct1] by blast
qed

section \<open>Round trip of an envelope\<close>

lemma state_schema_id_new_Ok: "state_schema_id_new v = Ok w \<longleftrightarrow> w = v \<and> state_schema_id_valid v"
  by (auto simp: state_schema_id_new_def state_schema_id_valid_def)

lemma contains_float_object:
  assumes "\<forall>(k, v) \<in> set ms. \<not> contains_float v"
  shows "\<not> contains_float (json_object ms)"
proof -
  have "\<forall>(k, v) \<in> set (fold (\<lambda>(k, v). bt_insert k v) es m). \<not> contains_float v"
    if "\<forall>(k, v) \<in> set es. \<not> contains_float v" "\<forall>(k, v) \<in> set m. \<not> contains_float v"
    for es m :: "(rstr \<times> json) list"
    using that
  proof (induction es arbitrary: m)
    case (Cons e es)
    obtain k v where e: "e = (k, v)" by (cases e)
    have "\<forall>(k, v) \<in> set (bt_insert k v m). \<not> contains_float v"
      using Cons.prems set_bt_insert_subset [of k v m] unfolding e by auto
    with Cons show ?case by (simp add: e)
  qed simp
  note no_float = this [of "map (\<lambda>(k, v). (lit k, v)) ms" "[]"]
  have "\<forall>(k, v) \<in> set (object_members ms). \<not> contains_float v"
    unfolding object_members_def bt_collect_def by (rule no_float) (use assms in auto)
  then show ?thesis by (auto simp: json_object_def list_ex_iff)
qed

lemma state_envelope_members:
  "json_get (state_envelope kind schema version payload) ''format'' = Some (json_literal (durable_state_format kind))"
  "json_get (state_envelope kind schema version payload) ''format_version'' = Some (json_unsigned FORMAT_VERSION_STATE)"
  "json_get (state_envelope kind schema version payload) ''schema'' = Some (json_string schema)"
  "json_get (state_envelope kind schema version payload) ''schema_version'' = Some (json_unsigned version)"
  "json_get (state_envelope kind schema version payload) ''payload'' = Some payload"
  by (simp_all add: state_envelope_def)

lemma durable_state_format_inject: "durable_state_format k = durable_state_format l \<longleftrightarrow> k = l"
  by (cases k; cases l) simp_all

lemma state_from_json_envelope:
  assumes "from_slice bytes = Some (state_envelope kind schema version payload)"
    and "length bytes \<le> sl_maximum_bytes limits"
    and "json_depth (state_envelope kind schema version payload) \<le> sl_maximum_depth limits"
  shows "state_from_json from_slice k bytes limits =
    (if k \<noteq> kind then Err (StateFormatMismatch k)
     else res_bind (state_schema_id_new schema) (\<lambda>schema.
       res_bind (state_schema_version_new version) (\<lambda>version.
       if \<not> is_object payload then Err PayloadNotObject
       else Ok \<lparr>vs_schema_id = schema, vs_schema_version = version, vs_payload = payload,
                vs_encoded_bytes = length bytes\<rparr>)))"
proof -
  obtain m where m: "as_object (state_envelope kind schema version payload) = Some m"
    by (simp add: state_envelope_def json_object_def)
  have get: "member_get m f = json_get (state_envelope kind schema version payload) f" for f
    using m by (cases "state_envelope kind schema version payload") (simp_all add: json_get_def member_get_def)
  show ?thesis
    using assms(2,3)
    by (simp add: state_from_json_def assms(1) m get state_envelope_members try_from_u64_ucast
        lit_inject durable_state_format_inject leD)
qed


definition example_schema :: "unit state_codec" where
  "example_schema = \<lparr>sco_schema_id = lit ''s'', sco_current_version = 1, sco_upgrades = [],
     sco_encode = \<lambda>_. Ok [1], sco_decode = \<lambda>_. Ok ()\<rparr>"

definition example_envelope :: json where
  "example_envelope = state_envelope KindCheckpoint (lit ''s'') 1 (JObject [])"

definition example_to_vec :: to_vec where
  "example_to_vec v = (if v = JObject [] then Some [1] else if v = example_envelope then Some [2] else None)"

definition example_from_slice :: from_slice where
  "example_from_slice b = (if b = [1] then Some (JObject []) else if b = [2] then Some example_envelope else None)"


end
