(* ===== verification/Partition.thy ===== *)
theory Partition
  imports Fault_State State_Envelope Manifest_Reader
begin

text \<open>
  Durable partitions of a step, \<^verbatim>\<open>partition.rs\<close> of \<^verbatim>\<open>oxide-batch-repository\<close>: partition keys and plan
  entries, the versioned row of one partition with its two mutations, terminal worker results, and
  the aggregation of a complete plan into the result of the partitioned step.  \<^verbatim>\<open>assign\<close> and
  \<^verbatim>\<open>complete\<close> change the row before they compute the next version, so the model returns the row
  beside the result on every path.
\<close>

section \<open>Keys, entries and rows\<close>

definition MAX_PARTITION_KEY_BYTES :: nat where "MAX_PARTITION_KEY_BYTES = 128"
definition MAX_PARTITION_CONTEXT_BYTES :: nat where "MAX_PARTITION_CONTEXT_BYTES = 4 * 1024"

datatype partition_value_error =
    PartitionEmptyKey
  | PartitionKeyTooLong nat
  | PartitionContextTooLarge nat
  | NonTerminalResult batch_status
  | PartitionCountTooLarge

type_synonym partition_key = rstr

definition partition_key_new :: "rstr \<Rightarrow> partition_value_error + partition_key" where
  "partition_key_new v =
     (if v = [] then Err PartitionEmptyKey
      else if str_len v > MAX_PARTITION_KEY_BYTES then Err (PartitionKeyTooLong MAX_PARTITION_KEY_BYTES)
      else Ok v)"

record partition_plan_entry =
  ppe_key :: partition_key
  ppe_context :: execution_context

definition partition_plan_entry_new ::
  "partition_key \<Rightarrow> execution_context \<Rightarrow> partition_value_error + partition_plan_entry" where
  "partition_plan_entry_new key context =
     (if vs_encoded_bytes context > MAX_PARTITION_CONTEXT_BYTES
      then Err (PartitionContextTooLarge MAX_PARTITION_CONTEXT_BYTES)
      else Ok \<lparr>ppe_key = key, ppe_context = context\<rparr>)"

record step_partition =
  spt_id :: step_partition_id
  spt_step_execution_id :: step_execution_id
  spt_worker :: "step_execution_id option"
  spt_key :: partition_key
  spt_ordinal :: u32
  spt_status :: batch_status
  spt_exit_status :: exit_status
  spt_counts :: execution_counts
  spt_context :: execution_context
  spt_version :: execution_version

definition step_partition_starting ::
  "step_partition_id \<Rightarrow> step_execution_id \<Rightarrow> u32 \<Rightarrow> partition_plan_entry \<Rightarrow> step_partition" where
  "step_partition_starting i step_execution_id ordinal entry =
     \<lparr>spt_id = i, spt_step_execution_id = step_execution_id, spt_worker = None, spt_key = ppe_key entry,
      spt_ordinal = ordinal, spt_status = Starting, spt_exit_status = exit_status_unknown,
      spt_counts = execution_counts_default, spt_context = ppe_context entry,
      spt_version = version_initial\<rparr>"

section \<open>Worker results\<close>

definition counts_exceed_i64 :: "execution_counts \<Rightarrow> bool" where
  "counts_exceed_i64 c =
     list_ex (\<lambda>v. v > 2 ^ 63 - 1)
       [ec_read c, ec_processed c, ec_written c, ec_filtered c, ec_committed c, ec_rolled_back c]"

definition is_runtime_terminal :: "batch_status \<Rightarrow> bool" where
  "is_runtime_terminal s \<longleftrightarrow> s = Completed \<or> s = Failed \<or> s = Stopped \<or> s = Unknown"

record partition_result =
  pr_status :: batch_status
  pr_exit_status :: exit_status
  pr_counts :: execution_counts

definition partition_result_new ::
  "batch_status \<Rightarrow> exit_status \<Rightarrow> execution_counts \<Rightarrow> partition_value_error + partition_result" where
  "partition_result_new status exit_status counts =
     (if \<not> is_runtime_terminal status then Err (NonTerminalResult status)
      else if counts_exceed_i64 counts then Err PartitionCountTooLarge
      else Ok \<lparr>pr_status = status, pr_exit_status = exit_status, pr_counts = counts\<rparr>)"

definition partition_result_from_worker :: "step_execution \<Rightarrow> partition_value_error + partition_result" where
  "partition_result_from_worker worker =
     partition_result_new (em_status (se_metadata worker)) (em_exit_status (se_metadata worker))
       (em_counts (se_metadata worker))"

section \<open>Mutations of a row\<close>

datatype partition_mutation_error =
    PartitionStaleVersion execution_version execution_version
  | PartitionInvalidState batch_status
  | PartitionVersionExhausted

definition partition_ensure_version ::
  "execution_version \<Rightarrow> step_partition \<Rightarrow> partition_mutation_error + unit" where
  "partition_ensure_version expected p =
     (if expected \<noteq> spt_version p then Err (PartitionStaleVersion expected (spt_version p)) else Ok ())"

definition partition_next_version :: "step_partition \<Rightarrow> partition_mutation_error + execution_version" where
  "partition_next_version p = ok_or (checked_add (spt_version p) 1) PartitionVersionExhausted"

definition partition_bump :: "step_partition \<Rightarrow> (partition_mutation_error + unit) \<times> step_partition" where
  "partition_bump p =
     (case partition_next_version p of
        Err e \<Rightarrow> (Err e, p)
      | Ok v \<Rightarrow> (Ok (), p\<lparr>spt_version := v\<rparr>))"

definition partition_assign ::
  "execution_version \<Rightarrow> step_execution_id \<Rightarrow> step_partition
   \<Rightarrow> (partition_mutation_error + unit) \<times> step_partition" where
  "partition_assign expected worker p =
     (case partition_ensure_version expected p of
        Err e \<Rightarrow> (Err e, p)
      | Ok _ \<Rightarrow>
          let first_assignment = spt_status p = Starting \<and> spt_worker p = None;
              retry_assignment = (spt_status p = Failed \<or> spt_status p = Stopped) \<and> spt_worker p \<noteq> None
          in if \<not> first_assignment \<and> \<not> retry_assignment then (Err (PartitionInvalidState (spt_status p)), p)
             else partition_bump
               (p\<lparr>spt_worker := Some worker, spt_status := Started,
                  spt_exit_status := exit_status_unknown, spt_counts := execution_counts_default\<rparr>))"

definition partition_complete ::
  "execution_version \<Rightarrow> partition_result \<Rightarrow> step_partition
   \<Rightarrow> (partition_mutation_error + unit) \<times> step_partition" where
  "partition_complete expected result p =
     (case partition_ensure_version expected p of
        Err e \<Rightarrow> (Err e, p)
      | Ok _ \<Rightarrow>
          if spt_status p \<noteq> Started \<or> spt_worker p = None then (Err (PartitionInvalidState (spt_status p)), p)
          else partition_bump
            (p\<lparr>spt_status := pr_status result, spt_exit_status := pr_exit_status result,
               spt_counts := pr_counts result\<rparr>))"

section \<open>Aggregation\<close>

datatype partition_aggregation_error =
    AggEmptyPlan
  | AggPlanTooLarge nat
  | AggDuplicateKey
  | AggIncomplete batch_status
  | AggCountExhausted

record partition_aggregate =
  pa_status :: batch_status
  pa_exit_status :: exit_status
  pa_counts :: execution_counts
  pa_selected_worker :: step_execution_id

fun partition_severity :: "batch_status \<Rightarrow> u8" where
  "partition_severity Completed = 0"
| "partition_severity Stopped = 1"
| "partition_severity Failed = 2"
| "partition_severity Unknown = 3"
| "partition_severity _ = 4"

definition checked_sum :: "u64 \<Rightarrow> u64 \<Rightarrow> partition_aggregation_error + u64" where
  "checked_sum l r = ok_or (checked_add l r) AggCountExhausted"

definition checked_sum_counts ::
  "execution_counts \<Rightarrow> execution_counts \<Rightarrow> partition_aggregation_error + execution_counts" where
  "checked_sum_counts l r =
     res_bind (checked_sum (ec_read l) (ec_read r)) (\<lambda>rd.
     res_bind (checked_sum (ec_processed l) (ec_processed r)) (\<lambda>pc.
     res_bind (checked_sum (ec_written l) (ec_written r)) (\<lambda>wr.
     res_bind (checked_sum (ec_filtered l) (ec_filtered r)) (\<lambda>fl.
     res_bind (checked_sum (ec_committed l) (ec_committed r)) (\<lambda>cm.
     res_bind (checked_sum (ec_rolled_back l) (ec_rolled_back r)) (\<lambda>rb.
     let counts = \<lparr>ec_read = rd, ec_processed = pc, ec_written = wr, ec_filtered = fl,
                   ec_committed = cm, ec_rolled_back = rb\<rparr>
     in if counts_exceed_i64 counts then Err AggCountExhausted else Ok counts))))))"

definition aggregate_partition ::
  "step_partition \<Rightarrow> batch_status \<times> execution_counts
   \<Rightarrow> partition_aggregation_error + batch_status \<times> execution_counts" where
  "aggregate_partition p acc =
     (let status = spt_status p in
      if spt_worker p = None \<or> \<not> is_runtime_terminal status then Err (AggIncomplete status)
      else
        let aggregate_status = (if partition_severity status > partition_severity (fst acc) then status else fst acc)
        in res_bind (checked_sum_counts (snd acc) (spt_counts p)) (\<lambda>counts. Ok (aggregate_status, counts)))"

definition aggregate_step_partitions ::
  "step_partition list \<Rightarrow> partition_aggregation_error + partition_aggregate" where
  "aggregate_step_partitions ps =
     (if ps = [] then Err AggEmptyPlan
      else if length ps > unat MAX_PARTITIONS then Err (AggPlanTooLarge (unat MAX_PARTITIONS))
      else
        let ordered = sort_key spt_key ps in
        if windows2_any (\<lambda>a b. spt_key a = spt_key b) ordered then Err AggDuplicateKey
        else
          res_bind (try_fold aggregate_partition ordered (Completed, execution_counts_default))
            (\<lambda>(status, counts).
          res_bind (ok_or (find (\<lambda>p. spt_status p = status) ordered) (AggIncomplete status)) (\<lambda>selected.
          res_bind (ok_or (spt_worker selected) (AggIncomplete status)) (\<lambda>worker.
          Ok \<lparr>pa_status = status, pa_exit_status = spt_exit_status selected, pa_counts = counts,
              pa_selected_worker = worker\<rparr>))))"

section \<open>Exactness of the aggregate\<close>

text \<open>The aggregate as a specification on the unordered plan.\<close>

definition counters :: "(execution_counts \<Rightarrow> u64) list" where
  "counters = [ec_read, ec_processed, ec_written, ec_filtered, ec_committed, ec_rolled_back]"

definition counter_total :: "(execution_counts \<Rightarrow> u64) \<Rightarrow> step_partition list \<Rightarrow> nat" where
  "counter_total f ps = (\<Sum>p\<leftarrow>ps. unat (f (spt_counts p)))"

definition worst_status :: "step_partition list \<Rightarrow> batch_status" where
  "worst_status ps =
     (let statuses = spt_status ` set ps in
      if Unknown \<in> statuses then Unknown
      else if Failed \<in> statuses then Failed
      else if Stopped \<in> statuses then Stopped else Completed)"

definition partition_finished :: "step_partition \<Rightarrow> bool" where
  "partition_finished p \<longleftrightarrow> spt_worker p \<noteq> None \<and> is_runtime_terminal (spt_status p)"

lemma counter_total_Cons: "counter_total f (p # ps) = unat (f (spt_counts p)) + counter_total f ps"
  by (simp add: counter_total_def)

lemma counters_eqI: "\<forall>f \<in> set counters. unat (f c) = unat (f d) \<Longrightarrow> c = d"
  by (cases c; cases d) (simp add: counters_def word_unat_eq_iff)

lemma i64_max_less: "v > 2 ^ 63 - 1 \<longleftrightarrow> \<not> unat v < 2 ^ 63" for v :: u64
  by (simp add: word_less_nat_alt not_less) linarith

lemma counts_exceed_iff: "counts_exceed_i64 c \<longleftrightarrow> (\<exists>f \<in> set counters. \<not> unat (f c) < 2 ^ 63)"
  unfolding counts_exceed_i64_def counters_def i64_max_less by simp

lemma checked_sum_Ok: "checked_sum l r = Ok v \<longleftrightarrow> unat l + unat r < 2 ^ 64 \<and> v = l + r"
  by (simp add: checked_sum_def checked_add_Some_iff)

lemma sum_fits: "unat l + unat r < 2 ^ 64 \<and> unat (l + r) < 2 ^ 63 \<longleftrightarrow> unat l + unat r < 2 ^ 63" for l r :: u64
  using unat_add_lem [of l r] by auto

lemma checked_sum_counts_Ok:
  "checked_sum_counts l r = Ok c \<longleftrightarrow>
     (\<forall>f \<in> set counters. unat (f l) + unat (f r) < 2 ^ 63 \<and> f c = f l + f r)"
proof -
  have "checked_sum_counts l r = Ok c \<longleftrightarrow>
     (\<forall>f \<in> set counters. (unat (f l) + unat (f r) < 2 ^ 64 \<and> unat (f l + f r) < 2 ^ 63) \<and> f c = f l + f r)"
    by (cases c) (auto simp: checked_sum_counts_def checked_sum_Ok Let_def counts_exceed_iff counters_def)
  then show ?thesis unfolding sum_fits .
qed

lemma checked_sum_counts_exact:
  "checked_sum_counts l r = Ok c \<longleftrightarrow>
     (\<forall>f \<in> set counters. unat (f l) + unat (f r) < 2 ^ 63 \<and> unat (f c) = unat (f l) + unat (f r))"
proof -
  have "f c = f l + f r \<longleftrightarrow> unat (f c) = unat (f l) + unat (f r)" if "unat (f l) + unat (f r) < 2 ^ 63"
    for f :: "execution_counts \<Rightarrow> u64"
    using that unat_add_lem [of "f l" "f r"] by (auto simp: word_unat_eq_iff)
  then show ?thesis unfolding checked_sum_counts_Ok by blast
qed

definition worse :: "batch_status \<Rightarrow> batch_status \<Rightarrow> batch_status" where
  "worse s t = (if partition_severity s > partition_severity t then s else t)"

lemma aggregate_fold_Ok:
  assumes "\<forall>f \<in> set counters. unat (f c) < 2 ^ 63"
  shows "try_fold aggregate_partition ps (s, c) = Ok (t, d) \<longleftrightarrow>
    (\<forall>p \<in> set ps. partition_finished p) \<and> t = fold (\<lambda>p. worse (spt_status p)) ps s
    \<and> (\<forall>f \<in> set counters. unat (f c) + counter_total f ps < 2 ^ 63 \<and> unat (f d) = unat (f c) + counter_total f ps)"
  using assms
proof (induction ps arbitrary: s c)
  case Nil
  then show ?case by (auto simp: counter_total_def intro: counters_eqI)
next
  case (Cons p ps)
  let ?s = "worse (spt_status p) s"
  have step: "aggregate_partition p (s, c) = Ok (s', c') \<longleftrightarrow>
      partition_finished p \<and> s' = ?s \<and> checked_sum_counts c (spt_counts p) = Ok c'" for s' c'
    by (auto simp: aggregate_partition_def Let_def partition_finished_def worse_def)
  show ?case
  proof
    assume "try_fold aggregate_partition (p # ps) (s, c) = Ok (t, d)"
    then obtain c' where c': "partition_finished p" "checked_sum_counts c (spt_counts p) = Ok c'"
        "try_fold aggregate_partition ps (?s, c') = Ok (t, d)"
      by (auto simp: step)
    from c'(2) have sum: "\<forall>f \<in> set counters. unat (f c) + unat (f (spt_counts p)) < 2 ^ 63
        \<and> unat (f c') = unat (f c) + unat (f (spt_counts p))"
      unfolding checked_sum_counts_exact .
    then have "\<forall>f \<in> set counters. unat (f c') < 2 ^ 63" by simp
    from Cons.IH [OF this] c' sum show "(\<forall>p \<in> set (p # ps). partition_finished p)
        \<and> t = fold (\<lambda>p. worse (spt_status p)) (p # ps) s
        \<and> (\<forall>f \<in> set counters. unat (f c) + counter_total f (p # ps) < 2 ^ 63
            \<and> unat (f d) = unat (f c) + counter_total f (p # ps))"
      by (simp add: counter_total_Cons add.assoc)
  next
    assume ok: "(\<forall>p \<in> set (p # ps). partition_finished p) \<and> t = fold (\<lambda>p. worse (spt_status p)) (p # ps) s
        \<and> (\<forall>f \<in> set counters. unat (f c) + counter_total f (p # ps) < 2 ^ 63
            \<and> unat (f d) = unat (f c) + counter_total f (p # ps))"
    then have fits: "\<forall>f \<in> set counters. unat (f c) + unat (f (spt_counts p)) < 2 ^ 63"
      by (auto simp: counter_total_Cons)
    define c' where "c' = \<lparr>ec_read = ec_read c + ec_read (spt_counts p), ec_processed = ec_processed c + ec_processed (spt_counts p),
      ec_written = ec_written c + ec_written (spt_counts p), ec_filtered = ec_filtered c + ec_filtered (spt_counts p),
      ec_committed = ec_committed c + ec_committed (spt_counts p),
      ec_rolled_back = ec_rolled_back c + ec_rolled_back (spt_counts p)\<rparr>"
    have "checked_sum_counts c (spt_counts p) = Ok c'"
      unfolding checked_sum_counts_Ok using fits by (simp add: c'_def counters_def)
    moreover from this have sum: "\<forall>f \<in> set counters. unat (f c) + unat (f (spt_counts p)) < 2 ^ 63
        \<and> unat (f c') = unat (f c) + unat (f (spt_counts p))"
      unfolding checked_sum_counts_exact .
    moreover from sum have small: "\<forall>f \<in> set counters. unat (f c') < 2 ^ 63" by simp
    moreover have "try_fold aggregate_partition ps (?s, c') = Ok (t, d)"
      unfolding Cons.IH [OF small] using ok sum by (simp add: counter_total_Cons add.assoc)
    ultimately show "try_fold aggregate_partition (p # ps) (s, c) = Ok (t, d)"
      using ok by (auto simp: step)
  qed
qed

lemma fold_worse:
  "fold (\<lambda>p. worse (spt_status p)) ps s \<in> insert s (spt_status ` set ps)
   \<and> (\<forall>u \<in> insert s (spt_status ` set ps). partition_severity u \<le> partition_severity (fold (\<lambda>p. worse (spt_status p)) ps s))"
proof (induction ps arbitrary: s)
  case (Cons p ps)
  have "worse (spt_status p) s \<in> {spt_status p, s}"
    "partition_severity s \<le> partition_severity (worse (spt_status p) s)"
    "partition_severity (spt_status p) \<le> partition_severity (worse (spt_status p) s)"
    by (auto simp: worse_def)
  with Cons.IH [of "worse (spt_status p) s"] show ?case by fastforce
qed simp

lemma severity_inject:
  "is_runtime_terminal s \<Longrightarrow> is_runtime_terminal t \<Longrightarrow> partition_severity s = partition_severity t \<longleftrightarrow> s = t"
  by (auto simp: is_runtime_terminal_def)

lemma fold_worse_worst:
  assumes "\<forall>p \<in> set ps. partition_finished p"
  shows "fold (\<lambda>p. worse (spt_status p)) ps Completed = worst_status ps"
proof -
  define S where "S = spt_status ` set ps"
  have fin: "is_runtime_terminal s" if "s \<in> insert Completed (spt_status ` set ps)" for s
    using that assms by (auto simp: partition_finished_def is_runtime_terminal_def)
  have worst: "worst_status ps \<in> insert Completed (spt_status ` set ps)"
    by (auto simp: worst_status_def Let_def)
  have most: "partition_severity u \<le> partition_severity (worst_status ps)"
    if "u \<in> insert Completed (spt_status ` set ps)" for u
    using fin [OF that] that unfolding worst_status_def Let_def S_def [symmetric]
    by (auto simp: is_runtime_terminal_def)
  note ends = fold_worse [of ps Completed]
  have "partition_severity (fold (\<lambda>p. worse (spt_status p)) ps Completed) = partition_severity (worst_status ps)"
    by (rule order_antisym [OF most [OF conjunct1 [OF ends]] bspec [OF conjunct2 [OF ends] worst]])
  then show ?thesis
    by (rule severity_inject [THEN iffD1, OF fin [OF conjunct1 [OF ends]] fin [OF worst]])
qed

lemma worst_status_mset: "mset ps = mset qs \<Longrightarrow> worst_status ps = worst_status qs"
  unfolding worst_status_def using mset_eq_setD by metis

lemma counter_total_mset: "mset ps = mset qs \<Longrightarrow> counter_total f ps = counter_total f qs"
  unfolding counter_total_def by (metis mset_map sum_mset_sum_list)

lemma duplicate_key_iff:
  "windows2_any (\<lambda>a b. spt_key a = spt_key b) (sort_key spt_key ps) \<longleftrightarrow> \<not> distinct (map spt_key ps)"
proof -
  have "distinct (map spt_key (sort_key spt_key ps)) \<longleftrightarrow> distinct (map spt_key ps)"
    by (metis mset_eq_imp_distinct_iff mset_map mset_sort)
  then show ?thesis
    using windows2_any_eq_distinct [OF sorted_sort_key, of spt_key ps] by (auto simp: strict_sorted_iff)
qed

lemma sort_key_mset:
  fixes f :: "'a \<Rightarrow> 'b::linorder"
  assumes "mset ps = mset qs" "distinct (map f ps)"
  shows "sort_key f ps = sort_key f qs"
proof (rule map_sorted_distinct_set_unique)
  have "mset (map f qs) = mset (map f ps)" using assms(1) by simp
  then have "distinct (map f qs)" using assms(2) mset_eq_imp_distinct_iff by blast
  moreover have "distinct (map f (sort_key f xs)) \<longleftrightarrow> distinct (map f xs)" for xs
    by (metis mset_eq_imp_distinct_iff mset_map mset_sort)
  ultimately show "distinct (map f (sort_key f ps))" "distinct (map f (sort_key f qs))" using assms(2) by simp_all
  show "inj_on f (set (sort_key f ps) \<union> set (sort_key f qs))"
    using assms mset_eq_setD [OF assms(1)] by (simp add: distinct_map)
  show "set (sort_key f ps) = set (sort_key f qs)" using mset_eq_setD [OF assms(1)] by simp
qed simp_all

lemma find_least_iff:
  fixes f :: "'a \<Rightarrow> 'b::linorder"
  assumes "sorted (map f xs)" "inj_on f (set xs)"
  shows "find P xs = Some x \<longleftrightarrow> x \<in> set xs \<and> P x \<and> (\<forall>y \<in> set xs. P y \<longrightarrow> f x \<le> f y)"
  using assms
proof (induction xs)
  case (Cons y ys)
  then have "f y \<le> f x \<and> (f x \<le> f y \<longrightarrow> x = y)" if "x \<in> set ys"
    using that by (auto simp: inj_on_def)
  with Cons show ?case by auto
qed simp

lemma aggregate_mset:
  assumes "mset qs = mset ps"
  shows "aggregate_step_partitions qs = aggregate_step_partitions ps"
proof -
  have "qs = [] \<longleftrightarrow> ps = []" "length qs = length ps" using assms mset_eq_length by fastforce+
  moreover have keys: "distinct (map spt_key qs) \<longleftrightarrow> distinct (map spt_key ps)"
    using assms mset_eq_imp_distinct_iff by (metis mset_map)
  moreover have "sort_key spt_key qs = sort_key spt_key ps" if "distinct (map spt_key ps)"
    using that keys assms sort_key_mset by blast
  ultimately show ?thesis
    by (cases "distinct (map spt_key ps)") (simp_all add: aggregate_step_partitions_def duplicate_key_iff)
qed

text \<open>
  C26. The aggregate of a partitioned step is exact and does not depend on the order in which the
  partitions are read or completed.  It is produced exactly for a non-empty plan of at most 1024
  partitions with distinct keys that all have a worker and a final result and whose counters sum
  below the 63-bit bound; its status is the worst one, its counters are the true sums, and its exit
  status and worker are those of the partition with the least key among those of that status.
\<close>

theorem aggregate_exact:
  "(aggregate_step_partitions ps = Ok a \<longleftrightarrow>
      ps \<noteq> [] \<and> length ps \<le> 1024 \<and> distinct (map spt_key ps) \<and> list_all partition_finished ps
      \<and> pa_status a = worst_status ps
      \<and> list_all (\<lambda>f. counter_total f ps < 2 ^ 63 \<and> unat (f (pa_counts a)) = counter_total f ps) counters
      \<and> (\<exists>p. p \<in> set ps \<and> spt_status p = pa_status a \<and> pa_exit_status a = spt_exit_status p
             \<and> spt_worker p = Some (pa_selected_worker a)
             \<and> list_all (\<lambda>q. spt_status q = pa_status a \<longrightarrow> spt_key p \<le> spt_key q) ps))
   \<and> (mset qs = mset ps \<longrightarrow> aggregate_step_partitions qs = aggregate_step_partitions ps)"
proof (intro conjI impI)
  assume "mset qs = mset ps"
  then show "aggregate_step_partitions qs = aggregate_step_partitions ps" by (rule aggregate_mset)
next
  let ?o = "sort_key spt_key ps"
  let ?ok = "ps \<noteq> [] \<and> length ps \<le> 1024 \<and> distinct (map spt_key ps)"
  have start: "\<forall>f \<in> set counters. unat (f execution_counts_default) = 0"
    by (simp add: counters_def execution_counts_default_def)
  have ordered: "worst_status ?o = worst_status ps" "counter_total f ?o = counter_total f ps" for f
    by (simp_all add: worst_status_mset [of ?o ps] counter_total_mset [of ?o ps])
  have fold: "try_fold aggregate_partition ?o (Completed, execution_counts_default) = Ok (t, d) \<longleftrightarrow>
      list_all partition_finished ps \<and> t = worst_status ps
      \<and> list_all (\<lambda>f. counter_total f ps < 2 ^ 63 \<and> unat (f d) = counter_total f ps) counters" for t d
    using aggregate_fold_Ok [of execution_counts_default ?o Completed t d] start fold_worse_worst [of ?o]
    by (auto simp: ordered list_all_iff)
  have result: "aggregate_step_partitions ps = Ok a \<longleftrightarrow> ?ok
      \<and> try_fold aggregate_partition ?o (Completed, execution_counts_default) = Ok (pa_status a, pa_counts a)
      \<and> (\<exists>p. find (\<lambda>p. spt_status p = pa_status a) ?o = Some p \<and> pa_exit_status a = spt_exit_status p
           \<and> spt_worker p = Some (pa_selected_worker a))"
    by (cases a) (auto simp: aggregate_step_partitions_def duplicate_key_iff MAX_PARTITIONS_def Let_def)
  have least: "find (\<lambda>p. spt_status p = t) ?o = Some p \<longleftrightarrow>
      p \<in> set ps \<and> spt_status p = t \<and> list_all (\<lambda>q. spt_status q = t \<longrightarrow> spt_key p \<le> spt_key q) ps"
    if "distinct (map spt_key ps)" for t p
    using find_least_iff [OF sorted_sort_key, of spt_key ps] that
    by (simp add: list_all_iff distinct_map)
  show "aggregate_step_partitions ps = Ok a \<longleftrightarrow>
      ps \<noteq> [] \<and> length ps \<le> 1024 \<and> distinct (map spt_key ps) \<and> list_all partition_finished ps
      \<and> pa_status a = worst_status ps
      \<and> list_all (\<lambda>f. counter_total f ps < 2 ^ 63 \<and> unat (f (pa_counts a)) = counter_total f ps) counters
      \<and> (\<exists>p. p \<in> set ps \<and> spt_status p = pa_status a \<and> pa_exit_status a = spt_exit_status p
             \<and> spt_worker p = Some (pa_selected_worker a)
             \<and> list_all (\<lambda>q. spt_status q = pa_status a \<longrightarrow> spt_key p \<le> spt_key q) ps)"
    unfolding result fold using least by blast
qed

definition example_partition :: "rstr \<Rightarrow> u64 \<Rightarrow> batch_status \<Rightarrow> step_partition" where
  "example_partition key n status =
     \<lparr>spt_id = n, spt_step_execution_id = 1, spt_worker = Some (n + 10), spt_key = key, spt_ordinal = 1,
      spt_status = status, spt_exit_status = exit_status_unknown,
      spt_counts = \<lparr>ec_read = n, ec_processed = 0, ec_written = 0, ec_filtered = 0, ec_committed = 1, ec_rolled_back = 0\<rparr>,
      spt_context = \<lparr>vs_schema_id = lit ''s'', vs_schema_version = 1, vs_payload = JObject [], vs_encoded_bytes = 0\<rparr>,
      spt_version = 2\<rparr>"

theorem aggregate_exact_witness:
  "aggregate_step_partitions
      [example_partition [98] 2 Failed, example_partition [99] 3 Completed, example_partition [97] 4 Failed] =
    Ok \<lparr>pa_status = Failed, pa_exit_status = exit_status_unknown,
        pa_counts = \<lparr>ec_read = 9, ec_processed = 0, ec_written = 0, ec_filtered = 0, ec_committed = 3, ec_rolled_back = 0\<rparr>,
        pa_selected_worker = 14\<rparr>
    \<and> aggregate_step_partitions
      [example_partition [97] 4 Failed, example_partition [98] 2 Failed, example_partition [99] 3 Completed] =
    aggregate_step_partitions
      [example_partition [98] 2 Failed, example_partition [99] 3 Completed, example_partition [97] 4 Failed]"
  (is "aggregate_step_partitions ?ps = Ok ?a \<and> aggregate_step_partitions ?qs = _")
proof (rule conjI)
  show "aggregate_step_partitions ?ps = Ok ?a"
    by (rule aggregate_exact [THEN conjunct1, THEN iffD2])
      (auto simp: worst_status_def counters_def counter_total_def example_partition_def partition_finished_def
        is_runtime_terminal_def intro!: exI [of _ "example_partition [97] 4 Failed"])
  show "aggregate_step_partitions ?qs = aggregate_step_partitions ?ps"
    by (rule aggregate_exact [THEN conjunct2, THEN mp]) simp
qed

section \<open>The life of a row\<close>

datatype partition_op = PartitionAssign step_execution_id | PartitionComplete partition_result

fun partition_apply ::
  "u64 \<Rightarrow> partition_op \<Rightarrow> step_partition \<Rightarrow> (partition_mutation_error + unit) \<times> step_partition" where
  "partition_apply v (PartitionAssign worker) p = partition_assign v worker p"
| "partition_apply v (PartitionComplete result) p = partition_complete v result p"

lemmas partition_op_defs = partition_assign_def partition_complete_def partition_ensure_version_def
  partition_bump_def partition_next_version_def checked_add_one

interpretation partition_cas: optimistic spt_version partition_apply
proof
  fix expected x and p :: step_partition
  assume "expected \<noteq> spt_version p"
  then show "\<exists>e. partition_apply expected x p = (Err e, p)"
    by (cases x) (simp_all add: partition_op_defs)
next
  fix expected x r and p q :: step_partition
  assume "partition_apply expected x p = (Ok r, q)"
  then have "checked_add (spt_version p) 1 = Some (spt_version q)"
    by (cases x) (auto simp: partition_op_defs Let_def split: if_splits)
  then show "unat (spt_version q) = Suc (unat (spt_version p))" by (simp add: checked_add_unat)
next
  fix expected x e and p q :: step_partition
  assume "partition_apply expected x p = (Err e, q)"
  then show "spt_version q = spt_version p"
    by (cases x) (auto simp: partition_op_defs Let_def split: if_splits)
qed

definition partition_row_inv :: "step_partition \<Rightarrow> bool" where
  "partition_row_inv p \<longleftrightarrow>
     (spt_status p = Starting \<longleftrightarrow> spt_worker p = None)
     \<and> (spt_status p = Starting \<or> spt_status p = Started \<or> is_runtime_terminal (spt_status p))
     \<and> \<not> counts_exceed_i64 (spt_counts p)"

fun partition_op_valid :: "partition_op \<Rightarrow> bool" where
  "partition_op_valid (PartitionAssign worker) = True"
| "partition_op_valid (PartitionComplete r) =
     (partition_result_new (pr_status r) (pr_exit_status r) (pr_counts r) = Ok r)"

definition row_identity :: "step_partition \<Rightarrow> step_partition_id \<times> step_execution_id \<times> partition_key \<times> u32 \<times> execution_context" where
  "row_identity p = (spt_id p, spt_step_execution_id p, spt_key p, spt_ordinal p, spt_context p)"

lemma counts_default_fit: "\<not> counts_exceed_i64 execution_counts_default"
  by (simp add: counts_exceed_i64_def execution_counts_default_def)

lemma partition_apply_inv:
  assumes "partition_op_valid x" "partition_row_inv p"
  shows "partition_row_inv (snd (partition_apply v x p)) \<and> row_identity (snd (partition_apply v x p)) = row_identity p"
proof (cases x)
  case (PartitionAssign w)
  then show ?thesis using assms counts_default_fit
    by (auto simp: partition_op_defs Let_def partition_row_inv_def row_identity_def)
next
  case (PartitionComplete r)
  with assms(1) have "is_runtime_terminal (pr_status r)" "\<not> counts_exceed_i64 (pr_counts r)" "pr_status r \<noteq> Starting"
    by (auto simp: partition_result_new_def is_runtime_terminal_def split: if_splits)
  then show ?thesis using assms PartitionComplete
    by (auto simp: partition_op_defs partition_row_inv_def row_identity_def)
qed

lemma partition_history_inv:
  assumes "list_all (\<lambda>(v, x). partition_op_valid x) cs" "partition_row_inv p"
  shows "partition_row_inv (snd (apply_seq partition_apply cs p))
    \<and> row_identity (snd (apply_seq partition_apply cs p)) = row_identity p"
  using assms
proof (induction cs arbitrary: p)
  case (Cons c cs)
  obtain v x where c: "c = (v, x)" by (cases c)
  from Cons.prems have "partition_op_valid x" by (simp add: c)
  from partition_apply_inv [OF this Cons.prems(2), of v] Cons.IH [of "snd (partition_apply v x p)"] Cons.prems(1)
  show ?case by (simp add: c)
qed simp

text \<open>
  C27. The row of a partition keeps its contract under every history of assignments and completions,
  stale and invalid ones included.  Its identity and context never change, its version counts the
  accepted calls and no version is accepted twice, it has a worker exactly once it has left STARTING,
  and a row that reports a final status qualifies for aggregation; a COMPLETED or UNKNOWN partition
  refuses every further call without a change.
\<close>

theorem partition_row_history:
  assumes "list_all (\<lambda>(v, x). partition_op_valid x) cs"
    and "apply_seq partition_apply cs (step_partition_starting i step ordinal entry) = (rs, p)"
  shows "row_identity p = (i, step, ppe_key entry, ordinal, ppe_context entry)
    \<and> unat (spt_version p) = length (accepted cs rs) \<and> sorted_wrt (<) (accepted cs rs)
    \<and> (spt_status p = Starting \<longleftrightarrow> spt_worker p = None)
    \<and> (spt_status p = Starting \<or> spt_status p = Started \<or> partition_finished p)
    \<and> (spt_status p = Completed \<or> spt_status p = Unknown \<longrightarrow> (\<forall>v x. \<exists>e. partition_apply v x p = (Err e, p)))"
proof -
  let ?start = "step_partition_starting i step ordinal entry"
  have "partition_row_inv ?start"
    by (simp add: partition_row_inv_def step_partition_starting_def counts_default_fit)
  with partition_history_inv [OF assms(1), of ?start] assms(2)
  have inv: "partition_row_inv p" "row_identity p = row_identity ?start" by simp_all
  have "row_identity p = (i, step, ppe_key entry, ordinal, ppe_context entry)"
    using inv(2) by (simp add: row_identity_def step_partition_starting_def)
  moreover have "unat (spt_version p) = length (accepted cs rs)" "sorted_wrt (<) (accepted cs rs)"
    using partition_cas.history_count [of cs ?start] partition_cas.history_no_reuse [of cs ?start] assms(2)
    by (simp_all add: step_partition_starting_def version_initial_def)
  moreover have "\<exists>e. partition_apply v x p = (Err e, p)" if "spt_status p = Completed \<or> spt_status p = Unknown" for v x
    using that by (cases x) (auto simp: partition_op_defs)
  ultimately show ?thesis
    using inv(1) by (auto simp: partition_row_inv_def partition_finished_def)
qed

theorem partition_row_history_witness:
  "spt_worker (snd (apply_seq partition_apply
     [(0, PartitionAssign 7), (0, PartitionAssign 8),
      (1, PartitionComplete \<lparr>pr_status = Completed, pr_exit_status = exit_status_completed,
                             pr_counts = execution_counts_default\<rparr>)]
     (step_partition_starting 1 2 1 \<lparr>ppe_key = [97], ppe_context =
        \<lparr>vs_schema_id = lit ''s'', vs_schema_version = 1, vs_payload = JObject [], vs_encoded_bytes = 0\<rparr>\<rparr>))) \<noteq> None"
  (is "spt_worker (snd (apply_seq _ ?cs ?start)) \<noteq> None")
proof -
  have valid: "list_all (\<lambda>(v, x). partition_op_valid x) ?cs"
    by (simp add: partition_result_new_def is_runtime_terminal_def counts_default_fit)
  obtain rs p where run: "apply_seq partition_apply ?cs ?start = (rs, p)" by (cases "apply_seq partition_apply ?cs ?start")
  moreover have "spt_status p = Completed"
    using run by (auto simp: partition_op_defs Let_def step_partition_starting_def version_initial_def)
  ultimately show ?thesis
    using partition_row_history [OF valid run] by simp
qed

end
