(* ===== verification/Definition_Upgrade.thy ===== *)
theory Definition_Upgrade
  imports State_Envelope
begin

text \<open>
  Compatible definition upgrades, the upgrade part of \<^verbatim>\<open>definition.rs\<close> of \<^verbatim>\<open>oxide-batch-core\<close>: directed
  edges between two definitions with a node mapping and declared state transforms, their validation
  against the durable state contracts both canonical manifests declare, and the binding of an edge to
  its live transform functions.  The functions an application supplies are fields of a record.
\<close>

section \<open>Descriptors\<close>

definition MAX_DEFINITION_UPGRADE_NODES :: nat where "MAX_DEFINITION_UPGRADE_NODES = MAX_NODES"
definition MAX_DEFINITION_UPGRADE_TRANSFORMS :: nat where "MAX_DEFINITION_UPGRADE_TRANSFORMS = MAX_TRANSITIONS"

type_synonym definition_upgrade_key = rstr
type_synonym definition_upgrade_revision = rstr
type_synonym definition_state_transform_id = rstr

definition LEGACY_REVISION :: rstr where "LEGACY_REVISION = lit ''__m1_repository_port_v1''"

text \<open>The fixed bytes of \<^verbatim>\<open>LEGACY_MANIFEST\<close>.\<close>

definition quoted :: "string \<Rightarrow> string" where "quoted s = CHR 0x22 # s @ [CHR 0x22]"

definition LEGACY_MANIFEST :: "u8 list" where
  "LEGACY_MANIFEST = as_bytes (lit (''{'' @ quoted ''format'' @ '':1,'' @ quoted ''repository_port'' @ '':''
     @ quoted ''m1'' @ '','' @ quoted ''revision'' @ '':'' @ quoted ''__m1_repository_port_v1'' @ ''}''))"

definition definition_identity_legacy :: "sha256 \<Rightarrow> definition_identity" where
  "definition_identity_legacy sha256 =
     from_canonical sha256 None LEGACY_REVISION LEGACY_MANIFEST MANIFEST_FORMAT_ONE_STEP"

record step_definition_upgrade =
  sdu_source :: step_name
  sdu_target :: step_name

datatype definition_state_kind =
  DskCheckpoint | DskExecutionContext | DskComponentState | DskScopeResolution | DskRepeat | DskFaultState

record definition_node_upgrade =
  dnu_source :: node_id
  dnu_target :: node_id

record definition_state_transform =
  dst_source_node :: node_id
  dst_target_node :: node_id
  dst_kind :: definition_state_kind
  dst_state_id :: definition_state_transform_id
  dst_source_schema :: state_schema_id
  dst_source_version :: state_schema_version
  dst_target_schema :: state_schema_id
  dst_target_version :: state_schema_version
  dst_revision :: definition_upgrade_revision

datatype definition_state_transform_error = InvalidSource | TransformFailed

record definition_state_transformer =
  dtr_revision :: definition_upgrade_revision
  dtr_apply :: "u8 list \<Rightarrow> definition_state_transform_error + u8 list"

record definition_upgrade =
  du_key :: definition_upgrade_key
  du_revision :: "definition_upgrade_revision option"
  du_from :: definition_identity
  du_to :: definition_identity
  du_step_mapping :: "(step_name, step_name) btree_map"
  du_node_mapping :: "(node_id, node_id) btree_map"
  du_transforms :: "definition_state_transform list"

definition is_transformed :: "definition_upgrade \<Rightarrow> bool" where
  "is_transformed u = (du_revision u \<noteq> None)"

section \<open>The nodes of a manifest\<close>

definition array_members :: "(rstr, json) btree_map \<Rightarrow> string \<Rightarrow> json list" where
  "array_members object key = unwrap_or (and_then (member_get object key) as_array) []"

definition node_children :: "(rstr, json) btree_map \<Rightarrow> json list" where
  "node_children object = concat (map (array_members object) [''members'', ''steps'', ''nodes''])"

lemma json_size_member: "bt_get m k = Some v \<Longrightarrow> size v < size (JObject m)"
proof -
  assume "bt_get m k = Some v"
  then have "(k, v) \<in> set m" by (rule bt_get_in_set)
  then have "size_prod (\<lambda>_. 0) size (k, v) \<le> size_list (size_prod (\<lambda>_. 0) size) m"
    by (rule size_list_estimation') simp
  then show ?thesis by simp
qed

lemma as_array_Some: "as_array j = Some vs \<longleftrightarrow> j = JArray vs"
  by (cases j) auto

lemma json_size_array_members:
  assumes "x \<in> set (array_members m key)"
  shows "size x < size (JObject m)"
proof -
  from assms obtain vs where vs: "member_get m key = Some (JArray vs)" "x \<in> set vs"
    by (auto simp: array_members_def and_then_def unwrap_or_def split: option.splits dest: as_array_Some [THEN iffD1, OF sym])
  then have "size x \<le> size_list size vs" by (intro size_list_estimation') auto
  also have "\<dots> < size (JArray vs)" by simp
  also have "\<dots> < size (JObject m)" using json_size_member vs(1) unfolding member_get_def by blast
  finally show ?thesis .
qed

lemma json_size_children: "x \<in> set (node_children m) \<Longrightarrow> size x < size (JObject m)"
  using json_size_array_members unfolding node_children_def by auto

function collect_upgrade_node :: "json \<Rightarrow> node_id set \<Rightarrow> definition_error + node_id set" where
  "collect_upgrade_node node result =
     res_bind (ok_or (as_object node) ManifestEncoding) (\<lambda>object.
     res_bind (case and_then (member_get object ''id'') as_str of
                 None \<Rightarrow> Ok result
               | Some i \<Rightarrow> res_bind (node_id_new i) (\<lambda>i. Ok (insert i result))) (\<lambda>result.
     res_bind (try_fold collect_upgrade_node (node_children object) result) (\<lambda>result.
     try_fold (\<lambda>branch result.
       res_bind (ok_or (as_object branch) ManifestEncoding) (\<lambda>branch.
       try_fold collect_upgrade_node (node_children branch) result))
       (array_members object ''branches'') result)))"
  by pat_completeness auto

termination collect_upgrade_node
  by (relation "measure (\<lambda>(node, result). size node)")
    (auto simp: as_object_eq dest!: json_size_children json_size_array_members)

declare collect_upgrade_node.simps [simp del]

definition collect_upgrade_node_ids :: "json list \<Rightarrow> node_id set \<Rightarrow> definition_error + node_id set" where
  "collect_upgrade_node_ids nodes result = try_fold collect_upgrade_node nodes result"

definition definition_upgrade_source_nodes ::
  "from_slice \<Rightarrow> definition_identity \<Rightarrow> definition_error + node_id set" where
  "definition_upgrade_source_nodes from_slice d =
     res_bind (ok_or (from_slice (di_canonical_manifest d)) ManifestEncoding) (\<lambda>document.
     res_bind (ok_or (as_object document) ManifestEncoding) (\<lambda>object.
     if di_manifest_format d = MANIFEST_FORMAT_ONE_STEP
     then res_bind (ok_or (and_then (member_get object ''step'') as_str) ManifestEncoding) (\<lambda>step.
          res_bind (node_id_new step) (\<lambda>i. Ok {i}))
     else res_bind (ok_or (and_then (member_get object ''nodes'') as_array) ManifestEncoding) (\<lambda>nodes.
          collect_upgrade_node_ids nodes {})))"

section \<open>Durable state contracts\<close>

record definition_durable_state_contract =
  dsc_kind :: definition_state_kind
  dsc_state_id :: "rstr option"
  dsc_schema :: state_schema_id
  dsc_version :: state_schema_version

fun find_map :: "('a \<Rightarrow> 'b option) \<Rightarrow> 'a list \<Rightarrow> 'b option" where
  "find_map f [] = None"
| "find_map f (x # xs) = (case f x of Some y \<Rightarrow> Some y | None \<Rightarrow> find_map f xs)"

lemma find_map_cong [fundef_cong]:
  "xs = ys \<Longrightarrow> (\<And>x. x \<in> set ys \<Longrightarrow> f x = g x) \<Longrightarrow> find_map f xs = find_map g ys"
  by (induction xs arbitrary: ys) (auto split: option.splits)

definition graph_node_kinds :: "string list" where
  "graph_node_kinds = [''step'', ''custom_leaf'', ''decision'', ''join'', ''split'', ''nested_flow'',
     ''nested_job'', ''partitioned_step'']"

fun find_definition_node :: "json \<Rightarrow> node_id \<Rightarrow> (rstr, json) btree_map option" where
  "find_definition_node (JObject object) node_id =
     (let is_graph_node = (case and_then (member_get object ''kind'') as_str of
            None \<Rightarrow> False | Some kind \<Rightarrow> kind \<in> set (map lit graph_node_kinds))
      in if is_graph_node \<and> and_then (member_get object ''id'') as_str = Some node_id then Some object
         else find_map (\<lambda>(k, child). find_definition_node child node_id) object)"
| "find_definition_node (JArray values) node_id = find_map (\<lambda>child. find_definition_node child node_id) values"
| "find_definition_node _ node_id = None"

definition schema_contract ::
  "definition_state_kind \<Rightarrow> rstr option \<Rightarrow> json \<Rightarrow> string \<Rightarrow> definition_error + definition_durable_state_contract" where
  "schema_contract kind state_id v schema_key =
     res_bind (ok_or (as_object v) ManifestEncoding) (\<lambda>object.
     res_bind (ok_or (and_then (member_get object schema_key) as_str) ManifestEncoding) (\<lambda>schema.
     res_bind (ok_or (and_then (and_then (and_then (member_get object ''version'') as_u64) try_from_u64)
                 (\<lambda>n. case state_schema_version_new n of Err _ \<Rightarrow> None | Ok w \<Rightarrow> Some w)) ManifestEncoding) (\<lambda>version.
     res_bind (map_err (\<lambda>_. ManifestEncoding) (state_schema_id_new schema)) (\<lambda>schema.
     Ok \<lparr>dsc_kind = kind, dsc_state_id = state_id, dsc_schema = schema, dsc_version = version\<rparr>))))"

definition one_step_durable_state_contracts ::
  "(rstr, json) btree_map \<Rightarrow> definition_error + definition_durable_state_contract list" where
  "one_step_durable_state_contracts object =
     (if and_then (member_get object ''kind'') as_str \<noteq> Some (lit ''chunk'') then Ok []
      else
        res_bind (ok_or (member_get object ''checkpoint'') ManifestEncoding) (\<lambda>checkpoint.
        res_bind (schema_contract DskCheckpoint None checkpoint ''schema'') (\<lambda>c.
        res_bind (ok_or (member_get object ''context'') ManifestEncoding) (\<lambda>context.
        res_bind (schema_contract DskExecutionContext None context ''schema'') (\<lambda>e. Ok [c, e])))))"

function collect_repeat_state_contracts ::
  "json \<Rightarrow> definition_durable_state_contract list
   \<Rightarrow> definition_error + definition_durable_state_contract list" where
  "collect_repeat_state_contracts repeat contracts =
     res_bind (ok_or (as_object repeat) ManifestEncoding) (\<lambda>object.
     res_bind (ok_or (and_then (member_get object ''id'') as_str) ManifestEncoding) (\<lambda>i.
     res_bind (ok_or (member_get object ''state'') ManifestEncoding) (\<lambda>state.
     res_bind (schema_contract DskRepeat (Some i) state ''schema'') (\<lambda>contract.
     case member_get object ''nested'' of
       None \<Rightarrow> Ok (contracts @ [contract])
     | Some nested \<Rightarrow> collect_repeat_state_contracts nested (contracts @ [contract])))))"
  by pat_completeness auto

termination collect_repeat_state_contracts
  by (relation "measure (\<lambda>(repeat, contracts). size repeat)")
    (auto simp: as_object_eq member_get_def dest!: json_size_member)

declare collect_repeat_state_contracts.simps [simp del]

definition graph_node_durable_state_contracts ::
  "(rstr, json) btree_map \<Rightarrow> definition_error + definition_durable_state_contract list" where
  "graph_node_durable_state_contracts node =
     (let kind = and_then (member_get node ''kind'') as_str in
      if kind = Some (lit ''step'') then
        res_bind (ok_or (and_then (member_get node ''step'') as_object) ManifestEncoding) (\<lambda>step.
        res_bind
          (if and_then (member_get step ''kind'') as_str = Some (lit ''chunk'') then
             res_bind (ok_or (and_then (member_get step ''declaration'') as_object) ManifestEncoding) (\<lambda>declaration.
             res_bind (ok_or (member_get declaration ''checkpoint'') ManifestEncoding) (\<lambda>checkpoint.
             res_bind (schema_contract DskCheckpoint None checkpoint ''schema'') (\<lambda>c.
             res_bind (ok_or (member_get declaration ''context'') ManifestEncoding) (\<lambda>context.
             res_bind (schema_contract DskExecutionContext None context ''schema'') (\<lambda>e. Ok [c, e])))))
           else Ok []) (\<lambda>contracts.
        case member_get node ''repeat'' of
          None \<Rightarrow> Ok contracts
        | Some repeat \<Rightarrow> collect_repeat_state_contracts repeat contracts))
      else if kind = Some (lit ''custom_leaf'') then
        res_bind (ok_or (member_get node ''state_schema'') ManifestEncoding) (\<lambda>schema.
        res_bind (schema_contract DskExecutionContext None schema ''id'') (\<lambda>c. Ok [c]))
      else Ok [])"

definition definition_durable_state_contracts ::
  "from_slice \<Rightarrow> definition_identity \<Rightarrow> node_id \<Rightarrow> definition_error + definition_durable_state_contract list" where
  "definition_durable_state_contracts from_slice d node_id =
     res_bind (ok_or (from_slice (di_canonical_manifest d)) ManifestEncoding) (\<lambda>document.
     if di_manifest_format d = MANIFEST_FORMAT_ONE_STEP then
       res_bind (ok_or (as_object document) ManifestEncoding) (\<lambda>object.
       res_bind (ok_or (and_then (member_get object ''step'') as_str) ManifestEncoding) (\<lambda>step.
       if step \<noteq> node_id then Err UnknownUpgradeSourceNode
       else one_step_durable_state_contracts object))
     else
       res_bind (ok_or (find_definition_node document node_id) ManifestEncoding)
         graph_node_durable_state_contracts)"


section \<open>Edges\<close>

definition required_transform ::
  "definition_state_transform list \<Rightarrow> node_id \<Rightarrow> node_id \<Rightarrow> definition_durable_state_contract list
   \<Rightarrow> definition_durable_state_contract \<Rightarrow> definition_error + unit" where
  "required_transform transforms source_node target_node target_contracts source =
     res_bind (ok_or (find (\<lambda>c. dsc_kind c = dsc_kind source \<and> dsc_state_id c = dsc_state_id source) target_contracts)
       MissingTargetStateContract) (\<lambda>target.
     let matching = filter (\<lambda>t. dst_source_node t = source_node \<and> dst_target_node t = target_node
            \<and> dst_kind t = dsc_kind source
            \<and> (case dsc_state_id source of None \<Rightarrow> True | Some i \<Rightarrow> dst_state_id t = i)) transforms
     in if length matching > 1 then Err DuplicateStateTransform
        else
          let changed = dsc_schema source \<noteq> dsc_schema target \<or> dsc_version source \<noteq> dsc_version target
          in case matching of
               [] \<Rightarrow> if changed then Err MissingRequiredStateTransform else Ok ()
             | t # _ \<Rightarrow>
                 if dst_source_schema t \<noteq> dsc_schema source \<or> dst_source_version t \<noteq> dsc_version source
                    \<or> dst_target_schema t \<noteq> dsc_schema target \<or> dst_target_version t \<noteq> dsc_version target
                 then Err StateTransformSchemaMismatch else Ok ())"

definition validate_required_definition_state_transforms ::
  "from_slice \<Rightarrow> definition_identity \<Rightarrow> definition_identity \<Rightarrow> (node_id, node_id) btree_map
   \<Rightarrow> definition_state_transform list \<Rightarrow> definition_error + unit" where
  "validate_required_definition_state_transforms from_slice from to node_mapping transforms =
     try_each (\<lambda>(source_node, target_node).
       res_bind (definition_durable_state_contracts from_slice from source_node) (\<lambda>source_contracts.
       res_bind (definition_durable_state_contracts from_slice to target_node) (\<lambda>target_contracts.
       try_each (required_transform transforms source_node target_node target_contracts) source_contracts)))
       node_mapping"

definition map_step ::
  "step_definition_upgrade \<Rightarrow> (step_name, step_name) btree_map \<times> step_name set
   \<Rightarrow> definition_error + (step_name, step_name) btree_map \<times> step_name set" where
  "map_step step = (\<lambda>(mapping, targets).
     if bt_contains mapping (sdu_source step) then Err DuplicateSourceStep
     else if sdu_target step \<in> targets then Err DuplicateTargetStep
     else Ok (bt_insert (sdu_source step) (sdu_target step) mapping, insert (sdu_target step) targets))"

definition definition_upgrade_new ::
  "definition_upgrade_key \<Rightarrow> definition_identity \<Rightarrow> definition_identity \<Rightarrow> step_definition_upgrade list
   \<Rightarrow> definition_error + definition_upgrade" where
  "definition_upgrade_new key from to steps =
     (if di_manifest_digest from = di_manifest_digest to then Err UpgradeSelfEdge
      else
        res_bind (try_fold map_step steps ([], {})) (\<lambda>(step_mapping, targets).
        if step_mapping = [] then Err EmptyStepMapping
        else Ok \<lparr>du_key = key, du_revision = None, du_from = from, du_to = to,
                 du_step_mapping = step_mapping, du_node_mapping = [], du_transforms = []\<rparr>))"

definition map_node ::
  "definition_node_upgrade \<Rightarrow> (node_id, node_id) btree_map \<times> node_id set
   \<Rightarrow> definition_error + (node_id, node_id) btree_map \<times> node_id set" where
  "map_node node = (\<lambda>(mapping, targets).
     if length mapping \<ge> MAX_DEFINITION_UPGRADE_NODES then Err (TooManyUpgradeNodes MAX_DEFINITION_UPGRADE_NODES)
     else if bt_contains mapping (dnu_source node) then Err DuplicateSourceNode
     else if dnu_target node \<in> targets then Err DuplicateTargetNode
     else Ok (bt_insert (dnu_source node) (dnu_target node) mapping, insert (dnu_target node) targets))"

definition check_transform ::
  "(node_id, node_id) btree_map \<Rightarrow> definition_state_transform
   \<Rightarrow> (node_id \<times> definition_state_kind \<times> definition_state_transform_id) set
   \<Rightarrow> definition_error + (node_id \<times> definition_state_kind \<times> definition_state_transform_id) set" where
  "check_transform node_mapping t keys =
     (if bt_get node_mapping (dst_source_node t) \<noteq> Some (dst_target_node t) then Err StateTransformOutsideNodeMapping
      else
        let key = (dst_source_node t, dst_kind t, dst_state_id t) in
        if key \<in> keys then Err DuplicateStateTransform else Ok (insert key keys))"

definition definition_upgrade_transformed ::
  "from_slice \<Rightarrow> definition_upgrade_key \<Rightarrow> definition_upgrade_revision \<Rightarrow> definition_identity
   \<Rightarrow> definition_identity \<Rightarrow> definition_node_upgrade list \<Rightarrow> definition_state_transform list
   \<Rightarrow> definition_error + definition_upgrade" where
  "definition_upgrade_transformed from_slice key revision from to nodes transforms =
     (if di_manifest_digest from = di_manifest_digest to then Err UpgradeSelfEdge
      else
        res_bind (try_fold map_node nodes ([], {})) (\<lambda>(node_mapping, targets).
        if node_mapping = [] then Err EmptyStepMapping
        else
          res_bind (definition_upgrade_source_nodes from_slice from) (\<lambda>source_nodes.
          if list_ex (\<lambda>(node, target). node \<notin> source_nodes) node_mapping then Err UnknownUpgradeSourceNode
          else if \<not> (\<forall>node \<in> source_nodes. bt_contains node_mapping node) then Err MissingUpgradeSourceNode
          else
            res_bind (definition_upgrade_source_nodes from_slice to) (\<lambda>target_nodes.
            if list_ex (\<lambda>(source, node). node \<notin> target_nodes) node_mapping then Err UnknownUpgradeTargetNode
            else if length transforms > MAX_DEFINITION_UPGRADE_TRANSFORMS
            then Err (TooManyUpgradeTransforms MAX_DEFINITION_UPGRADE_TRANSFORMS)
            else
              res_bind (try_fold (check_transform node_mapping) transforms {}) (\<lambda>_.
              res_bind (validate_required_definition_state_transforms from_slice from to node_mapping transforms) (\<lambda>_.
              Ok \<lparr>du_key = key, du_revision = Some revision, du_from = from, du_to = to,
                  du_step_mapping = [], du_node_mapping = node_mapping, du_transforms = transforms\<rparr>))))))"

record definition_upgrade_execution =
  due_upgrade :: definition_upgrade
  due_transformers :: "(definition_upgrade_revision, definition_state_transformer) btree_map"

definition add_transformer ::
  "definition_state_transformer \<Rightarrow> (definition_upgrade_revision, definition_state_transformer) btree_map
   \<Rightarrow> definition_error + (definition_upgrade_revision, definition_state_transformer) btree_map" where
  "add_transformer t m =
     (if bt_contains m (dtr_revision t) then Err DuplicateStateTransformer
      else Ok (bt_insert (dtr_revision t) t m))"

definition definition_upgrade_execution_new ::
  "definition_upgrade \<Rightarrow> definition_state_transformer list \<Rightarrow> definition_error + definition_upgrade_execution" where
  "definition_upgrade_execution_new upgrade transformers =
     (if \<not> is_transformed upgrade then Err LegacyUpgradeExecution
      else
        res_bind (try_fold add_transformer transformers []) (\<lambda>implementations.
        if dst_revision ` set (du_transforms upgrade) \<noteq> fst ` set implementations
        then Err StateTransformerSetMismatch
        else Ok \<lparr>due_upgrade = upgrade, due_transformers = implementations\<rparr>))"

definition upgrade_transformer ::
  "definition_upgrade_execution \<Rightarrow> definition_state_transform \<Rightarrow> definition_state_transformer option" where
  "upgrade_transformer e t = bt_get (due_transformers e) (dst_revision t)"


section \<open>Soundness of an edge\<close>

definition matching_transforms ::
  "definition_upgrade \<Rightarrow> node_id \<Rightarrow> node_id \<Rightarrow> definition_durable_state_contract \<Rightarrow> definition_state_transform list" where
  "matching_transforms u source_node target_node c =
     filter (\<lambda>t. dst_source_node t = source_node \<and> dst_target_node t = target_node \<and> dst_kind t = dsc_kind c
       \<and> (case dsc_state_id c of None \<Rightarrow> True | Some i \<Rightarrow> dst_state_id t = i)) (du_transforms u)"

lemma map_node_mapping:
  assumes "try_fold map_node nodes ([], {}) = Ok (mapping, targets)"
  shows "bt_wf mapping" "distinct (map snd mapping)" "length mapping \<le> MAX_DEFINITION_UPGRADE_NODES"
proof -
  let ?inv = "\<lambda>(m, ts). bt_wf m \<and> ts = snd ` set m \<and> distinct (map snd m) \<and> length m \<le> MAX_DEFINITION_UPGRADE_NODES"
  have insert_new: "mset (bt_insert k v m) = add_mset (k, v) (mset m)" if "\<not> bt_contains m k" for k v m
    using that by (induction k v m rule: bt_insert.induct) (auto simp: bt_contains_iff)
  have "?inv (mapping, targets)"
    using assms
  proof (rule try_fold_invariant)
    fix x s t
    assume inv: "?inv s" and step: "map_node x s = Ok t"
    obtain m ts where s: "s = (m, ts)" by (cases s)
    from step have new: "\<not> bt_contains m (dnu_source x)" "dnu_target x \<notin> ts" "length m < MAX_DEFINITION_UPGRADE_NODES"
      and t: "t = (bt_insert (dnu_source x) (dnu_target x) m, insert (dnu_target x) ts)"
      by (auto simp: map_node_def s split: if_splits)
    let ?m = "bt_insert (dnu_source x) (dnu_target x) m"
    note ms = insert_new [OF new(1), of "dnu_target x"]
    have "mset (map snd ?m) = add_mset (dnu_target x) (mset (map snd m))" using ms by simp
    then have "distinct (map snd ?m)"
      using inv new(2) s by (simp add: mset_eq_imp_distinct_iff [of "map snd ?m" "dnu_target x # map snd m"])
    moreover have "set ?m = insert (dnu_source x, dnu_target x) (set m)" "length ?m = Suc (length m)"
      using ms mset_eq_setD [of ?m "(dnu_source x, dnu_target x) # m"] mset_eq_length [of ?m "(dnu_source x, dnu_target x) # m"]
      by simp_all
    ultimately show "?inv t" using inv new by (simp add: s t)
  qed simp
  then show "bt_wf mapping" "distinct (map snd mapping)" "length mapping \<le> MAX_DEFINITION_UPGRADE_NODES"
    by simp_all
qed

lemma add_transformer_keys:
  assumes "try_fold add_transformer ts [] = Ok m"
  shows "\<forall>(k, t) \<in> set m. dtr_revision t = k"
  using assms
  by (rule try_fold_invariant) (auto simp: add_transformer_def split: if_splits dest!: subsetD [OF set_bt_insert_subset])

lemma execution_transformer:
  assumes "definition_upgrade_execution_new u fs = Ok e" "x \<in> set (du_transforms u)"
  shows "\<exists>f. upgrade_transformer e x = Some f \<and> dtr_revision f = dst_revision x"
proof -
  from assms(1) have m: "try_fold add_transformer fs [] = Ok (due_transformers e)"
    "dst_revision ` set (du_transforms u) = fst ` set (due_transformers e)"
    by (auto simp: definition_upgrade_execution_new_def split: if_splits)
  from m(2) assms(2) have "dst_revision x \<in> fst ` set (due_transformers e)" by blast
  then obtain f where f: "bt_get (due_transformers e) (dst_revision x) = Some f"
    by (metis bt_get_None_iff not_None_eq)
  then have "(dst_revision x, f) \<in> set (due_transformers e)" by (rule bt_get_in_set)
  with add_transformer_keys [OF m(1)] have "dtr_revision f = dst_revision x" by auto
  with f show ?thesis by (simp add: upgrade_transformer_def)
qed

lemma required_transform_Ok:
  assumes "required_transform (du_transforms u) s t ds c = Ok w"
  shows "\<exists>d. d \<in> set ds \<and> dsc_kind d = dsc_kind c \<and> dsc_state_id d = dsc_state_id c
    \<and> (matching_transforms u s t c = [] \<and> dsc_schema d = dsc_schema c \<and> dsc_version d = dsc_version c
       \<or> (\<exists>x. matching_transforms u s t c = [x]
            \<and> dst_source_schema x = dsc_schema c \<and> dst_source_version x = dsc_version c
            \<and> dst_target_schema x = dsc_schema d \<and> dst_target_version x = dsc_version d))"
proof -
  from assms obtain d where d: "find (\<lambda>d. dsc_kind d = dsc_kind c \<and> dsc_state_id d = dsc_state_id c) ds = Some d"
    by (auto simp: required_transform_def)
  then have "d \<in> set ds" "dsc_kind d = dsc_kind c" "dsc_state_id d = dsc_state_id c"
    by (auto simp: find_Some_iff)
  with assms d show ?thesis
    by (intro exI [of _ d])
      (auto simp: required_transform_def matching_transforms_def [symmetric] Let_def split: if_splits list.splits)
qed

text \<open>
  C25. A compatible-upgrade edge never reinterprets durable state.  For an accepted edge the node mapping is
  injective and covers exactly the nodes of the source definition; for every mapped node and every
  durable state the source manifest declares there, the target manifest declares the same state, and
  either the schema and version are unchanged with no transform declared, or exactly one transform is
  declared, with exactly these two schemas and versions, and the executable edge holds an
  implementation of precisely its revision.
\<close>

theorem upgrade_edge_sound:
  assumes edge: "definition_upgrade_transformed from_slice key revision from to nodes transforms = Ok u"
    and live: "definition_upgrade_execution_new u implementations = Ok e"
  shows "definition_upgrade_source_nodes from_slice from = Ok (fst ` set (du_node_mapping u))
    \<and> distinct (map fst (du_node_mapping u)) \<and> distinct (map snd (du_node_mapping u))
    \<and> (\<forall>s t cs c. (s, t) \<in> set (du_node_mapping u) \<and> definition_durable_state_contracts from_slice from s = Ok cs
         \<and> c \<in> set cs \<longrightarrow>
       (\<exists>ds d. definition_durable_state_contracts from_slice to t = Ok ds \<and> d \<in> set ds
         \<and> dsc_kind d = dsc_kind c \<and> dsc_state_id d = dsc_state_id c
         \<and> (matching_transforms u s t c = [] \<and> dsc_schema d = dsc_schema c \<and> dsc_version d = dsc_version c
            \<or> (\<exists>x f. matching_transforms u s t c = [x]
                 \<and> dst_source_schema x = dsc_schema c \<and> dst_source_version x = dsc_version c
                 \<and> dst_target_schema x = dsc_schema d \<and> dst_target_version x = dsc_version d
                 \<and> upgrade_transformer e x = Some f \<and> dtr_revision f = dst_revision x))))"
proof -
  from edge obtain mapping targets sources where
    mapping: "try_fold map_node nodes ([], {}) = Ok (mapping, targets)"
    and sources: "definition_upgrade_source_nodes from_slice from = Ok sources"
      "\<not> list_ex (\<lambda>(node, target). node \<notin> sources) mapping" "\<forall>node \<in> sources. bt_contains mapping node"
    and checked: "validate_required_definition_state_transforms from_slice from to mapping transforms = Ok ()"
    and u: "du_node_mapping u = mapping" "du_transforms u = transforms"
    by (auto simp: definition_upgrade_transformed_def split: if_splits)
  note wf = map_node_mapping [OF mapping]
  have "sources = fst ` set mapping"
    using sources(2,3) by (fastforce simp: list_ex_iff bt_contains_iff)
  moreover have "\<exists>ds d. definition_durable_state_contracts from_slice to t = Ok ds \<and> d \<in> set ds
         \<and> dsc_kind d = dsc_kind c \<and> dsc_state_id d = dsc_state_id c
         \<and> (matching_transforms u s t c = [] \<and> dsc_schema d = dsc_schema c \<and> dsc_version d = dsc_version c
            \<or> (\<exists>x f. matching_transforms u s t c = [x]
                 \<and> dst_source_schema x = dsc_schema c \<and> dst_source_version x = dsc_version c
                 \<and> dst_target_schema x = dsc_schema d \<and> dst_target_version x = dsc_version d
                 \<and> upgrade_transformer e x = Some f \<and> dtr_revision f = dst_revision x))"
    if "(s, t) \<in> set mapping" "definition_durable_state_contracts from_slice from s = Ok cs" "c \<in> set cs" for s t cs c
  proof -
    from checked that obtain ds where ds: "definition_durable_state_contracts from_slice to t = Ok ds"
        "required_transform (du_transforms u) s t ds c = Ok ()"
      by (force simp: validate_required_definition_state_transforms_def try_each_Ok_iff u)
    from required_transform_Ok [OF ds(2)] obtain d where d: "d \<in> set ds" "dsc_kind d = dsc_kind c" "dsc_state_id d = dsc_state_id c"
      "matching_transforms u s t c = [] \<and> dsc_schema d = dsc_schema c \<and> dsc_version d = dsc_version c
       \<or> (\<exists>x. matching_transforms u s t c = [x]
            \<and> dst_source_schema x = dsc_schema c \<and> dst_source_version x = dsc_version c
            \<and> dst_target_schema x = dsc_schema d \<and> dst_target_version x = dsc_version d)"
      by blast
    have "\<exists>f. upgrade_transformer e x = Some f \<and> dtr_revision f = dst_revision x" if "matching_transforms u s t c = [x]" for x
    proof -
      have "x \<in> set (matching_transforms u s t c)" using that by simp
      then have "x \<in> set (du_transforms u)" by (simp add: matching_transforms_def)
      with live show ?thesis by (rule execution_transformer)
    qed
    with ds(1) d show ?thesis by blast
  qed
  ultimately show ?thesis
    using sources(1) wf bt_wf_distinct unfolding u by blast
qed


text \<open>Two revisions of a one-step chunk job, the second with a newer checkpoint schema.\<close>

definition example_manifest :: "u32 \<Rightarrow> json" where
  "example_manifest v = json_object
     [(''checkpoint'', json_object [(''schema'', json_literal ''p''), (''version'', json_unsigned v)]),
      (''context'', json_object [(''schema'', json_literal ''c''), (''version'', json_unsigned (1 :: u32))]),
      (''kind'', json_literal ''chunk''), (''step'', json_literal ''s'')]"

definition example_manifests :: from_slice where
  "example_manifests b = (if b = [1] then Some (example_manifest 1) else if b = [2] then Some (example_manifest 2) else None)"

definition example_revision :: "u8 \<Rightarrow> definition_identity" where
  "example_revision n = \<lparr>di_job_name = None, di_revision = [114], di_manifest_format = 1,
     di_manifest_digest = [n], di_canonical_manifest = [n]\<rparr>"

definition example_transform :: definition_state_transform where
  "example_transform = \<lparr>dst_source_node = lit ''s'', dst_target_node = lit ''s'', dst_kind = DskCheckpoint,
     dst_state_id = lit ''p'', dst_source_schema = lit ''p'', dst_source_version = 1,
     dst_target_schema = lit ''p'', dst_target_version = 2, dst_revision = lit ''t''\<rparr>"

definition example_edge :: "definition_error + definition_upgrade" where
  "example_edge = definition_upgrade_transformed example_manifests (lit ''k'') (lit ''r'')
     (example_revision 1) (example_revision 2) [\<lparr>dnu_source = lit ''s'', dnu_target = lit ''s''\<rparr>] [example_transform]"

definition example_execution :: "definition_upgrade \<Rightarrow> definition_error + definition_upgrade_execution" where
  "example_execution u = definition_upgrade_execution_new u [\<lparr>dtr_revision = lit ''t'', dtr_apply = Ok\<rparr>]"

lemma object_document:
  obtains m where "as_object (json_object ms) = Some m" "\<And>k. member_get m k = json_get (json_object ms) k"
  by (simp add: json_object_def json_get_def member_get_def)

lemma example_tokens: "name_valid MAX_TOKEN_BYTES (lit ''s'')" "state_schema_id_valid (lit ''p'')" "state_schema_id_valid (lit ''c'')"
  by (simp_all add: name_valid_def state_schema_id_valid_def trim_eq_self_iff lit_def str_len_def utf8_width_def
      is_whitespace_def is_control_def MAX_TOKEN_BYTES_def MAX_SCHEMA_ID_BYTES_def)

lemma example_schema_contract:
  assumes "state_schema_id_valid (lit schema)" "v \<noteq> 0"
  shows "schema_contract kind None (json_object [(''schema'', json_literal schema), (''version'', json_unsigned (v :: u32))]) ''schema'' =
    Ok \<lparr>dsc_kind = kind, dsc_state_id = None, dsc_schema = lit schema, dsc_version = v\<rparr>"
proof -
  have "state_schema_id_new (lit schema) = Ok (lit schema)" using assms(1) by (simp add: state_schema_id_new_Ok)
  with assms(2) show ?thesis
    by (rule_tac ms = "[(''schema'', json_literal schema), (''version'', json_unsigned v)]" in object_document)
      (simp add: schema_contract_def and_then_def try_from_u64_ucast state_schema_version_new_def)
qed

lemma example_contracts:
  assumes "v \<noteq> 0" "from_slice [n] = Some (example_manifest v)"
  shows "definition_durable_state_contracts from_slice (example_revision n) (lit ''s'') =
      Ok [\<lparr>dsc_kind = DskCheckpoint, dsc_state_id = None, dsc_schema = lit ''p'', dsc_version = v\<rparr>,
          \<lparr>dsc_kind = DskExecutionContext, dsc_state_id = None, dsc_schema = lit ''c'', dsc_version = 1\<rparr>]"
    and "definition_upgrade_source_nodes from_slice (example_revision n) = Ok {lit ''s''}"
proof -
  obtain m where m: "as_object (example_manifest v) = Some m" "\<And>k. member_get m k = json_get (example_manifest v) k"
    unfolding example_manifest_def using object_document by blast
  have get: "json_get (example_manifest v) ''step'' = Some (json_literal ''s'')"
    "json_get (example_manifest v) ''kind'' = Some (json_literal ''chunk'')"
    "json_get (example_manifest v) ''checkpoint'' = Some (json_object [(''schema'', json_literal ''p''), (''version'', json_unsigned v)])"
    "json_get (example_manifest v) ''context'' = Some (json_object [(''schema'', json_literal ''c''), (''version'', json_unsigned (1 :: u32))])"
    by (simp_all add: example_manifest_def)
  have node: "node_id_new (lit ''s'') = Ok (lit ''s'')"
    unfolding node_id_new_def definition_token_new_Ok_iff using example_tokens by simp
  show "definition_upgrade_source_nodes from_slice (example_revision n) = Ok {lit ''s''}"
    using assms(2) by (simp add: definition_upgrade_source_nodes_def example_revision_def m get and_then_def node
        MANIFEST_FORMAT_ONE_STEP_def)
  show "definition_durable_state_contracts from_slice (example_revision n) (lit ''s'') =
      Ok [\<lparr>dsc_kind = DskCheckpoint, dsc_state_id = None, dsc_schema = lit ''p'', dsc_version = v\<rparr>,
          \<lparr>dsc_kind = DskExecutionContext, dsc_state_id = None, dsc_schema = lit ''c'', dsc_version = 1\<rparr>]"
    using assms example_tokens by (simp add: definition_durable_state_contracts_def example_revision_def m get and_then_def
        MANIFEST_FORMAT_ONE_STEP_def one_step_durable_state_contracts_def example_schema_contract)
qed

lemma example_edge_live: "is_ok (res_bind example_edge example_execution)"
proof -
  have docs: "example_manifests [1] = Some (example_manifest 1)" "example_manifests [2] = Some (example_manifest 2)"
    by (simp_all add: example_manifests_def)
  have digest: "di_manifest_digest (example_revision 1) \<noteq> di_manifest_digest (example_revision 2)"
    by (simp add: example_revision_def)
  have bound: "MAX_DEFINITION_UPGRADE_NODES > 0" "MAX_DEFINITION_UPGRADE_TRANSFORMS > 0"
    by (simp_all add: MAX_DEFINITION_UPGRADE_NODES_def MAX_DEFINITION_UPGRADE_TRANSFORMS_def MAX_NODES_def MAX_TRANSITIONS_def)
  note contracts = example_contracts [of 1 example_manifests 1, OF _ docs(1), simplified]
    example_contracts [of 2 example_manifests 2, OF _ docs(2), simplified]
  show ?thesis
    using bound
    by (simp add: example_edge_def example_execution_def definition_upgrade_transformed_def digest map_node_def
        contracts check_transform_def example_transform_def
        validate_required_definition_state_transforms_def required_transform_def bt_contains_def bt_get_def
        definition_upgrade_execution_new_def is_transformed_def add_transformer_def)
qed

theorem upgrade_edge_sound_witness:
  "\<exists>u e. example_edge = Ok u \<and> example_execution u = Ok e
     \<and> definition_upgrade_source_nodes example_manifests (example_revision 1) = Ok (fst ` set (du_node_mapping u))"
proof -
  obtain u e where live: "example_edge = Ok u" "example_execution u = Ok e"
    using example_edge_live by (auto simp: is_ok_iff)
  from upgrade_edge_sound [OF live(1) [unfolded example_edge_def] live(2) [unfolded example_execution_def]] live
  show ?thesis by blast
qed

end
