(* ===== verification/Repository_Port.thy ===== *)
theory Repository_Port
  imports Parameters Partition Definition_Upgrade Scope
begin

text \<open>
  The values of the repository port, \<^verbatim>\<open>oxide-batch-repository\<close>: repository errors and identifier
  generation, recovery requests and what recovering an execution does (\<^verbatim>\<open>repository.rs\<close>), definition
  registrations (\<^verbatim>\<open>definition.rs\<close>), scope-resolution provenance (\<^verbatim>\<open>scope.rs\<close>), repeat ordinals and
  lineages (\<^verbatim>\<open>repeat.rs\<close>), nested-job links (\<^verbatim>\<open>nested_job.rs\<close>), forks (\<^verbatim>\<open>fork.rs\<close>) and flow
  decisions (\<^verbatim>\<open>flow.rs\<close>).  The clock and the identifier generator are trait objects: an operation
  that reads them takes what they returned as an argument.
\<close>

section \<open>Errors and identifiers\<close>

datatype id_generation_error = IdExhausted identifier_kind | IdInvalid domain_error

datatype repository_capability =
    DefinitionRegistry | OperatorRequests | StopRequests | ExecutionOwnership | InstanceHolds | RetentionPurge
  | StepPartitions | CustomLeafState | NestedJobs | ScopeResolution | RepeatState

datatype (plugins only: code size) repository_error =
    SchemaUninitialized
  | MigrationRequired u32 u32
  | NewerSchema u32 u32
  | IdentifierOutOfRange identifier_kind u64
  | JobInstanceNotFound job_instance_id
  | JobExecutionNotFound job_execution_id
  | StepExecutionNotFound step_execution_id
  | StepPartitionNotFound step_partition_id
  | EmptyPartitionPlan
  | PartitionPlanTooLarge nat
  | DuplicatePartitionKey
  | PartitionPlanExists step_execution_id
  | PartitionPlanNotCommitted step_execution_id
  | PartitionUpdateNotAllowed step_partition_id batch_status
  | PartitionWorkerMismatch step_partition_id step_execution_id
  | PartitionWorkerAlreadyAssigned step_execution_id
  | PartitionWorkerStale step_partition_id step_execution_id
  | PartitionParentNotActive step_execution_id batch_status
  | PartitionAggregationIncomplete step_execution_id batch_status
  | PartitionStateCorrupt
  | DuplicateIdentifier identifier_kind u64
  | CompletedInstance job_instance_id
  | AbandonedInstance job_instance_id
  | ExecutionAlreadyActive job_instance_id job_execution_id batch_status
  | DefinitionDrift job_name definition_revision
  | DefinitionNotRegistered job_name definition_revision
  | DefinitionArtifactDrift job_name definition_revision
  | DefinitionRegistryStateCorrupt
  | ForkInstanceCollision job_instance_id
  | ForkOperationConflict
  | ForkSourceStale
  | ForkSourceNotTerminal
  | ForkStateCorrupt
  | ForkTransformRejected
  | DefinitionJobMismatch job_name job_name
  | IncompatibleDefinition job_instance_id
  | UnsupportedManifestVersion u16
  | DefinitionUpgradeFailed
  | InvalidDefinitionUpgrade job_execution_id
  | DefinitionUpgradeConflict job_name
  | RestartStateNotFound job_execution_id step_name
  | FaultStateCorrupt
  | StartLimitExceeded job_instance_id node_id start_limit
  | FlowStateCorrupt
  | NestedJobStateCorrupt
  | ScopeResolutionStateCorrupt
  | RepeatStateCorrupt
  | RepeatOrdinalConflict u32 u32
  | RepeatAlreadyComplete
  | NestedJobChildUnresolved job_execution_id batch_status
  | RecoveryNotAllowed job_execution_id batch_status
  | ExecutionOwned job_execution_id
  | ExecutionOwnershipNotAllowed job_execution_id batch_status
  | RepoDomain domain_error
  | RepoIdentifier id_generation_error
  | RepoLifecycle lifecycle_error
  | RetentionPlanStale
  | UnsupportedCapability repository_capability
  | ConcurrentModification
  | CommitOutcomeUnknown
  | RepoUnavailable

text \<open>The sequence of \<^verbatim>\<open>SequentialIdGenerator\<close>; the state 0 is the exhausted one.\<close>

definition next_raw :: "identifier_kind \<Rightarrow> u64 \<Rightarrow> (id_generation_error + u64) \<times> u64" where
  "next_raw kind current =
     (if current = 0 then (Err (IdExhausted kind), current)
      else (Ok current, unwrap_or (checked_add current 1) 0))"

definition next_id :: "identifier_kind \<Rightarrow> u64 \<Rightarrow> (id_generation_error + u64) \<times> u64" where
  "next_id kind current =
     (let (r, s) = next_raw kind current in (res_bind r (\<lambda>v. map_err IdInvalid (opaque_id_new kind v)), s))"

section \<open>Recovery\<close>

definition MAX_RECOVERY_REASON_BYTES :: nat where "MAX_RECOVERY_REASON_BYTES = 64"
definition MAX_OPERATOR_REFERENCE_BYTES :: nat where "MAX_OPERATOR_REFERENCE_BYTES = 128"

datatype recovery_disposition = MarkFailed | Abandon

fun resulting_status :: "recovery_disposition \<Rightarrow> batch_status" where
  "resulting_status MarkFailed = Failed"
| "resulting_status Abandon = Abandoned"

datatype recovery_field = RecoveryReasonCode | RecoveryOperatorReference

datatype recovery_request_error =
    RecoveryEmpty recovery_field
  | RecoveryTooLong recovery_field nat
  | RecoverySurroundingWhitespace recovery_field
  | RecoveryControlCharacter recovery_field

record recovery_request =
  rr_expected_version :: execution_version
  rr_disposition :: recovery_disposition
  rr_reason_code :: rstr
  rr_operator_reference :: rstr
  rr_evidence_digest :: digest
  rr_failure :: "failure_summary option"

definition validate_recovery_text :: "rstr \<Rightarrow> recovery_field \<Rightarrow> nat \<Rightarrow> recovery_request_error + unit" where
  "validate_recovery_text v field max_bytes =
     (if v = [] then Err (RecoveryEmpty field)
      else if str_len v > max_bytes then Err (RecoveryTooLong field max_bytes)
      else if trim v \<noteq> v then Err (RecoverySurroundingWhitespace field)
      else if list_ex is_control v then Err (RecoveryControlCharacter field)
      else Ok ())"

definition recovery_request_new ::
  "execution_version \<Rightarrow> recovery_disposition \<Rightarrow> rstr \<Rightarrow> rstr \<Rightarrow> digest \<Rightarrow> failure_summary option
   \<Rightarrow> recovery_request_error + recovery_request" where
  "recovery_request_new expected disposition reason operator_reference evidence failure =
     res_bind (validate_recovery_text reason RecoveryReasonCode MAX_RECOVERY_REASON_BYTES) (\<lambda>_.
     res_bind (validate_recovery_text operator_reference RecoveryOperatorReference MAX_OPERATOR_REFERENCE_BYTES) (\<lambda>_.
     Ok \<lparr>rr_expected_version = expected, rr_disposition = disposition, rr_reason_code = reason,
         rr_operator_reference = operator_reference, rr_evidence_digest = evidence, rr_failure = failure\<rparr>))"

definition recovery_mark_failed ::
  "execution_version \<Rightarrow> rstr \<Rightarrow> rstr \<Rightarrow> digest \<Rightarrow> failure_category \<Rightarrow> failure_id
   \<Rightarrow> recovery_request_error + recovery_request" where
  "recovery_mark_failed expected reason operator_reference evidence category failure_id =
     recovery_request_new expected MarkFailed reason operator_reference evidence
       (Some \<lparr>fs_category = category, fs_failure_id = failure_id\<rparr>)"

definition recovery_abandon ::
  "execution_version \<Rightarrow> rstr \<Rightarrow> rstr \<Rightarrow> digest \<Rightarrow> recovery_request_error + recovery_request" where
  "recovery_abandon expected reason operator_reference evidence =
     recovery_request_new expected Abandon reason operator_reference evidence None"

record recovery_decision =
  rd_id :: recovery_decision_id
  rd_job_execution_id :: job_execution_id
  rd_execution_version :: execution_version
  rd_prior_status :: batch_status
  rd_resulting_status :: batch_status
  rd_reason_code :: rstr
  rd_operator_reference :: rstr
  rd_evidence_digest :: digest
  rd_decided_at :: system_time

definition recovered_metadata ::
  "execution_metadata \<Rightarrow> recovery_request \<Rightarrow> system_time \<Rightarrow> repository_error + execution_metadata" where
  "recovered_metadata m request decided_at =
     res_bind (map_err RepoDomain (execution_timestamps_new (et_created_at (em_timestamps m))
       (et_started_at (em_timestamps m)) (Some decided_at))) (\<lambda>timestamps.
     map_err RepoDomain (execution_metadata_new (resulting_status (rr_disposition request)) (em_exit_status m)
       timestamps (em_counts m) (rr_failure request)))"

definition recovered_execution ::
  "job_execution \<Rightarrow> recovery_request \<Rightarrow> system_time \<Rightarrow> repository_error + job_execution" where
  "recovered_execution prior request decided_at =
     (let status = em_status (je_metadata prior) in
      if je_version prior \<noteq> rr_expected_version request
      then Err (RepoLifecycle (StaleVersion (rr_expected_version request) (je_version prior)))
      else if \<not> (status = Starting \<or> status = Started \<or> status = Stopping \<or> status = Unknown)
      then Err (RecoveryNotAllowed (je_id prior) status)
      else
        res_bind (recovered_metadata (je_metadata prior) request decided_at) (\<lambda>metadata.
        res_bind (map_err RepoLifecycle (version_next (je_version prior))) (\<lambda>version.
        Ok \<lparr>je_id = je_id prior, je_job_instance_id = je_job_instance_id prior, je_metadata = metadata,
            je_version = version\<rparr>)))"

definition recovered_step_execution ::
  "step_execution \<Rightarrow> recovery_request \<Rightarrow> system_time \<Rightarrow> repository_error + step_execution option" where
  "recovered_step_execution prior request decided_at =
     (let status = em_status (se_metadata prior) in
      if is_finished status then Ok None
      else if \<not> is_active status \<and> status \<noteq> Unknown
      then Err (RepoLifecycle (IllegalTransition status (resulting_status (rr_disposition request))))
      else
        res_bind (recovered_metadata (se_metadata prior) request decided_at) (\<lambda>metadata.
        res_bind (map_err RepoLifecycle (version_next (se_version prior))) (\<lambda>version.
        Ok (Some \<lparr>se_id = se_id prior, se_job_execution_id = se_job_execution_id prior,
                  se_step_name = se_step_name prior, se_metadata = metadata, se_version = version\<rparr>))))"

section \<open>Definition registrations and instance selection\<close>

datatype job_instance_selection = SelCreated job_instance | SelExisting job_instance

record definition_registration =
  dr_job_name :: job_name
  dr_definition :: definition_identity
  dr_artifact :: rstr

definition definition_registration_new :: "definition_identity \<Rightarrow> rstr \<Rightarrow> unit + definition_registration" where
  "definition_registration_new d artifact =
     res_bind (ok_or (di_job_name d) ()) (\<lambda>job_name.
     Ok \<lparr>dr_job_name = job_name, dr_definition = d, dr_artifact = artifact\<rparr>)"

abbreviation dr_revision :: "definition_registration \<Rightarrow> definition_revision" where
  "dr_revision r \<equiv> di_revision (dr_definition r)"

section \<open>Scope-resolution provenance\<close>

datatype scope_resolution_source =
    SrcJobParameter job_execution_id parameter_name
  | SrcJobContext job_execution_id execution_version state_schema_id state_schema_version "rstr list"
  | SrcStepContext node_id "step_execution_id option" "execution_version option" state_schema_id
      state_schema_version "rstr list"
  | SrcFramework scope_framework_source job_execution_id "step_execution_id option"

datatype scope_resolution_provenance_error = ProvInvalidOwner | ProvInvalidPath | ProvInvalidSource

fun source_validate_shape :: "scope_resolution_source \<Rightarrow> scope_resolution_provenance_error + unit" where
  "source_validate_shape (SrcJobParameter j p) = Ok ()"
| "source_validate_shape (SrcFramework f j s) = Ok ()"
| "source_validate_shape (SrcJobContext j v schema sv path) =
     (if selector_path_is_valid path then Ok () else Err ProvInvalidPath)"
| "source_validate_shape (SrcStepContext n s v schema sv path) =
     (if \<not> selector_path_is_valid path then Err ProvInvalidPath
      else if (s \<noteq> None) \<noteq> (v \<noteq> None) then Err ProvInvalidSource
      else Ok ())"

record scope_resolution_provenance =
  srp_scope :: scope_kind
  srp_component :: scoped_component_id
  srp_input :: parameter_name
  srp_owner_job :: job_execution_id
  srp_owner_step :: "step_execution_id option"
  srp_source :: scope_resolution_source

fun source_owner_valid ::
  "scope_resolution_source \<Rightarrow> job_execution_id \<Rightarrow> step_execution_id option \<Rightarrow> bool" where
  "source_owner_valid (SrcFramework f j s) owner_job owner_step = (j = owner_job \<and> s = owner_step)"
| "source_owner_valid _ owner_job owner_step = True"

definition scope_resolution_provenance_new ::
  "scope_kind \<Rightarrow> scoped_component_id \<Rightarrow> parameter_name \<Rightarrow> job_execution_id \<Rightarrow> step_execution_id option
   \<Rightarrow> scope_resolution_source \<Rightarrow> scope_resolution_provenance_error + scope_resolution_provenance" where
  "scope_resolution_provenance_new scope component input owner_job owner_step source =
     (let owner_shape_valid = (case scope of ScopeJob \<Rightarrow> owner_step = None | ScopeStep \<Rightarrow> owner_step \<noteq> None) in
      if \<not> owner_shape_valid then Err ProvInvalidOwner
      else
        res_bind (source_validate_shape source) (\<lambda>_.
        if \<not> source_owner_valid source owner_job owner_step then Err ProvInvalidSource
        else Ok \<lparr>srp_scope = scope, srp_component = component, srp_input = input, srp_owner_job = owner_job,
                 srp_owner_step = owner_step, srp_source = source\<rparr>))"

section \<open>Repeats\<close>

type_synonym repeat_ordinal = u32
type_synonym repeat_lineage = "(repeat_id \<times> repeat_ordinal) list"

definition repeat_ordinal_checked_next :: "repeat_ordinal \<Rightarrow> repeat_ordinal option" where
  "repeat_ordinal_checked_next n = checked_add n 1"

definition lineage_child :: "repeat_lineage \<Rightarrow> repeat_id \<Rightarrow> repeat_ordinal \<Rightarrow> repeat_lineage option" where
  "lineage_child lineage parent ordinal =
     (if length lineage \<ge> MAX_REPEAT_NESTING_DEPTH - 1 \<or> list_ex (\<lambda>(i, n). i = parent) lineage then None
      else Some (lineage @ [(parent, ordinal)]))"

fun lineage_extend :: "repeat_lineage \<Rightarrow> (repeat_id \<times> repeat_ordinal) list \<Rightarrow> repeat_lineage option" where
  "lineage_extend lineage [] = Some lineage"
| "lineage_extend lineage ((i, n) # rest) =
     (case lineage_child lineage i n of None \<Rightarrow> None | Some l \<Rightarrow> lineage_extend l rest)"

definition lineage_from_ancestors :: "(repeat_id \<times> repeat_ordinal) list \<Rightarrow> repeat_lineage option" where
  "lineage_from_ancestors ancestors = lineage_extend [] ancestors"

datatype repeat_decision = RepeatContinue | RepeatComplete

record repeat_execution =
  re_job_instance_id :: job_instance_id
  re_node_id :: node_id
  re_definition_node_id :: node_id
  re_step_execution_id :: step_execution_id
  re_repeat_id :: repeat_id
  re_lineage :: repeat_lineage
  re_ordinal :: repeat_ordinal
  re_state :: execution_context
  re_decision :: repeat_decision
  re_plan_fingerprint :: digest

record repeat_commit_request =
  rcr_job_instance_id :: job_instance_id
  rcr_node_id :: node_id
  rcr_definition_node :: "node_id option"
  rcr_step_execution_id :: step_execution_id
  rcr_repeat_id :: repeat_id
  rcr_lineage :: repeat_lineage
  rcr_ordinal :: repeat_ordinal
  rcr_state :: execution_context
  rcr_decision :: repeat_decision
  rcr_plan_fingerprint :: digest

definition rcr_definition_node_id :: "repeat_commit_request \<Rightarrow> node_id" where
  "rcr_definition_node_id r = unwrap_or (rcr_definition_node r) (rcr_node_id r)"

section \<open>Nested jobs, forks and flow decisions\<close>

record nested_job_terminal_observation =
  nto_status :: batch_status
  nto_exit_status :: exit_status
  nto_observed_at :: system_time

record nested_job_link =
  njl_parent_job_instance_id :: job_instance_id
  njl_parent_job_execution_id :: job_execution_id
  njl_node_id :: node_id
  njl_child_definition :: definition_identity
  njl_child_job_instance_id :: job_instance_id
  njl_child_job_execution_id :: job_execution_id
  njl_linked_at :: system_time
  njl_terminal :: "nested_job_terminal_observation option"

record nested_job_link_request =
  nlr_parent_job_instance_id :: job_instance_id
  nlr_parent_job_execution_id :: job_execution_id
  nlr_node_id :: node_id
  nlr_child_definition :: definition_identity
  nlr_child_parameters :: job_parameters
  nlr_linked_at :: system_time

type_synonym operation_id = rstr

record fork_context_transform =
  fct_source_step_execution_id :: step_execution_id
  fct_source_step_version :: execution_version
  fct_descriptor :: definition_state_transform

record fork_request =
  fr_operation_id :: operation_id
  fr_source_execution_id :: job_execution_id
  fr_source_version :: execution_version
  fr_target :: definition_registration
  fr_parameters :: job_parameters
  fr_context_transform :: "fork_context_transform option"

definition fork_target_key :: "fork_request \<Rightarrow> job_instance_key" where
  "fork_target_key r = job_instance_key_new (dr_job_name (fr_target r)) (fr_parameters r)"

record fork_lineage =
  fl_operation_id :: operation_id
  fl_source_execution_id :: job_execution_id
  fl_source_version :: execution_version
  fl_source_definition_digest :: digest
  fl_source_state_digest :: digest
  fl_target :: definition_registration
  fl_target_instance_id :: job_instance_id
  fl_target_execution_id :: job_execution_id
  fl_target_parameters_digest :: digest
  fl_context_transform :: "fork_context_transform option"

definition fork_lineage_new ::
  "sha256 \<Rightarrow> fork_request \<Rightarrow> definition_identity \<Rightarrow> digest \<Rightarrow> job_instance_id \<Rightarrow> job_execution_id \<Rightarrow> fork_lineage" where
  "fork_lineage_new sha256 request source_definition source_state_digest target_instance target_execution =
     \<lparr>fl_operation_id = fr_operation_id request, fl_source_execution_id = fr_source_execution_id request,
      fl_source_version = fr_source_version request,
      fl_source_definition_digest = di_manifest_digest source_definition,
      fl_source_state_digest = source_state_digest, fl_target = fr_target request,
      fl_target_instance_id = target_instance, fl_target_execution_id = target_execution,
      fl_target_parameters_digest = flow_input_digest sha256 (fr_parameters request),
      fl_context_transform = fr_context_transform request\<rparr>"

definition lineage_matches_request :: "sha256 \<Rightarrow> fork_lineage \<Rightarrow> fork_request \<Rightarrow> bool" where
  "lineage_matches_request sha256 l r \<longleftrightarrow>
     fl_operation_id l = fr_operation_id r \<and> fl_source_execution_id l = fr_source_execution_id r
     \<and> fl_source_version l = fr_source_version r \<and> fl_target l = fr_target r
     \<and> fl_target_parameters_digest l = flow_input_digest sha256 (fr_parameters r)
     \<and> fl_context_transform l = fr_context_transform r"

type_synonym flow_decision_id = u64
type_synonym flow_decision_sequence = u64

datatype flow_transition_kind = StepExit | DeciderExit | CompletedStepReuse | SplitAggregate | NestedJobExit

record flow_decision_request =
  fdr_job_execution_id :: job_execution_id
  fdr_sequence :: flow_decision_sequence
  fdr_source_node_id :: node_id
  fdr_source_step_execution_id :: "step_execution_id option"
  fdr_kind :: flow_transition_kind
  fdr_observed_outcome :: exit_code
  fdr_target :: flow_target
  fdr_plan_fingerprint :: digest
  fdr_input_digest :: digest
  fdr_reused_decision_id :: "flow_decision_id option"
  fdr_decided_at :: system_time

text \<open>A materialized decision is the request with the identifier it was given.\<close>

record flow_decision = flow_decision_request +
  fd_id :: flow_decision_id

definition decision_materialize :: "flow_decision_request \<Rightarrow> flow_decision_id \<Rightarrow> flow_decision" where
  "decision_materialize r i = flow_decision_request.extend r \<lparr>fd_id = i\<rparr>"

record flow_step_state =
  fss_node_id :: node_id
  fss_execution :: step_execution
  fss_context :: "execution_context option"

end
