(* ===== verification/Operator_Port.thy ===== *)
theory Operator_Port
  imports Repository_Port
begin

text \<open>
  Operator requests and retention of \<^verbatim>\<open>oxide-batch-repository\<close>: bounded references and the canonical
  request digest (\<^verbatim>\<open>request.rs\<close>), operator requests, rejections and audit records (\<^verbatim>\<open>operator.rs\<close>), and
  holds, purge plans with their digest and retention records (\<^verbatim>\<open>retention.rs\<close>).  A recovery request is
  built from the four fields it reads of a recovery proposal.
\<close>

section \<open>Bounded references\<close>

definition MAX_ACTOR_REF_BYTES :: nat where "MAX_ACTOR_REF_BYTES = 128"
definition MAX_REASON_CODE_BYTES :: nat where "MAX_REASON_CODE_BYTES = 64"
definition MAX_OPERATION_ID_BYTES :: nat where "MAX_OPERATION_ID_BYTES = 64"

datatype request_field = FieldActorRef | FieldReasonCode | FieldOperationId

datatype request_field_error =
    RequestFieldEmpty request_field
  | RequestFieldTooLong request_field nat
  | RequestFieldInvalidCharacter request_field

definition is_ascii_uppercase :: "nat \<Rightarrow> bool" where "is_ascii_uppercase c \<longleftrightarrow> 0x41 \<le> c \<and> c \<le> 0x5A"
definition is_ascii_lowercase :: "nat \<Rightarrow> bool" where "is_ascii_lowercase c \<longleftrightarrow> 0x61 \<le> c \<and> c \<le> 0x7A"
definition is_ascii_digit :: "nat \<Rightarrow> bool" where "is_ascii_digit c \<longleftrightarrow> 0x30 \<le> c \<and> c \<le> 0x39"

definition is_ascii_alphanumeric :: "nat \<Rightarrow> bool" where
  "is_ascii_alphanumeric c \<longleftrightarrow> is_ascii_uppercase c \<or> is_ascii_lowercase c \<or> is_ascii_digit c"

definition is_actor_character :: "nat \<Rightarrow> bool" where
  "is_actor_character c \<longleftrightarrow> is_ascii_alphanumeric c \<or> c \<in> set (lit ''._:@-'')"

definition is_reason_character :: "nat \<Rightarrow> bool" where
  "is_reason_character c \<longleftrightarrow> is_ascii_uppercase c \<or> is_ascii_digit c \<or> c \<in> set (lit ''_'')"

definition is_operation_character :: "nat \<Rightarrow> bool" where
  "is_operation_character c \<longleftrightarrow> is_ascii_alphanumeric c \<or> c \<in> set (lit ''._:-'')"

definition validate_reference ::
  "rstr \<Rightarrow> request_field \<Rightarrow> nat \<Rightarrow> (nat \<Rightarrow> bool) \<Rightarrow> request_field_error + unit" where
  "validate_reference v field max_bytes allowed =
     (if v = [] then Err (RequestFieldEmpty field)
      else if str_len v > max_bytes then Err (RequestFieldTooLong field max_bytes)
      else if \<not> list_all allowed v then Err (RequestFieldInvalidCharacter field)
      else Ok ())"

type_synonym actor_ref = rstr
type_synonym reason_code = rstr

definition actor_ref_new :: "rstr \<Rightarrow> request_field_error + actor_ref" where
  "actor_ref_new v = res_bind (validate_reference v FieldActorRef MAX_ACTOR_REF_BYTES is_actor_character) (\<lambda>_. Ok v)"

definition reason_code_new :: "rstr \<Rightarrow> request_field_error + reason_code" where
  "reason_code_new v = res_bind (validate_reference v FieldReasonCode MAX_REASON_CODE_BYTES is_reason_character) (\<lambda>_. Ok v)"

definition operation_id_new :: "rstr \<Rightarrow> request_field_error + operation_id" where
  "operation_id_new v =
     res_bind (validate_reference v FieldOperationId MAX_OPERATION_ID_BYTES is_operation_character) (\<lambda>_. Ok v)"

section \<open>Canonical bytes\<close>

definition push_bytes :: "u8 list \<Rightarrow> u8 list \<Rightarrow> u8 list" where
  "push_bytes v w = w @ to_be_bytes (length_word (length v) :: u64) @ v"

definition push_str :: "rstr \<Rightarrow> u8 list \<Rightarrow> u8 list" where
  "push_str v w = push_bytes (as_bytes v) w"

definition push_u64 :: "u64 \<Rightarrow> u8 list \<Rightarrow> u8 list" where
  "push_u64 v w = w @ to_be_bytes v"

fun push_optional_u64 :: "u64 option \<Rightarrow> u8 list \<Rightarrow> u8 list" where
  "push_optional_u64 (Some v) w = push_u64 v (w @ [1])"
| "push_optional_u64 None w = w @ [0]"

definition canonical_writer :: "string \<Rightarrow> u8 list" where
  "canonical_writer tag = push_str (lit tag) []"

section \<open>Operator requests\<close>

datatype operator_action = ActLaunch | ActRestart | ActFork | ActStop | ActAbandon | ActRecover

fun operator_action_as_str :: "operator_action \<Rightarrow> string" where
  "operator_action_as_str ActLaunch = ''LAUNCH''"
| "operator_action_as_str ActRestart = ''RESTART''"
| "operator_action_as_str ActFork = ''FORK''"
| "operator_action_as_str ActStop = ''STOP''"
| "operator_action_as_str ActAbandon = ''ABANDON''"
| "operator_action_as_str ActRecover = ''RECOVER''"

datatype authorization_class = AuthRead | AuthLifecycle | AuthDestructive

fun action_authorization_class :: "operator_action \<Rightarrow> authorization_class" where
  "action_authorization_class ActAbandon = AuthDestructive"
| "action_authorization_class ActRecover = AuthDestructive"
| "action_authorization_class _ = AuthLifecycle"

datatype recovery_directive = DirMarkFailed failure_summary | DirAbandon

fun directive_disposition :: "recovery_directive \<Rightarrow> recovery_disposition" where
  "directive_disposition (DirMarkFailed f) = MarkFailed"
| "directive_disposition DirAbandon = Abandon"

fun directive_failure :: "recovery_directive \<Rightarrow> failure_summary option" where
  "directive_failure (DirMarkFailed f) = Some f"
| "directive_failure DirAbandon = None"

datatype request_arguments =
    ArgDefinition definition_identity
  | ArgDefinitionUpgrade definition_upgrade
  | ArgFork fork_request
  | ArgNone
  | ArgRecovery recovery_directive digest bool

datatype operator_target =
    OpInstanceKey job_instance_key
  | OpInstance job_instance_id
  | OpExecution job_execution_id

text \<open>\<^verbatim>\<open>Display\<close> of an identifier: its decimal digits.\<close>

fun decimal :: "nat \<Rightarrow> rstr" where
  "decimal n = (if n < 10 then [48 + n] else decimal (n div 10) @ [48 + n mod 10])"

declare decimal.simps [simp del]

fun target_identity :: "sha256 \<Rightarrow> operator_target \<Rightarrow> rstr" where
  "target_identity sha256 (OpInstanceKey key) = lit ''instance-key:'' @ hex (job_instance_key_digest sha256 key)"
| "target_identity sha256 (OpInstance i) = lit ''instance:'' @ decimal (unat i)"
| "target_identity sha256 (OpExecution i) = lit ''execution:'' @ decimal (unat i)"

fun definition_state_kind_as_str :: "definition_state_kind \<Rightarrow> string" where
  "definition_state_kind_as_str DskCheckpoint = ''checkpoint''"
| "definition_state_kind_as_str DskExecutionContext = ''execution-context''"
| "definition_state_kind_as_str DskComponentState = ''component-state''"
| "definition_state_kind_as_str DskScopeResolution = ''scope-resolution''"
| "definition_state_kind_as_str DskRepeat = ''repeat''"
| "definition_state_kind_as_str DskFaultState = ''fault-state''"

definition push_definition_identity :: "definition_identity \<Rightarrow> u8 list \<Rightarrow> u8 list" where
  "push_definition_identity d w =
     push_bytes (di_manifest_digest d) (push_u64 (ucast (di_manifest_format d)) (push_str (di_revision d) w))"

definition push_state_transform :: "definition_state_transform \<Rightarrow> u8 list \<Rightarrow> u8 list" where
  "push_state_transform t w =
     (let w = push_str (dst_source_node t) w;
          w = push_str (dst_target_node t) w;
          w = push_str (lit (definition_state_kind_as_str (dst_kind t))) w;
          w = push_str (dst_state_id t) w;
          w = push_str (dst_source_schema t) w;
          w = push_u64 (ucast (dst_source_version t)) w;
          w = push_str (dst_target_schema t) w;
          w = push_u64 (ucast (dst_target_version t)) w
      in push_str (dst_revision t) w)"

definition push_fork_request :: "sha256 \<Rightarrow> fork_request \<Rightarrow> u8 list \<Rightarrow> u8 list" where
  "push_fork_request sha256 r w =
     (let w = push_u64 (fr_source_execution_id r) w;
          w = push_u64 (fr_source_version r) w;
          w = push_str (dr_job_name (fr_target r)) w;
          w = push_definition_identity (dr_definition (fr_target r)) w;
          w = push_str (dr_artifact (fr_target r)) w;
          w = push_bytes (flow_input_digest sha256 (fr_parameters r)) w
      in case fr_context_transform r of
           Some selected \<Rightarrow>
             push_state_transform (fct_descriptor selected)
               (push_u64 (fct_source_step_version selected)
                 (push_u64 (fct_source_step_execution_id selected) (push_u64 1 w)))
         | None \<Rightarrow> push_u64 0 w)"

definition push_mapping :: "(rstr, rstr) btree_map \<Rightarrow> u8 list \<Rightarrow> u8 list" where
  "push_mapping m w =
     fold (\<lambda>(source, target) w. push_str target (push_str source w)) m (push_u64 (length_word (length m)) w)"

definition push_definition_upgrade :: "definition_upgrade \<Rightarrow> u8 list \<Rightarrow> u8 list" where
  "push_definition_upgrade u w =
     (let w = push_str (du_key u) w;
          w = push_str (unwrap_or (du_revision u) []) w;
          w = push_definition_identity (du_from u) w;
          w = push_definition_identity (du_to u) w;
          w = push_mapping (du_step_mapping u) w;
          w = push_mapping (du_node_mapping u) w
      in fold push_state_transform (du_transforms u) (push_u64 (length_word (length (du_transforms u))) w))"

fun push_arguments :: "sha256 \<Rightarrow> request_arguments \<Rightarrow> u8 list \<Rightarrow> u8 list" where
  "push_arguments sha256 ArgNone w = push_str (lit ''NONE'') w"
| "push_arguments sha256 (ArgDefinition d) w =
     push_bytes (di_manifest_digest d) (push_str (di_revision d) (push_str (lit ''DEFINITION'') w))"
| "push_arguments sha256 (ArgDefinitionUpgrade u) w =
     push_definition_upgrade u (push_str (lit ''DEFINITION_UPGRADE'') w)"
| "push_arguments sha256 (ArgFork r) w = push_fork_request sha256 r (push_str (lit ''FORK'') w)"
| "push_arguments sha256 (ArgRecovery directive evidence unknown_commit) w =
     (let w = push_str (lit ''RECOVERY'') w;
          w = push_str (lit (batch_status_as_str (resulting_status (directive_disposition directive)))) w;
          w = push_bytes evidence w;
          w = push_u64 (if unknown_commit then 1 else 0) w
      in case directive_failure directive of
           Some f \<Rightarrow> push_u64 (fs_failure_id f) (push_str (lit (failure_category_as_str (fs_category f))) w)
         | None \<Rightarrow> push_str [] w)"

definition request_bytes ::
  "sha256 \<Rightarrow> operator_action \<Rightarrow> rstr \<Rightarrow> execution_version option \<Rightarrow> reason_code option \<Rightarrow> request_arguments
   \<Rightarrow> u8 list" where
  "request_bytes sha256 action target expected_version reason arguments =
     (let w = canonical_writer ''oxide-batch.operator-request.v1'';
          w = push_str (lit (operator_action_as_str action)) w;
          w = push_str target w;
          w = push_optional_u64 expected_version w;
          w = push_str (unwrap_or reason []) w
      in push_arguments sha256 arguments w)"

definition request_digest ::
  "sha256 \<Rightarrow> operator_action \<Rightarrow> rstr \<Rightarrow> execution_version option \<Rightarrow> reason_code option \<Rightarrow> request_arguments
   \<Rightarrow> digest" where
  "request_digest sha256 action target expected_version reason arguments =
     sha256 (request_bytes sha256 action target expected_version reason arguments)"

record operator_request =
  orq_action :: operator_action
  orq_operation_id :: operation_id
  orq_actor :: actor_ref
  orq_reason :: "reason_code option"
  orq_target :: operator_target
  orq_expected_version :: "execution_version option"
  orq_arguments :: request_arguments
  orq_digest :: digest

definition operator_request_build ::
  "sha256 \<Rightarrow> operator_action \<Rightarrow> operation_id \<Rightarrow> actor_ref \<Rightarrow> reason_code option \<Rightarrow> operator_target
   \<Rightarrow> execution_version option \<Rightarrow> request_arguments \<Rightarrow> operator_request" where
  "operator_request_build sha256 action operation_id actor reason target expected_version arguments =
     \<lparr>orq_action = action, orq_operation_id = operation_id, orq_actor = actor, orq_reason = reason,
      orq_target = target, orq_expected_version = expected_version, orq_arguments = arguments,
      orq_digest = request_digest sha256 action (target_identity sha256 target) expected_version reason arguments\<rparr>"

definition operator_launch ::
  "sha256 \<Rightarrow> operation_id \<Rightarrow> actor_ref \<Rightarrow> job_instance_key \<Rightarrow> definition_identity \<Rightarrow> operator_request" where
  "operator_launch sha256 operation_id actor key d =
     operator_request_build sha256 ActLaunch operation_id actor None (OpInstanceKey key) None (ArgDefinition d)"

definition operator_restart ::
  "sha256 \<Rightarrow> operation_id \<Rightarrow> actor_ref \<Rightarrow> job_instance_id \<Rightarrow> definition_identity \<Rightarrow> operator_request" where
  "operator_restart sha256 operation_id actor i d =
     operator_request_build sha256 ActRestart operation_id actor None (OpInstance i) None (ArgDefinition d)"

definition operator_restart_compatible ::
  "sha256 \<Rightarrow> operation_id \<Rightarrow> actor_ref \<Rightarrow> job_instance_id \<Rightarrow> definition_upgrade \<Rightarrow> operator_request" where
  "operator_restart_compatible sha256 operation_id actor i u =
     operator_request_build sha256 ActRestart operation_id actor None (OpInstance i) None (ArgDefinitionUpgrade u)"

definition operator_fork :: "sha256 \<Rightarrow> actor_ref \<Rightarrow> fork_request \<Rightarrow> operator_request" where
  "operator_fork sha256 actor r =
     operator_request_build sha256 ActFork (fr_operation_id r) actor None (OpExecution (fr_source_execution_id r))
       (Some (fr_source_version r)) (ArgFork r)"

definition operator_stop ::
  "sha256 \<Rightarrow> operation_id \<Rightarrow> actor_ref \<Rightarrow> job_execution_id \<Rightarrow> execution_version \<Rightarrow> operator_request" where
  "operator_stop sha256 operation_id actor i v =
     operator_request_build sha256 ActStop operation_id actor None (OpExecution i) (Some v) ArgNone"

definition operator_abandon ::
  "sha256 \<Rightarrow> operation_id \<Rightarrow> actor_ref \<Rightarrow> reason_code \<Rightarrow> job_execution_id \<Rightarrow> execution_version \<Rightarrow> operator_request" where
  "operator_abandon sha256 operation_id actor reason i v =
     operator_request_build sha256 ActAbandon operation_id actor (Some reason) (OpExecution i) (Some v) ArgNone"

definition operator_recover ::
  "sha256 \<Rightarrow> operation_id \<Rightarrow> actor_ref \<Rightarrow> reason_code \<Rightarrow> recovery_directive \<Rightarrow> job_execution_id
   \<Rightarrow> execution_version \<Rightarrow> digest \<Rightarrow> bool \<Rightarrow> operator_request" where
  "operator_recover sha256 operation_id actor reason directive i observed_version evidence unknown_commit =
     operator_request_build sha256 ActRecover operation_id actor (Some reason) (OpExecution i)
       (Some observed_version) (ArgRecovery directive evidence unknown_commit)"

fun request_job_execution_id :: "operator_target \<Rightarrow> job_execution_id option" where
  "request_job_execution_id (OpExecution i) = Some i"
| "request_job_execution_id _ = None"

fun request_job_instance_id :: "operator_target \<Rightarrow> job_instance_id option" where
  "request_job_instance_id (OpInstance i) = Some i"
| "request_job_instance_id _ = None"

text \<open>\<^verbatim>\<open>OperatorRequest::recovery_request\<close>: \<^const>\<open>None\<close> unless the request carries recovery arguments.\<close>

definition request_recovery ::
  "operator_request \<Rightarrow> (recovery_request_error + recovery_request) option" where
  "request_recovery r =
     (case (orq_arguments r, orq_expected_version r, orq_reason r) of
        (ArgRecovery directive evidence u, Some v, Some reason) \<Rightarrow>
          Some (case directive of
              DirAbandon \<Rightarrow> recovery_abandon v reason (orq_actor r) evidence
            | DirMarkFailed f \<Rightarrow>
                recovery_mark_failed v reason (orq_actor r) evidence (fs_category f) (fs_failure_id f))
      | _ \<Rightarrow> None)"

section \<open>Rejections and audit records\<close>

datatype operator_outcome_class = OutApplied | OutReplayed | OutRejected

datatype operator_rejection =
    RejOptimisticConflict execution_version
  | RejInvalidState batch_status
  | RejInstanceCompleted
  | RejInstanceAbandoned
  | RejExecutionAlreadyActive job_execution_id batch_status
  | RejIncompatibleDefinition
  | RejRestartWithoutPriorAttempt
  | RejStartLimitExceeded
  | RejUnresolvedRecoveryRequired
  | RejExecutionNotFound
  | RejInstanceNotFound
  | RejUnsupportedAction

definition rejection_from_repository :: "repository_error \<Rightarrow> operator_rejection option" where
  "rejection_from_repository e =
     (case e of
        CompletedInstance i \<Rightarrow> Some RejInstanceCompleted
      | AbandonedInstance i \<Rightarrow> Some RejInstanceAbandoned
      | ExecutionAlreadyActive i x s \<Rightarrow> Some (RejExecutionAlreadyActive x s)
      | IncompatibleDefinition i \<Rightarrow> Some RejIncompatibleDefinition
      | RestartStateNotFound x n \<Rightarrow> Some RejIncompatibleDefinition
      | InvalidDefinitionUpgrade x \<Rightarrow> Some RejIncompatibleDefinition
      | StartLimitExceeded i n l \<Rightarrow> Some RejStartLimitExceeded
      | JobExecutionNotFound x \<Rightarrow> Some RejExecutionNotFound
      | JobInstanceNotFound i \<Rightarrow> Some RejInstanceNotFound
      | RepoLifecycle (StaleVersion expected actual) \<Rightarrow> Some (RejOptimisticConflict actual)
      | RepoLifecycle (IllegalTransition s t) \<Rightarrow> Some (RejInvalidState s)
      | RepoLifecycle (RestartRequiresNewAttempt s) \<Rightarrow> Some (RejInvalidState s)
      | RepoLifecycle (NotRestartable s) \<Rightarrow> Some (RejInvalidState s)
      | RecoveryNotAllowed x s \<Rightarrow> Some (RejInvalidState s)
      | _ \<Rightarrow> None)"

record operator_record_draft =
  ord_action :: operator_action
  ord_operation_id :: operation_id
  ord_actor :: actor_ref
  ord_reason :: "reason_code option"
  ord_digest :: digest
  ord_job_instance_id :: "job_instance_id option"
  ord_job_execution_id :: "job_execution_id option"
  ord_observed_version :: "execution_version option"
  ord_prior_status :: "batch_status option"
  ord_result_status :: "batch_status option"
  ord_outcome :: operator_outcome_class
  ord_rejection :: "operator_rejection option"
  ord_requested_at :: system_time

record operator_record = operator_record_draft +
  or_id :: operator_request_id

definition operator_record_from_parts :: "operator_request_id \<Rightarrow> operator_record_draft \<Rightarrow> operator_record" where
  "operator_record_from_parts i draft = operator_record_draft.extend draft \<lparr>or_id = i\<rparr>"

definition draft_applied ::
  "operator_request \<Rightarrow> job_instance_id option \<Rightarrow> job_execution_id option \<Rightarrow> batch_status option
   \<Rightarrow> batch_status option \<Rightarrow> system_time \<Rightarrow> operator_record_draft" where
  "draft_applied r instance execution prior result requested_at =
     \<lparr>ord_action = orq_action r, ord_operation_id = orq_operation_id r, ord_actor = orq_actor r,
      ord_reason = orq_reason r, ord_digest = orq_digest r, ord_job_instance_id = instance,
      ord_job_execution_id = execution, ord_observed_version = orq_expected_version r,
      ord_prior_status = prior, ord_result_status = result, ord_outcome = OutApplied,
      ord_rejection = None, ord_requested_at = requested_at\<rparr>"

definition draft_rejected :: "operator_request \<Rightarrow> operator_rejection \<Rightarrow> system_time \<Rightarrow> operator_record_draft" where
  "draft_rejected r rejection requested_at =
     \<lparr>ord_action = orq_action r, ord_operation_id = orq_operation_id r, ord_actor = orq_actor r,
      ord_reason = orq_reason r, ord_digest = orq_digest r,
      ord_job_instance_id = request_job_instance_id (orq_target r),
      ord_job_execution_id = request_job_execution_id (orq_target r),
      ord_observed_version = orq_expected_version r, ord_prior_status = None, ord_result_status = None,
      ord_outcome = OutRejected, ord_rejection = Some rejection, ord_requested_at = requested_at\<rparr>"


section \<open>Retention\<close>

definition MAX_PURGE_BATCH :: u32 where "MAX_PURGE_BATCH = 1000"

definition MIN_PURGE_AGE :: duration where "MIN_PURGE_AGE = 3600 * 10 ^ 9"

datatype retention_error =
    BatchBoundOutOfRange u32
  | AgeBoundTooSmall duration
  | NonTerminalStatus batch_status
  | EmptyStatusSet
  | RetPlanStale
  | InstanceHeld job_instance_id
  | RetOperationIdConflict operation_id
  | OperationOutcomeUnknown
  | RetRepository repository_error

definition retention_error_from :: "repository_error \<Rightarrow> retention_error" where
  "retention_error_from e =
     (if e = CommitOutcomeUnknown then OperationOutcomeUnknown
      else if e = RetentionPlanStale then RetPlanStale
      else RetRepository e)"

type_synonym purge_batch_bound = u32

definition purge_batch_bound_new :: "u32 \<Rightarrow> retention_error + purge_batch_bound" where
  "purge_batch_bound_new v = (if v = 0 \<or> v > MAX_PURGE_BATCH then Err (BatchBoundOutOfRange v) else Ok v)"

text \<open>
  \<^verbatim>\<open>BTreeSet<BatchStatus>\<close> iterates in declaration order.  The set is the list of its elements in that
  order.
\<close>

definition batch_status_order :: "batch_status list" where
  "batch_status_order = [Starting, Started, Stopping, Stopped, Failed, Completed, Abandoned, Unknown]"

type_synonym terminal_status_set = "batch_status list"

definition status_set :: "batch_status list \<Rightarrow> terminal_status_set" where
  "status_set ss = filter (\<lambda>s. s \<in> set ss) batch_status_order"

definition terminal_status_set_new :: "batch_status list \<Rightarrow> retention_error + terminal_status_set" where
  "terminal_status_set_new ss =
     res_bind (try_each (\<lambda>s. if is_finished s then Ok () else Err (NonTerminalStatus s)) ss) (\<lambda>_.
     if ss = [] then Err EmptyStatusSet else Ok (status_set ss))"

definition terminal_status_set_all :: terminal_status_set where
  "terminal_status_set_all = status_set [Completed, Failed, Stopped, Abandoned]"

record purge_plan_request =
  ppr_job_name :: job_name
  ppr_statuses :: terminal_status_set
  ppr_minimum_age :: duration
  ppr_batch :: purge_batch_bound

definition purge_plan_request_new ::
  "job_name \<Rightarrow> terminal_status_set \<Rightarrow> duration \<Rightarrow> purge_batch_bound \<Rightarrow> retention_error + purge_plan_request" where
  "purge_plan_request_new name statuses age batch =
     (if duration_as_secs age < duration_as_secs MIN_PURGE_AGE then Err (AgeBoundTooSmall MIN_PURGE_AGE)
      else Ok \<lparr>ppr_job_name = name, ppr_statuses = statuses, ppr_minimum_age = age, ppr_batch = batch\<rparr>)"

type_synonym purge_candidate = "job_instance_id \<times> job_execution_id \<times> execution_version"

record purge_counts =
  pc_flow_decisions :: u64
  pc_recovery_decisions :: u64
  pc_operator_requests :: u64
  pc_step_partitions :: u64
  pc_step_executions :: u64
  pc_job_executions :: u64
  pc_job_instances :: u64

definition purge_counts_default :: purge_counts where
  "purge_counts_default = \<lparr>pc_flow_decisions = 0, pc_recovery_decisions = 0, pc_operator_requests = 0,
     pc_step_partitions = 0, pc_step_executions = 0, pc_job_executions = 0, pc_job_instances = 0\<rparr>"

record purge_plan =
  pp_request :: purge_plan_request
  pp_candidates :: "purge_candidate list"
  pp_counts :: purge_counts
  pp_digest :: digest

definition push_candidate :: "purge_candidate \<Rightarrow> u8 list \<Rightarrow> u8 list" where
  "push_candidate = (\<lambda>(instance, execution, version) w. push_u64 version (push_u64 execution (push_u64 instance w)))"

definition plan_bytes :: "purge_plan_request \<Rightarrow> purge_candidate list \<Rightarrow> u8 list" where
  "plan_bytes r candidates =
     (let w = canonical_writer ''oxide-batch.retention-plan.v1'';
          w = push_str (ppr_job_name r) w;
          w = fold (\<lambda>s. push_str (lit (batch_status_as_str s))) (ppr_statuses r) w;
          w = push_u64 (word_of_nat (duration_as_secs (ppr_minimum_age r))) w;
          w = push_u64 (ucast (ppr_batch r)) w
      in fold push_candidate candidates w)"

definition plan_digest :: "sha256 \<Rightarrow> purge_plan_request \<Rightarrow> purge_candidate list \<Rightarrow> digest" where
  "plan_digest sha256 r candidates = sha256 (plan_bytes r candidates)"

definition purge_plan_new ::
  "sha256 \<Rightarrow> purge_plan_request \<Rightarrow> purge_candidate list \<Rightarrow> purge_counts \<Rightarrow> purge_plan" where
  "purge_plan_new sha256 r candidates counts =
     \<lparr>pp_request = r, pp_candidates = candidates, pp_counts = counts, pp_digest = plan_digest sha256 r candidates\<rparr>"

datatype retention_action = RetHold | RetReleaseHold | RetApplyPurge

fun retention_action_as_str :: "retention_action \<Rightarrow> string" where
  "retention_action_as_str RetHold = ''HOLD''"
| "retention_action_as_str RetReleaseHold = ''RELEASE_HOLD''"
| "retention_action_as_str RetApplyPurge = ''APPLY_PURGE''"

datatype retention_outcome = RetApplied | RetReplayed | RetRejected

record retention_hold =
  rh_job_instance_id :: job_instance_id
  rh_actor :: actor_ref
  rh_reason :: reason_code
  rh_placed_at :: system_time

record retention_record_draft =
  rrd_action :: retention_action
  rrd_operation_id :: operation_id
  rrd_actor :: actor_ref
  rrd_reason :: reason_code
  rrd_job_instance_id :: "job_instance_id option"
  rrd_plan_digest :: "digest option"
  rrd_counts :: purge_counts
  rrd_batch_bound :: "purge_batch_bound option"
  rrd_outcome :: retention_outcome
  rrd_applied_at :: system_time

record retention_record = retention_record_draft +
  rtr_id :: retention_action_id

definition retention_record_from_parts :: "retention_action_id \<Rightarrow> retention_record_draft \<Rightarrow> retention_record" where
  "retention_record_from_parts i draft = retention_record_draft.extend draft \<lparr>rtr_id = i\<rparr>"

definition draft_instance_action ::
  "retention_action \<Rightarrow> operation_id \<Rightarrow> actor_ref \<Rightarrow> reason_code \<Rightarrow> job_instance_id \<Rightarrow> system_time
   \<Rightarrow> retention_record_draft" where
  "draft_instance_action action operation_id actor reason instance applied_at =
     \<lparr>rrd_action = action, rrd_operation_id = operation_id, rrd_actor = actor, rrd_reason = reason,
      rrd_job_instance_id = Some instance, rrd_plan_digest = None, rrd_counts = purge_counts_default,
      rrd_batch_bound = None, rrd_outcome = RetApplied, rrd_applied_at = applied_at\<rparr>"

definition draft_purge ::
  "operation_id \<Rightarrow> actor_ref \<Rightarrow> reason_code \<Rightarrow> digest \<Rightarrow> purge_counts \<Rightarrow> purge_batch_bound \<Rightarrow> system_time
   \<Rightarrow> retention_record_draft" where
  "draft_purge operation_id actor reason digest counts bound applied_at =
     \<lparr>rrd_action = RetApplyPurge, rrd_operation_id = operation_id, rrd_actor = actor, rrd_reason = reason,
      rrd_job_instance_id = None, rrd_plan_digest = Some digest, rrd_counts = counts,
      rrd_batch_bound = Some bound, rrd_outcome = RetApplied, rrd_applied_at = applied_at\<rparr>"

end
