(* ===== verification/Memory_State.thy ===== *)
theory Memory_State
  imports Operator_Port "HOL-Library.Option_ord"
begin

text \<open>
  The state of the reference repository, \<^verbatim>\<open>repository/memory.rs\<close> of \<^verbatim>\<open>oxide-batch\<close>: the record
  \<^verbatim>\<open>MemoryState\<close>, a unit of work on a staged copy of it, and beginning, committing and rolling back a
  unit.  A map the code only looks up, inserts into and removes from is a function to options; a map it
  iterates over is the list of its entries in key order.

  An operation returns its result beside the unit of work as it leaves it, also on an error.  What the
  clock and the identifier generator return is an argument.  The state lock is never poisoned.
\<close>

section \<open>Operations on a unit of work\<close>

text \<open>\<open>attempt\<close> is \<^verbatim>\<open>?\<close> on a result computed from the unit, \<open>proceed\<close> is \<^verbatim>\<open>?\<close> on an operation that changes it.\<close>

definition attempt :: "'e + 'a \<Rightarrow> 's \<Rightarrow> ('a \<Rightarrow> ('e + 'b) \<times> 's) \<Rightarrow> ('e + 'b) \<times> 's" where
  "attempt r s k = (case r of Err e \<Rightarrow> (Err e, s) | Ok x \<Rightarrow> k x)"

definition proceed :: "('e + 'a) \<times> 's \<Rightarrow> ('a \<Rightarrow> 's \<Rightarrow> ('e + 'b) \<times> 's) \<Rightarrow> ('e + 'b) \<times> 's" where
  "proceed p k = (case p of (Err e, s) \<Rightarrow> (Err e, s) | (Ok x, s) \<Rightarrow> k x s)"

lemma attempt_simps [simp]: "attempt (Err e) s k = (Err e, s)" "attempt (Ok x) s k = k x"
  by (simp_all add: attempt_def)

lemma proceed_simps [simp]: "proceed (Err e, s) k = (Err e, s)" "proceed (Ok x, s) k = k x s"
  by (simp_all add: proceed_def)

lemma attempt_Ok [simp]: "attempt r s k = (Ok y, t) \<longleftrightarrow> (\<exists>x. r = Ok x \<and> k x = (Ok y, t))"
  by (cases r) auto

lemma proceed_Ok [simp]: "proceed p k = (Ok y, t) \<longleftrightarrow> (\<exists>x s. p = (Ok x, s) \<and> k x s = (Ok y, t))"
  by (cases p; cases "fst p") auto

fun proceed_each :: "('a \<Rightarrow> 's \<Rightarrow> ('e + unit) \<times> 's) \<Rightarrow> 'a list \<Rightarrow> 's \<Rightarrow> ('e + unit) \<times> 's" where
  "proceed_each f [] s = (Ok (), s)"
| "proceed_each f (x # xs) s = proceed (f x s) (\<lambda>_. proceed_each f xs)"

section \<open>The state\<close>

type_synonym owner_token = "u8 list"

type_synonym scope_key =
  "scope_kind \<times> scoped_component_id \<times> parameter_name \<times> job_execution_id \<times> step_execution_id option"

record memory_scope_seed =
  mss_scope :: scope_kind
  mss_component :: scoped_component_id
  mss_input :: parameter_name
  mss_source :: scope_resolution_source

record memory_upgrade_node_seed =
  mus_source_step_execution_id :: step_execution_id
  mus_counts :: execution_counts
  mus_context :: "execution_context option"
  mus_repeats :: "repeat_execution list"
  mus_scope :: "memory_scope_seed list"

record memory_state =
  ms_revision :: u64
  ms_instances_by_key :: "job_instance_key \<rightharpoonup> job_instance_id"
  ms_instances_by_id :: "(job_instance_id, job_instance) btree_map"
  ms_job_executions :: "job_execution_id \<rightharpoonup> job_execution"
  ms_job_executions_by_instance :: "job_instance_id \<rightharpoonup> job_execution_id list"
  ms_execution_attempts :: "job_execution_id \<rightharpoonup> u64"
  ms_next_execution_attempt_by_instance :: "job_instance_id \<rightharpoonup> u64"
  ms_job_parameters :: "job_execution_id \<rightharpoonup> job_parameters"
  ms_scope_resolution_provenance :: "(scope_key, scope_resolution_provenance) btree_map"
  ms_scope_explorer_order :: "(scope_key, u64) btree_map"
  ms_nested_job_links :: "job_execution_id \<times> node_id \<rightharpoonup> nested_job_link"
  ms_nested_job_links_by_instance :: "job_instance_id \<times> node_id \<rightharpoonup> job_execution_id list"
  ms_step_executions :: "step_execution_id \<rightharpoonup> step_execution"
  ms_step_executions_by_job :: "job_execution_id \<rightharpoonup> step_execution_id list"
  ms_step_logical_ids :: "step_execution_id \<rightharpoonup> node_id"
  ms_step_contexts :: "step_execution_id \<rightharpoonup> execution_context"
  ms_step_partitions :: "(step_partition_id, step_partition) btree_map"
  ms_step_partitions_by_step :: "step_execution_id \<rightharpoonup> step_partition_id list"
  ms_flow_decisions :: "(flow_decision_id, flow_decision) btree_map"
  ms_flow_decisions_by_job :: "job_execution_id \<rightharpoonup> flow_decision_id list"
  ms_repeat_executions :: "(step_execution_id \<times> repeat_id, repeat_execution) btree_map"
  ms_recovery_decisions :: "(job_execution_id, recovery_decision list) btree_map"
  ms_definitions :: "job_name \<times> definition_revision \<rightharpoonup> definition_identity"
  ms_definition_registry :: "job_name \<times> definition_revision \<rightharpoonup> definition_registration"
  ms_definition_explorer_order :: "(job_name \<times> definition_revision, u64) btree_map"
  ms_execution_definitions :: "job_execution_id \<rightharpoonup> definition_identity"
  ms_definition_upgrades :: "job_name \<times> digest \<times> digest \<rightharpoonup> definition_upgrade"
  ms_fork_lineages :: "(operation_id, fork_lineage) btree_map"
  ms_fork_job_contexts :: "job_execution_id \<rightharpoonup> execution_context"
  ms_upgrade_sources :: "job_execution_id \<rightharpoonup> job_execution_id"
  ms_upgrade_seeds :: "(job_execution_id \<times> node_id, memory_upgrade_node_seed) btree_map"
  ms_job_name_order :: "(job_name, u64) btree_map"
  ms_instance_created_at :: "job_instance_id \<rightharpoonup> system_time"
  ms_execution_updated_at :: "job_execution_id \<rightharpoonup> system_time"
  ms_holds :: "job_instance_id \<rightharpoonup> retention_hold"
  ms_stop_requests :: "job_execution_id \<rightharpoonup> system_time"
  ms_owner_tokens :: "job_execution_id \<rightharpoonup> owner_token"
  ms_operator_requests :: "(operator_request_id, operator_record) btree_map"
  ms_operator_request_keys :: "string \<times> operation_id \<rightharpoonup> operator_request_id"
  ms_retention_actions :: "(retention_action_id, retention_record) btree_map"
  ms_retention_action_keys :: "string \<times> operation_id \<rightharpoonup> retention_action_id"

record unit_of_work =
  uw_base_revision :: u64
  uw_staged :: memory_state
  uw_definition_override :: "definition_identity option"
  uw_upgrade_override :: "definition_upgrade_execution option"
  uw_created_partition_plans :: "step_execution_id set"
  uw_aggregated_partition_parent :: bool
  uw_committed_repeat_iteration :: bool
  uw_created_fork_lineage :: bool

record memory_repository =
  mr_state :: memory_state
  mr_fail_next_partition_aggregate_commit :: bool
  mr_fail_next_repeat_commit :: bool
  mr_fail_next_fork_commit :: bool

definition uw_update :: "(memory_state \<Rightarrow> memory_state) \<Rightarrow> unit_of_work \<Rightarrow> unit_of_work" where
  "uw_update f u = u\<lparr>uw_staged := f (uw_staged u)\<rparr>"

lemma uw_update_simps [simp]:
  "uw_staged (uw_update f u) = f (uw_staged u)"
  "uw_base_revision (uw_update f u) = uw_base_revision u"
  "uw_definition_override (uw_update f u) = uw_definition_override u"
  "uw_upgrade_override (uw_update f u) = uw_upgrade_override u"
  "uw_created_partition_plans (uw_update f u) = uw_created_partition_plans u"
  by (simp_all add: uw_update_def)

section \<open>Begin, commit and roll back\<close>

definition memory_begin :: "memory_repository \<Rightarrow> unit_of_work" where
  "memory_begin r =
     \<lparr>uw_base_revision = ms_revision (mr_state r), uw_staged = mr_state r, uw_definition_override = None,
      uw_upgrade_override = None, uw_created_partition_plans = {}, uw_aggregated_partition_parent = False,
      uw_committed_repeat_iteration = False, uw_created_fork_lineage = False\<rparr>"

definition memory_commit ::
  "unit_of_work \<Rightarrow> memory_repository \<Rightarrow> (repository_error + unit) \<times> memory_repository" where
  "memory_commit u r =
     (if ms_revision (mr_state r) \<noteq> uw_base_revision u then (Err ConcurrentModification, r)
      else
        attempt (ok_or (checked_add (ms_revision (mr_state r)) 1) ConcurrentModification) r (\<lambda>revision.
        let r = r\<lparr>mr_state := (uw_staged u)\<lparr>ms_revision := revision\<rparr>\<rparr>;
            partition_unknown = uw_aggregated_partition_parent u \<and> mr_fail_next_partition_aggregate_commit r;
            r = (if uw_aggregated_partition_parent u then r\<lparr>mr_fail_next_partition_aggregate_commit := False\<rparr> else r);
            repeat_unknown = uw_committed_repeat_iteration u \<and> mr_fail_next_repeat_commit r;
            r = (if uw_committed_repeat_iteration u then r\<lparr>mr_fail_next_repeat_commit := False\<rparr> else r);
            fork_unknown = uw_created_fork_lineage u \<and> mr_fail_next_fork_commit r;
            r = (if uw_created_fork_lineage u then r\<lparr>mr_fail_next_fork_commit := False\<rparr> else r)
        in if partition_unknown \<or> repeat_unknown \<or> fork_unknown then (Err CommitOutcomeUnknown, r)
           else (Ok (), r)))"

section \<open>Identifiers and orders the state hands out\<close>

definition max_value :: "('k, u64) btree_map \<Rightarrow> u64 option" where
  "max_value m = (if m = [] then None else Some (fold max (map snd m) 0))"

definition next_order :: "('k, u64) btree_map \<Rightarrow> u64" where
  "next_order m = (case max_value m of None \<Rightarrow> 1 | Some v \<Rightarrow> saturating_add v 1)"

definition register_job_name :: "job_name \<Rightarrow> memory_state \<Rightarrow> memory_state" where
  "register_job_name name s =
     (if bt_contains (ms_job_name_order s) name then s
      else s\<lparr>ms_job_name_order := bt_insert name (next_order (ms_job_name_order s)) (ms_job_name_order s)\<rparr>)"

text \<open>\<^verbatim>\<open>keys().next_back()\<close> is the last entry; a full range wraps to the rejected identifier 0.\<close>

definition next_key :: "identifier_kind \<Rightarrow> (u64, 'v) btree_map \<Rightarrow> repository_error + u64" where
  "next_key kind m =
     map_err RepoDomain (opaque_id_new kind
       (if m = [] then 1 else unwrap_or (checked_add (fst (last m)) 1) 0))"

definition next_recovery_decision_id :: "memory_state \<Rightarrow> repository_error + recovery_decision_id" where
  "next_recovery_decision_id s =
     (let ids = map rd_id (concat (map snd (ms_recovery_decisions s))) in
      map_err RepoDomain (opaque_id_new IdRecoveryDecision
        (if ids = [] then 1 else unwrap_or (checked_add (fold max ids 0) 1) 0)))"

definition instance_for_execution :: "memory_state \<Rightarrow> job_execution_id \<Rightarrow> repository_error + job_instance_id" where
  "instance_for_execution s i = ok_or (map_option je_job_instance_id (ms_job_executions s i)) (JobExecutionNotFound i)"

end
