(* ===== verification/Memory_Launch.thy ===== *)
theory Memory_Launch
  imports Memory_State
begin

text \<open>
  Launching in the reference repository, \<^verbatim>\<open>repository/memory.rs\<close>: definition registration, selection of
  job instances, creation of job and step executions with everything a restart or a compatible upgrade
  carries over (parameters, counters, contexts, repeats and scope-resolution provenance), and the
  lifecycle mutations of executions.
\<close>

section \<open>Reading the state\<close>

fun try_map :: "('a \<Rightarrow> 'e + 'b) \<Rightarrow> 'a list \<Rightarrow> 'e + 'b list" where
  "try_map f [] = Ok []"
| "try_map f (x # xs) = res_bind (f x) (\<lambda>y. res_bind (try_map f xs) (\<lambda>ys. Ok (y # ys)))"

abbreviation steps_of :: "memory_state \<Rightarrow> job_execution_id \<Rightarrow> step_execution_id list" where
  "steps_of s e \<equiv> unwrap_or (ms_step_executions_by_job s e) []"

fun flow_step_search ::
  "memory_state \<Rightarrow> node_id \<Rightarrow> job_execution_id list \<Rightarrow> repository_error + flow_step_state option" where
  "flow_step_search s node [] = Ok None"
| "flow_step_search s node (e # es) =
     (case find (\<lambda>step. ms_step_logical_ids s step = Some node) (rev (steps_of s e)) of
        Some step \<Rightarrow>
          res_bind (ok_or (ms_step_executions s step) FlowStateCorrupt) (\<lambda>x.
          Ok (Some \<lparr>fss_node_id = node, fss_execution = x, fss_context = ms_step_contexts s step\<rparr>))
      | None \<Rightarrow>
          (case bt_get (ms_upgrade_seeds s) (e, node) of
             Some seed \<Rightarrow>
               res_bind (ok_or (ms_step_executions s (mus_source_step_execution_id seed)) FlowStateCorrupt) (\<lambda>x.
               Ok (Some \<lparr>fss_node_id = node, fss_execution = x, fss_context = mus_context seed\<rparr>))
           | None \<Rightarrow>
               if list_ex (\<lambda>((job, n), seed). job = e) (ms_upgrade_seeds s) then Ok None
               else flow_step_search s node es))"

definition latest_flow_step_snapshot ::
  "memory_state \<Rightarrow> job_instance_id \<Rightarrow> node_id \<Rightarrow> repository_error + flow_step_state option" where
  "latest_flow_step_snapshot s instance node =
     res_bind (ok_or (ms_job_executions_by_instance s instance) (JobInstanceNotFound instance)) (\<lambda>executions.
     flow_step_search s node (rev executions))"

definition latest_job_execution :: "memory_state \<Rightarrow> job_instance_id \<Rightarrow> repository_error + job_execution option" where
  "latest_job_execution s i =
     (case ms_job_executions_by_instance s i of
        None \<Rightarrow> if bt_contains (ms_instances_by_id s) i then Ok None else Err (JobInstanceNotFound i)
      | Some ids \<Rightarrow> Ok (if ids = [] then None else ms_job_executions s (last ids)))"

section \<open>Scope-resolution provenance\<close>

definition scope_key_of :: "scope_resolution_provenance \<Rightarrow> scope_key" where
  "scope_key_of e = (srp_scope e, srp_component e, srp_input e, srp_owner_job e, srp_owner_step e)"

definition owned_provenance ::
  "memory_state \<Rightarrow> job_execution_id \<Rightarrow> step_execution_id option \<Rightarrow> scope_resolution_provenance list" where
  "owned_provenance s job step =
     filter (\<lambda>e. srp_owner_job e = job \<and> srp_owner_step e = step) (map snd (ms_scope_resolution_provenance s))"

definition validate_scope_provenance_source ::
  "memory_state \<Rightarrow> scope_resolution_provenance \<Rightarrow> repository_error + unit" where
  "validate_scope_provenance_source s e =
     res_bind (instance_for_execution s (srp_owner_job e)) (\<lambda>owner_instance.
     let other = (\<lambda>job. if job = srp_owner_job e then Ok None
                        else res_bind (instance_for_execution s job) (\<lambda>i. Ok (Some i))) in
     res_bind (case srp_source e of
         SrcJobParameter job p \<Rightarrow> other job
       | SrcJobContext job v schema sv path \<Rightarrow> other job
       | SrcStepContext n (Some step) v schema sv path \<Rightarrow>
           res_bind (ok_or (ms_step_executions s step) ScopeResolutionStateCorrupt) (\<lambda>x.
           res_bind (instance_for_execution s (se_job_execution_id x)) (\<lambda>i. Ok (Some i)))
       | SrcStepContext n None v schema sv path \<Rightarrow> Ok None
       | SrcFramework f job step \<Rightarrow> Ok None) (\<lambda>source_instance.
     if is_some_and source_instance (\<lambda>i. i \<noteq> owner_instance) then Err ScopeResolutionStateCorrupt else Ok ()))"

definition rebind_source ::
  "job_execution_id \<Rightarrow> step_execution_id option \<Rightarrow> scope_resolution_source \<Rightarrow> scope_resolution_source" where
  "rebind_source job step source =
     (case source of SrcFramework f j s \<Rightarrow> SrcFramework f job step | other \<Rightarrow> other)"

definition copy_forward_entry ::
  "job_execution_id \<Rightarrow> step_execution_id option \<Rightarrow> scope_resolution_provenance \<Rightarrow> memory_state
   \<Rightarrow> (repository_error + unit) \<times> memory_state" where
  "copy_forward_entry job step e s =
     attempt (map_err (\<lambda>_. ScopeResolutionStateCorrupt)
       (scope_resolution_provenance_new (srp_scope e) (srp_component e) (srp_input e) job step
         (rebind_source job step (srp_source e)))) s (\<lambda>rebound.
     attempt (validate_scope_provenance_source s rebound) s (\<lambda>_.
     let existed = bt_contains (ms_scope_resolution_provenance s) (scope_key_of rebound);
         s = s\<lparr>ms_scope_resolution_provenance :=
               bt_insert (scope_key_of rebound) rebound (ms_scope_resolution_provenance s)\<rparr>
     in (if existed then Err ScopeResolutionStateCorrupt else Ok (), s)))"

definition copy_forward_scope_resolution_provenance ::
  "job_execution_id \<Rightarrow> step_execution_id option \<Rightarrow> job_execution_id \<Rightarrow> step_execution_id option \<Rightarrow> memory_state
   \<Rightarrow> (repository_error + unit) \<times> memory_state" where
  "copy_forward_scope_resolution_provenance source_job source_step target_job target_step s =
     proceed_each (copy_forward_entry target_job target_step) (owned_provenance s source_job source_step) s"

section \<open>Compatible upgrades\<close>

definition upgrade_transform ::
  "definition_upgrade_execution \<Rightarrow> node_id \<Rightarrow> definition_state_kind \<Rightarrow> rstr option
   \<Rightarrow> repository_error + definition_state_transform option" where
  "upgrade_transform up source_node kind state_id =
     (let matches = filter (\<lambda>t. dst_source_node t = source_node \<and> dst_kind t = kind
            \<and> (case state_id of None \<Rightarrow> True | Some i \<Rightarrow> dst_state_id t = i)) (du_transforms (due_upgrade up))
      in if length matches > 1 then Err DefinitionUpgradeFailed
         else Ok (if matches = [] then None else Some (hd matches)))"

definition transform_context ::
  "to_vec \<Rightarrow> from_slice \<Rightarrow> definition_upgrade_execution \<Rightarrow> definition_state_transform \<Rightarrow> execution_context
   \<Rightarrow> repository_error + execution_context" where
  "transform_context to_vec from_slice up t source =
     (if vs_schema_id source \<noteq> dst_source_schema t \<or> vs_schema_version source \<noteq> dst_source_version t
      then Err DefinitionUpgradeFailed
      else
        res_bind (ok_or (upgrade_transformer up t) DefinitionUpgradeFailed) (\<lambda>implementation.
        res_bind (map_err (\<lambda>_. DefinitionUpgradeFailed) (state_payload_json to_vec KindExecutionContext source)) (\<lambda>source_payload.
        res_bind (map_err (\<lambda>_. DefinitionUpgradeFailed) (dtr_apply implementation source_payload)) (\<lambda>target_payload.
        res_bind (ok_or (from_slice target_payload) DefinitionUpgradeFailed) (\<lambda>payload.
        if \<not> is_object payload then Err DefinitionUpgradeFailed
        else
          res_bind (ok_or (to_vec (state_envelope KindExecutionContext (dst_target_schema t) (dst_target_version t) payload))
            DefinitionUpgradeFailed) (\<lambda>bytes.
          map_err (\<lambda>_. DefinitionUpgradeFailed) (state_from_json from_slice KindExecutionContext bytes
            (case state_limits_new 1048576 64 of Ok l \<Rightarrow> l | Err _ \<Rightarrow> state_limits_default))))))))"

definition scope_seed_source ::
  "definition_upgrade_execution \<Rightarrow> step_execution_id option \<Rightarrow> scope_resolution_source
   \<Rightarrow> repository_error + scope_resolution_source" where
  "scope_seed_source up owner_step source =
     (case source of
        SrcStepContext node step v schema sv path \<Rightarrow>
          if owner_step = None \<and> step \<noteq> None then Err DefinitionUpgradeFailed
          else
            res_bind (ok_or (bt_get (du_node_mapping (due_upgrade up)) node) DefinitionUpgradeFailed) (\<lambda>target_node.
            res_bind (upgrade_transform up node DskExecutionContext None) (\<lambda>transform.
            let (schema, sv) = (case transform of Some t \<Rightarrow> (dst_target_schema t, dst_target_version t)
                                | None \<Rightarrow> (schema, sv))
            in Ok (SrcStepContext target_node step v schema sv path)))
      | other \<Rightarrow> Ok other)"

definition build_scope_seeds ::
  "memory_state \<Rightarrow> job_execution_id \<Rightarrow> step_execution_id option \<Rightarrow> definition_upgrade_execution
   \<Rightarrow> repository_error + memory_scope_seed list" where
  "build_scope_seeds s job step up =
     try_map (\<lambda>e. res_bind (scope_seed_source up step (srp_source e)) (\<lambda>source.
       Ok \<lparr>mss_scope = srp_scope e, mss_component = srp_component e, mss_input = srp_input e, mss_source = source\<rparr>))
       (owned_provenance s job step)"

definition resolve_scope_seed_source ::
  "memory_state \<Rightarrow> job_execution_id \<Rightarrow> step_execution_id option \<Rightarrow> scope_resolution_source
   \<Rightarrow> repository_error + scope_resolution_source" where
  "resolve_scope_seed_source s job owner_step source =
     (case source of
        SrcStepContext node step v schema sv path \<Rightarrow>
          res_bind
            (if step \<noteq> None then
               res_bind (ok_or (find (\<lambda>i. ms_step_logical_ids s i = Some node) (rev (steps_of s job)))
                 DefinitionUpgradeFailed) (\<lambda>source_id.
               res_bind (ok_or (ms_step_executions s source_id) DefinitionUpgradeFailed) (\<lambda>x.
               Ok (Some source_id, Some (se_version x))))
             else Ok (None, None)) (\<lambda>(step, v).
          Ok (SrcStepContext node step v schema sv path))
      | SrcFramework f j st \<Rightarrow> Ok (SrcFramework f job owner_step)
      | other \<Rightarrow> Ok other)"

definition materialize_scope_seeds ::
  "job_execution_id \<Rightarrow> step_execution_id option \<Rightarrow> memory_scope_seed list \<Rightarrow> memory_state
   \<Rightarrow> repository_error + memory_state" where
  "materialize_scope_seeds job owner_step seeds s =
     res_bind (try_map (\<lambda>seed.
       res_bind (resolve_scope_seed_source s job owner_step (mss_source seed)) (\<lambda>source.
       map_err (\<lambda>_. DefinitionUpgradeFailed) (scope_resolution_provenance_new (mss_scope seed) (mss_component seed)
         (mss_input seed) job owner_step source))) seeds) (\<lambda>entries.
     Ok (fold (\<lambda>e s. s\<lparr>ms_scope_resolution_provenance :=
           bt_insert (scope_key_of e) e (ms_scope_resolution_provenance s)\<rparr>) entries s))"

definition upgrade_repeat ::
  "to_vec \<Rightarrow> from_slice \<Rightarrow> definition_upgrade_execution \<Rightarrow> node_id \<Rightarrow> node_id \<Rightarrow> repeat_execution
   \<Rightarrow> repository_error + repeat_execution" where
  "upgrade_repeat to_vec from_slice up source_node target_node r =
     res_bind (upgrade_transform up source_node DskRepeat (Some (re_repeat_id r))) (\<lambda>transform.
     res_bind (case transform of Some t \<Rightarrow> transform_context to_vec from_slice up t (re_state r)
                               | None \<Rightarrow> Ok (re_state r)) (\<lambda>state.
     Ok (r\<lparr>re_node_id := target_node, re_definition_node_id := target_node, re_state := state,
           re_plan_fingerprint := di_manifest_digest (du_to (due_upgrade up))\<rparr>)))"

definition build_upgrade_seed ::
  "to_vec \<Rightarrow> from_slice \<Rightarrow> memory_state \<Rightarrow> job_instance_id \<Rightarrow> definition_upgrade_execution \<Rightarrow> node_id \<times> node_id
   \<Rightarrow> (node_id, memory_upgrade_node_seed) btree_map
   \<Rightarrow> repository_error + (node_id, memory_upgrade_node_seed) btree_map" where
  "build_upgrade_seed to_vec from_slice s instance up = (\<lambda>(source_node, target_node) seeds.
     res_bind (latest_flow_step_snapshot s instance source_node) (\<lambda>prior.
     case prior of
       None \<Rightarrow> Ok seeds
     | Some prior \<Rightarrow>
         res_bind (case fss_context prior of
             None \<Rightarrow> Ok None
           | Some source \<Rightarrow>
               res_bind (upgrade_transform up source_node DskExecutionContext None) (\<lambda>transform.
               case transform of
                 Some t \<Rightarrow> res_bind (transform_context to_vec from_slice up t source) (\<lambda>c. Ok (Some c))
               | None \<Rightarrow> Ok (Some source))) (\<lambda>context.
         res_bind (try_map (upgrade_repeat to_vec from_slice up source_node target_node)
           (map snd (filter (\<lambda>((step, i), r). step = se_id (fss_execution prior)) (ms_repeat_executions s)))) (\<lambda>repeats.
         res_bind (build_scope_seeds s (se_job_execution_id (fss_execution prior))
           (Some (se_id (fss_execution prior))) up) (\<lambda>scope.
         Ok (bt_insert target_node
           \<lparr>mus_source_step_execution_id = se_id (fss_execution prior),
            mus_counts = em_counts (se_metadata (fss_execution prior)), mus_context = context,
            mus_repeats = repeats, mus_scope = scope\<rparr> seeds))))))"

definition build_upgrade_seeds ::
  "to_vec \<Rightarrow> from_slice \<Rightarrow> memory_state \<Rightarrow> job_instance_id \<Rightarrow> definition_upgrade_execution
   \<Rightarrow> repository_error + (node_id, memory_upgrade_node_seed) btree_map" where
  "build_upgrade_seeds to_vec from_slice s instance up =
     try_fold (build_upgrade_seed to_vec from_slice s instance up) (du_node_mapping (due_upgrade up)) []"

section \<open>Definitions\<close>

definition ensure_definition ::
  "job_name \<Rightarrow> definition_identity \<Rightarrow> memory_state \<Rightarrow> repository_error + memory_state" where
  "ensure_definition job_name d s =
     (if is_some_and (di_job_name d) (\<lambda>actual. actual \<noteq> job_name)
      then Err (DefinitionJobMismatch job_name (unwrap_or (di_job_name d) []))
      else
        let key = (job_name, di_revision d) in
        case ms_definitions s key of
          Some existing \<Rightarrow>
            if di_manifest_digest existing \<noteq> di_manifest_digest d then Err (DefinitionDrift job_name (di_revision d))
            else Ok s
        | None \<Rightarrow>
            let s = register_job_name job_name s
            in Ok (s\<lparr>ms_definitions := (ms_definitions s)(key \<mapsto> d)\<rparr>))"

definition register_definition ::
  "definition_registration \<Rightarrow> unit_of_work \<Rightarrow> (repository_error + definition_registration) \<times> unit_of_work" where
  "register_definition r u =
     attempt (ensure_definition (dr_job_name r) (dr_definition r) (uw_staged u)) u (\<lambda>s.
     let u = u\<lparr>uw_staged := s\<rparr>; key = (dr_job_name r, dr_revision r) in
     case ms_definition_registry s key of
       Some existing \<Rightarrow>
         if di_manifest_digest (dr_definition existing) \<noteq> di_manifest_digest (dr_definition r)
         then (Err (DefinitionDrift (dr_job_name r) (dr_revision r)), u)
         else if dr_artifact existing \<noteq> dr_artifact r
         then (Err (DefinitionArtifactDrift (dr_job_name r) (dr_revision r)), u)
         else (Ok existing, u)
     | None \<Rightarrow>
         (Ok r, uw_update (\<lambda>s. s\<lparr>
            ms_definition_explorer_order :=
              bt_insert key (next_order (ms_definition_explorer_order s)) (ms_definition_explorer_order s),
            ms_definition_registry := (ms_definition_registry s)(key \<mapsto> r)\<rparr>) u))"

definition register_definition_upgrade ::
  "job_name \<Rightarrow> definition_upgrade \<Rightarrow> unit_of_work \<Rightarrow> (repository_error + unit) \<times> unit_of_work" where
  "register_definition_upgrade job_name up u =
     attempt (ensure_definition job_name (du_from up) (uw_staged u)) u (\<lambda>s.
     let u = u\<lparr>uw_staged := s\<rparr> in
     attempt (ensure_definition job_name (du_to up) (uw_staged u)) u (\<lambda>s.
     let u = u\<lparr>uw_staged := s\<rparr>;
         key = (job_name, di_manifest_digest (du_from up), di_manifest_digest (du_to up)) in
     case ms_definition_upgrades s key of
       Some existing \<Rightarrow> if existing \<noteq> up then (Err (DefinitionUpgradeConflict job_name), u) else (Ok (), u)
     | None \<Rightarrow>
         (Ok (), uw_update (\<lambda>s. s\<lparr>ms_definition_upgrades := (ms_definition_upgrades s)(key \<mapsto> up)\<rparr>) u)))"

section \<open>Instances and job executions\<close>

definition select_or_create_job_instance ::
  "id_generation_error + job_instance_id \<Rightarrow> system_time \<Rightarrow> job_instance_key \<Rightarrow> unit_of_work
   \<Rightarrow> (repository_error + job_instance_selection) \<times> unit_of_work" where
  "select_or_create_job_instance new_id now key u =
     (let s = uw_staged u in
      case ms_instances_by_key s key of
        Some i \<Rightarrow>
          attempt (ok_or (bt_get (ms_instances_by_id s) i) (JobInstanceNotFound i)) u (\<lambda>instance.
          (Ok (SelExisting instance), u))
      | None \<Rightarrow>
          attempt (map_err RepoIdentifier new_id) u (\<lambda>i.
          if bt_contains (ms_instances_by_id s) i then (Err (DuplicateIdentifier IdJobInstance i), u)
          else
            let instance = \<lparr>ji_id = i, ji_key = key\<rparr>
            in (Ok (SelCreated instance), uw_update (\<lambda>s.
                 let s = s\<lparr>ms_instances_by_key := (ms_instances_by_key s)(key \<mapsto> i),
                           ms_instances_by_id := bt_insert i instance (ms_instances_by_id s),
                           ms_instance_created_at := (ms_instance_created_at s)(i \<mapsto> now)\<rparr>;
                     s = register_job_name (jk_job_name key) s
                 in s\<lparr>ms_job_executions_by_instance := (ms_job_executions_by_instance s)(i \<mapsto> [])\<rparr>) u)))"

definition create_starting_metadata ::
  "execution_counts \<Rightarrow> system_time \<Rightarrow> repository_error + execution_metadata" where
  "create_starting_metadata counts now =
     res_bind (map_err RepoDomain (execution_timestamps_new now None None)) (\<lambda>timestamps.
     map_err RepoDomain (execution_metadata_new Starting exit_status_unknown timestamps counts None))"

definition restart_check ::
  "memory_state \<Rightarrow> job_instance_id \<Rightarrow> job_name \<Rightarrow> definition_identity \<Rightarrow> definition_upgrade_execution option
   \<Rightarrow> job_execution \<Rightarrow> repository_error + unit" where
  "restart_check s instance job_name d selected latest =
     (let status = em_status (je_metadata latest) in
      if status = Completed then Err (CompletedInstance instance)
      else if status = Abandoned then Err (AbandonedInstance instance)
      else if \<not> (status = Stopped \<or> status = Failed)
      then Err (ExecutionAlreadyActive instance (je_id latest) status)
      else
        res_bind (ok_or (ms_execution_definitions s (je_id latest)) (IncompatibleDefinition instance)) (\<lambda>previous.
        if di_manifest_digest previous \<noteq> di_manifest_digest d then
          res_bind (ok_or selected (IncompatibleDefinition instance)) (\<lambda>up.
          let edge = due_upgrade up;
              registered = ms_definition_upgrades s (job_name, di_manifest_digest previous, di_manifest_digest d)
          in if du_from edge \<noteq> previous \<or> du_to edge \<noteq> d \<or> registered \<noteq> Some edge
             then Err (IncompatibleDefinition instance) else Ok ())
        else if selected \<noteq> None then Err (IncompatibleDefinition instance)
        else Ok ()))"

definition insert_job_execution ::
  "job_execution \<Rightarrow> u64 \<Rightarrow> definition_identity \<Rightarrow> memory_state \<Rightarrow> memory_state" where
  "insert_job_execution e next_attempt d s =
     s\<lparr>ms_execution_updated_at := (ms_execution_updated_at s)(je_id e \<mapsto> et_created_at (em_timestamps (je_metadata e))),
       ms_job_executions := (ms_job_executions s)(je_id e \<mapsto> e),
       ms_execution_attempts := (ms_execution_attempts s)(je_id e \<mapsto> next_attempt),
       ms_next_execution_attempt_by_instance :=
         (ms_next_execution_attempt_by_instance s)(je_job_instance_id e \<mapsto> next_attempt),
       ms_execution_definitions := (ms_execution_definitions s)(je_id e \<mapsto> d)\<rparr>"

definition seed_upgraded_execution ::
  "job_execution_id \<Rightarrow> job_execution_id option \<Rightarrow> memory_scope_seed list
   \<Rightarrow> (node_id, memory_upgrade_node_seed) btree_map \<Rightarrow> memory_state \<Rightarrow> repository_error + memory_state" where
  "seed_upgraded_execution i restart_source job_scope seeds s =
     res_bind (materialize_scope_seeds i None job_scope s) (\<lambda>s.
     let s = (case restart_source of
               None \<Rightarrow> s
             | Some source \<Rightarrow> s\<lparr>ms_upgrade_sources := (ms_upgrade_sources s)(i \<mapsto> source)\<rparr>)
     in Ok (s\<lparr>ms_upgrade_seeds := fold (\<lambda>(n, seed). bt_insert (i, n) seed) seeds (ms_upgrade_seeds s)\<rparr>))"

definition create_job_execution ::
  "to_vec \<Rightarrow> from_slice \<Rightarrow> sha256 \<Rightarrow> id_generation_error + job_execution_id \<Rightarrow> system_time \<Rightarrow> job_instance_id
   \<Rightarrow> unit_of_work \<Rightarrow> (repository_error + job_execution) \<times> unit_of_work" where
  "create_job_execution to_vec from_slice sha256 new_id now instance u =
     (let d = unwrap_or (uw_definition_override u) (definition_identity_legacy sha256);
          selected = uw_upgrade_override u;
          u = u\<lparr>uw_definition_override := None, uw_upgrade_override := None\<rparr> in
      attempt (ok_or (bt_get (ms_instances_by_id (uw_staged u)) instance) (JobInstanceNotFound instance)) u (\<lambda>x.
      let job_name = jk_job_name (ji_key x) in
      attempt (ensure_definition job_name d (uw_staged u)) u (\<lambda>s.
      let u = u\<lparr>uw_staged := s\<rparr> in
      attempt (latest_job_execution s instance) u (\<lambda>latest.
      let restart_source = map_option je_id latest;
          restart_parameters = and_then latest (\<lambda>l. ms_job_parameters s (je_id l)) in
      attempt (case latest of None \<Rightarrow> Ok () | Some l \<Rightarrow> restart_check s instance job_name d selected l) u (\<lambda>_.
      attempt (case selected of Some up \<Rightarrow> build_upgrade_seeds to_vec from_slice s instance up | None \<Rightarrow> Ok []) u (\<lambda>seeds.
      attempt (case (selected, restart_source) of
                 (Some up, Some source) \<Rightarrow> build_scope_seeds s source None up | _ \<Rightarrow> Ok []) u (\<lambda>job_scope.
      attempt (map_err RepoIdentifier new_id) u (\<lambda>i.
      if ms_job_executions s i \<noteq> None then (Err (DuplicateIdentifier IdJobExecution i), u)
      else
        attempt (ok_or (checked_add (unwrap_or (ms_next_execution_attempt_by_instance s instance) 0) 1)
          ScopeResolutionStateCorrupt) u (\<lambda>next_attempt.
        attempt (create_starting_metadata execution_counts_default now) u (\<lambda>metadata.
        let e = job_execution_new i instance metadata;
            s = insert_job_execution e next_attempt d s;
            u = u\<lparr>uw_staged := s\<rparr> in
        attempt (if selected \<noteq> None then seed_upgraded_execution i restart_source job_scope seeds s else Ok s) u (\<lambda>s.
        let s = (case restart_parameters of
                  None \<Rightarrow> s
                | Some p \<Rightarrow> s\<lparr>ms_job_parameters := (ms_job_parameters s)(i \<mapsto> p)\<rparr>) in
        proceed (let (r, s) = (case restart_source of
                    Some source \<Rightarrow> if selected = None
                      then copy_forward_scope_resolution_provenance source None i None s else (Ok (), s)
                  | None \<Rightarrow> (Ok (), s)) in (r, u\<lparr>uw_staged := s\<rparr>)) (\<lambda>_ u.
        attempt (ok_or (ms_job_executions_by_instance (uw_staged u) instance) (JobInstanceNotFound instance)) u (\<lambda>ids.
        (Ok e, uw_update (\<lambda>s. s\<lparr>ms_job_executions_by_instance :=
            (ms_job_executions_by_instance s)(instance \<mapsto> ids @ [i])\<rparr>) u))))))))))))))"

definition create_job_execution_with_definition where
  "create_job_execution_with_definition to_vec from_slice sha256 new_id now instance d u =
     create_job_execution to_vec from_slice sha256 new_id now instance (u\<lparr>uw_definition_override := Some d\<rparr>)"

definition create_job_execution_with_upgrade where
  "create_job_execution_with_upgrade to_vec from_slice sha256 new_id now instance up u =
     create_job_execution to_vec from_slice sha256 new_id now instance
       (u\<lparr>uw_definition_override := Some (du_to (due_upgrade up)), uw_upgrade_override := Some up\<rparr>)"

definition store_parameters ::
  "job_parameters \<Rightarrow> job_execution \<Rightarrow> unit_of_work \<Rightarrow> (repository_error + job_execution) \<times> unit_of_work" where
  "store_parameters p e u =
     (Ok e, uw_update (\<lambda>s. s\<lparr>ms_job_parameters := (ms_job_parameters s)(je_id e \<mapsto> p)\<rparr>) u)"

definition create_job_execution_with_definition_and_parameters where
  "create_job_execution_with_definition_and_parameters to_vec from_slice sha256 new_id now instance d p u =
     proceed (create_job_execution_with_definition to_vec from_slice sha256 new_id now instance d u) (store_parameters p)"

definition create_job_execution_with_upgrade_and_parameters where
  "create_job_execution_with_upgrade_and_parameters to_vec from_slice sha256 new_id now instance up p u =
     proceed (create_job_execution_with_upgrade to_vec from_slice sha256 new_id now instance up u) (store_parameters p)"


definition job_execution_parameters :: "memory_state \<Rightarrow> job_execution_id \<Rightarrow> repository_error + job_parameters" where
  "job_execution_parameters s i =
     res_bind (instance_for_execution s i) (\<lambda>_. ok_or (ms_job_parameters s i) ScopeResolutionStateCorrupt)"

definition scope_execution_definition :: "memory_state \<Rightarrow> job_execution_id \<Rightarrow> repository_error + definition_identity" where
  "scope_execution_definition s i =
     res_bind (instance_for_execution s i) (\<lambda>_. ok_or (ms_execution_definitions s i) ScopeResolutionStateCorrupt)"

definition scope_execution_attempt :: "memory_state \<Rightarrow> job_execution_id \<Rightarrow> repository_error + u64" where
  "scope_execution_attempt s i =
     res_bind (instance_for_execution s i) (\<lambda>_.
     ok_or (and_then (ms_execution_attempts s i) (\<lambda>a. if a = 0 then None else Some a)) ScopeResolutionStateCorrupt)"

section \<open>Storing provenance\<close>

definition check_owner_step ::
  "memory_state \<Rightarrow> job_execution_id \<Rightarrow> step_execution_id option \<Rightarrow> repository_error + unit" where
  "check_owner_step s job step =
     (case step of
        None \<Rightarrow> Ok ()
      | Some i \<Rightarrow>
          res_bind (ok_or (ms_step_executions s i) (StepExecutionNotFound i)) (\<lambda>x.
          if se_job_execution_id x \<noteq> job then Err ScopeResolutionStateCorrupt else Ok ()))"

definition find_scope_resolution_provenance ::
  "memory_state \<Rightarrow> scope_kind \<Rightarrow> scoped_component_id \<Rightarrow> job_execution_id \<Rightarrow> step_execution_id option
   \<Rightarrow> repository_error + scope_resolution_provenance list" where
  "find_scope_resolution_provenance s scope component job step =
     res_bind (instance_for_execution s job) (\<lambda>_.
     res_bind (check_owner_step s job step) (\<lambda>_.
     Ok (map snd (filter (\<lambda>((k, c, i, j, st), e). k = scope \<and> c = component \<and> j = job \<and> st = step)
       (ms_scope_resolution_provenance s)))))"

definition store_provenance_entry ::
  "scope_resolution_provenance \<Rightarrow> scope_resolution_provenance \<Rightarrow> parameter_name set \<times> memory_state
   \<Rightarrow> (repository_error + unit) \<times> (parameter_name set \<times> memory_state)" where
  "store_provenance_entry first e = (\<lambda>(inputs, s).
     if srp_scope e \<noteq> srp_scope first \<or> srp_component e \<noteq> srp_component first
        \<or> srp_owner_job e \<noteq> srp_owner_job first \<or> srp_owner_step e \<noteq> srp_owner_step first \<or> srp_input e \<in> inputs
     then (Err ScopeResolutionStateCorrupt, (inputs, s))
     else
       let inputs = insert (srp_input e) inputs in
       attempt (res_bind (instance_for_execution s (srp_owner_job e)) (\<lambda>_.
                res_bind (check_owner_step s (srp_owner_job e) (srp_owner_step e)) (\<lambda>_.
                validate_scope_provenance_source s e))) (inputs, s) (\<lambda>_.
       case bt_get (ms_scope_resolution_provenance s) (scope_key_of e) of
         Some existing \<Rightarrow> (if existing \<noteq> e then Err ScopeResolutionStateCorrupt else Ok (), (inputs, s))
       | None \<Rightarrow>
           (Ok (), (inputs, s\<lparr>
              ms_scope_explorer_order :=
                bt_insert (scope_key_of e) (next_order (ms_scope_explorer_order s)) (ms_scope_explorer_order s),
              ms_scope_resolution_provenance :=
                bt_insert (scope_key_of e) e (ms_scope_resolution_provenance s)\<rparr>))))"

definition store_scope_resolution_provenance ::
  "scope_resolution_provenance list \<Rightarrow> unit_of_work \<Rightarrow> (repository_error + unit) \<times> unit_of_work" where
  "store_scope_resolution_provenance entries u =
     (if length entries > MAX_LATE_BOUND_INPUTS then (Err ScopeResolutionStateCorrupt, u)
      else case entries of
        [] \<Rightarrow> (Ok (), u)
      | first # rest \<Rightarrow>
          let (r, (inputs, s)) = proceed_each (store_provenance_entry first) entries ({}, uw_staged u)
          in (r, u\<lparr>uw_staged := s\<rparr>))"

section \<open>Step executions\<close>

definition historical_starts :: "memory_state \<Rightarrow> job_instance_id \<Rightarrow> node_id \<Rightarrow> nat" where
  "historical_starts s instance node =
     length (filter (\<lambda>step. ms_step_logical_ids s step = Some node)
       (concat (map (steps_of s) (unwrap_or (ms_job_executions_by_instance s instance) []))))"

definition seed_repeat ::
  "job_instance_id \<Rightarrow> node_id \<Rightarrow> step_execution_id \<Rightarrow> job_execution_id \<Rightarrow> repeat_execution \<Rightarrow> memory_state
   \<Rightarrow> (repository_error + unit) \<times> memory_state" where
  "seed_repeat instance node i job r s =
     attempt (ok_or (ms_execution_definitions s job) RepeatStateCorrupt) s (\<lambda>d.
     let m = \<lparr>re_job_instance_id = instance, re_node_id = node, re_definition_node_id = node,
              re_step_execution_id = i, re_repeat_id = re_repeat_id r, re_lineage = re_lineage r,
              re_ordinal = re_ordinal r, re_state = re_state r, re_decision = re_decision r,
              re_plan_fingerprint = di_manifest_digest d\<rparr>
     in (Ok (), s\<lparr>ms_repeat_executions := bt_insert (i, re_repeat_id m) m (ms_repeat_executions s)\<rparr>))"

definition seed_step ::
  "job_instance_id \<Rightarrow> node_id \<Rightarrow> step_execution_id \<Rightarrow> job_execution_id \<Rightarrow> memory_upgrade_node_seed option
   \<Rightarrow> memory_state \<Rightarrow> (repository_error + unit) \<times> memory_state" where
  "seed_step instance node i job seed s =
     (case seed of
        None \<Rightarrow> (Ok (), s)
      | Some seed \<Rightarrow>
          proceed (proceed_each (seed_repeat instance node i job) (mus_repeats seed) s) (\<lambda>_ s.
          attempt (materialize_scope_seeds job (Some i) (mus_scope seed) s) s (\<lambda>s. (Ok (), s))))"

definition insert_step_execution ::
  "step_execution \<Rightarrow> node_id \<Rightarrow> execution_context option \<Rightarrow> memory_state \<Rightarrow> memory_state" where
  "insert_step_execution x node context s =
     (let s = s\<lparr>ms_step_executions := (ms_step_executions s)(se_id x \<mapsto> x),
                ms_step_logical_ids := (ms_step_logical_ids s)(se_id x \<mapsto> node)\<rparr>
      in case context of
           None \<Rightarrow> s
         | Some c \<Rightarrow> s\<lparr>ms_step_contexts := (ms_step_contexts s)(se_id x \<mapsto> c)\<rparr>)"

definition create_flow_step_execution ::
  "id_generation_error + step_execution_id \<Rightarrow> system_time \<Rightarrow> job_execution_id \<Rightarrow> step_name \<Rightarrow> node_id \<Rightarrow> start_limit
   \<Rightarrow> unit_of_work \<Rightarrow> (repository_error + step_execution) \<times> unit_of_work" where
  "create_flow_step_execution new_id now job name node limit u =
     (let s = uw_staged u in
      attempt (instance_for_execution s job) u (\<lambda>instance.
      if historical_starts s instance node \<ge> unat limit then (Err (StartLimitExceeded instance node limit), u)
      else
        let upgrade_seed = bt_get (ms_upgrade_seeds s) (job, node) in
        attempt (map_err RepoIdentifier new_id) u (\<lambda>i.
        if ms_step_executions s i \<noteq> None then (Err (DuplicateIdentifier IdStepExecution i), u)
        else
          attempt (if ms_upgrade_sources s job \<noteq> None then Ok None else latest_flow_step_snapshot s instance node) u (\<lambda>prior.
          let source_owner = map_option (\<lambda>p. (se_job_execution_id (fss_execution p), se_id (fss_execution p))) prior;
              counts = (case upgrade_seed of
                  Some seed \<Rightarrow> mus_counts seed
                | None \<Rightarrow> (case prior of
                    Some p \<Rightarrow> em_counts (se_metadata (fss_execution p)) | None \<Rightarrow> execution_counts_default));
              inherited_context = option_or (and_then upgrade_seed mus_context) (and_then prior fss_context) in
          attempt (create_starting_metadata counts now) u (\<lambda>metadata.
          let x = step_execution_new i job name metadata;
              s = insert_step_execution x node inherited_context s in
          proceed (let (r, s) = seed_step instance node i job upgrade_seed s in (r, u\<lparr>uw_staged := s\<rparr>)) (\<lambda>_ u.
          proceed (let (r, s) = (case source_owner of
                None \<Rightarrow> (Ok (), uw_staged u)
              | Some (source_job, source_step) \<Rightarrow>
                  copy_forward_scope_resolution_provenance source_job (Some source_step) job (Some i) (uw_staged u))
              in (r, u\<lparr>uw_staged := s\<rparr>)) (\<lambda>_ u.
          (Ok x, uw_update (\<lambda>s. s\<lparr>ms_step_executions_by_job :=
             (ms_step_executions_by_job s)(job \<mapsto> steps_of s job @ [i])\<rparr>) u))))))))"

definition create_step_execution ::
  "id_generation_error + step_execution_id \<Rightarrow> system_time \<Rightarrow> job_execution_id \<Rightarrow> step_name \<Rightarrow> unit_of_work
   \<Rightarrow> (repository_error + step_execution) \<times> unit_of_work" where
  "create_step_execution new_id now job name u =
     attempt (map_err (\<lambda>_. FlowStateCorrupt) (node_id_new name)) u (\<lambda>node.
     create_flow_step_execution new_id now job name node start_limit_unrestricted u)"

section \<open>Lifecycle mutations\<close>

text \<open>
  \<^verbatim>\<open>execution.transition(...)?\<close> mutates the stored record in place; the record it leaves is stored back on
  either outcome.
\<close>

definition transition_job_execution ::
  "job_execution_id \<Rightarrow> execution_version \<Rightarrow> lifecycle_transition \<Rightarrow> unit_of_work
   \<Rightarrow> (repository_error + job_execution) \<times> unit_of_work" where
  "transition_job_execution i expected t u =
     attempt (ok_or (ms_job_executions (uw_staged u) i) (JobExecutionNotFound i)) u (\<lambda>e.
     let (r, e) = job_execution_transition expected t e;
         u = uw_update (\<lambda>s. s\<lparr>ms_job_executions := (ms_job_executions s)(i \<mapsto> e)\<rparr>) u in
     attempt (map_err RepoLifecycle r) u (\<lambda>_.
     (Ok e, uw_update (\<lambda>s. s\<lparr>ms_execution_updated_at := (ms_execution_updated_at s)(i \<mapsto> lt_transitioned_at t)\<rparr>) u)))"

definition enrich_job_exit_status ::
  "job_execution_id \<Rightarrow> execution_version \<Rightarrow> exit_status \<Rightarrow> unit_of_work
   \<Rightarrow> (repository_error + job_execution) \<times> unit_of_work" where
  "enrich_job_exit_status i expected x u =
     attempt (ok_or (ms_job_executions (uw_staged u) i) (JobExecutionNotFound i)) u (\<lambda>e.
     let (r, e) = job_execution_enrich_exit_status expected x e;
         u = uw_update (\<lambda>s. s\<lparr>ms_job_executions := (ms_job_executions s)(i \<mapsto> e)\<rparr>) u in
     attempt (map_err RepoLifecycle r) u (\<lambda>_. (Ok e, u)))"

definition transition_step_execution ::
  "step_execution_id \<Rightarrow> execution_version \<Rightarrow> lifecycle_transition \<Rightarrow> unit_of_work
   \<Rightarrow> (repository_error + step_execution) \<times> unit_of_work" where
  "transition_step_execution i expected t u =
     attempt (ok_or (ms_step_executions (uw_staged u) i) (StepExecutionNotFound i)) u (\<lambda>e.
     let (r, e) = step_execution_transition expected t e;
         u = uw_update (\<lambda>s. s\<lparr>ms_step_executions := (ms_step_executions s)(i \<mapsto> e)\<rparr>) u in
     attempt (map_err RepoLifecycle r) u (\<lambda>_. (Ok e, u)))"

definition enrich_step_exit_status ::
  "step_execution_id \<Rightarrow> execution_version \<Rightarrow> exit_status \<Rightarrow> unit_of_work
   \<Rightarrow> (repository_error + step_execution) \<times> unit_of_work" where
  "enrich_step_exit_status i expected x u =
     attempt (ok_or (ms_step_executions (uw_staged u) i) (StepExecutionNotFound i)) u (\<lambda>e.
     let (r, e) = step_execution_enrich_exit_status expected x e;
         u = uw_update (\<lambda>s. s\<lparr>ms_step_executions := (ms_step_executions s)(i \<mapsto> e)\<rparr>) u in
     attempt (map_err RepoLifecycle r) u (\<lambda>_. (Ok e, u)))"

definition commit_step_execution_context ::
  "step_execution_id \<Rightarrow> execution_version \<Rightarrow> execution_context \<Rightarrow> unit_of_work
   \<Rightarrow> (repository_error + step_execution) \<times> unit_of_work" where
  "commit_step_execution_context i expected context u =
     attempt (ok_or (ms_step_executions (uw_staged u) i) (StepExecutionNotFound i)) u (\<lambda>e.
     if se_version e \<noteq> expected then (Err (RepoLifecycle (StaleVersion expected (se_version e))), u)
     else if em_status (se_metadata e) \<noteq> Started then (Err FlowStateCorrupt, u)
     else
       attempt (map_err RepoLifecycle (version_next expected)) u (\<lambda>next_version.
       let updated = e\<lparr>se_version := next_version\<rparr>
       in (Ok updated, uw_update (\<lambda>s. s\<lparr>ms_step_executions := (ms_step_executions s)(i \<mapsto> updated),
                                          ms_step_contexts := (ms_step_contexts s)(i \<mapsto> context)\<rparr>) u)))"

section \<open>Queries\<close>

definition find_job_instance :: "memory_state \<Rightarrow> job_instance_key \<Rightarrow> job_instance option" where
  "find_job_instance s key = and_then (ms_instances_by_key s key) (bt_get (ms_instances_by_id s))"

definition job_executions :: "memory_state \<Rightarrow> job_instance_id \<Rightarrow> repository_error + job_execution list" where
  "job_executions s i =
     (if \<not> bt_contains (ms_instances_by_id s) i then Err (JobInstanceNotFound i)
      else Ok (List.map_filter (ms_job_executions s) (unwrap_or (ms_job_executions_by_instance s i) [])))"

definition step_executions :: "memory_state \<Rightarrow> job_execution_id \<Rightarrow> repository_error + step_execution list" where
  "step_executions s i =
     (if ms_job_executions s i = None then Err (JobExecutionNotFound i)
      else Ok (List.map_filter (ms_step_executions s) (steps_of s i)))"

definition scope_step_state :: "memory_state \<Rightarrow> step_execution_id \<Rightarrow> repository_error + flow_step_state option" where
  "scope_step_state s i =
     (case ms_step_executions s i of
        None \<Rightarrow> Ok None
      | Some x \<Rightarrow>
          res_bind (ok_or (ms_step_logical_ids s i) ScopeResolutionStateCorrupt) (\<lambda>node.
          Ok (Some \<lparr>fss_node_id = node, fss_execution = x, fss_context = ms_step_contexts s i\<rparr>)))"

end
