(* ===== verification/Memory_Operator.thy ===== *)
theory Memory_Operator
  imports Memory_Launch
begin

text \<open>
  Operating the reference repository, \<^verbatim>\<open>repository/memory.rs\<close>: recovery of unresolved executions, the
  durable operator-request log, stop requests and ownership, retention holds and bounded purging.
\<close>

section \<open>Recovery\<close>

record recovery_result =
  rres_execution :: job_execution
  rres_decision :: recovery_decision

fun recover_children ::
  "memory_state \<Rightarrow> recovery_request \<Rightarrow> system_time \<Rightarrow> step_execution_id list
   \<Rightarrow> repository_error + step_execution list" where
  "recover_children s request decided_at [] = Ok []"
| "recover_children s request decided_at (i # is) =
     res_bind (ok_or (ms_step_executions s i) FlowStateCorrupt) (\<lambda>prior.
     res_bind (recovered_step_execution prior request decided_at) (\<lambda>child.
     res_bind (recover_children s request decided_at is) (\<lambda>children.
     Ok (case child of None \<Rightarrow> children | Some c \<Rightarrow> c # children))))"

definition recover_job_execution ::
  "system_time \<Rightarrow> job_execution_id \<Rightarrow> recovery_request \<Rightarrow> unit_of_work
   \<Rightarrow> (repository_error + recovery_result) \<times> unit_of_work" where
  "recover_job_execution decided_at i request u =
     (let s = uw_staged u in
      attempt (ok_or (ms_job_executions s i) (JobExecutionNotFound i)) u (\<lambda>prior.
      if is_some_and (bt_get (ms_recovery_decisions s) i)
           (list_ex (\<lambda>d. rd_execution_version d = rr_expected_version request))
      then (Err ConcurrentModification, u)
      else
        attempt (recovered_execution prior request decided_at) u (\<lambda>recovered.
        attempt (recover_children s request decided_at (steps_of s i)) u (\<lambda>children.
        attempt (next_recovery_decision_id s) u (\<lambda>decision_id.
        let decision = \<lparr>rd_id = decision_id, rd_job_execution_id = i,
              rd_execution_version = rr_expected_version request,
              rd_prior_status = em_status (je_metadata prior),
              rd_resulting_status = em_status (je_metadata recovered),
              rd_reason_code = rr_reason_code request, rd_operator_reference = rr_operator_reference request,
              rd_evidence_digest = rr_evidence_digest request, rd_decided_at = decided_at\<rparr>
        in (Ok \<lparr>rres_execution = recovered, rres_decision = decision\<rparr>, uw_update (\<lambda>s. s\<lparr>
              ms_job_executions := (ms_job_executions s)(i \<mapsto> recovered),
              ms_step_executions := fold (\<lambda>c m. m(se_id c \<mapsto> c)) children (ms_step_executions s),
              ms_execution_updated_at := (ms_execution_updated_at s)(i \<mapsto> decided_at),
              ms_recovery_decisions := bt_insert i
                (unwrap_or (bt_get (ms_recovery_decisions s) i) [] @ [decision]) (ms_recovery_decisions s)\<rparr>) u))))))"

definition find_recovery_decision ::
  "memory_state \<Rightarrow> job_execution_id \<Rightarrow> repository_error + recovery_decision option" where
  "find_recovery_decision s i =
     (if ms_job_executions s i = None then Err (JobExecutionNotFound i)
      else Ok (and_then (bt_get (ms_recovery_decisions s) i) (\<lambda>ds. if ds = [] then None else Some (hd ds))))"

section \<open>Operator requests\<close>

definition find_operator_request ::
  "memory_state \<Rightarrow> operator_action \<Rightarrow> operation_id \<Rightarrow> operator_record option" where
  "find_operator_request s action operation =
     and_then (ms_operator_request_keys s (operator_action_as_str action, operation)) (bt_get (ms_operator_requests s))"

definition append_operator_request ::
  "operator_record_draft \<Rightarrow> unit_of_work \<Rightarrow> (repository_error + operator_record) \<times> unit_of_work" where
  "append_operator_request draft u =
     (let key = (operator_action_as_str (ord_action draft), ord_operation_id draft) in
      if ms_operator_request_keys (uw_staged u) key \<noteq> None then (Err ConcurrentModification, u)
      else
        attempt (next_key IdOperatorRequest (ms_operator_requests (uw_staged u))) u (\<lambda>i.
        let r = operator_record_from_parts i draft
        in (Ok r, uw_update (\<lambda>s. s\<lparr>
              ms_operator_requests := bt_insert i r (ms_operator_requests s),
              ms_operator_request_keys := (ms_operator_request_keys s)(key \<mapsto> i)\<rparr>) u)))"

section \<open>Stop requests and ownership\<close>

definition request_execution_stop ::
  "job_execution_id \<Rightarrow> execution_version \<Rightarrow> system_time \<Rightarrow> unit_of_work
   \<Rightarrow> (repository_error + job_execution) \<times> unit_of_work" where
  "request_execution_stop i expected requested_at u =
     attempt (ok_or (ms_job_executions (uw_staged u) i) (JobExecutionNotFound i)) u (\<lambda>e.
     if je_version e \<noteq> expected then (Err (RepoLifecycle (StaleVersion expected (je_version e))), u)
     else (Ok e, uw_update (\<lambda>s. s\<lparr>
            ms_stop_requests := (ms_stop_requests s)(i \<mapsto> requested_at),
            ms_execution_updated_at := (ms_execution_updated_at s)(i \<mapsto> requested_at)\<rparr>) u))"

definition claim_execution_owner ::
  "job_execution_id \<Rightarrow> execution_version \<Rightarrow> owner_token \<Rightarrow> system_time \<Rightarrow> unit_of_work
   \<Rightarrow> (repository_error + job_execution) \<times> unit_of_work" where
  "claim_execution_owner i expected owner claimed_at u =
     attempt (ok_or (ms_job_executions (uw_staged u) i) (JobExecutionNotFound i)) u (\<lambda>e.
     if je_version e \<noteq> expected then (Err (RepoLifecycle (StaleVersion expected (je_version e))), u)
     else if em_status (je_metadata e) \<noteq> Starting
     then (Err (ExecutionOwnershipNotAllowed i (em_status (je_metadata e))), u)
     else if is_some_and (ms_owner_tokens (uw_staged u) i) (\<lambda>recorded. recorded \<noteq> owner)
     then (Err (ExecutionOwned i), u)
     else (Ok e, uw_update (\<lambda>s. s\<lparr>
            ms_owner_tokens := (ms_owner_tokens s)(i \<mapsto> owner),
            ms_execution_updated_at := (ms_execution_updated_at s)(i \<mapsto> claimed_at)\<rparr>) u))"

record execution_control =
  ec_execution :: job_execution
  ec_owner_matches :: bool
  ec_stop_requested :: bool

definition observe_execution_control ::
  "job_execution_id \<Rightarrow> owner_token \<Rightarrow> system_time \<Rightarrow> unit_of_work
   \<Rightarrow> (repository_error + execution_control) \<times> unit_of_work" where
  "observe_execution_control i owner observed_at u =
     (let owner_matches = (ms_owner_tokens (uw_staged u) i = Some owner);
          stop_requested = (ms_stop_requests (uw_staged u) i \<noteq> None) in
      attempt (ok_or (ms_job_executions (uw_staged u) i) (JobExecutionNotFound i)) u (\<lambda>e.
      if owner_matches \<and> stop_requested
         \<and> (em_status (je_metadata e) = Starting \<or> em_status (je_metadata e) = Started)
      then
        let (r, e) = job_execution_transition (je_version e) (lifecycle_transition_new Stopping observed_at) e;
            u = uw_update (\<lambda>s. s\<lparr>ms_job_executions := (ms_job_executions s)(i \<mapsto> e)\<rparr>) u in
        attempt (map_err RepoLifecycle r) u (\<lambda>_.
        (Ok \<lparr>ec_execution = e, ec_owner_matches = owner_matches, ec_stop_requested = stop_requested\<rparr>,
         uw_update (\<lambda>s. s\<lparr>ms_execution_updated_at := (ms_execution_updated_at s)(i \<mapsto> observed_at)\<rparr>) u))
      else (Ok \<lparr>ec_execution = e, ec_owner_matches = owner_matches, ec_stop_requested = stop_requested\<rparr>, u)))"

section \<open>Holds\<close>

definition job_instance_hold :: "memory_state \<Rightarrow> job_instance_id \<Rightarrow> repository_error + retention_hold option" where
  "job_instance_hold s i =
     (if \<not> bt_contains (ms_instances_by_id s) i then Err (JobInstanceNotFound i) else Ok (ms_holds s i))"

definition place_instance_hold ::
  "job_instance_id \<Rightarrow> actor_ref \<Rightarrow> reason_code \<Rightarrow> system_time \<Rightarrow> unit_of_work
   \<Rightarrow> (repository_error + retention_hold) \<times> unit_of_work" where
  "place_instance_hold i actor reason placed_at u =
     (if \<not> bt_contains (ms_instances_by_id (uw_staged u)) i then (Err (JobInstanceNotFound i), u)
      else
        let hold = \<lparr>rh_job_instance_id = i, rh_actor = actor, rh_reason = reason, rh_placed_at = placed_at\<rparr>
        in (Ok hold, uw_update (\<lambda>s. s\<lparr>ms_holds := (ms_holds s)(i \<mapsto> hold)\<rparr>) u))"

definition release_instance_hold ::
  "job_instance_id \<Rightarrow> unit_of_work \<Rightarrow> (repository_error + retention_hold option) \<times> unit_of_work" where
  "release_instance_hold i u =
     (if \<not> bt_contains (ms_instances_by_id (uw_staged u)) i then (Err (JobInstanceNotFound i), u)
      else (Ok (ms_holds (uw_staged u) i), uw_update (\<lambda>s. s\<lparr>ms_holds := (ms_holds s)(i := None)\<rparr>) u))"

section \<open>Retention actions\<close>

definition find_retention_action ::
  "memory_state \<Rightarrow> retention_action \<Rightarrow> operation_id \<Rightarrow> retention_record option" where
  "find_retention_action s action operation =
     and_then (ms_retention_action_keys s (retention_action_as_str action, operation)) (bt_get (ms_retention_actions s))"

definition append_retention_action ::
  "retention_record_draft \<Rightarrow> unit_of_work \<Rightarrow> (repository_error + retention_record) \<times> unit_of_work" where
  "append_retention_action draft u =
     (let key = (retention_action_as_str (rrd_action draft), rrd_operation_id draft) in
      if ms_retention_action_keys (uw_staged u) key \<noteq> None then (Err ConcurrentModification, u)
      else
        attempt (next_key IdRetentionAction (ms_retention_actions (uw_staged u))) u (\<lambda>i.
        let r = retention_record_from_parts i draft
        in (Ok r, uw_update (\<lambda>s. s\<lparr>
              ms_retention_actions := bt_insert i r (ms_retention_actions s),
              ms_retention_action_keys := (ms_retention_action_keys s)(key \<mapsto> i)\<rparr>) u)))"

section \<open>Planning a purge\<close>

definition updated_at :: "job_execution \<Rightarrow> system_time" where
  "updated_at e =
     (let t = em_timestamps (je_metadata e)
      in unwrap_or (option_or (et_ended_at t) (et_started_at t)) (et_created_at t))"

fun provenance_references ::
  "memory_state \<Rightarrow> job_execution_id \<Rightarrow> scope_resolution_source \<Rightarrow> repository_error + bool" where
  "provenance_references s x (SrcJobParameter job p) = Ok (job = x)"
| "provenance_references s x (SrcJobContext job v schema sv path) = Ok (job = x)"
| "provenance_references s x (SrcFramework f job step) = Ok (job = x)"
| "provenance_references s x (SrcStepContext n (Some step) v schema sv path) =
     res_bind (ok_or (ms_step_executions s step) ScopeResolutionStateCorrupt) (\<lambda>e.
     Ok (se_job_execution_id e = x))"
| "provenance_references s x (SrcStepContext n None v schema sv path) = Ok False"

fun scope_source_search ::
  "memory_state \<Rightarrow> job_execution_id \<Rightarrow> scope_resolution_provenance list \<Rightarrow> repository_error + bool" where
  "scope_source_search s x [] = Ok False"
| "scope_source_search s x (p # ps) =
     (if srp_owner_job p = x then scope_source_search s x ps
      else res_bind (provenance_references s x (srp_source p)) (\<lambda>references.
           if references then Ok True else scope_source_search s x ps))"

definition scope_source_referenced_by_other_execution ::
  "memory_state \<Rightarrow> job_execution_id \<Rightarrow> repository_error + bool" where
  "scope_source_referenced_by_other_execution s x =
     scope_source_search s x (map snd (ms_scope_resolution_provenance s))"

abbreviation executions_of :: "memory_state \<Rightarrow> job_instance_id \<Rightarrow> job_execution list" where
  "executions_of s i \<equiv>
     List.map_filter (ms_job_executions s) (unwrap_or (ms_job_executions_by_instance s i) [])"

definition execution_eligible :: "memory_state \<Rightarrow> purge_plan_request \<Rightarrow> system_time \<Rightarrow> job_execution \<Rightarrow> bool" where
  "execution_eligible s request now e \<longleftrightarrow>
     em_status (je_metadata e) \<in> set (ppr_statuses request)
     \<and> \<not> nat (now - updated_at e) < ppr_minimum_age request
     \<and> (case scope_source_referenced_by_other_execution s (je_id e) of Ok r \<Rightarrow> \<not> r | Err _ \<Rightarrow> False)"

definition purge_eligible :: "memory_state \<Rightarrow> purge_plan_request \<Rightarrow> system_time \<Rightarrow> purge_candidate list" where
  "purge_eligible s request now =
     take (unat (ppr_batch request)) (sort (concat (map (\<lambda>(i, instance).
       if jk_job_name (ji_key instance) \<noteq> ppr_job_name request \<or> ms_holds s i \<noteq> None then []
       else
         let executions = executions_of s i in
         if list_ex (\<lambda>e. \<not> is_finished (em_status (je_metadata e))) executions then []
         else map (\<lambda>e. (i, je_id e, je_version e)) (filter (execution_eligible s request now) executions))
       (ms_instances_by_id s))))"

definition count_of :: "'a list option \<Rightarrow> u64" where
  "count_of vs = (case vs of None \<Rightarrow> 0 | Some xs \<Rightarrow> length_word (length xs))"

definition purge_counts_of :: "memory_state \<Rightarrow> purge_candidate list \<Rightarrow> purge_counts" where
  "purge_counts_of s candidates =
     (let ids = map (\<lambda>(i, x, v). x) candidates;
          instances = fold (\<lambda>(i, x, v) m. bt_insert i (unwrap_or (bt_get m i) 0 + 1) m) candidates
                        ([] :: (job_instance_id, u64) btree_map)
      in \<lparr>pc_flow_decisions = fold (\<lambda>x n. saturating_add n (count_of (ms_flow_decisions_by_job s x))) ids 0,
          pc_recovery_decisions =
            fold (\<lambda>x n. saturating_add n (count_of (bt_get (ms_recovery_decisions s) x))) ids 0,
          pc_operator_requests = fold (\<lambda>x n. saturating_add n (length_word (length
              (filter (\<lambda>(i, r). ord_job_execution_id r = Some x) (ms_operator_requests s))))) ids 0,
          pc_step_partitions = fold (\<lambda>x n. saturating_add n
              (fold (\<lambda>step m. saturating_add m (count_of (ms_step_partitions_by_step s step))) (steps_of s x) 0)) ids 0,
          pc_step_executions = fold (\<lambda>x n. saturating_add n (count_of (ms_step_executions_by_job s x))) ids 0,
          pc_job_executions = length_word (length candidates),
          pc_job_instances = length_word (length
              (filter (\<lambda>(i, purged). count_of (ms_job_executions_by_instance s i) = purged) instances))\<rparr>)"

definition purge_survey :: "purge_plan_request \<Rightarrow> system_time \<Rightarrow> memory_state \<Rightarrow> purge_candidate list \<times> purge_counts" where
  "purge_survey request now s =
     (let candidates = purge_eligible s request now in (candidates, purge_counts_of s candidates))"

section \<open>Applying a purge\<close>

definition remove_step_execution :: "step_execution_id \<Rightarrow> memory_state \<Rightarrow> memory_state" where
  "remove_step_execution i s =
     s\<lparr>ms_step_partitions := fold bt_remove (unwrap_or (ms_step_partitions_by_step s i) []) (ms_step_partitions s),
       ms_step_partitions_by_step := (ms_step_partitions_by_step s)(i := None),
       ms_repeat_executions := bt_retain (\<lambda>(step, r) _. step \<noteq> i) (ms_repeat_executions s),
       ms_step_executions := (ms_step_executions s)(i := None),
       ms_step_logical_ids := (ms_step_logical_ids s)(i := None),
       ms_step_contexts := (ms_step_contexts s)(i := None)\<rparr>"

definition remove_operator_request :: "operator_request_id \<Rightarrow> memory_state \<Rightarrow> memory_state" where
  "remove_operator_request i s =
     (case bt_get (ms_operator_requests s) i of
        None \<Rightarrow> s
      | Some r \<Rightarrow> s\<lparr>ms_operator_requests := bt_remove i (ms_operator_requests s),
                    ms_operator_request_keys := (ms_operator_request_keys s)
                      ((operator_action_as_str (ord_action r), ord_operation_id r) := None)\<rparr>)"

definition check_candidate :: "memory_state \<Rightarrow> purge_plan_request \<Rightarrow> purge_candidate \<Rightarrow> repository_error + unit" where
  "check_candidate s request = (\<lambda>(instance, execution, version).
     res_bind (ok_or (ms_job_executions s execution) RetentionPlanStale) (\<lambda>e.
     if je_version e \<noteq> version \<or> em_status (je_metadata e) \<notin> set (ppr_statuses request)
        \<or> ms_holds s instance \<noteq> None
     then Err RetentionPlanStale
     else if \<not> list_all (\<lambda>e. is_finished (em_status (je_metadata e))) (executions_of s instance)
     then Err RetentionPlanStale
     else Ok ()))"

definition fork_references :: "memory_state \<Rightarrow> purge_candidate \<Rightarrow> bool" where
  "fork_references s = (\<lambda>(instance, execution, version).
     list_ex (\<lambda>(operation, l). fl_source_execution_id l = execution \<or> fl_target_execution_id l = execution
                             \<or> fl_target_instance_id l = instance) (ms_fork_lineages s))"

definition purge_candidate_apply :: "purge_candidate \<Rightarrow> memory_state \<Rightarrow> memory_state" where
  "purge_candidate_apply = (\<lambda>(instance, x, version) s.
     let s = s\<lparr>ms_flow_decisions := fold bt_remove (unwrap_or (ms_flow_decisions_by_job s x) []) (ms_flow_decisions s),
               ms_flow_decisions_by_job := (ms_flow_decisions_by_job s)(x := None),
               ms_recovery_decisions := bt_remove x (ms_recovery_decisions s)\<rparr>;
         s = fold remove_operator_request
               (map fst (filter (\<lambda>(i, r). ord_job_execution_id r = Some x) (ms_operator_requests s))) s;
         steps = steps_of s x;
         s = fold remove_step_execution steps
               (s\<lparr>ms_step_executions_by_job := (ms_step_executions_by_job s)(x := None)\<rparr>)
     in s\<lparr>ms_job_executions := (ms_job_executions s)(x := None),
          ms_execution_attempts := (ms_execution_attempts s)(x := None),
          ms_job_parameters := (ms_job_parameters s)(x := None),
          ms_fork_job_contexts := (ms_fork_job_contexts s)(x := None),
          ms_scope_resolution_provenance :=
            bt_retain (\<lambda>(k, c, i, job, st) _. job \<noteq> x) (ms_scope_resolution_provenance s),
          ms_execution_updated_at := (ms_execution_updated_at s)(x := None),
          ms_owner_tokens := (ms_owner_tokens s)(x := None),
          ms_execution_definitions := (ms_execution_definitions s)(x := None),
          ms_stop_requests := (ms_stop_requests s)(x := None),
          ms_job_executions_by_instance :=
            (case ms_job_executions_by_instance s instance of
               None \<Rightarrow> ms_job_executions_by_instance s
             | Some ids \<Rightarrow> (ms_job_executions_by_instance s)(instance \<mapsto> filter (\<lambda>i. i \<noteq> x) ids))\<rparr>)"

definition purge_instance_apply :: "job_instance_id \<Rightarrow> memory_state \<Rightarrow> memory_state" where
  "purge_instance_apply i s =
     (if ms_job_executions_by_instance s i \<noteq> Some [] then s
      else case bt_get (ms_instances_by_id s) i of
        None \<Rightarrow> s
      | Some instance \<Rightarrow>
          s\<lparr>ms_instances_by_id := bt_remove i (ms_instances_by_id s),
            ms_instances_by_key := (ms_instances_by_key s)(ji_key instance := None),
            ms_job_executions_by_instance := (ms_job_executions_by_instance s)(i := None),
            ms_next_execution_attempt_by_instance := (ms_next_execution_attempt_by_instance s)(i := None),
            ms_instance_created_at := (ms_instance_created_at s)(i := None),
            ms_holds := (ms_holds s)(i := None)\<rparr>)"

definition apply_purge ::
  "purge_plan \<Rightarrow> unit_of_work \<Rightarrow> (repository_error + purge_counts) \<times> unit_of_work" where
  "apply_purge plan u =
     (let s = uw_staged u in
      attempt (try_each (check_candidate s (pp_request plan)) (pp_candidates plan)) u (\<lambda>_.
      if list_ex (fork_references s) (pp_candidates plan) then (Err RetentionPlanStale, u)
      else
        let counts = purge_counts_of s (pp_candidates plan);
            s = fold purge_candidate_apply (pp_candidates plan) s;
            touched = remdups_adj (map fst (pp_candidates plan));
            s = fold purge_instance_apply touched s
        in (Ok counts, u\<lparr>uw_staged := s\<rparr>)))"

end
