(* ===== verification/Memory_Flow.thy ===== *)
theory Memory_Flow
  imports Memory_Launch Exit_Pattern
begin

text \<open>
  Flow state of the reference repository: forks, flow decisions with their check against the durable
  manifest (\<^verbatim>\<open>decision_matches_manifest\<close> of \<^verbatim>\<open>flow.rs\<close>), repeat iterations with their owner in the
  manifest (\<^verbatim>\<open>repository.rs\<close>), and nested-job links, all in \<^verbatim>\<open>repository/memory.rs\<close>.
\<close>

section \<open>Forks\<close>

definition stage_fork_job_context ::
  "job_execution_id \<Rightarrow> execution_context \<Rightarrow> unit_of_work \<Rightarrow> (repository_error + unit) \<times> unit_of_work" where
  "stage_fork_job_context x context u =
     (let s = uw_staged u in
      attempt (ok_or (ms_job_executions s x) ForkStateCorrupt) u (\<lambda>e.
      if em_status (je_metadata e) \<noteq> Starting \<or> je_version e \<noteq> version_initial
         \<or> ms_fork_job_contexts s x \<noteq> None \<or> ms_execution_attempts s x \<noteq> Some 1
      then (Err ForkStateCorrupt, u)
      else (Ok (), uw_update (\<lambda>s. s\<lparr>ms_fork_job_contexts := (ms_fork_job_contexts s)(x \<mapsto> context)\<rparr>) u)))"

definition append_fork_lineage ::
  "sha256 \<Rightarrow> fork_lineage \<Rightarrow> unit_of_work \<Rightarrow> (repository_error + unit) \<times> unit_of_work" where
  "append_fork_lineage sha256 l u =
     (let s = uw_staged u; target_id = fl_target_execution_id l in
      if bt_contains (ms_fork_lineages s) (fl_operation_id l)
         \<or> list_ex (\<lambda>(operation, existing). fl_target_instance_id existing = fl_target_instance_id l
                                          \<or> fl_target_execution_id existing = target_id) (ms_fork_lineages s)
      then (Err ForkOperationConflict, u)
      else
        attempt (ok_or (ms_job_executions s target_id) ForkStateCorrupt) u (\<lambda>target.
        let staged_context = ms_fork_job_contexts s target_id in
        if (fl_context_transform l \<noteq> None) \<noteq> (staged_context \<noteq> None)
           \<or> (case (fl_context_transform l, staged_context) of
                (Some t, Some c) \<Rightarrow> vs_schema_id c \<noteq> dst_target_schema (fct_descriptor t)
                                  \<or> vs_schema_version c \<noteq> dst_target_version (fct_descriptor t)
              | _ \<Rightarrow> False)
        then (Err ForkStateCorrupt, u)
        else if je_job_instance_id target \<noteq> fl_target_instance_id l
           \<or> ms_job_executions_by_instance s (fl_target_instance_id l) \<noteq> Some [target_id]
           \<or> ms_job_executions s (fl_source_execution_id l) = None
           \<or> map_option di_manifest_digest (ms_execution_definitions s (fl_source_execution_id l))
               \<noteq> Some (fl_source_definition_digest l)
           \<or> ms_execution_definitions s target_id \<noteq> Some (dr_definition (fl_target l))
           \<or> map_option (flow_input_digest sha256) (ms_job_parameters s target_id)
               \<noteq> Some (fl_target_parameters_digest l)
        then (Err ForkStateCorrupt, u)
        else (Ok (), (uw_update (\<lambda>s. s\<lparr>ms_fork_lineages := bt_insert (fl_operation_id l) l (ms_fork_lineages s)\<rparr>) u)
                       \<lparr>uw_created_fork_lineage := True\<rparr>)))"

section \<open>Flow decisions against the manifest\<close>

definition get_str :: "json \<Rightarrow> string \<Rightarrow> rstr option" where
  "get_str v k = and_then (json_get v k) as_str"

definition get_u64 :: "json \<Rightarrow> string \<Rightarrow> u64 option" where
  "get_u64 v k = and_then (json_get v k) as_u64"

definition manifest_target_matches :: "json \<Rightarrow> flow_target \<Rightarrow> bool" where
  "manifest_target_matches v target =
     (case target of
        TargetNode node \<Rightarrow> get_str v ''node'' = Some node
      | TargetTerminal terminal \<Rightarrow> get_str v ''terminal'' = Some (lit (terminal_kind_as_str terminal)))"

definition decision_kind_matches :: "flow_transition_kind \<Rightarrow> rstr option \<Rightarrow> bool" where
  "decision_kind_matches kind declared =
     (case kind of
        DeciderExit \<Rightarrow> declared = Some (lit ''decision'')
      | SplitAggregate \<Rightarrow> declared = Some (lit ''join'')
      | NestedJobExit \<Rightarrow> declared = Some (lit ''nested_job'')
      | _ \<Rightarrow> declared = Some (lit ''step'') \<or> declared = Some (lit ''partitioned_step'')
             \<or> declared = Some (lit ''custom_leaf''))"

definition source_declared :: "bool \<Rightarrow> ('a flow_decision_request_scheme) \<Rightarrow> json \<Rightarrow> bool" where
  "source_declared advanced r node \<longleftrightarrow>
     get_str node ''id'' = Some (fdr_source_node_id r)
     \<and> decision_kind_matches (fdr_kind r) (get_str node ''kind'')
     \<and> (advanced \<longrightarrow> get_u64 node ''decision_sequence'' = Some (fdr_sequence r))"

definition transition_applies :: "'a flow_decision_request_scheme \<Rightarrow> json \<Rightarrow> bool" where
  "transition_applies r t \<longleftrightarrow>
     get_str t ''source'' = Some (fdr_source_node_id r)
     \<and> is_some_and (and_then (get_str t ''pattern'') (\<lambda>p. res_ok (exit_pattern_new p)))
         (\<lambda>p. exit_pattern_matches p (fdr_observed_outcome r))"

definition decision_matches_manifest :: "json \<Rightarrow> 'a flow_decision_request_scheme \<Rightarrow> bool" where
  "decision_matches_manifest manifest r =
     (if \<not> is_object manifest then False
      else
        let format = get_u64 manifest ''format'' in
        if \<not> (format = Some (ucast MANIFEST_FORMAT_FLOW) \<or> format = Some (ucast MANIFEST_FORMAT_LOCAL_SCALE)
              \<or> format = Some (ucast MANIFEST_FORMAT_ADVANCED_FLOW))
        then False
        else
          let advanced = (format = Some (ucast MANIFEST_FORMAT_ADVANCED_FLOW)) in
          if \<not> is_some_and (and_then (json_get manifest ''nodes'') as_array) (list_ex (source_declared advanced r))
          then False
          else
            is_some_and
              (and_then (and_then (and_then (json_get manifest ''transitions'') as_array)
                (find (transition_applies r))) (\<lambda>t. json_get t ''target''))
              (\<lambda>target. manifest_target_matches target (fdr_target r)))"

definition upgrade_seed_authorizes_source_step ::
  "memory_state \<Rightarrow> job_execution_id \<Rightarrow> node_id \<Rightarrow> step_execution_id \<Rightarrow> repository_error + bool" where
  "upgrade_seed_authorizes_source_step s job node step =
     res_bind (ok_or (ms_execution_definitions s job) FlowStateCorrupt) (\<lambda>target.
     res_bind (instance_for_execution s job) (\<lambda>instance.
     res_bind (ok_or (ms_job_executions_by_instance s instance) FlowStateCorrupt) (\<lambda>executions.
     Ok (list_ex (\<lambda>x.
       is_some_and (ms_execution_definitions s x) (\<lambda>d. di_manifest_digest d = di_manifest_digest target)
       \<and> is_some_and (bt_get (ms_upgrade_seeds s) (x, node)) (\<lambda>seed. mus_source_step_execution_id seed = step))
       executions))))"

definition check_decision_step ::
  "memory_state \<Rightarrow> job_instance_id \<Rightarrow> flow_decision_request \<Rightarrow> repository_error + unit" where
  "check_decision_step s instance r =
     (case fdr_source_step_execution_id r of
        Some step_id \<Rightarrow>
          res_bind (ok_or (ms_step_executions s step_id) FlowStateCorrupt) (\<lambda>step.
          let exact_node = (ms_step_logical_ids s step_id = Some (fdr_source_node_id r)) in
          res_bind (upgrade_seed_authorizes_source_step s (fdr_job_execution_id r) (fdr_source_node_id r) step_id)
            (\<lambda>upgraded_node.
          res_bind (instance_for_execution s (se_job_execution_id step)) (\<lambda>step_instance.
          if step_instance \<noteq> instance \<or> (\<not> exact_node \<and> \<not> upgraded_node) then Err FlowStateCorrupt else Ok ())))
      | None \<Rightarrow>
          if fdr_kind r = DeciderExit \<or> fdr_kind r = SplitAggregate \<or> fdr_kind r = NestedJobExit then Ok ()
          else Err FlowStateCorrupt)"

definition check_reused_decision ::
  "memory_state \<Rightarrow> job_instance_id \<Rightarrow> flow_decision_request \<Rightarrow> repository_error + unit" where
  "check_reused_decision s instance r =
     (case fdr_reused_decision_id r of
        None \<Rightarrow> Ok ()
      | Some reused_id \<Rightarrow>
          res_bind (ok_or (bt_get (ms_flow_decisions s) reused_id) FlowStateCorrupt) (\<lambda>reused.
          res_bind (instance_for_execution s (fdr_job_execution_id reused)) (\<lambda>reused_instance.
          if reused_instance \<noteq> instance \<or> fdr_source_node_id reused \<noteq> fdr_source_node_id r
             \<or> fdr_plan_fingerprint reused \<noteq> fdr_plan_fingerprint r \<or> fdr_input_digest reused \<noteq> fdr_input_digest r
             \<or> fdr_observed_outcome reused \<noteq> fdr_observed_outcome r \<or> fdr_target reused \<noteq> fdr_target r
          then Err FlowStateCorrupt else Ok ())))"

definition append_flow_decision ::
  "from_slice \<Rightarrow> flow_decision_request \<Rightarrow> unit_of_work \<Rightarrow> (repository_error + flow_decision) \<times> unit_of_work" where
  "append_flow_decision from_slice r u =
     (let s = uw_staged u; job = fdr_job_execution_id r in
      attempt (instance_for_execution s job) u (\<lambda>instance.
      attempt (ok_or (ms_execution_definitions s job) FlowStateCorrupt) u (\<lambda>d.
      if di_manifest_digest d \<noteq> fdr_plan_fingerprint r then (Err FlowStateCorrupt, u)
      else
        attempt (ok_or (from_slice (di_canonical_manifest d)) FlowStateCorrupt) u (\<lambda>manifest.
        if \<not> decision_matches_manifest manifest r then (Err FlowStateCorrupt, u)
        else
          let existing = unwrap_or (ms_flow_decisions_by_job s job) [];
              advanced = (get_u64 manifest ''format'' = Some (ucast MANIFEST_FORMAT_ADVANCED_FLOW));
              duplicate = list_ex (\<lambda>i. is_some_and (bt_get (ms_flow_decisions s) i) (\<lambda>d.
                fdr_source_node_id d = fdr_source_node_id r \<or> fdr_sequence d = fdr_sequence r)) existing in
          attempt
            (if advanced then Ok False
             else res_bind (ok_or (and_then (if length existing < 2 ^ 64 then Some (word_of_nat (length existing)) else None)
                    (\<lambda>v. checked_add v 1)) FlowStateCorrupt) (\<lambda>expected.
                  Ok (fdr_sequence r \<noteq> expected))) u (\<lambda>invalid_sequence.
          if invalid_sequence \<or> duplicate then (Err ConcurrentModification, u)
          else
            attempt (check_decision_step s instance r) u (\<lambda>_.
            attempt (check_reused_decision s instance r) u (\<lambda>_.
            attempt (next_key IdFlowDecision (ms_flow_decisions s)) u (\<lambda>i.
            let decision = decision_materialize r i
            in (Ok decision, uw_update (\<lambda>s. s\<lparr>
                  ms_flow_decisions := bt_insert i decision (ms_flow_decisions s),
                  ms_flow_decisions_by_job := (ms_flow_decisions_by_job s)(job \<mapsto> existing @ [i])\<rparr>) u)))))))))"

fun reusable_in :: "(flow_decision \<Rightarrow> bool) \<Rightarrow> memory_state \<Rightarrow> flow_decision_id list \<Rightarrow> repository_error + flow_decision option" where
  "reusable_in P s [] = Ok None"
| "reusable_in P s (i # is) =
     res_bind (ok_or (bt_get (ms_flow_decisions s) i) FlowStateCorrupt) (\<lambda>d.
     if P d then Ok (Some d) else reusable_in P s is)"

definition find_reusable_flow_decision ::
  "memory_state \<Rightarrow> job_instance_id \<Rightarrow> node_id \<Rightarrow> digest \<Rightarrow> digest \<Rightarrow> flow_transition_kind
   \<Rightarrow> repository_error + flow_decision option" where
  "find_reusable_flow_decision s instance node fingerprint input kind =
     res_bind (ok_or (ms_job_executions_by_instance s instance) (JobInstanceNotFound instance)) (\<lambda>executions.
     reusable_in (\<lambda>d. fdr_source_node_id d = node \<and> fdr_plan_fingerprint d = fingerprint
                     \<and> fdr_input_digest d = input \<and> fdr_kind d = kind) s
       (concat (map (\<lambda>x. rev (unwrap_or (ms_flow_decisions_by_job s x) [])) (rev executions))))"

definition flow_decisions :: "memory_state \<Rightarrow> job_execution_id \<Rightarrow> repository_error + flow_decision list" where
  "flow_decisions s job =
     (if ms_job_executions s job = None then Err (JobExecutionNotFound job)
      else res_bind (try_map (\<lambda>i. ok_or (bt_get (ms_flow_decisions s) i) FlowStateCorrupt)
             (unwrap_or (ms_flow_decisions_by_job s job) [])) (\<lambda>decisions.
           Ok (sort_key (\<lambda>d. (fdr_sequence d, fd_id d)) decisions)))"

section \<open>Repeats in the manifest\<close>

datatype repeat_manifest_owner = OwnerStatic | OwnerPartitioned node_id

definition repeat_state_matches :: "json \<Rightarrow> repeat_id \<Rightarrow> execution_context \<Rightarrow> bool" where
  "repeat_state_matches rep i state \<longleftrightarrow>
     is_object rep \<and> get_str rep ''id'' = Some i
     \<and> is_some_and (json_get rep ''state'') (\<lambda>m. is_object m \<and> get_str m ''schema'' = Some (vs_schema_id state)
         \<and> get_u64 m ''version'' = Some (ucast (vs_schema_version state)))"

fun lineage_repeat_matches :: "json \<Rightarrow> repeat_lineage \<Rightarrow> repeat_id \<Rightarrow> execution_context \<Rightarrow> bool" where
  "lineage_repeat_matches rep [] i state \<longleftrightarrow> is_object rep \<and> repeat_state_matches rep i state"
| "lineage_repeat_matches rep ((ancestor, n) # lineage) i state \<longleftrightarrow>
     is_object rep \<and> get_str rep ''id'' = Some ancestor
     \<and> is_some_and (json_get rep ''nested'') (\<lambda>nested. lineage_repeat_matches nested lineage i state)"

definition repeat_step_matches :: "json \<Rightarrow> repeat_commit_request \<Rightarrow> bool" where
  "repeat_step_matches step r \<longleftrightarrow>
     is_object step \<and> get_str step ''kind'' = Some (lit ''step'')
     \<and> get_str step ''id'' = Some (rcr_definition_node_id r)
     \<and> is_some_and (json_get step ''repeat'') (\<lambda>rep. lineage_repeat_matches rep (rcr_lineage r) (rcr_repeat_id r) (rcr_state r))"

function (sequential) repeat_owner_visit :: "json \<Rightarrow> repeat_commit_request \<Rightarrow> repeat_manifest_owner option" where
  "repeat_owner_visit (JObject m) r =
     (let v = JObject m;
          children = find_map (\<lambda>e. repeat_owner_visit (snd e) r) m;
          own = (if repeat_step_matches v r then Some OwnerStatic else children)
      in if get_str v ''kind'' = Some (lit ''partitioned_step'') then
           (case get_str v ''id'' of
              None \<Rightarrow> None
            | Some manager \<Rightarrow>
                if is_some_and (json_get v ''worker'') (\<lambda>worker. repeat_step_matches worker r)
                then map_option OwnerPartitioned (res_ok (node_id_new manager))
                else own)
         else own)"
| "repeat_owner_visit (JArray vs) r = find_map (\<lambda>v. repeat_owner_visit v r) vs"
| "repeat_owner_visit _ r = None"
  by pat_completeness auto
termination repeat_owner_visit
proof (relation "measure (\<lambda>(v, r). size v)")
  fix m :: "(rstr \<times> json) list" and r :: repeat_commit_request and x e
  assume "e \<in> set m"
  then show "((snd e, r), (JObject m, r)) \<in> measure (\<lambda>(v, r). size v)"
    by (induction m) auto
next
  fix vs :: "json list" and r :: repeat_commit_request and x
  assume "x \<in> set vs"
  then show "((x, r), (JArray vs, r)) \<in> measure (\<lambda>(v, r). size v)"
    by (induction vs) auto
qed simp

definition hex_digit :: "nat \<Rightarrow> nat" where
  "hex_digit n = (if n < 10 then 48 + n else 87 + n)"

definition hex_digest :: "u8 list \<Rightarrow> rstr" where
  "hex_digest bytes = concat (map (\<lambda>b. [hex_digit (unat b div 16), hex_digit (unat b mod 16)]) bytes)"

definition partition_worker_token :: "sha256 \<Rightarrow> node_id \<Rightarrow> partition_key \<Rightarrow> rstr" where
  "partition_worker_token sha256 manager key =
     lit ''__ob_partition_worker_'' @ hex_digest (sha256
       (as_bytes (lit ''oxide-batch.local-partition-worker.v1'') @ [0] @ as_bytes manager @ [0] @ as_bytes key))"

section \<open>Repeat iterations\<close>

definition latest_repeat_matching ::
  "memory_state \<Rightarrow> (repeat_execution \<Rightarrow> bool) \<Rightarrow> job_instance_id \<Rightarrow> node_id \<Rightarrow> repeat_id
   \<Rightarrow> repository_error + repeat_execution option" where
  "latest_repeat_matching s P instance node i =
     res_bind (ok_or (ms_job_executions_by_instance s instance) (JobInstanceNotFound instance)) (\<lambda>executions.
     Ok (find_map (\<lambda>step.
         if ms_step_logical_ids s step = Some node then
           and_then (bt_get (ms_repeat_executions s) (step, i)) (\<lambda>r. if P r then Some r else None)
         else None) (concat (map (\<lambda>x. rev (steps_of s x)) (rev executions)))))"

definition latest_repeat_snapshot where
  "latest_repeat_snapshot s = latest_repeat_matching s (\<lambda>_. True)"

definition latest_repeat_snapshot_in_lineage where
  "latest_repeat_snapshot_in_lineage s instance node i lineage =
     latest_repeat_matching s (\<lambda>r. re_lineage r = lineage) instance node i"

definition find_repeat_execution ::
  "memory_state \<Rightarrow> step_execution_id \<Rightarrow> repeat_id \<Rightarrow> repository_error + repeat_execution option" where
  "find_repeat_execution s step i =
     (if ms_step_executions s step = None then Err (StepExecutionNotFound step)
      else Ok (bt_get (ms_repeat_executions s) (step, i)))"

text \<open>The ordinal the iteration after \<open>prior\<close> has; both the lineage check and the commit compute it.\<close>

definition expected_ordinal ::
  "repeat_execution option \<Rightarrow> repeat_commit_request \<Rightarrow> repository_error + repeat_ordinal" where
  "expected_ordinal prior r =
     (case prior of
        None \<Rightarrow> Ok 1
      | Some p \<Rightarrow>
          if re_plan_fingerprint p \<noteq> rcr_plan_fingerprint r then Err RepeatStateCorrupt
          else if re_definition_node_id p \<noteq> rcr_definition_node_id r then Err RepeatStateCorrupt
          else if re_decision p = RepeatComplete then Err RepeatAlreadyComplete
          else ok_or (repeat_ordinal_checked_next (re_ordinal p)) RepeatStateCorrupt)"

fun validate_lineage_from ::
  "memory_state \<Rightarrow> repeat_commit_request \<Rightarrow> repeat_lineage \<Rightarrow> (repeat_id \<times> repeat_ordinal) list
   \<Rightarrow> repository_error + unit" where
  "validate_lineage_from s r lineage [] = Ok ()"
| "validate_lineage_from s r lineage ((ancestor, ordinal) # rest) =
     res_bind (latest_repeat_snapshot_in_lineage s (rcr_job_instance_id r) (rcr_node_id r) ancestor lineage) (\<lambda>prior.
     res_bind (expected_ordinal prior r) (\<lambda>expected.
     if ordinal \<noteq> expected then Err RepeatStateCorrupt
     else res_bind (ok_or (lineage_child lineage ancestor ordinal) RepeatStateCorrupt) (\<lambda>lineage.
          validate_lineage_from s r lineage rest)))"

definition validate_repeat_lineage_request :: "memory_state \<Rightarrow> repeat_commit_request \<Rightarrow> repository_error + unit" where
  "validate_repeat_lineage_request s r = validate_lineage_from s r [] (rcr_lineage r)"

definition validate_repeat_owner_request ::
  "sha256 \<Rightarrow> memory_state \<Rightarrow> repeat_commit_request \<Rightarrow> repeat_manifest_owner \<Rightarrow> repository_error + unit" where
  "validate_repeat_owner_request sha256 s r owner =
     (case owner of
        OwnerStatic \<Rightarrow> if rcr_node_id r \<noteq> rcr_definition_node_id r then Err RepeatStateCorrupt else Ok ()
      | OwnerPartitioned manager \<Rightarrow>
          if rcr_node_id r = rcr_definition_node_id r then Err RepeatStateCorrupt
          else
            (case filter (\<lambda>p. spt_worker p = Some (rcr_step_execution_id r)) (map snd (ms_step_partitions s)) of
               [p] \<Rightarrow>
                 res_bind (ok_or (ms_step_executions s (spt_step_execution_id p)) RepeatStateCorrupt) (\<lambda>parent.
                 res_bind (ok_or (ms_step_executions s (rcr_step_execution_id r)) RepeatStateCorrupt) (\<lambda>worker.
                 res_bind (ok_or (ms_step_logical_ids s (spt_step_execution_id p)) RepeatStateCorrupt) (\<lambda>parent_node.
                 if se_job_execution_id parent \<noteq> se_job_execution_id worker \<or> parent_node \<noteq> manager
                    \<or> partition_worker_token sha256 manager (spt_key p) \<noteq> rcr_node_id r
                 then Err RepeatStateCorrupt else Ok ())))
             | _ \<Rightarrow> Err RepeatStateCorrupt))"

definition validate_repeat_request ::
  "sha256 \<Rightarrow> from_slice \<Rightarrow> memory_state \<Rightarrow> repeat_commit_request \<Rightarrow> repository_error + unit" where
  "validate_repeat_request sha256 from_slice s r =
     res_bind (ok_or (ms_step_executions s (rcr_step_execution_id r)) (StepExecutionNotFound (rcr_step_execution_id r))) (\<lambda>step.
     if ms_step_logical_ids s (rcr_step_execution_id r) \<noteq> Some (rcr_node_id r) then Err RepeatStateCorrupt
     else
       res_bind (instance_for_execution s (se_job_execution_id step)) (\<lambda>instance.
       if instance \<noteq> rcr_job_instance_id r then Err RepeatStateCorrupt
       else
         res_bind (ok_or (ms_execution_definitions s (se_job_execution_id step)) RepeatStateCorrupt) (\<lambda>d.
         if di_manifest_digest d \<noteq> rcr_plan_fingerprint r then Err RepeatStateCorrupt
         else
           res_bind (ok_or (from_slice (di_canonical_manifest d)) RepeatStateCorrupt) (\<lambda>manifest.
           res_bind (ok_or (repeat_owner_visit manifest r) RepeatStateCorrupt) (\<lambda>owner.
           res_bind (validate_repeat_owner_request sha256 s r owner) (\<lambda>_.
           validate_repeat_lineage_request s r))))))"

definition repeat_record :: "repeat_commit_request \<Rightarrow> repeat_execution" where
  "repeat_record r =
     \<lparr>re_job_instance_id = rcr_job_instance_id r, re_node_id = rcr_node_id r,
      re_definition_node_id = rcr_definition_node_id r, re_step_execution_id = rcr_step_execution_id r,
      re_repeat_id = rcr_repeat_id r, re_lineage = rcr_lineage r, re_ordinal = rcr_ordinal r,
      re_state = rcr_state r, re_decision = rcr_decision r, re_plan_fingerprint = rcr_plan_fingerprint r\<rparr>"

definition exact_replay :: "repeat_execution \<Rightarrow> repeat_commit_request \<Rightarrow> bool" where
  "exact_replay e r \<longleftrightarrow>
     re_job_instance_id e = rcr_job_instance_id r \<and> re_node_id e = rcr_node_id r
     \<and> re_definition_node_id e = rcr_definition_node_id r \<and> re_ordinal e = rcr_ordinal r
     \<and> re_state e = rcr_state r \<and> re_decision e = rcr_decision r
     \<and> re_plan_fingerprint e = rcr_plan_fingerprint r"

definition commit_repeat_iteration ::
  "sha256 \<Rightarrow> from_slice \<Rightarrow> repeat_commit_request \<Rightarrow> unit_of_work
   \<Rightarrow> (repository_error + repeat_execution) \<times> unit_of_work" where
  "commit_repeat_iteration sha256 from_slice r u =
     (let s = uw_staged u;
          key = (rcr_step_execution_id r, rcr_repeat_id r);
          store = (Ok (repeat_record r),
            (uw_update (\<lambda>s. s\<lparr>ms_repeat_executions := bt_insert key (repeat_record r) (ms_repeat_executions s)\<rparr>) u)
              \<lparr>uw_committed_repeat_iteration := True\<rparr>);
          advance = (\<lambda>expected. if rcr_ordinal r \<noteq> expected
            then (Err (RepeatOrdinalConflict expected (rcr_ordinal r)), u) else store) in
      attempt (validate_repeat_request sha256 from_slice s r) u (\<lambda>_.
      case (case bt_get (ms_repeat_executions s) key of
              Some existing \<Rightarrow> if re_lineage existing = rcr_lineage r then Some existing else None
            | None \<Rightarrow> None) of
        Some existing \<Rightarrow>
          if exact_replay existing r then (Ok existing, u)
          else if re_ordinal existing = rcr_ordinal r then (Err RepeatStateCorrupt, u)
          else if re_decision existing = RepeatComplete then (Err RepeatAlreadyComplete, u)
          else attempt (ok_or (repeat_ordinal_checked_next (re_ordinal existing)) RepeatStateCorrupt) u advance
      | None \<Rightarrow>
          attempt (res_bind (latest_repeat_snapshot_in_lineage s (rcr_job_instance_id r) (rcr_node_id r)
            (rcr_repeat_id r) (rcr_lineage r)) (\<lambda>prior. expected_ordinal prior r)) u advance))"

section \<open>Nested jobs\<close>

definition find_nested_job_link ::
  "memory_state \<Rightarrow> job_execution_id \<Rightarrow> node_id \<Rightarrow> repository_error + nested_job_link option" where
  "find_nested_job_link s parent node =
     res_bind (instance_for_execution s parent) (\<lambda>_. Ok (ms_nested_job_links s (parent, node)))"

definition latest_nested_job_link ::
  "memory_state \<Rightarrow> job_instance_id \<Rightarrow> node_id \<Rightarrow> repository_error + nested_job_link option" where
  "latest_nested_job_link s instance node =
     (if \<not> bt_contains (ms_instances_by_id s) instance then Err (JobInstanceNotFound instance)
      else case ms_nested_job_links_by_instance s (instance, node) of
        None \<Rightarrow> Ok None
      | Some ids \<Rightarrow>
          if ids = [] then Ok None
          else res_bind (ok_or (ms_nested_job_links s (last ids, node)) NestedJobStateCorrupt) (\<lambda>l. Ok (Some l)))"

definition matching_nested_job_link ::
  "memory_state \<Rightarrow> job_execution_id \<Rightarrow> node_id \<Rightarrow> definition_identity \<Rightarrow> job_parameters
   \<Rightarrow> repository_error + nested_job_link option" where
  "matching_nested_job_link s parent node d p =
     (case ms_nested_job_links s (parent, node) of
        None \<Rightarrow> Ok None
      | Some existing \<Rightarrow>
          res_bind (ok_or (ms_job_parameters s (njl_child_job_execution_id existing)) NestedJobStateCorrupt) (\<lambda>parameters.
          if njl_child_definition existing \<noteq> d \<or> parameters \<noteq> p then Err NestedJobStateCorrupt
          else Ok (Some existing)))"

definition store_nested_job_parameters ::
  "job_execution_id \<Rightarrow> job_parameters \<Rightarrow> unit_of_work \<Rightarrow> (repository_error + unit) \<times> unit_of_work" where
  "store_nested_job_parameters x p u =
     (case ms_job_parameters (uw_staged u) x of
        Some existing \<Rightarrow> (if existing \<noteq> p then Err NestedJobStateCorrupt else Ok (), u)
      | None \<Rightarrow> (Ok (), uw_update (\<lambda>s. s\<lparr>ms_job_parameters := (ms_job_parameters s)(x \<mapsto> p)\<rparr>) u))"

definition store_nested_job_link :: "nested_job_link \<Rightarrow> unit_of_work \<Rightarrow> unit_of_work" where
  "store_nested_job_link l u =
     uw_update (\<lambda>s. s\<lparr>
       ms_nested_job_links := (ms_nested_job_links s)((njl_parent_job_execution_id l, njl_node_id l) \<mapsto> l),
       ms_nested_job_links_by_instance := (ms_nested_job_links_by_instance s)
         ((njl_parent_job_instance_id l, njl_node_id l) \<mapsto>
            unwrap_or (ms_nested_job_links_by_instance s (njl_parent_job_instance_id l, njl_node_id l)) []
              @ [njl_parent_job_execution_id l])\<rparr>) u"

definition selection_instance :: "job_instance_selection \<Rightarrow> job_instance" where
  "selection_instance sel = (case sel of SelCreated i \<Rightarrow> i | SelExisting i \<Rightarrow> i)"

definition nested_child_execution ::
  "to_vec \<Rightarrow> from_slice \<Rightarrow> sha256 \<Rightarrow> id_generation_error + job_execution_id \<Rightarrow> system_time \<Rightarrow> job_instance_id
   \<Rightarrow> definition_identity \<Rightarrow> job_parameters \<Rightarrow> unit_of_work \<Rightarrow> (repository_error + job_execution) \<times> unit_of_work" where
  "nested_child_execution to_vec from_slice sha256 new_id now child d p u =
     (let s = uw_staged u in
      attempt (latest_job_execution s child) u (\<lambda>latest.
      case latest of
        None \<Rightarrow> create_job_execution_with_definition to_vec from_slice sha256 new_id now child d u
      | Some l \<Rightarrow>
          attempt (ok_or (ms_execution_definitions s (je_id l)) NestedJobStateCorrupt) u (\<lambda>definition.
          if definition \<noteq> d then (Err NestedJobStateCorrupt, u)
          else
            (case em_status (je_metadata l) of
               Completed \<Rightarrow>
                 attempt (ok_or (ms_job_parameters s (je_id l)) NestedJobStateCorrupt) u (\<lambda>parameters.
                 if parameters \<noteq> p then (Err NestedJobStateCorrupt, u) else (Ok l, u))
             | Failed \<Rightarrow> create_job_execution_with_definition to_vec from_slice sha256 new_id now child d u
             | Stopped \<Rightarrow> create_job_execution_with_definition to_vec from_slice sha256 new_id now child d u
             | Abandoned \<Rightarrow> (Err NestedJobStateCorrupt, u)
             | status \<Rightarrow> (Err (NestedJobChildUnresolved (je_id l) status), u)))))"

definition create_nested_job_link ::
  "to_vec \<Rightarrow> from_slice \<Rightarrow> sha256 \<Rightarrow> id_generation_error + job_instance_id \<Rightarrow> id_generation_error + job_execution_id
   \<Rightarrow> system_time \<Rightarrow> system_time \<Rightarrow> nested_job_link_request \<Rightarrow> unit_of_work
   \<Rightarrow> (repository_error + nested_job_link) \<times> unit_of_work" where
  "create_nested_job_link to_vec from_slice sha256 new_instance new_execution selected_at created_at r u =
     (let s = uw_staged u; parent = nlr_parent_job_execution_id r; d = nlr_child_definition r;
          p = nlr_child_parameters r in
      attempt (instance_for_execution s parent) u (\<lambda>parent_instance.
      if parent_instance \<noteq> nlr_parent_job_instance_id r then (Err NestedJobStateCorrupt, u)
      else
        attempt (matching_nested_job_link s parent (nlr_node_id r) d p) u (\<lambda>existing.
        case existing of
          Some l \<Rightarrow> (Ok l, u)
        | None \<Rightarrow>
            attempt (ok_or (di_job_name d) NestedJobStateCorrupt) u (\<lambda>child_name.
            proceed (select_or_create_job_instance new_instance selected_at (job_instance_key_new child_name p) u)
              (\<lambda>selection u.
            let child = ji_id (selection_instance selection) in
            proceed (nested_child_execution to_vec from_slice sha256 new_execution created_at child d p u) (\<lambda>e u.
            proceed (store_nested_job_parameters (je_id e) p u) (\<lambda>_ u.
            let l = \<lparr>njl_parent_job_instance_id = parent_instance, njl_parent_job_execution_id = parent,
                     njl_node_id = nlr_node_id r, njl_child_definition = d, njl_child_job_instance_id = child,
                     njl_child_job_execution_id = je_id e, njl_linked_at = nlr_linked_at r, njl_terminal = None\<rparr>
            in (Ok l, store_nested_job_link l u))))))))"

definition continue_nested_job_link ::
  "to_vec \<Rightarrow> from_slice \<Rightarrow> sha256 \<Rightarrow> id_generation_error + job_execution_id \<Rightarrow> system_time
   \<Rightarrow> job_execution_id \<Rightarrow> node_id \<Rightarrow> job_execution_id \<Rightarrow> system_time \<Rightarrow> unit_of_work
   \<Rightarrow> (repository_error + nested_job_link) \<times> unit_of_work" where
  "continue_nested_job_link to_vec from_slice sha256 new_id now parent node prior_parent linked_at u =
     (let s = uw_staged u in
      attempt (instance_for_execution s parent) u (\<lambda>parent_instance.
      case ms_nested_job_links s (parent, node) of
        Some existing \<Rightarrow> (Ok existing, u)
      | None \<Rightarrow>
          attempt (ok_or (ms_nested_job_links s (prior_parent, node)) NestedJobStateCorrupt) u (\<lambda>prior.
          if njl_parent_job_instance_id prior \<noteq> parent_instance then (Err NestedJobStateCorrupt, u)
          else
            attempt (ok_or (ms_job_parameters s (njl_child_job_execution_id prior)) NestedJobStateCorrupt) u (\<lambda>p.
            attempt (ok_or (ms_job_executions s (njl_child_job_execution_id prior)) NestedJobStateCorrupt) u (\<lambda>child.
            proceed
              (case em_status (je_metadata child) of
                 Completed \<Rightarrow> (Ok child, u)
               | Failed \<Rightarrow> create_job_execution_with_definition to_vec from_slice sha256 new_id now
                   (njl_child_job_instance_id prior) (njl_child_definition prior) u
               | Stopped \<Rightarrow> create_job_execution_with_definition to_vec from_slice sha256 new_id now
                   (njl_child_job_instance_id prior) (njl_child_definition prior) u
               | Abandoned \<Rightarrow> (Err NestedJobStateCorrupt, u)
               | status \<Rightarrow> (Err (NestedJobChildUnresolved (je_id child) status), u)) (\<lambda>e u.
            proceed (store_nested_job_parameters (je_id e) p u) (\<lambda>_ u.
            let l = \<lparr>njl_parent_job_instance_id = parent_instance, njl_parent_job_execution_id = parent,
                     njl_node_id = node, njl_child_definition = njl_child_definition prior,
                     njl_child_job_instance_id = njl_child_job_instance_id prior,
                     njl_child_job_execution_id = je_id e, njl_linked_at = linked_at,
                     njl_terminal = (if je_id e = njl_child_job_execution_id prior then njl_terminal prior else None)\<rparr>
            in (Ok l, store_nested_job_link l u))))))))"

definition nested_job_parameters :: "memory_state \<Rightarrow> job_execution_id \<Rightarrow> node_id \<Rightarrow> repository_error + job_parameters" where
  "nested_job_parameters s parent node =
     res_bind (ok_or (ms_nested_job_links s (parent, node)) NestedJobStateCorrupt) (\<lambda>l.
     ok_or (ms_job_parameters s (njl_child_job_execution_id l)) NestedJobStateCorrupt)"

definition job_execution_context :: "memory_state \<Rightarrow> job_execution_id \<Rightarrow> repository_error + execution_context option" where
  "job_execution_context s x = res_bind (instance_for_execution s x) (\<lambda>_. Ok (ms_fork_job_contexts s x))"

definition observe_nested_job_terminal ::
  "job_execution_id \<Rightarrow> node_id \<Rightarrow> system_time \<Rightarrow> unit_of_work \<Rightarrow> (repository_error + nested_job_link) \<times> unit_of_work" where
  "observe_nested_job_terminal parent node observed_at u =
     (let s = uw_staged u in
      attempt (ok_or (ms_nested_job_links s (parent, node)) NestedJobStateCorrupt) u (\<lambda>l.
      attempt (ok_or (ms_job_executions s (njl_child_job_execution_id l)) NestedJobStateCorrupt) u (\<lambda>child.
      let status = em_status (je_metadata child) in
      if \<not> (status = Completed \<or> status = Failed \<or> status = Stopped)
      then (Err (NestedJobChildUnresolved (je_id child) status), u)
      else case njl_terminal l of
        Some existing \<Rightarrow>
          if nto_status existing \<noteq> status \<or> nto_exit_status existing \<noteq> em_exit_status (je_metadata child)
          then (Err NestedJobStateCorrupt, u) else (Ok l, u)
      | None \<Rightarrow>
          let l = l\<lparr>njl_terminal := Some \<lparr>nto_status = status, nto_exit_status = em_exit_status (je_metadata child),
                     nto_observed_at = observed_at\<rparr>\<rparr>
          in (Ok l, uw_update (\<lambda>s. s\<lparr>ms_nested_job_links := (ms_nested_job_links s)((parent, node) \<mapsto> l)\<rparr>) u))))"

end
