(* ===== verification/Memory_Partition.thy ===== *)
theory Memory_Partition
  imports Memory_Launch
begin

text \<open>
  Partition plans in the reference repository, \<^verbatim>\<open>repository/memory.rs\<close>: creating a plan, carrying one
  over to a restarted step, assigning and completing partitions, and aggregating a plan into its parent
  step with \<^verbatim>\<open>aggregate_partition_parent\<close> of \<^verbatim>\<open>oxide-batch-repository\<close>.
\<close>

definition map_partition_mutation :: "step_partition_id \<Rightarrow> partition_mutation_error \<Rightarrow> repository_error" where
  "map_partition_mutation i e =
     (case e of
        PartitionStaleVersion expected actual \<Rightarrow> RepoLifecycle (StaleVersion expected actual)
      | PartitionInvalidState status \<Rightarrow> PartitionUpdateNotAllowed i status
      | PartitionVersionExhausted \<Rightarrow> PartitionStateCorrupt)"

definition map_partition_aggregation :: "step_execution_id \<Rightarrow> partition_aggregation_error \<Rightarrow> repository_error" where
  "map_partition_aggregation step e =
     (case e of
        AggIncomplete status \<Rightarrow> PartitionAggregationIncomplete step status
      | AggCountExhausted \<Rightarrow> RepoLifecycle CountExhausted
      | _ \<Rightarrow> PartitionStateCorrupt)"

definition aggregate_partition_parent ::
  "step_execution \<Rightarrow> execution_version \<Rightarrow> partition_aggregate \<Rightarrow> system_time \<Rightarrow> failure_summary option
   \<Rightarrow> repository_error + step_execution" where
  "aggregate_partition_parent parent expected a transitioned_at failure =
     res_bind (if pa_status a = Failed
         then res_bind (ok_or failure (RepoLifecycle FailedTransitionMissingFailure)) (\<lambda>f.
              Ok (lifecycle_transition_failed transitioned_at f))
         else Ok (lifecycle_transition_new (pa_status a) transitioned_at)) (\<lambda>transition.
     let (r, transitioned) = step_execution_transition expected transition parent in
     res_bind (map_err RepoLifecycle r) (\<lambda>_.
     res_bind (map_err RepoDomain (execution_metadata_new (pa_status a) (pa_exit_status a)
       (em_timestamps (se_metadata transitioned)) (pa_counts a) (em_failure (se_metadata transitioned)))) (\<lambda>metadata.
     Ok \<lparr>se_id = se_id transitioned, se_job_execution_id = se_job_execution_id transitioned,
         se_step_name = se_step_name transitioned, se_metadata = metadata, se_version = se_version transitioned\<rparr>)))"

section \<open>Plans\<close>

fun create_partition_rows ::
  "step_execution_id \<Rightarrow> nat \<Rightarrow> partition_plan_entry list \<Rightarrow> memory_state
   \<Rightarrow> (repository_error + step_partition list) \<times> memory_state" where
  "create_partition_rows step n [] s = (Ok [], s)"
| "create_partition_rows step n (entry # rest) s =
     attempt (next_key IdStepPartition (ms_step_partitions s)) s (\<lambda>i.
     attempt (if n + 1 < 2 ^ 32 then Ok (word_of_nat (n + 1)) else Err PartitionStateCorrupt) s (\<lambda>ordinal.
     let p = step_partition_starting i step ordinal entry;
         s = s\<lparr>ms_step_partitions := bt_insert i p (ms_step_partitions s)\<rparr> in
     proceed (create_partition_rows step (n + 1) rest s) (\<lambda>ps s. (Ok (p # ps), s))))"

definition install_partition_plan ::
  "step_execution_id \<Rightarrow> step_partition list \<Rightarrow> unit_of_work
   \<Rightarrow> (repository_error + step_partition list) \<times> unit_of_work" where
  "install_partition_plan step ps u =
     (Ok ps, (uw_update (\<lambda>s. s\<lparr>ms_step_partitions_by_step :=
         (ms_step_partitions_by_step s)(step \<mapsto> map spt_id ps)\<rparr>) u)
       \<lparr>uw_created_partition_plans := insert step (uw_created_partition_plans u)\<rparr>)"

definition create_step_partition_plan ::
  "step_execution_id \<Rightarrow> partition_plan_entry list \<Rightarrow> unit_of_work
   \<Rightarrow> (repository_error + step_partition list) \<times> unit_of_work" where
  "create_step_partition_plan step entries u =
     attempt (ok_or (ms_step_executions (uw_staged u) step) (StepExecutionNotFound step)) u (\<lambda>parent.
     let status = em_status (se_metadata parent) in
     if \<not> (status = Starting \<or> status = Started) then (Err (PartitionParentNotActive step status), u)
     else if entries = [] then (Err EmptyPartitionPlan, u)
     else if length entries > unat MAX_PARTITIONS then (Err (PartitionPlanTooLarge (unat MAX_PARTITIONS)), u)
     else if ms_step_partitions_by_step (uw_staged u) step \<noteq> None then (Err (PartitionPlanExists step), u)
     else if \<not> distinct (map ppe_key entries) then (Err DuplicatePartitionKey, u)
     else
       let (r, s) = create_partition_rows step 0 entries (uw_staged u) in
       attempt r (u\<lparr>uw_staged := s\<rparr>) (\<lambda>ps. install_partition_plan step ps (u\<lparr>uw_staged := s\<rparr>)))"

definition step_partition_plan :: "memory_state \<Rightarrow> step_execution_id \<Rightarrow> repository_error + step_partition list" where
  "step_partition_plan s step =
     (if ms_step_executions s step = None then Err (StepExecutionNotFound step)
      else res_bind (try_map (\<lambda>i. ok_or (bt_get (ms_step_partitions s) i) PartitionStateCorrupt)
             (unwrap_or (ms_step_partitions_by_step s step) [])) (\<lambda>ps.
           Ok (sort_key spt_key ps)))"

definition restarted_row ::
  "step_partition_id \<Rightarrow> step_execution_id \<Rightarrow> step_partition \<Rightarrow> repository_error + step_partition" where
  "restarted_row i target source =
     (if spt_status source = Completed then
        if spt_worker source = None then Err PartitionStateCorrupt
        else Ok (source\<lparr>spt_id := i, spt_step_execution_id := target, spt_version := version_initial\<rparr>)
      else
        res_bind (map_err (\<lambda>_. PartitionStateCorrupt) (partition_plan_entry_new (spt_key source) (spt_context source)))
          (\<lambda>entry. Ok (step_partition_starting i target (spt_ordinal source) entry)))"

fun restart_partition_rows ::
  "step_execution_id \<Rightarrow> step_partition_id list \<Rightarrow> memory_state
   \<Rightarrow> (repository_error + step_partition list) \<times> memory_state" where
  "restart_partition_rows target [] s = (Ok [], s)"
| "restart_partition_rows target (source_id # rest) s =
     attempt (ok_or (bt_get (ms_step_partitions s) source_id) PartitionStateCorrupt) s (\<lambda>source.
     attempt (next_key IdStepPartition (ms_step_partitions s)) s (\<lambda>i.
     attempt (restarted_row i target source) s (\<lambda>p.
     let s = s\<lparr>ms_step_partitions := bt_insert i p (ms_step_partitions s)\<rparr> in
     proceed (restart_partition_rows target rest s) (\<lambda>ps s. (Ok (p # ps), s)))))"

definition restart_step_partition_plan ::
  "step_execution_id \<Rightarrow> step_execution_id \<Rightarrow> unit_of_work
   \<Rightarrow> (repository_error + step_partition list) \<times> unit_of_work" where
  "restart_step_partition_plan source target u =
     (let s = uw_staged u in
      if ms_step_partitions_by_step s target \<noteq> None then (Err (PartitionPlanExists target), u)
      else
        attempt (ok_or (ms_step_executions s source) (StepExecutionNotFound source)) u (\<lambda>source_parent.
        attempt (ok_or (ms_job_executions s (se_job_execution_id source_parent)) PartitionStateCorrupt) u (\<lambda>source_job.
        let source_status = em_status (je_metadata source_job) in
        if \<not> (source_status = Failed \<or> source_status = Stopped) then (Err PartitionStateCorrupt, u)
        else
          attempt (ok_or (ms_step_executions s target) (StepExecutionNotFound target)) u (\<lambda>target_parent.
          let status = em_status (se_metadata target_parent) in
          if \<not> (status = Starting \<or> status = Started) then (Err (PartitionParentNotActive target status), u)
          else
            attempt (ok_or (ms_step_partitions_by_step s source) PartitionStateCorrupt) u (\<lambda>source_ids.
            let (r, s) = restart_partition_rows target source_ids s in
            attempt r (u\<lparr>uw_staged := s\<rparr>) (\<lambda>ps. install_partition_plan target ps (u\<lparr>uw_staged := s\<rparr>)))))))"

section \<open>Workers\<close>

definition store_partition :: "step_partition_id \<Rightarrow> step_partition \<Rightarrow> unit_of_work \<Rightarrow> unit_of_work" where
  "store_partition i p u = uw_update (\<lambda>s. s\<lparr>ms_step_partitions := bt_insert i p (ms_step_partitions s)\<rparr>) u"

definition assign_step_partition ::
  "step_partition_id \<Rightarrow> execution_version \<Rightarrow> step_execution_id \<Rightarrow> unit_of_work
   \<Rightarrow> (repository_error + step_partition) \<times> unit_of_work" where
  "assign_step_partition i expected worker u =
     (let s = uw_staged u in
      attempt (ok_or (bt_get (ms_step_partitions s) i) (StepPartitionNotFound i)) u (\<lambda>p.
      if spt_step_execution_id p \<in> uw_created_partition_plans u
      then (Err (PartitionPlanNotCommitted (spt_step_execution_id p)), u)
      else
        attempt (ok_or (ms_step_executions s (spt_step_execution_id p)) PartitionStateCorrupt) u (\<lambda>parent.
        if em_status (se_metadata parent) \<noteq> Started
        then (Err (PartitionParentNotActive (se_id parent) (em_status (se_metadata parent))), u)
        else
          let (r, p) = partition_assign expected worker p in
          attempt (map_err (map_partition_mutation i) r) u (\<lambda>_.
          attempt (ok_or (ms_step_executions s worker) (StepExecutionNotFound worker)) u (\<lambda>w.
          if spt_step_execution_id p = worker \<or> se_job_execution_id parent \<noteq> se_job_execution_id w
          then (Err (PartitionWorkerMismatch i worker), u)
          else if list_ex (\<lambda>(j, c). spt_worker c = Some worker) (ms_step_partitions s)
          then (Err (PartitionWorkerAlreadyAssigned worker), u)
          else (Ok p, store_partition i p u))))))"

definition complete_step_partition ::
  "step_partition_id \<Rightarrow> execution_version \<Rightarrow> step_execution_id \<Rightarrow> unit_of_work
   \<Rightarrow> (repository_error + step_partition) \<times> unit_of_work" where
  "complete_step_partition i expected worker u =
     (let s = uw_staged u in
      attempt (ok_or (bt_get (ms_step_partitions s) i) (StepPartitionNotFound i)) u (\<lambda>p.
      attempt (ok_or (ms_step_executions s (spt_step_execution_id p)) PartitionStateCorrupt) u (\<lambda>parent.
      let status = em_status (se_metadata parent) in
      if \<not> (status = Started \<or> status = Stopping) then (Err (PartitionParentNotActive (se_id parent) status), u)
      else if spt_worker p \<noteq> Some worker then (Err (PartitionWorkerStale i worker), u)
      else
        attempt (ok_or (ms_step_executions s worker) (StepExecutionNotFound worker)) u (\<lambda>w.
        if se_job_execution_id w \<noteq> se_job_execution_id parent then (Err (PartitionWorkerMismatch i worker), u)
        else
          attempt (map_err (\<lambda>_. PartitionAggregationIncomplete (se_id parent) (em_status (se_metadata w)))
            (partition_result_from_worker w)) u (\<lambda>result.
          let (r, p) = partition_complete expected result p in
          attempt (map_err (map_partition_mutation i) r) u (\<lambda>_. (Ok p, store_partition i p u)))))))"

section \<open>Aggregation into the parent\<close>

definition check_worker :: "memory_state \<Rightarrow> step_execution_id \<Rightarrow> step_partition \<Rightarrow> repository_error + unit" where
  "check_worker s step p =
     res_bind (ok_or (spt_worker p) (PartitionAggregationIncomplete step (spt_status p))) (\<lambda>worker.
     res_bind (ok_or (ms_step_executions s worker) PartitionStateCorrupt) (\<lambda>w.
     if em_status (se_metadata w) \<noteq> spt_status p \<or> em_exit_status (se_metadata w) \<noteq> spt_exit_status p
        \<or> em_counts (se_metadata w) \<noteq> spt_counts p
     then Err PartitionStateCorrupt else Ok ()))"

definition aggregate_parent ::
  "step_execution_id \<Rightarrow> execution_version \<Rightarrow> system_time \<Rightarrow> unit_of_work
   \<Rightarrow> (repository_error + step_execution) \<times> unit_of_work" where
  "aggregate_parent step expected transitioned_at u =
     (let s = uw_staged u in
      attempt (step_partition_plan s step) u (\<lambda>ps.
      attempt (map_err (map_partition_aggregation step) (aggregate_step_partitions ps)) u (\<lambda>a.
      attempt (try_each (check_worker s step) ps) u (\<lambda>_.
      attempt (ok_or (ms_step_executions s step) (StepExecutionNotFound step)) u (\<lambda>parent.
      attempt (ok_or (ms_step_executions s (pa_selected_worker a)) PartitionStateCorrupt) u (\<lambda>selected.
      let failure = em_failure (se_metadata selected); m = se_metadata parent in
      if checked_add expected 1 = Some (se_version parent) \<and> em_status m = pa_status a
         \<and> em_exit_status m = pa_exit_status a \<and> em_counts m = pa_counts a \<and> em_failure m = failure
      then (Ok parent, u)
      else if \<not> (em_status m = Started \<or> em_status m = Stopping)
      then (Err (PartitionParentNotActive step (em_status m)), u)
      else
        attempt (aggregate_partition_parent parent expected a transitioned_at failure) u (\<lambda>aggregated.
        (Ok aggregated, (uw_update (\<lambda>s. s\<lparr>ms_step_executions := (ms_step_executions s)(step \<mapsto> aggregated)\<rparr>) u)
           \<lparr>uw_aggregated_partition_parent := True\<rparr>))))))))"

end
