(* ===== verification/Memory_System.thy ===== *)
theory Memory_System
  imports Unit_Of_Work Memory_Operator Memory_Flow Memory_Partition
begin

text \<open>
  The reference repository as a system of concurrent units of work: every operation of
  \<^verbatim>\<open>impl RepositoryUnitOfWork for InMemoryUnitOfWork\<close> that changes the staged state, with what the
  identifier generator and the clock returned to it, and the interpretation of the revision store on
  \<^const>\<open>memory_begin\<close> and \<^const>\<open>memory_commit\<close>.
\<close>

datatype (plugins only: code size) repository_op =
    RegisterDefinition definition_registration
  | RegisterDefinitionUpgrade job_name definition_upgrade
  | SelectOrCreateJobInstance "id_generation_error + job_instance_id" system_time job_instance_key
  | CreateJobExecution "id_generation_error + job_execution_id" system_time job_instance_id
  | CreateJobExecutionWithDefinition "id_generation_error + job_execution_id" system_time job_instance_id
      definition_identity
  | CreateJobExecutionWithUpgrade "id_generation_error + job_execution_id" system_time job_instance_id
      definition_upgrade_execution
  | CreateJobExecutionWithDefinitionAndParameters "id_generation_error + job_execution_id" system_time
      job_instance_id definition_identity job_parameters
  | CreateJobExecutionWithUpgradeAndParameters "id_generation_error + job_execution_id" system_time
      job_instance_id definition_upgrade_execution job_parameters
  | StoreScopeResolutionProvenance "scope_resolution_provenance list"
  | CreateStepExecution "id_generation_error + step_execution_id" system_time job_execution_id step_name
  | CreateFlowStepExecution "id_generation_error + step_execution_id" system_time job_execution_id step_name
      node_id start_limit
  | TransitionJobExecution job_execution_id execution_version lifecycle_transition
  | EnrichJobExitStatus job_execution_id execution_version exit_status
  | TransitionStepExecution step_execution_id execution_version lifecycle_transition
  | EnrichStepExitStatus step_execution_id execution_version exit_status
  | CommitStepExecutionContext step_execution_id execution_version execution_context
  | StageForkJobContext job_execution_id execution_context
  | AppendForkLineage fork_lineage
  | AppendFlowDecision flow_decision_request
  | CommitRepeatIteration repeat_commit_request
  | CreateNestedJobLink "id_generation_error + job_instance_id" "id_generation_error + job_execution_id"
      system_time system_time nested_job_link_request
  | ContinueNestedJobLink "id_generation_error + job_execution_id" system_time job_execution_id node_id
      job_execution_id system_time
  | ObserveNestedJobTerminal job_execution_id node_id system_time
  | CreateStepPartitionPlan step_execution_id "partition_plan_entry list"
  | RestartStepPartitionPlan step_execution_id step_execution_id
  | AssignStepPartition step_partition_id execution_version step_execution_id
  | CompleteStepPartition step_partition_id execution_version step_execution_id
  | AggregateStepPartitions step_execution_id execution_version system_time
  | RecoverJobExecution system_time job_execution_id recovery_request
  | AppendOperatorRequest operator_record_draft
  | RequestExecutionStop job_execution_id execution_version system_time
  | ClaimExecutionOwner job_execution_id execution_version owner_token system_time
  | ObserveExecutionControl job_execution_id owner_token system_time
  | PlaceInstanceHold job_instance_id actor_ref reason_code system_time
  | ReleaseInstanceHold job_instance_id
  | AppendRetentionAction retention_record_draft
  | ApplyPurge purge_plan

definition discard :: "(repository_error + 'a) \<times> unit_of_work \<Rightarrow> (repository_error + unit) \<times> unit_of_work" where
  "discard p = (case p of (Err e, u) \<Rightarrow> (Err e, u) | (Ok _, u) \<Rightarrow> (Ok (), u))"

lemma discard_Ok [simp]: "discard p = (Ok (), u) \<longleftrightarrow> (\<exists>x. p = (Ok x, u))"
  by (cases p; cases "fst p") (auto simp: discard_def)

fun run_op :: "to_vec \<Rightarrow> from_slice \<Rightarrow> sha256 \<Rightarrow> repository_op \<Rightarrow> unit_of_work
  \<Rightarrow> (repository_error + unit) \<times> unit_of_work" where
  "run_op tv fs h (RegisterDefinition r) u = discard (register_definition r u)"
| "run_op tv fs h (RegisterDefinitionUpgrade n up) u = discard (register_definition_upgrade n up u)"
| "run_op tv fs h (SelectOrCreateJobInstance i now k) u = discard (select_or_create_job_instance i now k u)"
| "run_op tv fs h (CreateJobExecution i now j) u = discard (create_job_execution tv fs h i now j u)"
| "run_op tv fs h (CreateJobExecutionWithDefinition i now j d) u =
     discard (create_job_execution_with_definition tv fs h i now j d u)"
| "run_op tv fs h (CreateJobExecutionWithUpgrade i now j up) u =
     discard (create_job_execution_with_upgrade tv fs h i now j up u)"
| "run_op tv fs h (CreateJobExecutionWithDefinitionAndParameters i now j d p) u =
     discard (create_job_execution_with_definition_and_parameters tv fs h i now j d p u)"
| "run_op tv fs h (CreateJobExecutionWithUpgradeAndParameters i now j up p) u =
     discard (create_job_execution_with_upgrade_and_parameters tv fs h i now j up p u)"
| "run_op tv fs h (StoreScopeResolutionProvenance es) u = discard (store_scope_resolution_provenance es u)"
| "run_op tv fs h (CreateStepExecution i now x n) u = discard (create_step_execution i now x n u)"
| "run_op tv fs h (CreateFlowStepExecution i now x n node l) u =
     discard (create_flow_step_execution i now x n node l u)"
| "run_op tv fs h (TransitionJobExecution x v t) u = discard (transition_job_execution x v t u)"
| "run_op tv fs h (EnrichJobExitStatus x v e) u = discard (enrich_job_exit_status x v e u)"
| "run_op tv fs h (TransitionStepExecution x v t) u = discard (transition_step_execution x v t u)"
| "run_op tv fs h (EnrichStepExitStatus x v e) u = discard (enrich_step_exit_status x v e u)"
| "run_op tv fs h (CommitStepExecutionContext x v c) u = discard (commit_step_execution_context x v c u)"
| "run_op tv fs h (StageForkJobContext x c) u = discard (stage_fork_job_context x c u)"
| "run_op tv fs h (AppendForkLineage l) u = discard (append_fork_lineage h l u)"
| "run_op tv fs h (AppendFlowDecision r) u = discard (append_flow_decision fs r u)"
| "run_op tv fs h (CommitRepeatIteration r) u = discard (commit_repeat_iteration h fs r u)"
| "run_op tv fs h (CreateNestedJobLink i x t1 t2 r) u = discard (create_nested_job_link tv fs h i x t1 t2 r u)"
| "run_op tv fs h (ContinueNestedJobLink i now x n prior at) u =
     discard (continue_nested_job_link tv fs h i now x n prior at u)"
| "run_op tv fs h (ObserveNestedJobTerminal x n at) u = discard (observe_nested_job_terminal x n at u)"
| "run_op tv fs h (CreateStepPartitionPlan s es) u = discard (create_step_partition_plan s es u)"
| "run_op tv fs h (RestartStepPartitionPlan s t) u = discard (restart_step_partition_plan s t u)"
| "run_op tv fs h (AssignStepPartition i v w) u = discard (assign_step_partition i v w u)"
| "run_op tv fs h (CompleteStepPartition i v w) u = discard (complete_step_partition i v w u)"
| "run_op tv fs h (AggregateStepPartitions s v at) u = discard (aggregate_parent s v at u)"
| "run_op tv fs h (RecoverJobExecution now x r) u = discard (recover_job_execution now x r u)"
| "run_op tv fs h (AppendOperatorRequest d) u = discard (append_operator_request d u)"
| "run_op tv fs h (RequestExecutionStop x v at) u = discard (request_execution_stop x v at u)"
| "run_op tv fs h (ClaimExecutionOwner x v w at) u = discard (claim_execution_owner x v w at u)"
| "run_op tv fs h (ObserveExecutionControl x w at) u = discard (observe_execution_control x w at u)"
| "run_op tv fs h (PlaceInstanceHold i a r at) u = discard (place_instance_hold i a r at u)"
| "run_op tv fs h (ReleaseInstanceHold i) u = discard (release_instance_hold i u)"
| "run_op tv fs h (AppendRetentionAction d) u = discard (append_retention_action d u)"
| "run_op tv fs h (ApplyPurge p) u = discard (apply_purge p u)"

end
