(* ===== verification/Memory_Frame.thy ===== *)
theory Memory_Frame
  imports Memory_System
begin

text \<open>
  What each operation of the reference repository leaves alone.  The launch view of a state is the
  registry of instances and the ledger of executions; the step view is who owns which step.  Most
  operations keep both; the lemmas of this theory say so, one per operation.
\<close>

named_theorems frames \<open>operations that keep the launch and step views\<close>
named_theorems ensures_rules \<open>one rule per combinator an operation is written with\<close>

section \<open>Reasoning about operations\<close>

text \<open>\<open>ensures P p\<close>: if the operation \<open>p\<close> succeeds, the state it leaves satisfies \<open>P\<close>.\<close>

definition ensures :: "('s \<Rightarrow> bool) \<Rightarrow> ('e + 'a) \<times> 's \<Rightarrow> bool" where
  "ensures P p \<longleftrightarrow> (\<forall>x s. p = (Ok x, s) \<longrightarrow> P s)"

lemma ensuresD: "ensures P p \<Longrightarrow> p = (Ok x, s) \<Longrightarrow> P s"
  by (simp add: ensures_def)

lemma ensures_error [ensures_rules]: "ensures P (Err e, s)"
  by (simp add: ensures_def)

lemma ensures_value [ensures_rules]: "P s \<Longrightarrow> ensures P (Ok x, s)"
  by (simp add: ensures_def)

lemma ensures_attempt [ensures_rules]: "(\<And>x. r = Ok x \<Longrightarrow> ensures P (k x)) \<Longrightarrow> ensures P (attempt r s k)"
  by (auto simp: ensures_def)

lemma ensures_if [ensures_rules]: "(c \<Longrightarrow> ensures P a) \<Longrightarrow> (\<not> c \<Longrightarrow> ensures P b) \<Longrightarrow> ensures P (if c then a else b)"
  by simp

lemma ensures_let [ensures_rules]: "ensures P (f t) \<Longrightarrow> ensures P (Let t f)"
  by simp

lemma ensures_option [ensures_rules]:
  "(o' = None \<Longrightarrow> ensures P a) \<Longrightarrow> (\<And>x. o' = Some x \<Longrightarrow> ensures P (f x)) \<Longrightarrow>
   ensures P (case o' of None \<Rightarrow> a | Some x \<Rightarrow> f x)"
  by (cases o') auto

lemma ensures_prod [ensures_rules]:
  "(\<And>a b. p = (a, b) \<Longrightarrow> ensures P (f a b)) \<Longrightarrow> ensures P (case p of (a, b) \<Rightarrow> f a b)"
  by (cases p) auto

lemma ensures_if_value [ensures_rules]:
  "(c \<Longrightarrow> ensures P (a, s)) \<Longrightarrow> (\<not> c \<Longrightarrow> ensures P (b, s)) \<Longrightarrow> ensures P (if c then a else b, s)"
  by simp

lemma ensures_staged [ensures_rules]:
  "(\<And>x t. p = (Ok x, t) \<Longrightarrow> ensures P (k x (u\<lparr>uw_staged := t\<rparr>))) \<Longrightarrow>
   ensures P (proceed (let (r, s) = p in (r, u\<lparr>uw_staged := s\<rparr>)) k)"
  by (cases p; cases "fst p") (auto simp: ensures_def)

lemma ensures_proceed:
  "(\<And>x s. p = (Ok x, s) \<Longrightarrow> ensures P (k x s)) \<Longrightarrow> ensures P (proceed p k)"
  by (auto simp: ensures_def)

section \<open>Views\<close>

definition launch_view where
  "launch_view s = (ms_instances_by_key s, bt_get (ms_instances_by_id s), ms_job_executions s,
     ms_job_executions_by_instance s, ms_execution_attempts s, ms_next_execution_attempt_by_instance s)"

definition step_view where
  "step_view s = (\<lambda>i. map_option (\<lambda>e. (se_id e, se_job_execution_id e)) (ms_step_executions s i),
     ms_step_executions_by_job s, ms_step_logical_ids s)"

definition core_view where "core_view s = (launch_view s, step_view s)"

lemmas view_defs = core_view_def launch_view_def step_view_def

definition framed :: "unit_of_work \<Rightarrow> unit_of_work \<Rightarrow> bool" where
  "framed u u' \<longleftrightarrow> uw_base_revision u' = uw_base_revision u \<and> core_view (uw_staged u') = core_view (uw_staged u)"

lemma framed_refl [simp]: "framed u u"
  by (simp add: framed_def)

lemma framed_trans: "framed u v \<Longrightarrow> framed v w \<Longrightarrow> framed u w"
  by (simp add: framed_def)

lemma framed_staged [simp]: "framed u (u\<lparr>uw_staged := s\<rparr>) \<longleftrightarrow> core_view s = core_view (uw_staged u)"
  by (simp add: framed_def)

lemma framed_update [simp]:
  "framed u (uw_update f v) \<longleftrightarrow>
     uw_base_revision v = uw_base_revision u \<and> core_view (f (uw_staged v)) = core_view (uw_staged u)"
  by (simp add: framed_def)

lemma core_view_update [simp]:
  "core_view (s\<lparr>ms_job_parameters := a\<rparr>) = core_view s"
  "core_view (s\<lparr>ms_scope_resolution_provenance := b\<rparr>) = core_view s"
  "core_view (s\<lparr>ms_scope_explorer_order := c\<rparr>) = core_view s"
  "core_view (s\<lparr>ms_nested_job_links := d\<rparr>) = core_view s"
  "core_view (s\<lparr>ms_nested_job_links_by_instance := e\<rparr>) = core_view s"
  "core_view (s\<lparr>ms_step_contexts := f\<rparr>) = core_view s"
  "core_view (s\<lparr>ms_step_partitions := g\<rparr>) = core_view s"
  "core_view (s\<lparr>ms_step_partitions_by_step := h\<rparr>) = core_view s"
  "core_view (s\<lparr>ms_flow_decisions := i\<rparr>) = core_view s"
  "core_view (s\<lparr>ms_flow_decisions_by_job := j\<rparr>) = core_view s"
  "core_view (s\<lparr>ms_repeat_executions := k\<rparr>) = core_view s"
  "core_view (s\<lparr>ms_recovery_decisions := l\<rparr>) = core_view s"
  "core_view (s\<lparr>ms_definitions := m\<rparr>) = core_view s"
  "core_view (s\<lparr>ms_definition_registry := n\<rparr>) = core_view s"
  "core_view (s\<lparr>ms_definition_explorer_order := o'\<rparr>) = core_view s"
  "core_view (s\<lparr>ms_execution_definitions := p\<rparr>) = core_view s"
  "core_view (s\<lparr>ms_definition_upgrades := q\<rparr>) = core_view s"
  "core_view (s\<lparr>ms_fork_lineages := r\<rparr>) = core_view s"
  "core_view (s\<lparr>ms_fork_job_contexts := t\<rparr>) = core_view s"
  "core_view (s\<lparr>ms_upgrade_sources := u\<rparr>) = core_view s"
  "core_view (s\<lparr>ms_upgrade_seeds := v\<rparr>) = core_view s"
  "core_view (s\<lparr>ms_job_name_order := w\<rparr>) = core_view s"
  "core_view (s\<lparr>ms_instance_created_at := x\<rparr>) = core_view s"
  "core_view (s\<lparr>ms_execution_updated_at := y\<rparr>) = core_view s"
  "core_view (s\<lparr>ms_holds := z\<rparr>) = core_view s"
  "core_view (s\<lparr>ms_stop_requests := a1\<rparr>) = core_view s"
  "core_view (s\<lparr>ms_owner_tokens := a2\<rparr>) = core_view s"
  "core_view (s\<lparr>ms_operator_requests := a3\<rparr>) = core_view s"
  "core_view (s\<lparr>ms_operator_request_keys := a4\<rparr>) = core_view s"
  "core_view (s\<lparr>ms_retention_actions := a5\<rparr>) = core_view s"
  "core_view (s\<lparr>ms_retention_action_keys := a6\<rparr>) = core_view s"
  "core_view (s\<lparr>ms_revision := a7\<rparr>) = core_view s"
  by (simp_all add: view_defs)

lemma proceed_each_keeps:
  assumes "\<And>x s t. f x s = (Ok (), t) \<Longrightarrow> v t = v s"
  shows "proceed_each f xs s = (Ok (), t) \<Longrightarrow> v t = v s"
  by (induction xs arbitrary: s) (use assms in \<open>auto split: prod.splits\<close>)

section \<open>Helpers on the staged state\<close>

lemma register_job_name_frame [simp]: "core_view (register_job_name n s) = core_view s"
  by (simp add: register_job_name_def)

lemma ensure_definition_frame: "ensure_definition n d s = Ok t \<Longrightarrow> core_view t = core_view s"
  by (auto simp: ensure_definition_def Let_def split: if_splits option.splits)

lemma copy_forward_entry_frame: "copy_forward_entry j st e s = (Ok (), t) \<Longrightarrow> core_view t = core_view s"
  by (auto simp: copy_forward_entry_def Let_def split: if_splits)

lemma copy_forward_frame:
  "copy_forward_scope_resolution_provenance j st j' st' s = (Ok (), t) \<Longrightarrow> core_view t = core_view s"
  unfolding copy_forward_scope_resolution_provenance_def
  by (rule proceed_each_keeps [where v = core_view]) (rule copy_forward_entry_frame)

lemma fold_keeps: "(\<And>x s. v (f x s) = v s) \<Longrightarrow> v (fold f xs s) = v s"
  by (induction xs arbitrary: s) auto

lemma materialize_scope_seeds_frame: "materialize_scope_seeds j st seeds s = Ok t \<Longrightarrow> core_view t = core_view s"
  by (auto simp: materialize_scope_seeds_def intro!: fold_keeps)

lemma seed_upgraded_execution_frame: "seed_upgraded_execution i src js seeds s = Ok t \<Longrightarrow> core_view t = core_view s"
  by (auto simp: seed_upgraded_execution_def Let_def dest!: materialize_scope_seeds_frame split: option.splits)

lemma store_provenance_entry_frame:
  "store_provenance_entry first e p = (Ok (), q) \<Longrightarrow> core_view (snd q) = core_view (snd p)"
  by (cases p) (auto simp: store_provenance_entry_def Let_def split: if_splits option.splits)

lemma seed_repeat_frame: "seed_repeat inst node i job r s = (Ok (), t) \<Longrightarrow> core_view t = core_view s"
  by (auto simp: seed_repeat_def Let_def)

lemma seed_repeats_frame:
  "proceed_each (seed_repeat inst node i job) rs s = (Ok (), t) \<Longrightarrow> core_view t = core_view s"
  by (rule proceed_each_keeps [where v = core_view]) (rule seed_repeat_frame)

lemma seed_step_frame: "seed_step inst node i job seed s = (Ok (), t) \<Longrightarrow> core_view t = core_view s"
  by (auto simp: seed_step_def split: option.splits dest!: materialize_scope_seeds_frame seed_repeats_frame)

section \<open>Operations that keep both views\<close>

lemma framed_flags [simp]:
  "framed u (v\<lparr>uw_created_fork_lineage := b\<rparr>) \<longleftrightarrow> framed u v"
  "framed u (v\<lparr>uw_committed_repeat_iteration := b\<rparr>) \<longleftrightarrow> framed u v"
  "framed u (v\<lparr>uw_aggregated_partition_parent := b\<rparr>) \<longleftrightarrow> framed u v"
  "framed u (v\<lparr>uw_created_partition_plans := p\<rparr>) \<longleftrightarrow> framed u v"
  by (simp_all add: framed_def)

lemma register_definition_frame [frames]: "ensures (framed u) (register_definition r u)"
  unfolding register_definition_def
  by (intro ensures_rules) (simp_all add: ensure_definition_frame)

lemma register_definition_upgrade_frame [frames]: "ensures (framed u) (register_definition_upgrade n up u)"
  unfolding register_definition_upgrade_def
  by (intro ensures_rules; simp; drule ensure_definition_frame; drule ensure_definition_frame; simp)

lemma store_scope_resolution_provenance_frame [frames]: "ensures (framed u) (store_scope_resolution_provenance es u)"
proof (cases es)
  case (Cons first rest)
  have "core_view (snd q) = core_view (uw_staged u)"
    if "proceed_each (store_provenance_entry first) es ({}, uw_staged u) = (Ok (), q)" for q
    using proceed_each_keeps [where v = "core_view \<circ> snd", OF _ that] by (simp add: store_provenance_entry_frame)
  then show ?thesis using Cons
    by (auto simp: store_scope_resolution_provenance_def ensures_def split: prod.splits)
qed (simp add: store_scope_resolution_provenance_def ensures_def)

lemma stage_fork_job_context_frame [frames]: "ensures (framed u) (stage_fork_job_context i c u)"
  unfolding stage_fork_job_context_def by (intro ensures_rules) simp_all

lemma append_fork_lineage_frame [frames]: "ensures (framed u) (append_fork_lineage h l u)"
  unfolding append_fork_lineage_def by (intro ensures_rules) simp_all

lemma append_flow_decision_frame [frames]: "ensures (framed u) (append_flow_decision fs r u)"
  unfolding append_flow_decision_def by (intro ensures_rules) simp_all

lemma commit_repeat_iteration_frame [frames]: "ensures (framed u) (commit_repeat_iteration h fs r u)"
  unfolding commit_repeat_iteration_def Let_def by (intro ensures_rules) simp_all

lemma observe_nested_job_terminal_frame [frames]: "ensures (framed u) (observe_nested_job_terminal p n at u)"
  unfolding observe_nested_job_terminal_def by (intro ensures_rules) simp_all

lemma store_nested_job_parameters_frame: "ensures (framed u) (store_nested_job_parameters i p u)"
  unfolding store_nested_job_parameters_def by (intro ensures_rules) simp_all

lemma store_nested_job_link_frame [simp]: "framed u (store_nested_job_link l v) \<longleftrightarrow> framed u v"
  by (simp add: store_nested_job_link_def framed_def)

lemma create_partition_rows_frame: "create_partition_rows step n es s = (Ok ps, t) \<Longrightarrow> core_view t = core_view s"
  by (induction es arbitrary: n s ps) (auto simp: Let_def split: if_splits)

lemma restart_partition_rows_frame: "restart_partition_rows target is s = (Ok ps, t) \<Longrightarrow> core_view t = core_view s"
  by (induction "is" arbitrary: s ps) (auto simp: Let_def)

lemma install_partition_plan_frame:
  "core_view s = core_view (uw_staged u) \<Longrightarrow> ensures (framed u) (install_partition_plan step ps (u\<lparr>uw_staged := s\<rparr>))"
  by (simp add: install_partition_plan_def ensures_def)

lemma create_step_partition_plan_frame [frames]: "ensures (framed u) (create_step_partition_plan step es u)"
  unfolding create_step_partition_plan_def
  by (intro ensures_rules install_partition_plan_frame) (auto dest: create_partition_rows_frame)

lemma restart_step_partition_plan_frame [frames]: "ensures (framed u) (restart_step_partition_plan a b u)"
  unfolding restart_step_partition_plan_def
  by (intro ensures_rules install_partition_plan_frame) (auto dest: restart_partition_rows_frame)

lemma store_partition_frame [simp]: "framed u (store_partition i p u)"
  by (simp add: store_partition_def)

lemma assign_step_partition_frame [frames]: "ensures (framed u) (assign_step_partition i v w u)"
  unfolding assign_step_partition_def by (intro ensures_rules) simp_all

lemma complete_step_partition_frame [frames]: "ensures (framed u) (complete_step_partition i v w u)"
  unfolding complete_step_partition_def by (intro ensures_rules) simp_all

lemma append_operator_request_frame [frames]: "ensures (framed u) (append_operator_request d u)"
  unfolding append_operator_request_def by (intro ensures_rules) simp_all

lemma request_execution_stop_frame [frames]: "ensures (framed u) (request_execution_stop i v at u)"
  unfolding request_execution_stop_def by (intro ensures_rules) simp_all

lemma claim_execution_owner_frame [frames]: "ensures (framed u) (claim_execution_owner i v w at u)"
  unfolding claim_execution_owner_def by (intro ensures_rules) simp_all

lemma place_instance_hold_frame [frames]: "ensures (framed u) (place_instance_hold i a r at u)"
  unfolding place_instance_hold_def by (intro ensures_rules) simp_all

lemma release_instance_hold_frame [frames]: "ensures (framed u) (release_instance_hold i u)"
  unfolding release_instance_hold_def by (intro ensures_rules) simp_all

lemma append_retention_action_frame [frames]: "ensures (framed u) (append_retention_action d u)"
  unfolding append_retention_action_def by (intro ensures_rules) simp_all

section \<open>Changes of one step\<close>

text \<open>A step replaced by one with the same identity keeps both views.\<close>

lemma step_replaced:
  assumes "ms_step_executions s i = Some e" and "se_id e' = se_id e" and "se_job_execution_id e' = se_job_execution_id e"
  shows "core_view (s\<lparr>ms_step_executions := (ms_step_executions s)(i \<mapsto> e')\<rparr>) = core_view s"
  using assms by (auto simp: view_defs)

lemma step_transition_identity:
  "step_execution_transition v t e = (r, e') \<Longrightarrow> se_id e' = se_id e \<and> se_job_execution_id e' = se_job_execution_id e"
  by (auto simp: step_execution_transition_def split: prod.splits)

lemma step_enrich_identity:
  "step_execution_enrich_exit_status v t e = (r, e') \<Longrightarrow> se_id e' = se_id e \<and> se_job_execution_id e' = se_job_execution_id e"
  by (auto simp: step_execution_enrich_exit_status_def split: prod.splits)

lemma transition_step_execution_frame [frames]: "ensures (framed u) (transition_step_execution i v t u)"
  unfolding transition_step_execution_def
  by (intro ensures_rules) (auto simp: step_replaced dest!: step_transition_identity)

lemma enrich_step_exit_status_frame [frames]: "ensures (framed u) (enrich_step_exit_status i v t u)"
  unfolding enrich_step_exit_status_def
  by (intro ensures_rules) (auto simp: step_replaced dest!: step_enrich_identity)

lemma commit_step_execution_context_frame [frames]: "ensures (framed u) (commit_step_execution_context i v c u)"
  unfolding commit_step_execution_context_def by (intro ensures_rules) (simp_all add: step_replaced)

lemma aggregate_partition_parent_identity:
  "aggregate_partition_parent e v a at f = Ok e' \<Longrightarrow>
     se_id e' = se_id e \<and> se_job_execution_id e' = se_job_execution_id e"
  by (auto simp: aggregate_partition_parent_def Let_def case_prod_unfold
      step_transition_identity [OF surjective_pairing] split: if_splits)

lemma aggregate_parent_frame [frames]: "ensures (framed u) (aggregate_parent i v at u)"
  unfolding aggregate_parent_def
  by (intro ensures_rules) (auto simp: step_replaced dest!: aggregate_partition_parent_identity)

end
