(* ===== verification/Memory_Invariant.thy ===== *)
theory Memory_Invariant
  imports Memory_Frame "HOL-Library.Sublist"
begin

text \<open>
  The invariant of the reference repository.  The registry gives every instance key one instance and
  every instance its ledger of executions; in a ledger the attempt numbers increase and only the latest
  execution can be unresolved or completed; every step belongs to one execution.  Each operation keeps
  the invariant, so every interleaving of units of work does.
\<close>

section \<open>The invariant\<close>

text \<open>The statuses an execution may have once a later attempt of its instance exists.\<close>

definition superseded :: "batch_status \<Rightarrow> bool" where
  "superseded s \<longleftrightarrow> s = Stopped \<or> s = Failed \<or> s = Abandoned"

definition status_of :: "(job_execution_id \<rightharpoonup> job_execution) \<Rightarrow> job_execution_id \<Rightarrow> batch_status option" where
  "status_of execs x = map_option (\<lambda>e. em_status (je_metadata e)) (execs x)"

definition attempts_increase :: "(job_execution_id \<rightharpoonup> u64) \<Rightarrow> u64 \<Rightarrow> job_execution_id list \<Rightarrow> bool" where
  "attempts_increase attempts latest ids \<longleftrightarrow>
     (\<exists>as. map attempts ids = map Some as \<and> sorted_wrt (<) as \<and> (\<forall>a \<in> set as. 0 < a \<and> a \<le> latest))"

definition ledger_inv where
  "ledger_inv execs attempts latest i ids \<longleftrightarrow>
     distinct ids \<and> (\<forall>x \<in> set ids. \<exists>e. execs x = Some e \<and> je_job_instance_id e = i)
     \<and> (\<forall>x \<in> set (butlast ids). \<exists>s. status_of execs x = Some s \<and> superseded s)
     \<and> attempts_increase attempts latest ids"

definition launch_inv :: "memory_state \<Rightarrow> bool" where
  "launch_inv s \<longleftrightarrow>
     (\<forall>k i. ms_instances_by_key s k = Some i \<longleftrightarrow> (\<exists>x. bt_get (ms_instances_by_id s) i = Some x \<and> ji_key x = k))
     \<and> (\<forall>i x. bt_get (ms_instances_by_id s) i = Some x \<longrightarrow> ji_id x = i)
     \<and> (\<forall>i. ms_job_executions_by_instance s i \<noteq> None \<longleftrightarrow> bt_get (ms_instances_by_id s) i \<noteq> None)
     \<and> (\<forall>x e. ms_job_executions s x = Some e \<longrightarrow> je_id e = x \<and> metadata_wf (je_metadata e)
           \<and> (\<exists>ids. ms_job_executions_by_instance s (je_job_instance_id e) = Some ids \<and> x \<in> set ids))
     \<and> (\<forall>i ids. ms_job_executions_by_instance s i = Some ids \<longrightarrow>
           ledger_inv (ms_job_executions s) (ms_execution_attempts s)
             (unwrap_or (ms_next_execution_attempt_by_instance s i) 0) i ids)"

definition step_inv :: "memory_state \<Rightarrow> bool" where
  "step_inv s \<longleftrightarrow>
     (\<forall>i e. ms_step_executions s i = Some e \<longrightarrow> se_id e = i \<and> i \<in> set (steps_of s (se_job_execution_id e)))
     \<and> (\<forall>x ids. ms_step_executions_by_job s x = Some ids \<longrightarrow>
           ms_job_executions s x \<noteq> None \<and> distinct ids
           \<and> (\<forall>i \<in> set ids. ms_step_logical_ids s i \<noteq> None
                \<and> (\<exists>e. ms_step_executions s i = Some e \<and> se_job_execution_id e = x)))"

definition core_inv :: "memory_state \<Rightarrow> bool" where
  "core_inv s \<longleftrightarrow> launch_inv s \<and> step_inv s"

lemma step_inv_view:
  "step_inv s \<longleftrightarrow>
     (\<forall>i a x. fst (step_view s) i = Some (a, x) \<longrightarrow> a = i \<and> i \<in> set (steps_of s x))
     \<and> (\<forall>x ids. ms_step_executions_by_job s x = Some ids \<longrightarrow>
           ms_job_executions s x \<noteq> None \<and> distinct ids
           \<and> (\<forall>i \<in> set ids. ms_step_logical_ids s i \<noteq> None \<and> (\<exists>a. fst (step_view s) i = Some (a, x))))"
  by (auto simp: step_inv_def step_view_def)

lemma core_view_fields:
  assumes "core_view t = core_view s"
  shows "ms_instances_by_key t = ms_instances_by_key s"
    "bt_get (ms_instances_by_id t) = bt_get (ms_instances_by_id s)"
    "ms_job_executions t = ms_job_executions s"
    "ms_job_executions_by_instance t = ms_job_executions_by_instance s"
    "ms_execution_attempts t = ms_execution_attempts s"
    "ms_next_execution_attempt_by_instance t = ms_next_execution_attempt_by_instance s"
    "step_view t = step_view s"
    "ms_step_executions_by_job t = ms_step_executions_by_job s"
    "ms_step_logical_ids t = ms_step_logical_ids s"
  using assms unfolding view_defs prod.inject by blast+

lemma launch_inv_cong: assumes "core_view t = core_view s" shows "launch_inv t \<longleftrightarrow> launch_inv s"
  unfolding launch_inv_def core_view_fields [OF assms] by (rule refl)

lemma step_inv_cong: assumes "core_view t = core_view s" shows "step_inv t \<longleftrightarrow> step_inv s"
  unfolding step_inv_view core_view_fields [OF assms] by (rule refl)

lemma core_inv_cong: "core_view t = core_view s \<Longrightarrow> core_inv t \<longleftrightarrow> core_inv s"
  unfolding core_inv_def by (blast dest: launch_inv_cong step_inv_cong)

definition preserved :: "unit_of_work \<Rightarrow> unit_of_work \<Rightarrow> bool" where
  "preserved u u' \<longleftrightarrow> uw_base_revision u' = uw_base_revision u \<and> (core_inv (uw_staged u) \<longrightarrow> core_inv (uw_staged u'))"

lemma framed_preserved: "framed u u' \<Longrightarrow> preserved u u'"
  unfolding framed_def preserved_def by (blast dest: core_inv_cong)

lemma preserved_trans: "preserved u v \<Longrightarrow> preserved v w \<Longrightarrow> preserved u w"
  by (simp add: preserved_def)

lemma ensures_weaken: "ensures P p \<Longrightarrow> (\<And>s. P s \<Longrightarrow> Q s) \<Longrightarrow> ensures Q p"
  by (simp add: ensures_def)

lemma framed_op: "ensures (framed u) p \<Longrightarrow> ensures (preserved u) p"
  by (erule ensures_weaken) (rule framed_preserved)

lemma preserved_refl: "preserved u u"
  by (simp add: preserved_def)

section \<open>Instances\<close>

lemma launch_invD:
  assumes "launch_inv s"
  shows "ms_instances_by_key s k = Some i \<longleftrightarrow> (\<exists>x. bt_get (ms_instances_by_id s) i = Some x \<and> ji_key x = k)"
    and "bt_get (ms_instances_by_id s) i = Some x \<Longrightarrow> ji_id x = i"
    and "ms_job_executions_by_instance s i \<noteq> None \<longleftrightarrow> bt_get (ms_instances_by_id s) i \<noteq> None"
    and "ms_job_executions s y = Some e \<Longrightarrow> je_id e = y \<and> metadata_wf (je_metadata e)
           \<and> (\<exists>ids. ms_job_executions_by_instance s (je_job_instance_id e) = Some ids \<and> y \<in> set ids)"
    and "ms_job_executions_by_instance s i = Some ids \<Longrightarrow>
           ledger_inv (ms_job_executions s) (ms_execution_attempts s)
             (unwrap_or (ms_next_execution_attempt_by_instance s i) 0) i ids"
  using assms unfolding launch_inv_def by blast+

lemma ledger_inv_Nil [simp]: "ledger_inv execs attempts latest i []"
  by (simp add: ledger_inv_def attempts_increase_def)

lemma insert_instance_inv:
  assumes inv: "launch_inv s" and fresh: "ms_instances_by_key s k = None" "bt_get (ms_instances_by_id s) i = None"
  shows "launch_inv (s\<lparr>ms_instances_by_key := (ms_instances_by_key s)(k \<mapsto> i),
    ms_instances_by_id := bt_insert i \<lparr>ji_id = i, ji_key = k\<rparr> (ms_instances_by_id s),
    ms_job_executions_by_instance := (ms_job_executions_by_instance s)(i \<mapsto> [])\<rparr>)"
proof -
  have empty: "ms_job_executions_by_instance s i = None" using launch_invD(3) [OF inv, of i] fresh by simp
  have keys: "\<not> (\<exists>x. bt_get (ms_instances_by_id s) j = Some x \<and> ji_key x = k)" for j
    using launch_invD(1) [OF inv, of k j] fresh(1) by simp
  have other: "je_job_instance_id e \<noteq> i" if "ms_job_executions s x = Some e" for x e
    using launch_invD(4) [OF inv that] empty by auto
  show ?thesis
    unfolding launch_inv_def using launch_invD [OF inv] keys fresh empty other
    by (auto simp: bt_get_insert)
qed

lemma select_or_create_preserved: "ensures (preserved u) (select_or_create_job_instance i now k u)"
  unfolding select_or_create_job_instance_def Let_def
proof (intro ensures_rules)
  fix x
  assume fresh: "ms_instances_by_key (uw_staged u) k = None" "\<not> bt_contains (ms_instances_by_id (uw_staged u)) x"
  let ?t = "\<lambda>s. s\<lparr>ms_instances_by_key := (ms_instances_by_key s)(k \<mapsto> x),
    ms_instances_by_id := bt_insert x \<lparr>ji_id = x, ji_key = k\<rparr> (ms_instances_by_id s),
    ms_job_executions_by_instance := (ms_job_executions_by_instance s)(x \<mapsto> [])\<rparr>"
  let ?u = "uw_update (\<lambda>s. (register_job_name (jk_job_name k) (s\<lparr>ms_instances_by_key := (ms_instances_by_key s)(k \<mapsto> x),
         ms_instances_by_id := bt_insert x \<lparr>ji_id = x, ji_key = k\<rparr> (ms_instances_by_id s),
         ms_instance_created_at := (ms_instance_created_at s)(x \<mapsto> now)\<rparr>))
      \<lparr>ms_job_executions_by_instance := (ms_job_executions_by_instance (register_job_name (jk_job_name k)
        (s\<lparr>ms_instances_by_key := (ms_instances_by_key s)(k \<mapsto> x),
           ms_instances_by_id := bt_insert x \<lparr>ji_id = x, ji_key = k\<rparr> (ms_instances_by_id s),
           ms_instance_created_at := (ms_instance_created_at s)(x \<mapsto> now)\<rparr>)))(x \<mapsto> [])\<rparr>) u"
  have "core_view (uw_staged ?u) = core_view (?t (uw_staged u))"
    by (simp add: view_defs register_job_name_def)
  then have "core_inv (uw_staged ?u) \<longleftrightarrow> core_inv (?t (uw_staged u))" by (rule core_inv_cong)
  moreover have "core_inv (?t (uw_staged u))" if "core_inv (uw_staged u)"
    using that insert_instance_inv fresh by (simp add: core_inv_def step_inv_def bt_contains_def)
  ultimately show "preserved u ?u" by (simp add: preserved_def)
qed (simp add: preserved_def)


section \<open>Changes of one execution\<close>

lemma ledger_invD:
  assumes "ledger_inv execs attempts latest i ids"
  shows "distinct ids" and "x \<in> set ids \<Longrightarrow> \<exists>e. execs x = Some e \<and> je_job_instance_id e = i"
    and "x \<in> set (butlast ids) \<Longrightarrow> \<exists>s. status_of execs x = Some s \<and> superseded s"
    and "attempts_increase attempts latest ids"
  using assms unfolding ledger_inv_def by blast+

lemma ledger_replaced:
  assumes "ledger_inv execs attempts latest i ids" and "execs x = Some e"
    and "je_job_instance_id e' = je_job_instance_id e"
    and "superseded (em_status (je_metadata e)) \<Longrightarrow> superseded (em_status (je_metadata e'))"
  shows "ledger_inv (execs(x \<mapsto> e')) attempts latest i ids"
  using assms unfolding ledger_inv_def by (auto simp: status_of_def)

lemma execution_replaced:
  assumes inv: "core_inv s" and e: "ms_job_executions s x = Some e"
    and e': "je_id e' = je_id e" "je_job_instance_id e' = je_job_instance_id e" "metadata_wf (je_metadata e')"
    and closed: "superseded (em_status (je_metadata e)) \<Longrightarrow> superseded (em_status (je_metadata e'))"
  shows "core_inv (s\<lparr>ms_job_executions := (ms_job_executions s)(x \<mapsto> e')\<rparr>)"
proof -
  from inv have l: "launch_inv s" and st: "step_inv s" by (simp_all add: core_inv_def)
  have "ledger_inv ((ms_job_executions s)(x \<mapsto> e')) (ms_execution_attempts s)
      (unwrap_or (ms_next_execution_attempt_by_instance s i) 0) i ids"
    if "ms_job_executions_by_instance s i = Some ids" for i ids
    by (rule ledger_replaced [OF launch_invD(5) [OF l that] e e'(2) closed])
  moreover have "je_id e' = x \<and> (\<exists>ids. ms_job_executions_by_instance s (je_job_instance_id e') = Some ids \<and> x \<in> set ids)"
    using launch_invD(4) [OF l e] e' by simp
  ultimately have "launch_inv (s\<lparr>ms_job_executions := (ms_job_executions s)(x \<mapsto> e')\<rparr>)"
    using launch_invD(1-4) [OF l] e'(3) unfolding launch_inv_def by simp
  moreover have "step_inv (s\<lparr>ms_job_executions := (ms_job_executions s)(x \<mapsto> e')\<rparr>)"
    using st unfolding step_inv_def by auto
  ultimately show ?thesis by (simp add: core_inv_def)
qed

lemma superseded_transition:
  "is_legal_in_place_transition a b \<Longrightarrow> superseded a \<Longrightarrow> superseded b"
  by (auto simp: is_legal_in_place_transition_def superseded_def)

lemma job_transition_Ok:
  assumes "job_execution_transition v t e = (Ok w, e')" and "metadata_wf (je_metadata e)"
  shows "je_id e' = je_id e \<and> je_job_instance_id e' = je_job_instance_id e \<and> metadata_wf (je_metadata e')
    \<and> (superseded (em_status (je_metadata e)) \<longrightarrow> superseded (em_status (je_metadata e')))"
proof -
  from assms obtain m where m: "metadata_transition (je_metadata e) t = Ok m" and e': "e' = e\<lparr>je_metadata := m, je_version := w\<rparr>"
    by (auto simp: job_execution_transition_def transition_execution_def split: prod.splits sum.splits)
  from metadata_transition_OkD [OF assms(2) m] show ?thesis by (auto simp: e' dest: superseded_transition)
qed

lemma job_enrich_Ok:
  assumes "job_execution_enrich_exit_status v t e = (Ok w, e')"
  shows "je_id e' = je_id e \<and> je_job_instance_id e' = je_job_instance_id e
    \<and> metadata_wf (je_metadata e') = metadata_wf (je_metadata e)
    \<and> em_status (je_metadata e') = em_status (je_metadata e)"
  using assms by (auto simp: job_execution_enrich_exit_status_def enrich_execution_exit_status_def with_exit_status_def
      metadata_wf_def split: prod.splits sum.splits)


text \<open>An operation whose result differs from the staged state by one replaced execution, up to the views.\<close>

lemma replaced_preserved:
  assumes "ms_job_executions (uw_staged u) x = Some e" and "uw_base_revision u' = uw_base_revision u"
    and "core_view (uw_staged u') = core_view ((uw_staged u)\<lparr>ms_job_executions := (ms_job_executions (uw_staged u))(x \<mapsto> e')\<rparr>)"
    and "metadata_wf (je_metadata e) \<Longrightarrow> je_id e' = je_id e \<and> je_job_instance_id e' = je_job_instance_id e
      \<and> metadata_wf (je_metadata e') \<and> (superseded (em_status (je_metadata e)) \<longrightarrow> superseded (em_status (je_metadata e')))"
  shows "preserved u u'"
proof -
  have "core_inv (uw_staged u')" if inv: "core_inv (uw_staged u)"
  proof -
    from inv have "metadata_wf (je_metadata e)"
      using launch_invD(4) [OF _ assms(1)] by (simp add: core_inv_def)
    from assms(4) [OF this] have "core_inv ((uw_staged u)\<lparr>ms_job_executions := (ms_job_executions (uw_staged u))(x \<mapsto> e')\<rparr>)"
      by (intro execution_replaced [OF inv assms(1)]) simp_all
    then show ?thesis using core_inv_cong [OF assms(3)] by simp
  qed
  then show ?thesis by (simp add: preserved_def assms(2))
qed

lemma transition_job_execution_preserved: "ensures (preserved u) (transition_job_execution x v t u)"
  unfolding transition_job_execution_def
proof (intro ensures_rules)
  fix e r e' w
  assume "ok_or (ms_job_executions (uw_staged u) x) (JobExecutionNotFound x) = Ok e"
    "job_execution_transition v t e = (r, e')" "map_err RepoLifecycle r = Ok w"
  then show "preserved u (uw_update (\<lambda>s. s\<lparr>ms_execution_updated_at := (ms_execution_updated_at s)(x \<mapsto> lt_transitioned_at t)\<rparr>)
      (uw_update (\<lambda>s. s\<lparr>ms_job_executions := (ms_job_executions s)(x \<mapsto> e')\<rparr>) u))"
    by (intro replaced_preserved [where e = e and e' = e']) (auto dest: job_transition_Ok)
qed

lemma enrich_job_exit_status_preserved: "ensures (preserved u) (enrich_job_exit_status x v t u)"
  unfolding enrich_job_exit_status_def
proof (intro ensures_rules)
  fix e r e' w
  assume "ok_or (ms_job_executions (uw_staged u) x) (JobExecutionNotFound x) = Ok e"
    "job_execution_enrich_exit_status v t e = (r, e')" "map_err RepoLifecycle r = Ok w"
  then show "preserved u (uw_update (\<lambda>s. s\<lparr>ms_job_executions := (ms_job_executions s)(x \<mapsto> e')\<rparr>) u)"
    by (intro replaced_preserved [where e = e and e' = e']) (auto dest: job_enrich_Ok)
qed

lemma observe_execution_control_preserved: "ensures (preserved u) (observe_execution_control x w at u)"
  unfolding observe_execution_control_def
proof (intro ensures_rules)
  fix e r e' y
  assume "ok_or (ms_job_executions (uw_staged u) x) (JobExecutionNotFound x) = Ok e"
    "job_execution_transition (je_version e) (lifecycle_transition_new Stopping at) e = (r, e')" "map_err RepoLifecycle r = Ok y"
  then show "preserved u (uw_update (\<lambda>s. s\<lparr>ms_execution_updated_at := (ms_execution_updated_at s)(x \<mapsto> at)\<rparr>)
      (uw_update (\<lambda>s. s\<lparr>ms_job_executions := (ms_job_executions s)(x \<mapsto> e')\<rparr>) u))"
    by (intro replaced_preserved [where e = e and e' = e']) (auto dest: job_transition_Ok)
qed (simp add: preserved_def)

section \<open>Recovery\<close>

lemma recovered_execution_Ok:
  assumes "recovered_execution e r at = Ok e'"
  shows "je_id e' = je_id e \<and> je_job_instance_id e' = je_job_instance_id e \<and> metadata_wf (je_metadata e')
    \<and> \<not> superseded (em_status (je_metadata e))"
  using assms by (auto simp: recovered_execution_def recovered_metadata_def Let_def superseded_def
      execution_metadata_new_Ok_iff execution_timestamps_new_Ok_iff split: if_splits)

lemma recovered_step_identity:
  "recovered_step_execution e r at = Ok (Some e') \<Longrightarrow>
     se_id e' = se_id e \<and> se_job_execution_id e' = se_job_execution_id e"
  by (auto simp: recovered_step_execution_def Let_def split: if_splits)

lemma recover_children_identity:
  "recover_children s r at is = Ok cs \<Longrightarrow> \<forall>c \<in> set cs. \<exists>i e. ms_step_executions s i = Some e
     \<and> se_id c = se_id e \<and> se_job_execution_id c = se_job_execution_id e"
proof (induction "is" arbitrary: cs)
  case (Cons i "is")
  from Cons.prems obtain e child cs' where e: "ms_step_executions s i = Some e"
      and child: "recovered_step_execution e r at = Ok child"
      and cs': "recover_children s r at is = Ok cs'" and cs: "cs = (case child of None \<Rightarrow> cs' | Some c \<Rightarrow> c # cs')"
    by auto
  have c: "\<exists>i e. ms_step_executions s i = Some e \<and> se_id c = se_id e \<and> se_job_execution_id c = se_job_execution_id e"
    if "child = Some c" for c
    using recovered_step_identity [of e r at c] child that e by auto
  from Cons.IH [OF cs'] c show ?case by (cases child) (auto simp: cs)
qed simp

lemma steps_replaced:
  assumes "step_inv s"
    and "\<forall>c \<in> set cs. \<exists>i e. ms_step_executions s i = Some e \<and> se_id c = se_id e \<and> se_job_execution_id c = se_job_execution_id e"
  shows "(\<lambda>i. map_option (\<lambda>e. (se_id e, se_job_execution_id e)) (fold (\<lambda>c m. m(se_id c \<mapsto> c)) cs (ms_step_executions s) i))
    = fst (step_view s)"
proof -
  have step: "fst (step_view s) (se_id c) = Some (se_id c, se_job_execution_id c)" if "c \<in> set cs" for c
    using assms that unfolding step_inv_def step_view_def by force
  have "(\<lambda>i. map_option (\<lambda>e. (se_id e, se_job_execution_id e)) (fold (\<lambda>c m. m(se_id c \<mapsto> c)) ds m i)) = fst (step_view s)"
    if "set ds \<subseteq> set cs" "(\<lambda>i. map_option (\<lambda>e. (se_id e, se_job_execution_id e)) (m i)) = fst (step_view s)" for ds m
    using that
  proof (induction ds arbitrary: m)
    case (Cons d ds)
    have "(\<lambda>i. map_option (\<lambda>e. (se_id e, se_job_execution_id e)) ((m(se_id d \<mapsto> d)) i)) = fst (step_view s)"
      using step [of d] Cons.prems by (auto simp: fun_eq_iff)
    with Cons show ?case by simp
  qed simp
  then show ?thesis by (simp add: step_view_def)
qed


lemma recover_job_execution_preserved: "ensures (preserved u) (recover_job_execution at x r u)"
  unfolding recover_job_execution_def
proof (intro ensures_rules)
  fix e e' cs i and decision :: recovery_decision and b
  assume e: "ok_or (ms_job_executions (uw_staged u) x) (JobExecutionNotFound x) = Ok e"
    and e': "recovered_execution e r at = Ok e'"
    and cs: "recover_children (uw_staged u) r at (steps_of (uw_staged u) x) = Ok cs"
  let ?v = "\<lambda>d. uw_update (\<lambda>s. s\<lparr>ms_job_executions := (ms_job_executions s)(x \<mapsto> e'),
    ms_step_executions := fold (\<lambda>c m. m(se_id c \<mapsto> c)) cs (ms_step_executions s),
    ms_execution_updated_at := (ms_execution_updated_at s)(x \<mapsto> at),
    ms_recovery_decisions := bt_insert x (unwrap_or (bt_get (ms_recovery_decisions s) x) [] @ [d]) (ms_recovery_decisions s)\<rparr>) u"
  have "preserved u (?v d)" for d
  proof (cases "core_inv (uw_staged u)")
    case True
    then have "step_inv (uw_staged u)" by (simp add: core_inv_def)
    from steps_replaced [OF this recover_children_identity [OF cs]]
    have "core_view (uw_staged (?v d)) =
        core_view ((uw_staged u)\<lparr>ms_job_executions := (ms_job_executions (uw_staged u))(x \<mapsto> e')\<rparr>)"
      by (simp add: core_view_def launch_view_def step_view_def)
    with e recovered_execution_Ok [OF e'] show ?thesis
      by (intro replaced_preserved [where e = e and e' = e']) auto
  qed (simp add: preserved_def)
  then show "preserved u (?v \<lparr>rd_id = i, rd_job_execution_id = x, rd_execution_version = rr_expected_version r,
      rd_prior_status = em_status (je_metadata e), rd_resulting_status = em_status (je_metadata e'),
      rd_reason_code = rr_reason_code r, rd_operator_reference = rr_operator_reference r,
      rd_evidence_digest = rr_evidence_digest r, rd_decided_at = at\<rparr>)" .
qed

section \<open>New executions\<close>

lemma attempts_increase_snoc:
  assumes "attempts_increase attempts latest ids" and "checked_add latest 1 = Some a" and "x \<notin> set ids"
  shows "attempts_increase (attempts(x \<mapsto> a)) a (ids @ [x])"
proof -
  obtain as where as: "map attempts ids = map Some as" "sorted_wrt (<) as" "\<forall>b \<in> set as. 0 < b \<and> b \<le> latest"
    using assms(1) unfolding attempts_increase_def by blast
  have "latest < a" using assms(2) checked_add_unat [OF assms(2)] by (simp add: word_less_nat_alt)
  moreover from this have "0 < a" by (metis word_not_simps(1) word_neq_0_conv)
  moreover have "map (attempts(x \<mapsto> a)) (ids @ [x]) = map Some (as @ [a])"
    using as(1) assms(3) by simp
  ultimately show ?thesis unfolding attempts_increase_def using as
    by (intro exI [of _ "as @ [a]"]) (auto simp: sorted_wrt_append)
qed

lemma attempts_increase_other:
  "x \<notin> set ids \<Longrightarrow> attempts_increase (attempts(x \<mapsto> a)) latest ids = attempts_increase attempts latest ids"
  unfolding attempts_increase_def by simp

lemma ledger_fresh:
  assumes "ledger_inv execs attempts latest i ids" and "execs x = None"
  shows "x \<notin> set ids"
  using ledger_invD(2) [OF assms(1), of x] assms(2) by auto

lemma ledger_other:
  assumes "ledger_inv execs attempts latest j ids" and "execs x = None"
  shows "ledger_inv (execs(x \<mapsto> e)) (attempts(x \<mapsto> a)) latest j ids"
proof -
  have x: "x \<notin> set ids" by (rule ledger_fresh [OF assms])
  then have "x \<notin> set (butlast ids)" by (meson in_set_butlastD)
  with x assms show ?thesis unfolding ledger_inv_def
    by (auto simp: attempts_increase_other status_of_def)
qed

lemma ledger_snoc:
  assumes inv: "ledger_inv execs attempts latest i ids" and x: "execs x = None"
    and last: "ids \<noteq> [] \<Longrightarrow> \<exists>l. execs (last ids) = Some l \<and> superseded (em_status (je_metadata l))"
    and "je_job_instance_id e = i" and "checked_add latest 1 = Some a"
  shows "ledger_inv (execs(x \<mapsto> e)) (attempts(x \<mapsto> a)) a i (ids @ [x])"
proof -
  have new: "x \<notin> set ids" by (rule ledger_fresh [OF inv x])
  have "\<exists>s. status_of (execs(x \<mapsto> e)) y = Some s \<and> superseded s" if "y \<in> set ids" for y
  proof (cases "y \<in> set (butlast ids)")
    case True
    then show ?thesis using ledger_invD(3) [OF inv True] new that by (auto simp: status_of_def)
  next
    case False
    with that have "ids \<noteq> []" "y = last ids"
      by (auto simp: in_set_butlast_appendI) (metis append_butlast_last_id in_set_butlast_appendI last_in_set
          list.set_intros(1) set_ConsD empty_iff list.set(1) Un_iff set_append)
    with last that new show ?thesis by (auto simp: status_of_def)
  qed
  moreover have "attempts_increase (attempts(x \<mapsto> a)) a (ids @ [x])"
    by (rule attempts_increase_snoc [OF ledger_invD(4) [OF inv] assms(5) new])
  moreover have "distinct (ids @ [x])" using ledger_invD(1) [OF inv] new by simp
  moreover have "\<forall>y \<in> set (ids @ [x]). \<exists>f. (execs(x \<mapsto> e)) y = Some f \<and> je_job_instance_id f = i"
    using ledger_invD(2) [OF inv] assms(4) by auto
  ultimately show ?thesis unfolding ledger_inv_def by simp
qed


lemma latest_supersedable:
  assumes "latest_job_execution s i = Ok l" and "launch_inv s" and "ms_job_executions_by_instance s i = Some ids"
    and "\<And>e. l = Some e \<Longrightarrow> restart_check s i n d sel e = Ok ()" and "ids \<noteq> []"
  shows "\<exists>e. ms_job_executions s (last ids) = Some e \<and> superseded (em_status (je_metadata e))"
proof -
  have "last ids \<in> set ids" using assms(5) by simp
  from ledger_invD(2) [OF launch_invD(5) [OF assms(2,3)] this] obtain e where e: "ms_job_executions s (last ids) = Some e"
    by blast
  with assms(1,3,5) have "l = Some e" by (simp add: latest_job_execution_def)
  from assms(4) [OF this] have "superseded (em_status (je_metadata e))"
    by (auto simp: restart_check_def Let_def superseded_def split: if_splits)
  with e show ?thesis by blast
qed

lemma starting_metadata_wf: "create_starting_metadata c now = Ok m \<Longrightarrow> metadata_wf m"
  by (auto simp: create_starting_metadata_def execution_metadata_new_Ok_iff execution_timestamps_new_Ok_iff)

text \<open>A new latest execution in the ledger of its instance.\<close>

lemma new_execution_inv:
  assumes inv: "core_inv s" and fresh: "ms_job_executions s x = None"
    and ids: "ms_job_executions_by_instance s i = Some ids"
    and last: "ids \<noteq> [] \<Longrightarrow> \<exists>e. ms_job_executions s (last ids) = Some e \<and> superseded (em_status (je_metadata e))"
    and a: "checked_add (unwrap_or (ms_next_execution_attempt_by_instance s i) 0) 1 = Some a"
    and m: "metadata_wf m"
    and t: "core_view t = core_view (insert_job_execution (job_execution_new x i m) a d s)"
  shows "core_inv (t\<lparr>ms_job_executions_by_instance := (ms_job_executions_by_instance t)(i \<mapsto> ids @ [x])\<rparr>)"
proof -
  let ?e = "job_execution_new x i m"
  let ?s = "(insert_job_execution ?e a d s)\<lparr>ms_job_executions_by_instance :=
    (ms_job_executions_by_instance (insert_job_execution ?e a d s))(i \<mapsto> ids @ [x])\<rparr>"
  from inv have l: "launch_inv s" and st: "step_inv s" by (simp_all add: core_inv_def)
  have e: "je_id ?e = x" "je_job_instance_id ?e = i" "je_metadata ?e = m" by (simp_all add: job_execution_new_def)
  have "ledger_inv ((ms_job_executions s)(x \<mapsto> ?e)) ((ms_execution_attempts s)(x \<mapsto> a)) a i (ids @ [x])"
    by (rule ledger_snoc [OF launch_invD(5) [OF l ids] fresh last e(2) a])
  moreover have "ledger_inv ((ms_job_executions s)(x \<mapsto> ?e)) ((ms_execution_attempts s)(x \<mapsto> a))
      (unwrap_or (ms_next_execution_attempt_by_instance s j) 0) j js"
    if "ms_job_executions_by_instance s j = Some js" for j js
    by (rule ledger_other [OF launch_invD(5) [OF l that] fresh])
  moreover have "bt_get (ms_instances_by_id s) i \<noteq> None" using launch_invD(3) [OF l, of i] ids by simp
  moreover have "y \<in> set ids" if "ms_job_executions s y = Some f" "je_job_instance_id f = i" for y f
    using launch_invD(4) [OF l that(1)] that(2) ids by simp
  ultimately have "launch_inv ?s"
    using launch_invD(1-4) [OF l] ids m unfolding launch_inv_def
    by (auto simp: insert_job_execution_def e split: if_splits)
  moreover have "step_inv ?s" using st by (auto simp: step_inv_def insert_job_execution_def)
  ultimately have "core_inv ?s" by (simp add: core_inv_def)
  moreover have "core_view (t\<lparr>ms_job_executions_by_instance := (ms_job_executions_by_instance t)(i \<mapsto> ids @ [x])\<rparr>)
      = core_view ?s"
    using core_view_fields [OF t] by (simp add: core_view_def launch_view_def step_view_def)
  ultimately show ?thesis using core_inv_cong by blast
qed

lemma create_job_execution_preserved: "ensures (preserved u) (create_job_execution tv fs h new_id now i u)"
  unfolding create_job_execution_def
proof (intro ensures_rules, goal_cases)
  case (1 x s l y seeds scope z a m t' w t ids)
  let ?d = "unwrap_or (uw_definition_override u) (definition_identity_legacy h)"
  let ?new = "insert_job_execution (job_execution_new z i m) a ?d s"
  let ?t = "case and_then l (\<lambda>e. ms_job_parameters s (je_id e)) of
      None \<Rightarrow> t' | Some p \<Rightarrow> t'\<lparr>ms_job_parameters := (ms_job_parameters t')(z \<mapsto> p)\<rparr>"
  have s: "core_view s = core_view (uw_staged u)" using 1(2) by (auto dest: ensure_definition_frame)
  have "core_view t' = core_view ?new" using 1(11) by (auto split: if_splits dest: seed_upgraded_execution_frame)
  moreover have "core_view ?t = core_view t'" by (simp split: option.splits)
  moreover have "core_view t = core_view ?t" using 1(12)
    by (auto split: option.splits if_splits dest!: copy_forward_frame)
  ultimately have t: "core_view t = core_view ?new" by simp
  show ?case
  proof (cases "core_inv (uw_staged u)")
    case True
    then have inv: "core_inv s" using core_inv_cong [OF s] by simp
    then have l: "launch_inv s" by (simp add: core_inv_def)
    have ids: "ms_job_executions_by_instance s i = Some ids"
      using 1(13) core_view_fields(4) [OF t] by (simp add: insert_job_execution_def)
    have "core_inv (t\<lparr>ms_job_executions_by_instance := (ms_job_executions_by_instance t)(i \<mapsto> ids @ [z])\<rparr>)"
    proof (rule new_execution_inv [OF inv _ ids _ _ _ t])
      show "ms_job_executions s z = None" using 1(8) by simp
      show "checked_add (unwrap_or (ms_next_execution_attempt_by_instance s i) 0) 1 = Some a" using 1(9) by simp
      show "metadata_wf m" by (rule starting_metadata_wf [OF 1(10)])
      show "\<exists>e. ms_job_executions s (last ids) = Some e \<and> superseded (em_status (je_metadata e))" if "ids \<noteq> []"
        by (rule latest_supersedable [OF _ l ids _ that]) (use 1(3,4) in auto)
    qed
    then show ?thesis by (simp add: preserved_def)
  qed (simp add: preserved_def)
qed


lemma preserved_override [simp]:
  "preserved (u\<lparr>uw_definition_override := d\<rparr>) v \<longleftrightarrow> preserved u v"
  "preserved (u\<lparr>uw_definition_override := d, uw_upgrade_override := e\<rparr>) v \<longleftrightarrow> preserved u v"
  by (simp_all add: preserved_def)

lemma create_with_definition_preserved:
  "ensures (preserved u) (create_job_execution_with_definition tv fs h new_id now i d u)"
  unfolding create_job_execution_with_definition_def by (rule ensures_weaken [OF create_job_execution_preserved]) simp

lemma create_with_upgrade_preserved:
  "ensures (preserved u) (create_job_execution_with_upgrade tv fs h new_id now i up u)"
  unfolding create_job_execution_with_upgrade_def by (rule ensures_weaken [OF create_job_execution_preserved]) simp

lemma framed_after: "preserved u v \<Longrightarrow> framed v w \<Longrightarrow> preserved u w"
  by (blast intro: preserved_trans framed_preserved)

lemma store_parameters_frame: "ensures (framed u) (store_parameters p e u)"
  by (simp add: store_parameters_def ensures_def)

lemma ensures_then:
  "ensures (preserved u) p \<Longrightarrow> (\<And>x v. ensures (preserved v) (k x v)) \<Longrightarrow> ensures (preserved u) (proceed p k)"
  unfolding ensures_def by (auto intro: preserved_trans)

lemmas store_parameters_preserved = framed_op [OF store_parameters_frame]

lemma create_with_definition_and_parameters_preserved:
  "ensures (preserved u) (create_job_execution_with_definition_and_parameters tv fs h new_id now i d p u)"
  unfolding create_job_execution_with_definition_and_parameters_def
  by (rule ensures_then [OF create_with_definition_preserved store_parameters_preserved])

lemma create_with_upgrade_and_parameters_preserved:
  "ensures (preserved u) (create_job_execution_with_upgrade_and_parameters tv fs h new_id now i up p u)"
  unfolding create_job_execution_with_upgrade_and_parameters_def
  by (rule ensures_then [OF create_with_upgrade_preserved store_parameters_preserved])

section \<open>Nested jobs\<close>

lemma nested_child_execution_preserved:
  "ensures (preserved u) (nested_child_execution tv fs h new_id now i d p u)"
  unfolding nested_child_execution_def Let_def
  by (intro ensures_rules create_with_definition_preserved)
     (simp split: batch_status.split add: create_with_definition_preserved ensures_error ensures_attempt ensures_value preserved_def)

lemma link_preserved: "preserved u (store_nested_job_link l u)"
  by (simp add: framed_preserved)

lemmas nested_preserved = ensures_then select_or_create_preserved nested_child_execution_preserved
  create_with_definition_preserved framed_op [OF store_nested_job_parameters_frame] link_preserved preserved_refl

lemma create_nested_job_link_preserved:
  "ensures (preserved u) (create_nested_job_link tv fs h new_i new_x t1 t2 r u)"
  unfolding create_nested_job_link_def Let_def by (intro ensures_rules nested_preserved)

lemma continue_nested_job_link_preserved:
  "ensures (preserved u) (continue_nested_job_link tv fs h new_id now x n prior at u)"
proof -
  have child: "ensures (preserved u) (case em_status m of
      Completed \<Rightarrow> (Ok e, u)
    | Failed \<Rightarrow> create_job_execution_with_definition tv fs h new_id now i d u
    | Stopped \<Rightarrow> create_job_execution_with_definition tv fs h new_id now i d u
    | Abandoned \<Rightarrow> (Err NestedJobStateCorrupt, u)
    | status \<Rightarrow> (Err (NestedJobChildUnresolved j status), u))" for m e i d j
    by (cases "em_status m") (simp_all add: ensures_error ensures_value preserved_refl create_with_definition_preserved)
  show ?thesis unfolding continue_nested_job_link_def Let_def
    by (intro ensures_rules nested_preserved child)
qed

section \<open>Steps\<close>

lemma step_invD:
  assumes "step_inv s"
  shows "ms_step_executions s i = Some e \<Longrightarrow> se_id e = i \<and> i \<in> set (steps_of s (se_job_execution_id e))"
    and "ms_step_executions_by_job s x = Some ids \<Longrightarrow> ms_job_executions s x \<noteq> None \<and> distinct ids"
    and "ms_step_executions_by_job s x = Some ids \<Longrightarrow> i \<in> set ids \<Longrightarrow> ms_step_logical_ids s i \<noteq> None
      \<and> (\<exists>e. ms_step_executions s i = Some e \<and> se_job_execution_id e = x)"
  using assms unfolding step_inv_def by blast+

lemma step_fresh: "step_inv s \<Longrightarrow> ms_step_executions s i = None \<Longrightarrow> i \<notin> set (steps_of s x)"
  by (cases "ms_step_executions_by_job s x") (auto dest: step_invD(3))

lemma steps_of_distinct: "step_inv s \<Longrightarrow> distinct (steps_of s x)"
  by (cases "ms_step_executions_by_job s x") (auto dest: step_invD(2))

lemma steps_of_owned: "step_inv s \<Longrightarrow> i \<in> set (steps_of s x) \<Longrightarrow> ms_step_logical_ids s i \<noteq> None
      \<and> (\<exists>e. ms_step_executions s i = Some e \<and> se_job_execution_id e = x)"
  by (cases "ms_step_executions_by_job s x") (auto dest: step_invD(3))

definition added_step :: "step_execution \<Rightarrow> node_id \<Rightarrow> memory_state \<Rightarrow> memory_state" where
  "added_step e node s = s\<lparr>ms_step_executions := (ms_step_executions s)(se_id e \<mapsto> e),
     ms_step_logical_ids := (ms_step_logical_ids s)(se_id e \<mapsto> node),
     ms_step_executions_by_job := (ms_step_executions_by_job s)
       (se_job_execution_id e \<mapsto> steps_of s (se_job_execution_id e) @ [se_id e])\<rparr>"

lemma added_step_inv:
  assumes inv: "core_inv s" and fresh: "ms_step_executions s (se_id e) = None"
    and x: "ms_job_executions s (se_job_execution_id e) \<noteq> None"
  shows "core_inv (added_step e node s)"
proof -
  from inv have l: "launch_inv s" and st: "step_inv s" by (simp_all add: core_inv_def)
  have "se_id e \<notin> set ids" if "ms_step_executions_by_job s y = Some ids" for y ids
    using step_fresh [OF st fresh, of y] that by simp
  moreover have "j \<in> set (steps_of s (se_job_execution_id e))"
    if "ms_step_executions s j = Some g" "se_job_execution_id g = se_job_execution_id e" for j g
    using step_invD(1) [OF st that(1)] that(2) by simp
  ultimately have "step_inv (added_step e node s)"
    unfolding step_inv_def added_step_def
    using step_invD(1) [OF st] step_invD(2) [OF st] step_invD(3) [OF st]
      steps_of_distinct [OF st] steps_of_owned [OF st] step_fresh [OF st fresh] x fresh
    by (auto split: if_splits)
  moreover have "launch_inv (added_step e node s)" using l by (simp add: launch_inv_def added_step_def)
  ultimately show ?thesis by (simp add: core_inv_def)
qed

text \<open>What creating a step does to the views, and what it checked first.\<close>

definition step_created ::
  "job_execution_id \<Rightarrow> step_name \<Rightarrow> node_id \<Rightarrow> start_limit \<Rightarrow> unit_of_work \<Rightarrow> unit_of_work \<Rightarrow> bool" where
  "step_created x name node limit u u' \<longleftrightarrow>
     uw_base_revision u' = uw_base_revision u \<and>
     (\<exists>inst i m. instance_for_execution (uw_staged u) x = Ok inst \<and> historical_starts (uw_staged u) inst node < unat limit
        \<and> ms_step_executions (uw_staged u) i = None
        \<and> core_view (uw_staged u') = core_view (added_step (step_execution_new i x name m) node (uw_staged u)))"

lemma create_flow_step_view:
  "ensures (step_created x name node limit u) (create_flow_step_execution new_id now x name node limit u)"
  unfolding create_flow_step_execution_def
proof (intro ensures_rules, goal_cases)
  case (1 inst i prior m w t' y t)
  let ?s = "uw_staged u"
  let ?e = "step_execution_new i x name m"
  let ?c = "option_or (and_then (bt_get (ms_upgrade_seeds ?s) (x, node)) mus_context) (and_then prior fss_context)"
  have "core_view t' = core_view (insert_step_execution ?e node ?c ?s)" using 1(7) by (auto dest: seed_step_frame)
  moreover have "core_view t = core_view t'" using 1(8) by (auto split: option.splits dest: copy_forward_frame)
  ultimately have t: "core_view t = core_view (insert_step_execution ?e node ?c ?s)" by simp
  have e: "se_id ?e = i" "se_job_execution_id ?e = x" by (simp_all add: step_execution_new_def)
  have "core_view (t\<lparr>ms_step_executions_by_job := (ms_step_executions_by_job t)(x \<mapsto> steps_of t x @ [i])\<rparr>)
      = core_view (added_step ?e node ?s)"
    using core_view_fields [OF t]
    by (auto simp: insert_step_execution_def added_step_def Let_def core_view_def launch_view_def step_view_def e
        split: option.splits)
  moreover have "historical_starts ?s inst node < unat limit" "ms_step_executions ?s i = None" using 1(2,4) by simp_all
  ultimately show ?case unfolding step_created_def using 1(1) by auto
qed

lemma create_flow_step_execution_preserved:
  "ensures (preserved u) (create_flow_step_execution new_id now x name node limit u)"
proof (rule ensures_weaken [OF create_flow_step_view])
  fix u' assume "step_created x name node limit u u'"
  then obtain inst i m where b: "uw_base_revision u' = uw_base_revision u"
      and x: "instance_for_execution (uw_staged u) x = Ok inst" and i: "ms_step_executions (uw_staged u) i = None"
      and v: "core_view (uw_staged u') = core_view (added_step (step_execution_new i x name m) node (uw_staged u))"
    unfolding step_created_def by blast
  from x i have "core_inv (added_step (step_execution_new i x name m) node (uw_staged u))" if "core_inv (uw_staged u)"
    by (intro added_step_inv [OF that]) (auto simp: step_execution_new_def instance_for_execution_def)
  then show "preserved u u'" using core_inv_cong [OF v] b by (simp add: preserved_def)
qed

lemma create_step_execution_preserved: "ensures (preserved u) (create_step_execution new_id now x name u)"
  unfolding create_step_execution_def by (intro ensures_rules create_flow_step_execution_preserved)


section \<open>Purging\<close>

lemma remove_operator_request_frame: "core_view (remove_operator_request i s) = core_view s"
  by (simp add: remove_operator_request_def split: option.splits)

lemma fold_remove_step:
  "ms_step_executions (fold remove_step_execution is s) = (\<lambda>i. if i \<in> set is then None else ms_step_executions s i)"
  "ms_step_logical_ids (fold remove_step_execution is s) = (\<lambda>i. if i \<in> set is then None else ms_step_logical_ids s i)"
  "ms_step_executions_by_job (fold remove_step_execution is s) = ms_step_executions_by_job s"
  "launch_view (fold remove_step_execution is s) = launch_view s"
  by (induction "is" arbitrary: s) (auto simp: remove_step_execution_def launch_view_def fun_eq_iff)

definition purge_core :: "purge_candidate \<Rightarrow> memory_state \<Rightarrow> memory_state" where
  "purge_core = (\<lambda>(i, x, v) s. s\<lparr>
     ms_job_executions := (ms_job_executions s)(x := None),
     ms_execution_attempts := (ms_execution_attempts s)(x := None),
     ms_job_executions_by_instance := (case ms_job_executions_by_instance s i of
        None \<Rightarrow> ms_job_executions_by_instance s
      | Some ids \<Rightarrow> (ms_job_executions_by_instance s)(i \<mapsto> filter (\<lambda>y. y \<noteq> x) ids)),
     ms_step_executions_by_job := (ms_step_executions_by_job s)(x := None),
     ms_step_executions := (\<lambda>j. if j \<in> set (steps_of s x) then None else ms_step_executions s j),
     ms_step_logical_ids := (\<lambda>j. if j \<in> set (steps_of s x) then None else ms_step_logical_ids s j)\<rparr>)"

lemma purge_core_cong:
  assumes "core_view t = core_view s" shows "core_view (purge_core c t) = core_view (purge_core c s)"
proof -
  obtain i x v where c: "c = (i, x, v)" by (metis prod_cases3)
  note f = core_view_fields [OF assms]
  have "map_option (\<lambda>e. (se_id e, se_job_execution_id e)) (ms_step_executions t j)
      = map_option (\<lambda>e. (se_id e, se_job_execution_id e)) (ms_step_executions s j)" for j
    using f(7) by (simp add: step_view_def fun_eq_iff)
  then have "(\<lambda>j. map_option (\<lambda>e. (se_id e, se_job_execution_id e)) (if j \<in> A then None else ms_step_executions t j))
      = (\<lambda>j. map_option (\<lambda>e. (se_id e, se_job_execution_id e)) (if j \<in> A then None else ms_step_executions s j))" for A
    by (simp add: fun_eq_iff)
  then show ?thesis by (simp add: c purge_core_def core_view_def step_view_def launch_view_def f cong: if_cong option.case_cong)
qed

lemma purge_steps_core:
  "core_view ((fold remove_step_execution (steps_of s x) (s\<lparr>ms_step_executions_by_job := (ms_step_executions_by_job s)(x := None)\<rparr>))
     \<lparr>ms_job_executions := (ms_job_executions s)(x := None), ms_execution_attempts := (ms_execution_attempts s)(x := None),
      ms_job_executions_by_instance := (case ms_job_executions_by_instance s i of
        None \<Rightarrow> ms_job_executions_by_instance s
      | Some ids \<Rightarrow> (ms_job_executions_by_instance s)(i \<mapsto> filter (\<lambda>y. y \<noteq> x) ids))\<rparr>)
   = core_view (purge_core (i, x, v) s)"
  using fold_remove_step(4) [of "steps_of s x" "s\<lparr>ms_step_executions_by_job := (ms_step_executions_by_job s)(x := None)\<rparr>"]
  by (simp add: purge_core_def core_view_def step_view_def launch_view_def fold_remove_step cong: if_cong option.case_cong)

lemma purge_candidate_core: "core_view (purge_candidate_apply c s) = core_view (purge_core c s)"
proof -
  obtain i x v where c: "c = (i, x, v)" by (metis prod_cases3)
  define s1 where "s1 = s\<lparr>ms_flow_decisions := fold bt_remove (unwrap_or (ms_flow_decisions_by_job s x) []) (ms_flow_decisions s),
    ms_flow_decisions_by_job := (ms_flow_decisions_by_job s)(x := None), ms_recovery_decisions := bt_remove x (ms_recovery_decisions s)\<rparr>"
  define t where "t = fold remove_operator_request
    (map fst (filter (\<lambda>(i, r). ord_job_execution_id r = Some x) (ms_operator_requests s1))) s1"
  define w where "w = fold remove_step_execution (steps_of t x) (t\<lparr>ms_step_executions_by_job := (ms_step_executions_by_job t)(x := None)\<rparr>)"
  have t: "core_view t = core_view s"
    by (simp add: t_def s1_def fold_keeps [where v = core_view, OF remove_operator_request_frame])
  have lw: "launch_view w = launch_view t"
    unfolding w_def fold_remove_step(4) by (simp add: launch_view_def)
  have "core_view (purge_candidate_apply c s) = core_view (w
     \<lparr>ms_job_executions := (ms_job_executions t)(x := None), ms_execution_attempts := (ms_execution_attempts t)(x := None),
      ms_job_executions_by_instance := (case ms_job_executions_by_instance t i of
        None \<Rightarrow> ms_job_executions_by_instance t
      | Some ids \<Rightarrow> (ms_job_executions_by_instance t)(i \<mapsto> filter (\<lambda>y. y \<noteq> x) ids))\<rparr>)"
    unfolding c purge_candidate_apply_def Let_def prod.case s1_def [symmetric] t_def [symmetric] w_def [symmetric]
    using lw by (simp add: core_view_def step_view_def launch_view_def cong: option.case_cong)
  also have "\<dots> = core_view (purge_core c t)" unfolding w_def c by (rule purge_steps_core)
  finally show ?thesis using purge_core_cong [OF t] by simp
qed


lemma set_butlast_filter: "set (butlast (filter P xs)) \<subseteq> set (butlast xs)"
proof (induction xs rule: rev_induct)
  case (snoc x xs)
  then show ?case by (auto dest: in_set_butlastD)
qed simp

lemma sorted_wrt_subseq: "subseq bs as \<Longrightarrow> sorted_wrt R as \<Longrightarrow> sorted_wrt R bs \<and> set bs \<subseteq> set as"
  by (induction rule: list_emb.induct) auto

lemma attempts_increase_filter:
  assumes "attempts_increase attempts latest ids"
  shows "attempts_increase (attempts(x := None)) latest (filter (\<lambda>y. y \<noteq> x) ids)"
proof -
  obtain as where as: "map attempts ids = map Some as" "sorted_wrt (<) as" "\<forall>b \<in> set as. 0 < b \<and> b \<le> latest"
    using assms unfolding attempts_increase_def by blast
  have "\<exists>bs. map (attempts(x := None)) (filter (\<lambda>y. y \<noteq> x) ids) = map Some bs \<and> subseq bs as" if "map attempts ids = map Some as" for as
    using that
  proof (induction ids arbitrary: as)
    case (Cons y ys)
    then obtain b cs where as: "as = b # cs" "attempts y = Some b" "map attempts ys = map Some cs" by auto
    from Cons.IH [OF as(3)] obtain bs where bs: "map (attempts(x := None)) (filter (\<lambda>y. y \<noteq> x) ys) = map Some bs" "subseq bs cs"
      by blast
    show ?case
    proof (cases "y = x")
      case True
      then have skip: "filter (\<lambda>y. y \<noteq> x) (y # ys) = filter (\<lambda>y. y \<noteq> x) ys" by simp
      have "subseq bs as" unfolding as(1) by (rule list_emb_Cons [OF bs(2)])
      with bs(1) show ?thesis unfolding skip by (intro exI [of _ bs] conjI)
    next
      case False
      then have "map (attempts(x := None)) (filter (\<lambda>y. y \<noteq> x) (y # ys)) = map Some (b # bs)" using bs(1) as(2) by simp
      moreover have "subseq (b # bs) as" using bs(2) as(1) by simp
      ultimately show ?thesis by blast
    qed
  qed simp
  from this [OF as(1)] obtain bs where bs: "map (attempts(x := None)) (filter (\<lambda>y. y \<noteq> x) ids) = map Some bs" "subseq bs as"
    by blast
  moreover have "set bs \<subseteq> set as" "sorted_wrt (<) bs" using sorted_wrt_subseq [OF bs(2) as(2)] by simp_all
  ultimately show ?thesis unfolding attempts_increase_def using as(3) by (intro exI [of _ bs]) auto
qed

lemma ledger_removed:
  assumes "ledger_inv execs attempts latest i ids"
  shows "ledger_inv (execs(x := None)) (attempts(x := None)) latest i (filter (\<lambda>y. y \<noteq> x) ids)"
proof -
  have "\<exists>s. status_of (execs(x := None)) y = Some s \<and> superseded s" if "y \<in> set (butlast (filter (\<lambda>y. y \<noteq> x) ids))" for y
  proof -
    from that have "y \<in> set (butlast ids)" using set_butlast_filter by fast
    moreover from that have "y \<noteq> x" by (auto dest: in_set_butlastD)
    ultimately show ?thesis using ledger_invD(3) [OF assms] by (auto simp: status_of_def)
  qed
  then show ?thesis using assms attempts_increase_filter unfolding ledger_inv_def by auto
qed

lemma filter_absent: "x \<notin> set ids \<Longrightarrow> filter (\<lambda>y. y \<noteq> x) ids = ids"
  by (induction ids) auto

text \<open>A candidate names its execution under the instance that owns it.\<close>

definition candidate_owned :: "memory_state \<Rightarrow> purge_candidate \<Rightarrow> bool" where
  "candidate_owned s = (\<lambda>(i, x, v). \<forall>e. ms_job_executions s x = Some e \<longrightarrow> je_job_instance_id e = i)"

lemma purge_core_inv:
  assumes inv: "core_inv s" and owned: "candidate_owned s (i, x, v)"
  shows "core_inv (purge_core (i, x, v) s)"
proof -
  let ?t = "purge_core (i, x, v) s"
  from inv have l: "launch_inv s" and st: "step_inv s" by (simp_all add: core_inv_def)
  have absent: "x \<notin> set ids" if "ms_job_executions_by_instance s j = Some ids" "j \<noteq> i" for j ids
    using ledger_invD(2) [OF launch_invD(5) [OF l that(1)], of x] owned that(2) by (auto simp: candidate_owned_def)
  have lists: "ms_job_executions_by_instance ?t = (\<lambda>j. map_option (filter (\<lambda>y. y \<noteq> x)) (ms_job_executions_by_instance s j))"
  proof
    fix j
    show "ms_job_executions_by_instance ?t j = map_option (filter (\<lambda>y. y \<noteq> x)) (ms_job_executions_by_instance s j)"
      using absent by (cases "j = i"; cases "ms_job_executions_by_instance s j"; cases "ms_job_executions_by_instance s i")
        (simp_all add: purge_core_def filter_absent)
  qed
  have f: "ms_job_executions ?t = (ms_job_executions s)(x := None)" "ms_execution_attempts ?t = (ms_execution_attempts s)(x := None)"
      "ms_instances_by_key ?t = ms_instances_by_key s" "ms_instances_by_id ?t = ms_instances_by_id s"
      "ms_next_execution_attempt_by_instance ?t = ms_next_execution_attempt_by_instance s"
    by (simp_all add: purge_core_def)
  have "ledger_inv (ms_job_executions ?t) (ms_execution_attempts ?t)
      (unwrap_or (ms_next_execution_attempt_by_instance ?t j) 0) j ids"
    if "ms_job_executions_by_instance ?t j = Some ids" for j ids
    using that launch_invD(5) [OF l] unfolding f lists by (auto intro: ledger_removed)
  moreover have "je_id e = y \<and> metadata_wf (je_metadata e)
      \<and> (\<exists>ids. ms_job_executions_by_instance ?t (je_job_instance_id e) = Some ids \<and> y \<in> set ids)"
    if "ms_job_executions ?t y = Some e" for y e
    using that launch_invD(4) [OF l, of y e] unfolding f lists by (auto split: if_splits)
  ultimately have "launch_inv ?t"
    using launch_invD(1-3) [OF l] unfolding launch_inv_def f(3,4) lists by simp
  moreover have "step_inv ?t"
    unfolding step_inv_def
  proof (intro conjI allI impI ballI)
    fix j e
    assume j: "ms_step_executions ?t j = Some e"
    then have e: "ms_step_executions s j = Some e" "j \<notin> set (steps_of s x)" by (auto simp: purge_core_def split: if_splits)
    from step_invD(1) [OF st e(1)] e(2) show "se_id e = j" "j \<in> set (steps_of ?t (se_job_execution_id e))"
      by (auto simp: purge_core_def)
  next
    fix y ids
    assume "ms_step_executions_by_job ?t y = Some ids"
    then have y: "ms_step_executions_by_job s y = Some ids" "y \<noteq> x" by (auto simp: purge_core_def split: if_splits)
    from step_invD(2) [OF st y(1)] y(2) show "ms_job_executions ?t y \<noteq> None" "distinct ids" by (simp_all add: f)
    fix j assume j: "j \<in> set ids"
    from step_invD(3) [OF st y(1) j] steps_of_owned [OF st, of j x] y(2) have "j \<notin> set (steps_of s x)" by auto
    with step_invD(3) [OF st y(1) j] show "ms_step_logical_ids ?t j \<noteq> None"
      "\<exists>e. ms_step_executions ?t j = Some e \<and> se_job_execution_id e = y"
      by (auto simp: purge_core_def)
  qed
  ultimately show ?thesis by (simp add: core_inv_def)
qed


lemma candidate_owned_purge: "candidate_owned s c \<Longrightarrow> candidate_owned (purge_candidate_apply d s) c"
  using core_view_fields(3) [OF purge_candidate_core [of d s]]
  by (cases c; cases d) (simp add: candidate_owned_def purge_core_def)

lemma purge_candidates_inv:
  "core_inv s \<Longrightarrow> \<forall>c \<in> set cs. candidate_owned s c \<Longrightarrow> core_inv (fold purge_candidate_apply cs s)"
proof (induction cs arbitrary: s)
  case (Cons c cs)
  obtain i x v where c: "c = (i, x, v)" by (metis prod_cases3)
  have "core_inv (purge_core c s)" using purge_core_inv [of s i x v] Cons.prems c by simp
  then have "core_inv (purge_candidate_apply c s)" using core_inv_cong [OF purge_candidate_core] by simp
  then show ?case using Cons by (simp add: candidate_owned_purge)
qed simp

lemma purge_instance_inv:
  assumes inv: "core_inv s" shows "core_inv (purge_instance_apply i s)"
proof (cases "ms_job_executions_by_instance s i = Some [] \<and> bt_get (ms_instances_by_id s) i \<noteq> None")
  case True
  then obtain inst where i: "ms_job_executions_by_instance s i = Some []" "bt_get (ms_instances_by_id s) i = Some inst" by auto
  from inv have l: "launch_inv s" and st: "step_inv s" by (simp_all add: core_inv_def)
  have other: "je_job_instance_id e \<noteq> i" if "ms_job_executions s x = Some e" for x e
    using launch_invD(4) [OF l that] i(1) by auto
  have key: "ms_instances_by_key s k = Some i \<longleftrightarrow> k = ji_key inst" for k
    using launch_invD(1) [OF l, of k i] i(2) by auto
  have keys: "j = i" if "bt_get (ms_instances_by_id s) j = Some x" "ji_key x = ji_key inst" for j x
    using key [of "ji_key inst"] launch_invD(1) [OF l, of "ji_key inst" j] that by auto
  let ?t = "purge_instance_apply i s"
  have f: "ms_instances_by_key ?t = (ms_instances_by_key s)(ji_key inst := None)"
      "\<And>j. bt_get (ms_instances_by_id ?t) j = (if j = i then None else bt_get (ms_instances_by_id s) j)"
      "ms_job_executions_by_instance ?t = (ms_job_executions_by_instance s)(i := None)"
      "ms_job_executions ?t = ms_job_executions s" "ms_execution_attempts ?t = ms_execution_attempts s"
      "ms_next_execution_attempt_by_instance ?t = (ms_next_execution_attempt_by_instance s)(i := None)"
    using i by (simp_all add: purge_instance_apply_def bt_get_remove)
  have "ms_instances_by_key ?t k = Some j \<longleftrightarrow> (\<exists>x. bt_get (ms_instances_by_id ?t) j = Some x \<and> ji_key x = k)" for k j
    unfolding f using launch_invD(1) [OF l, of k j] key [of k] keys [of j] by auto
  moreover have "ms_job_executions_by_instance ?t j \<noteq> None \<longleftrightarrow> bt_get (ms_instances_by_id ?t) j \<noteq> None" for j
    unfolding f using launch_invD(3) [OF l, of j] by simp
  moreover have "bt_get (ms_instances_by_id ?t) j = Some x \<Longrightarrow> ji_id x = j" for j x
    unfolding f using launch_invD(2) [OF l, of j x] by (simp split: if_splits)
  moreover have "je_id e = y \<and> metadata_wf (je_metadata e)
      \<and> (\<exists>ids. ms_job_executions_by_instance ?t (je_job_instance_id e) = Some ids \<and> y \<in> set ids)"
    if "ms_job_executions ?t y = Some e" for y e
    using that launch_invD(4) [OF l, of y e] other [of y e] unfolding f by simp
  moreover have "ledger_inv (ms_job_executions ?t) (ms_execution_attempts ?t)
      (unwrap_or (ms_next_execution_attempt_by_instance ?t j) 0) j ids"
    if "ms_job_executions_by_instance ?t j = Some ids" for j ids
    using that launch_invD(5) [OF l, of j ids] unfolding f by (simp split: if_splits)
  ultimately have "launch_inv ?t" unfolding launch_inv_def by blast
  moreover have "step_inv (purge_instance_apply i s)"
    using st i by (simp add: step_inv_def purge_instance_apply_def)
  ultimately show ?thesis by (simp add: core_inv_def)
next
  case False
  then have "purge_instance_apply i s = s" by (auto simp: purge_instance_apply_def split: option.splits)
  with inv show ?thesis by simp
qed

lemma purge_instances_inv: "core_inv s \<Longrightarrow> core_inv (fold purge_instance_apply is s)"
  by (induction "is" arbitrary: s) (simp_all add: purge_instance_inv)

lemma apply_purge_preserved:
  assumes "\<forall>c \<in> set (pp_candidates plan). candidate_owned (uw_staged u) c"
  shows "ensures (preserved u) (apply_purge plan u)"
  unfolding apply_purge_def Let_def
  by (intro ensures_rules) (simp add: preserved_def purge_instances_inv purge_candidates_inv assms)


section \<open>Every operation keeps the invariant\<close>

text \<open>
  The candidates of a purge plan come from a survey, which lists each execution under its own instance.
  A client that applied a plan naming another instance would leave a ledger with a missing execution, so
  the system below runs such a plan as a failing operation.
\<close>

fun plan_owned :: "repository_op \<Rightarrow> unit_of_work \<Rightarrow> bool" where
  "plan_owned (ApplyPurge plan) u = list_all (candidate_owned (uw_staged u)) (pp_candidates plan)"
| "plan_owned _ u = True"

definition client_op where
  "client_op tv fs h x u = (if plan_owned x u then run_op tv fs h x u else (Err RetentionPlanStale, u))"

lemma ensures_discard: "ensures P p \<Longrightarrow> ensures P (discard p)"
  by (auto simp: ensures_def)

lemmas preserving = select_or_create_preserved create_job_execution_preserved create_with_definition_preserved
  create_with_upgrade_preserved create_with_definition_and_parameters_preserved
  create_with_upgrade_and_parameters_preserved create_step_execution_preserved create_flow_step_execution_preserved
  transition_job_execution_preserved enrich_job_exit_status_preserved create_nested_job_link_preserved
  continue_nested_job_link_preserved recover_job_execution_preserved observe_execution_control_preserved
  frames [THEN framed_op]

lemma client_op_preserved: "ensures (preserved u) (client_op tv fs h x u)"
proof (cases "plan_owned x u")
  case True
  then have "ensures (preserved u) (run_op tv fs h x u)"
  proof (cases x)
    case (ApplyPurge plan)
    with True show ?thesis by (simp add: ensures_discard apply_purge_preserved list_all_iff)
  qed (simp_all add: ensures_discard preserving)
  with True show ?thesis by (simp add: client_op_def)
qed (simp add: client_op_def ensures_error)

lemma memory_commit_cases:
  assumes "memory_commit u r = (res, r')"
  obtains (rejected) "r' = r" "res = Err ConcurrentModification"
  | (installed) w where "uw_base_revision u = ms_revision (mr_state r)" "checked_add (ms_revision (mr_state r)) 1 = Some w"
      "mr_state r' = (uw_staged u)\<lparr>ms_revision := w\<rparr>" "res = Ok () \<or> res = Err CommitOutcomeUnknown"
proof (cases "ms_revision (mr_state r) = uw_base_revision u")
  case same: True
  show ?thesis
  proof (cases "checked_add (ms_revision (mr_state r)) 1")
    case None
    with same assms show ?thesis by (intro rejected) (auto simp: memory_commit_def)
  next
    case (Some w)
    have "mr_state r' = (uw_staged u)\<lparr>ms_revision := w\<rparr>" "res = Ok () \<or> res = Err CommitOutcomeUnknown"
      using same assms Some by (auto simp: memory_commit_def Let_def split: if_splits)
    with same Some show ?thesis by (intro installed) simp_all
  qed
qed (use assms in \<open>auto simp: memory_commit_def intro: rejected\<close>)

interpretation memory_store: revision_store memory_begin "client_op tv fs h" memory_commit
  "\<lambda>r. ms_revision (mr_state r)" uw_base_revision for tv fs h
proof
  fix r show "uw_base_revision (memory_begin r) = ms_revision (mr_state r)" by (simp add: memory_begin_def)
next
  fix x u u' assume "client_op tv fs h x u = (Ok (), u')"
  with ensuresD [OF client_op_preserved] show "uw_base_revision u' = uw_base_revision u" by (simp add: preserved_def)
next
  fix u r res r' assume "memory_commit u r = (res, r')"
  then show "r' = r \<or> uw_base_revision u = ms_revision (mr_state r) \<and> ms_revision (mr_state r) < ms_revision (mr_state r')"
  proof (cases rule: memory_commit_cases)
    case (installed w)
    then show ?thesis using checked_add_unat [OF installed(2)] by (simp add: word_less_nat_alt)
  qed simp
qed

end
