(* ===== verification/Memory_Properties.thy ===== *)
theory Memory_Properties
  imports Memory_Invariant
begin

text \<open>
  What the reference repository guarantees: units of work are serializable, an instance key has one
  instance whose ledger has at most one unresolved execution, step attempts stay within their start
  limit, a purge removes finished and unheld executions only, and recovery resolves an execution once.
\<close>

section \<open>The repository a process starts with\<close>

definition memory_state_default :: memory_state where
  "memory_state_default =
     \<lparr>ms_revision = 0, ms_instances_by_key = Map.empty, ms_instances_by_id = [], ms_job_executions = Map.empty,
      ms_job_executions_by_instance = Map.empty, ms_execution_attempts = Map.empty,
      ms_next_execution_attempt_by_instance = Map.empty, ms_job_parameters = Map.empty,
      ms_scope_resolution_provenance = [], ms_scope_explorer_order = [], ms_nested_job_links = Map.empty,
      ms_nested_job_links_by_instance = Map.empty, ms_step_executions = Map.empty,
      ms_step_executions_by_job = Map.empty, ms_step_logical_ids = Map.empty, ms_step_contexts = Map.empty,
      ms_step_partitions = [], ms_step_partitions_by_step = Map.empty, ms_flow_decisions = [],
      ms_flow_decisions_by_job = Map.empty, ms_repeat_executions = [], ms_recovery_decisions = [],
      ms_definitions = Map.empty, ms_definition_registry = Map.empty, ms_definition_explorer_order = [],
      ms_execution_definitions = Map.empty, ms_definition_upgrades = Map.empty, ms_fork_lineages = [],
      ms_fork_job_contexts = Map.empty, ms_upgrade_sources = Map.empty, ms_upgrade_seeds = [],
      ms_job_name_order = [], ms_instance_created_at = Map.empty, ms_execution_updated_at = Map.empty,
      ms_holds = Map.empty, ms_stop_requests = Map.empty, ms_owner_tokens = Map.empty,
      ms_operator_requests = [], ms_operator_request_keys = Map.empty, ms_retention_actions = [],
      ms_retention_action_keys = Map.empty\<rparr>"

definition memory_repository_new :: memory_repository where
  "memory_repository_new = \<lparr>mr_state = memory_state_default, mr_fail_next_partition_aggregate_commit = False,
     mr_fail_next_repeat_commit = False, mr_fail_next_fork_commit = False\<rparr>"

lemma default_inv: "core_inv memory_state_default"
  by (simp add: core_inv_def launch_inv_def step_inv_def memory_state_default_def)

section \<open>Every reachable repository satisfies the invariant\<close>

lemma unit_keeps_inv:
  assumes inv: "core_inv (mr_state r)" and run: "run_all (client_op tv fs h) xs (memory_begin r) = (Ok (), u)"
    and commit: "memory_commit u r = (res, r')"
  shows "core_inv (mr_state r')"
proof -
  have "core_inv (uw_staged u)"
    using run by (rule run_all_invariant [where J = "\<lambda>u. core_inv (uw_staged u)"])
      (use inv in \<open>auto simp: memory_begin_def preserved_def dest: ensuresD [OF client_op_preserved]\<close>)
  with commit inv show ?thesis
  proof (cases rule: memory_commit_cases)
    case (installed w)
    then show ?thesis using \<open>core_inv (uw_staged u)\<close> core_inv_cong [of "(uw_staged u)\<lparr>ms_revision := w\<rparr>" "uw_staged u"] by simp
  qed simp
qed

lemma reachable_inv:
  assumes "interleaved memory_begin (client_op tv fs h) memory_commit memory_repository_new r us"
  shows "core_inv (mr_state r)"
  using memory_store.interleaved_serial [OF assms]
  by (rule serial_invariant) (auto simp: memory_repository_new_def default_inv dest: unit_keeps_inv)

lemma open_unit_inv:
  assumes "interleaved memory_begin (client_op tv fs h) memory_commit memory_repository_new r us"
  shows "us n = Some u \<Longrightarrow> core_inv (uw_staged u)"
  using assms
proof (induction arbitrary: n u rule: interleaved.induct)
  case (begins r us m)
  then show ?case using reachable_inv [OF begins(1)] by (auto simp: memory_begin_def split: if_splits)
next
  case (operates r us m v x v')
  then show ?case using ensuresD [OF client_op_preserved operates(3)] by (auto simp: preserved_def split: if_splits)
qed (auto split: if_splits)

lemma ledger_members:
  assumes "launch_inv s" and "ms_job_executions_by_instance s i = Some ids"
  shows "x \<in> set ids \<longleftrightarrow> (\<exists>e. ms_job_executions s x = Some e \<and> je_job_instance_id e = i)"
  using ledger_invD(2) [OF launch_invD(5) [OF assms]] launch_invD(4) [OF assms(1)] assms(2) by fastforce

lemma unresolved_is_last:
  assumes l: "launch_inv s" and ids: "ms_job_executions_by_instance s i = Some ids"
    and x: "ms_job_executions s x = Some e" "je_job_instance_id e = i" "\<not> superseded (em_status (je_metadata e))"
  shows "x = last ids"
proof -
  have "x \<in> set ids" using ledger_members [OF l ids] x by blast
  moreover have "x \<notin> set (butlast ids)"
    using ledger_invD(3) [OF launch_invD(5) [OF l ids], of x] x by (auto simp: status_of_def)
  ultimately show ?thesis
    by (metis append_butlast_last_id empty_iff in_set_conv_decomp list.set(1) set_append Un_iff set_ConsD)
qed

section \<open>Properties\<close>

text \<open>
  C2. One open execution per instance.  Whatever units of work run against the repository, in whatever
  interleaving, with failures, roll-backs and lost commits: an instance key names exactly one instance;
  the ledger of an instance lists exactly its executions, each once, with consistent metadata and
  strictly increasing attempt numbers; every execution but the latest is stopped, failed or abandoned;
  and two unresolved or completed executions of the same instance are the same execution.
\<close>

theorem one_open_execution:
  assumes "interleaved memory_begin (client_op tv fs h) memory_commit memory_repository_new r us"
  shows "(\<forall>k i. ms_instances_by_key (mr_state r) k = Some i \<longleftrightarrow>
              (\<exists>x. bt_get (ms_instances_by_id (mr_state r)) i = Some x \<and> ji_key x = k))
    \<and> (\<forall>i ids. ms_job_executions_by_instance (mr_state r) i = Some ids \<longrightarrow>
         distinct ids
         \<and> (\<forall>x. x \<in> set ids \<longleftrightarrow> (\<exists>e. ms_job_executions (mr_state r) x = Some e \<and> je_job_instance_id e = i))
         \<and> (\<forall>x \<in> set (butlast ids). \<exists>e. ms_job_executions (mr_state r) x = Some e
               \<and> em_status (je_metadata e) \<in> {Stopped, Failed, Abandoned})
         \<and> (\<exists>as. map (ms_execution_attempts (mr_state r)) ids = map Some as \<and> sorted_wrt (<) as))
    \<and> (\<forall>x e. ms_job_executions (mr_state r) x = Some e \<longrightarrow> metadata_wf (je_metadata e)
         \<and> ms_job_executions_by_instance (mr_state r) (je_job_instance_id e) \<noteq> None)
    \<and> (\<forall>x y e f. ms_job_executions (mr_state r) x = Some e \<longrightarrow> ms_job_executions (mr_state r) y = Some f \<longrightarrow>
         je_job_instance_id e = je_job_instance_id f \<longrightarrow>
         em_status (je_metadata e) \<notin> {Stopped, Failed, Abandoned} \<longrightarrow>
         em_status (je_metadata f) \<notin> {Stopped, Failed, Abandoned} \<longrightarrow> x = y)"
proof (intro conjI allI impI ballI)
  have l: "launch_inv (mr_state r)" using reachable_inv [OF assms] by (simp add: core_inv_def)
  note inv = launch_invD [OF l]
  show "ms_instances_by_key (mr_state r) k = Some i \<longleftrightarrow>
      (\<exists>x. bt_get (ms_instances_by_id (mr_state r)) i = Some x \<and> ji_key x = k)" for k i
    by (rule inv(1))
  fix i ids x assume ids: "ms_job_executions_by_instance (mr_state r) i = Some ids"
  note led = ledger_invD [OF inv(5) [OF ids]]
  show "distinct ids" by (rule led(1))
  show "x \<in> set ids \<longleftrightarrow> (\<exists>e. ms_job_executions (mr_state r) x = Some e \<and> je_job_instance_id e = i)"
    by (rule ledger_members [OF l ids])
  show "\<exists>as. map (ms_execution_attempts (mr_state r)) ids = map Some as \<and> sorted_wrt (<) as"
    using led(4) unfolding attempts_increase_def by blast
  assume "x \<in> set (butlast ids)"
  from led(3) [OF this] show "\<exists>e. ms_job_executions (mr_state r) x = Some e
      \<and> em_status (je_metadata e) \<in> {Stopped, Failed, Abandoned}"
    by (auto simp: status_of_def superseded_def)
next
  have l: "launch_inv (mr_state r)" using reachable_inv [OF assms] by (simp add: core_inv_def)
  fix x e assume x: "ms_job_executions (mr_state r) x = Some e"
  from launch_invD(4) [OF l x] obtain ids where ids: "metadata_wf (je_metadata e)"
      "ms_job_executions_by_instance (mr_state r) (je_job_instance_id e) = Some ids" by blast
  then show "metadata_wf (je_metadata e)" "ms_job_executions_by_instance (mr_state r) (je_job_instance_id e) \<noteq> None"
    by simp_all
  fix y f assume "ms_job_executions (mr_state r) y = Some f" "je_job_instance_id e = je_job_instance_id f"
    "em_status (je_metadata e) \<notin> {Stopped, Failed, Abandoned}" "em_status (je_metadata f) \<notin> {Stopped, Failed, Abandoned}"
  then show "x = y"
    using unresolved_is_last [OF l ids(2) x] unresolved_is_last [OF l ids(2), of y f] by (auto simp: superseded_def)
qed

text \<open>A run with two units open at once: one creates an instance with a starting execution and commits, the other is refused.\<close>

definition nightly_key :: job_instance_key where
  "nightly_key = \<lparr>jk_job_name = lit ''nightly'', jk_identifying_parameters = []\<rparr>"

definition nightly_ops :: "repository_op list" where
  "nightly_ops = [SelectOrCreateJobInstance (Ok 1) 5 nightly_key, CreateJobExecution (Ok 1) 5 1]"

definition nightly_unit :: unit_of_work where
  "nightly_unit = snd (run_all (client_op (\<lambda>_. None) (\<lambda>_. None) (\<lambda>_. [])) nightly_ops (memory_begin memory_repository_new))"

definition nightly_repository :: memory_repository where
  "nightly_repository = snd (memory_commit nightly_unit memory_repository_new)"

lemmas launch_eval = client_op_def discard_def select_or_create_job_instance_def create_job_execution_def
  memory_begin_def memory_repository_new_def memory_state_default_def Let_def uw_update_def register_job_name_def
  bt_contains_def bt_get_def ensure_definition_def definition_identity_legacy_def from_canonical_def
  latest_job_execution_def checked_add_def create_starting_metadata_def execution_timestamps_new_def
  execution_metadata_new_def insert_job_execution_def job_execution_new_def attempt_def proceed_def
  next_order_def max_value_def is_finished_def

lemma nightly_run:
  "run_all (client_op (\<lambda>_. None) (\<lambda>_. None) (\<lambda>_. [])) nightly_ops (memory_begin memory_repository_new) = (Ok (), nightly_unit)"
  by (simp add: nightly_unit_def nightly_ops_def launch_eval)


lemma nightly_committed:
  "memory_commit nightly_unit memory_repository_new = (Ok (), nightly_repository)"
  "memory_commit (memory_begin memory_repository_new) nightly_repository = (Err ConcurrentModification, nightly_repository)"
  "ms_job_executions (mr_state nightly_repository) 1 =
     Some (job_execution_new 1 1 (metadata_starting 5))"
  "ms_job_executions_by_instance (mr_state nightly_repository) 1 = Some [1]"
  by (simp_all add: nightly_repository_def nightly_unit_def nightly_ops_def launch_eval memory_commit_def metadata_starting_def)

definition nightly_units :: "nat \<rightharpoonup> unit_of_work" where
  "nightly_units = [0 \<mapsto> nightly_unit, 1 \<mapsto> memory_begin memory_repository_new]"

lemma nightly_open:
  "interleaved memory_begin (client_op (\<lambda>_. None) (\<lambda>_. None) (\<lambda>_. [])) memory_commit memory_repository_new
     memory_repository_new nightly_units"
proof -
  let ?i = "interleaved memory_begin (client_op (\<lambda>_. None) (\<lambda>_. None) (\<lambda>_. [])) memory_commit memory_repository_new"
  have "?i memory_repository_new ([0 \<mapsto> memory_begin memory_repository_new, 1 \<mapsto> memory_begin memory_repository_new])"
    using begins [OF begins [OF initially, where n = 0], where n = 1] by simp
  from operates_all [OF this _ nightly_run, of 0]
  show ?thesis by (simp add: nightly_units_def fun_upd_twist)
qed

lemma nightly_interleaved:
  "interleaved memory_begin (client_op (\<lambda>_. None) (\<lambda>_. None) (\<lambda>_. [])) memory_commit memory_repository_new
     nightly_repository Map.empty"
  using commits [OF commits [OF nightly_open _ nightly_committed(1), of 0] _ nightly_committed(2), of 1]
  by (simp add: nightly_units_def)

theorem one_open_execution_witness:
  "interleaved memory_begin (client_op (\<lambda>_. None) (\<lambda>_. None) (\<lambda>_. [])) memory_commit memory_repository_new
     nightly_repository Map.empty
   \<and> ms_job_executions_by_instance (mr_state nightly_repository) 1 = Some [1]
   \<and> (\<exists>a. ms_execution_attempts (mr_state nightly_repository) 1 = Some a)"
  using one_open_execution [OF nightly_interleaved] nightly_interleaved nightly_committed(4) by fastforce

text \<open>
  C3. Units of work are serializable.  Every repository that an interleaving of units reaches is one that
  a serial run reaches, in which units begin, run and commit one after the other.  A commit installs its
  unit only if the unit is the result of running its operations on the very state it replaces, and it
  then defeats every other open unit that began from the same revision: that unit's commit changes
  nothing.
\<close>

theorem units_serializable:
  assumes "interleaved memory_begin (client_op tv fs h) memory_commit r0 r us"
  shows "serial memory_begin (client_op tv fs h) memory_commit r0 r
    \<and> (\<forall>n u res r'. us n = Some u \<longrightarrow> memory_commit u r = (res, r') \<longrightarrow> r' \<noteq> r \<longrightarrow>
         (\<exists>xs. run_all (client_op tv fs h) xs (memory_begin r) = (Ok (), u))
         \<and> mr_state r' = (uw_staged u)\<lparr>ms_revision := ms_revision (mr_state r) + 1\<rparr>
         \<and> (\<forall>m v. us m = Some v \<longrightarrow> uw_base_revision v = uw_base_revision u \<longrightarrow>
              memory_commit v r' = (Err ConcurrentModification, r')))"
proof (intro conjI allI impI)
  show "serial memory_begin (client_op tv fs h) memory_commit r0 r" by (rule memory_store.interleaved_serial [OF assms])
  fix n u res r' assume u: "us n = Some u" and c: "memory_commit u r = (res, r')" and new: "r' \<noteq> r"
  have base: "uw_base_revision u = ms_revision (mr_state r)" using memory_store.commit_current [OF c] new by blast
  show "\<exists>xs. run_all (client_op tv fs h) xs (memory_begin r) = (Ok (), u)"
    using memory_store.unit_is_current [OF assms u] base by blast
  from c new show "mr_state r' = (uw_staged u)\<lparr>ms_revision := ms_revision (mr_state r) + 1\<rparr>"
    by (cases rule: memory_commit_cases) (auto simp: checked_add_Some_iff)
  fix m v assume "us m = Some v" and v: "uw_base_revision v = uw_base_revision u"
  have "snd (memory_commit v r') = r'" by (rule memory_store.no_lost_commit [OF c new v])
  moreover have "uw_base_revision v \<noteq> ms_revision (mr_state r')"
    using memory_store.commit_current [OF c] new v base by auto
  ultimately show "memory_commit v r' = (Err ConcurrentModification, r')" by (simp add: memory_commit_def)
qed

theorem units_serializable_witness:
  "memory_commit (memory_begin memory_repository_new) nightly_repository = (Err ConcurrentModification, nightly_repository)
   \<and> serial memory_begin (client_op (\<lambda>_. None) (\<lambda>_. None) (\<lambda>_. [])) memory_commit memory_repository_new memory_repository_new"
proof -
  have "ms_job_executions_by_instance (mr_state memory_repository_new) 1 = None"
    by (simp add: memory_repository_new_def memory_state_default_def)
  with nightly_committed(4) have "nightly_repository \<noteq> memory_repository_new" by (metis option.distinct(1))
  with units_serializable [OF nightly_open] nightly_committed(1) show ?thesis
    by (simp add: nightly_units_def nightly_committed(2))
qed


section \<open>Start limits\<close>

lemma historical_starts_added:
  assumes inv: "core_inv s" and fresh: "ms_step_executions s (se_id e) = None"
    and x: "ms_job_executions s (se_job_execution_id e) = Some f" and i: "je_job_instance_id f = i"
    and v: "core_view t = core_view (added_step e node s)"
  shows "historical_starts t i n = historical_starts s i n + (if n = node then 1 else 0)"
proof -
  from inv have l: "launch_inv s" and st: "step_inv s" by (simp_all add: core_inv_def)
  let ?x = "se_job_execution_id e"
  obtain ids where ids: "ms_job_executions_by_instance s i = Some ids" "?x \<in> set ids"
    using launch_invD(4) [OF l x] i by blast
  note f = core_view_fields [OF v]
  have old: "filter (\<lambda>j. ms_step_logical_ids t j = Some n) (steps_of s y) = filter (\<lambda>j. ms_step_logical_ids s j = Some n) (steps_of s y)" for y
    using step_fresh [OF st fresh, of y] f(9) by (auto simp: added_step_def intro: filter_cong)
  let ?c = "\<lambda>s y. length (filter (\<lambda>j. ms_step_logical_ids s j = Some n) (steps_of s y))"
  have starts: "historical_starts s i n = (\<Sum>y\<leftarrow>ids. ?c s y)" if "ms_job_executions_by_instance s i = Some ids" for s
    using that by (simp add: historical_starts_def filter_concat length_concat comp_def)
  have steps: "steps_of t y = (if y = ?x then steps_of s y @ [se_id e] else steps_of s y)" for y
    using f(8) by (simp add: added_step_def)
  have new: "ms_step_logical_ids t (se_id e) = Some node" using f(9) by (simp add: added_step_def)
  have count: "?c t y = ?c s y + (if y = ?x \<and> n = node then 1 else 0)" for y
    unfolding steps using old [of y] new by auto
  have "distinct ids" using ledger_invD(1) [OF launch_invD(5) [OF l ids(1)]] .
  then have "(\<Sum>y\<leftarrow>ids. if y = ?x \<and> n = node then 1 else 0) = (if n = node then 1 else (0::nat))"
    using ids(2) by (simp add: sum_list_distinct_conv_sum_set)
  moreover have "ms_job_executions_by_instance t i = Some ids" using ids(1) f(4) by (simp add: added_step_def)
  ultimately show ?thesis using starts [OF ids(1)] starts [of t] count by (simp add: sum_list_addf)
qed

text \<open>
  C7. Start limits.  In every unit of work a step attempt of a node is created only while the attempts of
  that node over all executions of the instance are below the limit of the declaration; the attempt is
  then the only one that is new, so that the count never exceeds the limit of any attempt it granted.
  At the limit the call is refused with the instance, the node and the limit, and stages nothing.
\<close>

theorem start_limit_bound:
  assumes "interleaved memory_begin (client_op tv fs h) memory_commit memory_repository_new r us" and "us n = Some u"
    and "ms_job_executions (uw_staged u) x = Some e"
  shows "(unat limit \<le> historical_starts (uw_staged u) (je_job_instance_id e) node \<longrightarrow>
      create_flow_step_execution new_id now x name node limit u =
        (Err (StartLimitExceeded (je_job_instance_id e) node limit), u))
    \<and> (\<forall>y u'. create_flow_step_execution new_id now x name node limit u = (Ok y, u') \<longrightarrow>
      historical_starts (uw_staged u') (je_job_instance_id e) node
        = Suc (historical_starts (uw_staged u) (je_job_instance_id e) node)
      \<and> historical_starts (uw_staged u') (je_job_instance_id e) node \<le> unat limit
      \<and> (\<forall>m. m \<noteq> node \<longrightarrow> historical_starts (uw_staged u') (je_job_instance_id e) m
            = historical_starts (uw_staged u) (je_job_instance_id e) m))"
proof (intro conjI allI impI)
  assume "unat limit \<le> historical_starts (uw_staged u) (je_job_instance_id e) node"
  then show "create_flow_step_execution new_id now x name node limit u =
      (Err (StartLimitExceeded (je_job_instance_id e) node limit), u)"
    using assms(3) by (simp add: create_flow_step_execution_def instance_for_execution_def)
next
  fix y u' assume "create_flow_step_execution new_id now x name node limit u = (Ok y, u')"
  from ensuresD [OF create_flow_step_view this] obtain i m where
      lim: "historical_starts (uw_staged u) (je_job_instance_id e) node < unat limit"
      and i: "ms_step_executions (uw_staged u) i = None"
      and v: "core_view (uw_staged u') = core_view (added_step (step_execution_new i x name m) node (uw_staged u))"
    using assms(3) unfolding step_created_def instance_for_execution_def by auto
  have starts: "historical_starts (uw_staged u') (je_job_instance_id e) k
      = historical_starts (uw_staged u) (je_job_instance_id e) k + (if k = node then 1 else 0)" for k
    using i assms(3) by (intro historical_starts_added [OF open_unit_inv [OF assms(1,2)] _ _ refl v])
      (simp_all add: step_execution_new_def)
  show "historical_starts (uw_staged u') (je_job_instance_id e) node
      = Suc (historical_starts (uw_staged u) (je_job_instance_id e) node)"
    "historical_starts (uw_staged u') (je_job_instance_id e) node \<le> unat limit"
    using starts [of node] lim by simp_all
  show "historical_starts (uw_staged u') (je_job_instance_id e) k = historical_starts (uw_staged u) (je_job_instance_id e) k"
    if "k \<noteq> node" for k
    using starts [of k] that by simp
qed


lemmas step_eval = create_flow_step_execution_def instance_for_execution_def historical_starts_def
  latest_flow_step_snapshot_def seed_step_def step_execution_new_def insert_step_execution_def

theorem start_limit_bound_witness:
  "\<exists>y u'. create_flow_step_execution (Ok 7) 6 1 (lit ''load'') (lit ''load'') 1 nightly_unit = (Ok y, u')
     \<and> historical_starts (uw_staged u') 1 (lit ''load'') = 1"
proof -
  have e: "ms_job_executions (uw_staged nightly_unit) 1 = Some (job_execution_new 1 1 (metadata_starting 5))"
    "historical_starts (uw_staged nightly_unit) 1 (lit ''load'') = 0"
    by (simp_all add: nightly_unit_def nightly_ops_def launch_eval metadata_starting_def historical_starts_def)
  have "\<exists>y u'. create_flow_step_execution (Ok 7) 6 1 (lit ''load'') (lit ''load'') 1 nightly_unit = (Ok y, u')"
    by (simp add: nightly_unit_def nightly_ops_def launch_eval step_eval)
  then obtain y u' where c: "create_flow_step_execution (Ok 7) 6 1 (lit ''load'') (lit ''load'') 1 nightly_unit = (Ok y, u')"
    by blast
  have u: "nightly_units 0 = Some nightly_unit" by (simp add: nightly_units_def)
  have i: "je_job_instance_id (job_execution_new 1 1 (metadata_starting 5)) = 1" by (simp add: job_execution_new_def)
  from start_limit_bound [OF nightly_open u e(1), THEN conjunct2, rule_format, OF c] e(2) c show ?thesis
    unfolding i by auto
qed

end
