(* ===== verification/Memory_Retention.thy ===== *)
theory Memory_Retention
  imports Memory_Properties
begin

text \<open>
  Retention in the reference repository: what applying a purge plan removes, when it is refused, that a
  plan made by a survey applies in the same state unless it names a forked execution, and that removing
  the completed execution of an instance reopens the instance.
\<close>

section \<open>Purging\<close>

lemma purge_candidate_steps:
  "ms_step_executions (purge_candidate_apply (i, x, v) s) = (\<lambda>j. if j \<in> set (steps_of s x) then None else ms_step_executions s j)"
proof -
  have "ms_step_executions (fold remove_operator_request rs s) = ms_step_executions s
      \<and> ms_step_executions_by_job (fold remove_operator_request rs s) = ms_step_executions_by_job s" for rs s
    by (induction rs arbitrary: s) (auto simp: remove_operator_request_def split: option.splits)
  then show ?thesis by (simp add: purge_candidate_apply_def Let_def fold_remove_step cong: if_cong)
qed

lemma purge_candidate_instances: "ms_instances_by_id (purge_candidate_apply c s) = ms_instances_by_id s"
proof -
  have ops: "ms_instances_by_id (fold remove_operator_request rs s) = ms_instances_by_id s" for rs s
    by (induction rs arbitrary: s) (auto simp: remove_operator_request_def split: option.splits)
  have steps: "ms_instances_by_id (fold remove_step_execution is s) = ms_instances_by_id s" for "is" s
    by (induction "is" arbitrary: s) (auto simp: remove_step_execution_def)
  show ?thesis by (cases c) (simp add: purge_candidate_apply_def Let_def ops steps)
qed

definition purged :: "purge_candidate list \<Rightarrow> job_execution_id set" where
  "purged cs = (\<lambda>(i, x, v). x) ` set cs"

lemma purge_candidates_all:
  assumes "core_inv s" and "\<forall>c \<in> set cs. candidate_owned s c"
  shows "ms_job_executions (fold purge_candidate_apply cs s) = (\<lambda>x. if x \<in> purged cs then None else ms_job_executions s x)
    \<and> ms_step_executions (fold purge_candidate_apply cs s) =
      (\<lambda>j. case ms_step_executions s j of None \<Rightarrow> None
          | Some e \<Rightarrow> if se_job_execution_id e \<in> purged cs then None else Some e)
    \<and> ms_instances_by_id (fold purge_candidate_apply cs s) = ms_instances_by_id s"
  using assms
proof (induction cs arbitrary: s)
  case Nil
  show ?case by (simp add: purged_def fun_eq_iff split: option.splits)
next
  case (Cons c cs)
  obtain i x v where c: "c = (i, x, v)" by (metis prod_cases3)
  have st: "step_inv s" using Cons.prems(1) by (simp add: core_inv_def)
  let ?t = "purge_candidate_apply c s"
  have inv: "core_inv ?t" "\<forall>c \<in> set cs. candidate_owned ?t c"
    using purge_candidates_inv [of s "[c]"] Cons.prems candidate_owned_purge by auto
  have x: "ms_job_executions ?t = (\<lambda>y. if y = x then None else ms_job_executions s y)"
    using core_view_fields(3) [OF purge_candidate_core [of c s]] by (simp add: c purge_core_def fun_eq_iff)
  have j: "ms_step_executions ?t j = (case ms_step_executions s j of None \<Rightarrow> None
      | Some e \<Rightarrow> if se_job_execution_id e = x then None else Some e)" for j
    unfolding c purge_candidate_steps using step_invD(1) [OF st, of j] steps_of_owned [OF st, of j x]
    by (auto split: option.splits)
  note IH = Cons.IH [OF inv]
  have "purged (c # cs) = insert x (purged cs)" by (simp add: purged_def c)
  then show ?case using IH by (auto simp: x j purge_candidate_instances fun_eq_iff split: option.splits)
qed

lemmas purge_candidates_result = purge_candidates_all [THEN conjunct1] purge_candidates_all [THEN conjunct2, THEN conjunct1]
  purge_candidates_all [THEN conjunct2, THEN conjunct2]

lemma purge_instance_keeps:
  "ms_job_executions (fold purge_instance_apply is s) = ms_job_executions s"
  "ms_step_executions (fold purge_instance_apply is s) = ms_step_executions s"
  by (induction "is" arbitrary: s) (auto simp: purge_instance_apply_def split: option.splits)

lemma purge_instances_result:
  assumes "core_inv s"
  shows "bt_get (ms_instances_by_id (fold purge_instance_apply is s)) i =
    (if i \<in> set is \<and> (\<forall>x e. ms_job_executions s x = Some e \<longrightarrow> je_job_instance_id e \<noteq> i) then None
     else bt_get (ms_instances_by_id s) i)"
  using assms
proof (induction "is" arbitrary: s)
  case (Cons k ks)
  have l: "launch_inv s" using Cons.prems by (simp add: core_inv_def)
  have empty: "ms_job_executions_by_instance s k = Some [] \<longleftrightarrow>
      bt_get (ms_instances_by_id s) k \<noteq> None \<and> (\<forall>x e. ms_job_executions s x = Some e \<longrightarrow> je_job_instance_id e \<noteq> k)"
    using launch_invD(3) [OF l, of k] ledger_members [OF l, of k] ledger_members [OF l, of k "[]"]
    by (cases "ms_job_executions_by_instance s k") (auto, metis list.set_cases neq_Nil_conv list.set_intros(1))
  have "bt_get (ms_instances_by_id (purge_instance_apply k s)) i =
      (if i = k \<and> (\<forall>x e. ms_job_executions s x = Some e \<longrightarrow> je_job_instance_id e \<noteq> i) then None
       else bt_get (ms_instances_by_id s) i)"
    using empty by (auto simp: purge_instance_apply_def bt_get_remove split: option.splits)
  moreover have "ms_job_executions (purge_instance_apply k s) = ms_job_executions s"
    using purge_instance_keeps(1) [of "[k]" s] by simp
  ultimately show ?case using Cons.IH [OF purge_instance_inv [OF Cons.prems]] by auto
qed simp

lemma check_candidate_Ok:
  "check_candidate s request (i, x, v) = Ok () \<longleftrightarrow>
     (\<exists>e. ms_job_executions s x = Some e \<and> je_version e = v \<and> em_status (je_metadata e) \<in> set (ppr_statuses request))
     \<and> ms_holds s i = None \<and> list_all (\<lambda>e. is_finished (em_status (je_metadata e))) (executions_of s i)"
  by (cases "ms_job_executions s x") (auto simp: check_candidate_def)

lemma check_candidate_Err: "check_candidate s request c = Err e \<Longrightarrow> e = RetentionPlanStale"
  by (cases c) (auto simp: check_candidate_def ok_or_def split: option.splits if_splits)

lemma try_each_error: "(\<And>x e. f x = Err e \<Longrightarrow> e = z) \<Longrightarrow> try_each f xs = Err e \<Longrightarrow> e = z"
  by (induction xs) (auto simp: res_bind_Err_iff)

lemma executions_of_members:
  assumes "core_inv s"
  shows "set (executions_of s i) = {e. \<exists>x. ms_job_executions s x = Some e \<and> je_job_instance_id e = i}"
proof -
  have l: "launch_inv s" using assms by (simp add: core_inv_def)
  have "x \<in> set (unwrap_or (ms_job_executions_by_instance s i) [])"
    if "ms_job_executions s x = Some e" "je_job_instance_id e = i" for x e
    using launch_invD(4) [OF l that(1)] that(2) by auto
  moreover have "je_job_instance_id e = i"
    if "x \<in> set (unwrap_or (ms_job_executions_by_instance s i) [])" "ms_job_executions s x = Some e" for x e
    using that ledger_invD(2) [OF launch_invD(5) [OF l], of i _ x]
    by (cases "ms_job_executions_by_instance s i") auto
  moreover have "set (executions_of s i) =
      {e. \<exists>x \<in> set (unwrap_or (ms_job_executions_by_instance s i) []). ms_job_executions s x = Some e}"
    by (force simp: List.map_filter_def)
  ultimately show ?thesis by blast
qed

lemma apply_purge_cases:
  obtains "apply_purge plan u = (Err RetentionPlanStale, u)"
  | "apply_purge plan u = (Ok (purge_counts_of (uw_staged u) (pp_candidates plan)),
        u\<lparr>uw_staged := fold purge_instance_apply (remdups_adj (map fst (pp_candidates plan)))
            (fold purge_candidate_apply (pp_candidates plan) (uw_staged u))\<rparr>)"
    "\<forall>c \<in> set (pp_candidates plan). check_candidate (uw_staged u) (pp_request plan) c = Ok ()"
    "\<forall>c \<in> set (pp_candidates plan). \<not> fork_references (uw_staged u) c"
proof (cases "try_each (check_candidate (uw_staged u) (pp_request plan)) (pp_candidates plan)")
  case (Inl e)
  then have "e = RetentionPlanStale" by (rule try_each_error [rotated]) (rule check_candidate_Err)
  with Inl that(1) show ?thesis by (simp add: apply_purge_def Let_def)
next
  case (Inr x)
  then have ok: "\<forall>c \<in> set (pp_candidates plan). check_candidate (uw_staged u) (pp_request plan) c = Ok ()"
    by (simp add: try_each_Ok_iff)
  show ?thesis
  proof (cases "list_ex (fork_references (uw_staged u)) (pp_candidates plan)")
    case True
    with Inr that(1) show ?thesis by (simp add: apply_purge_def Let_def)
  next
    case False
    with Inr ok that(2) show ?thesis by (simp add: apply_purge_def Let_def list_ex_iff)
  qed
qed


section \<open>Plans made by a survey\<close>

lemma eligible_candidate:
  assumes inv: "core_inv s" and c: "c \<in> set (purge_eligible s request now)"
  shows "check_candidate s request c = Ok () \<and> candidate_owned s c"
proof -
  from c obtain i e where e: "c = (i, je_id e, je_version e)" "e \<in> set (executions_of s i)" "ms_holds s i = None"
      "list_all (\<lambda>e. is_finished (em_status (je_metadata e))) (executions_of s i)" "execution_eligible s request now e"
    unfolding purge_eligible_def
    by (force dest: in_set_takeD simp: Let_def list_ex_iff list_all_iff split: if_splits)
  then obtain x where x: "ms_job_executions s x = Some e" "je_job_instance_id e = i"
    using executions_of_members [OF inv, of i] by blast
  then have "x = je_id e" using inv launch_invD(4) [of s x e] by (simp add: core_inv_def)
  with x e show ?thesis by (simp add: check_candidate_Ok candidate_owned_def execution_eligible_def)
qed

text \<open>
  C9. A plan made by a survey applies.  In every open unit of work the candidates of a survey are in key
  order, within the batch bound, owned by the instances they name and pass every check of the purge;
  applying the plan in the same state deletes what the survey counted, unless a candidate belongs to a
  fork: such a plan is refused as stale although nothing changed, and so is every later plan that
  includes the same candidate.
\<close>

theorem surveyed_plan_applies:
  assumes "interleaved memory_begin (client_op tv fs h) memory_commit memory_repository_new r us" and "us n = Some u"
    and "purge_survey request now (uw_staged u) = (cs, counts)"
  shows "sorted cs \<and> length cs \<le> unat (ppr_batch request)
    \<and> (\<forall>c \<in> set cs. candidate_owned (uw_staged u) c)
    \<and> fst (apply_purge (purge_plan_new sha request cs counts) u)
      = (if list_ex (fork_references (uw_staged u)) cs then Err RetentionPlanStale else Ok counts)"
proof -
  have cs: "cs = purge_eligible (uw_staged u) request now" "counts = purge_counts_of (uw_staged u) cs"
    using assms(3) by (auto simp: purge_survey_def Let_def)
  have "check_candidate (uw_staged u) request c = Ok () \<and> candidate_owned (uw_staged u) c" if "c \<in> set cs" for c
    using eligible_candidate [OF open_unit_inv [OF assms(1,2)]] that unfolding cs(1) by blast
  then have "try_each (check_candidate (uw_staged u) request) cs = Ok ()" "\<forall>c \<in> set cs. candidate_owned (uw_staged u) c"
    by (simp_all add: try_each_Ok_iff)
  moreover have "sorted cs" "length cs \<le> unat (ppr_batch request)"
    by (simp_all add: cs(1) purge_eligible_def sorted_wrt_take)
  ultimately show ?thesis by (simp add: apply_purge_def purge_plan_new_def cs(2) Let_def)
qed

section \<open>A purge can reopen an instance\<close>

definition weekly_ops :: "repository_op list" where
  "weekly_ops = [SelectOrCreateJobInstance (Ok 1) 5 nightly_key, CreateJobExecution (Ok 1) 5 1,
     TransitionJobExecution 1 0 (lifecycle_transition_new Started 5),
     TransitionJobExecution 1 1 (lifecycle_transition_new Stopped 6),
     CreateJobExecution (Ok 2) 7 1,
     TransitionJobExecution 2 0 (lifecycle_transition_new Started 7),
     TransitionJobExecution 2 1 (lifecycle_transition_new Completed 8)]"

definition weekly_unit :: unit_of_work where
  "weekly_unit = snd (run_all (client_op (\<lambda>_. None) (\<lambda>_. None) (\<lambda>_. [])) weekly_ops (memory_begin memory_repository_new))"

lemmas transition_eval = transition_job_execution_def job_execution_transition_def transition_execution_def
  validate_expected_version_def metadata_transition_def validate_transition_def is_legal_in_place_transition_def
  version_next_def lifecycle_transition_new_def version_initial_def restart_check_def
  copy_forward_scope_resolution_provenance_def owned_provenance_def is_active_def

lemma weekly_run:
  "run_all (client_op (\<lambda>_. None) (\<lambda>_. None) (\<lambda>_. [])) weekly_ops (memory_begin memory_repository_new) = (Ok (), weekly_unit)"
  by (simp add: weekly_unit_def weekly_ops_def launch_eval transition_eval)

lemma weekly_open:
  "interleaved memory_begin (client_op (\<lambda>_. None) (\<lambda>_. None) (\<lambda>_. [])) memory_commit memory_repository_new
     memory_repository_new [0 \<mapsto> weekly_unit]"
proof -
  have "interleaved memory_begin (client_op (\<lambda>_. None) (\<lambda>_. None) (\<lambda>_. [])) memory_commit memory_repository_new
      memory_repository_new [0 \<mapsto> memory_begin memory_repository_new]"
    using begins [OF initially, where n = 0] by simp
  from operates_all [OF this _ weekly_run, of 0] show ?thesis by simp
qed

definition weekly_request :: purge_plan_request where
  "weekly_request = \<lparr>ppr_job_name = lit ''nightly'', ppr_statuses = [Completed], ppr_minimum_age = MIN_PURGE_AGE, ppr_batch = 10\<rparr>"

definition weekly_plan :: purge_plan where
  "weekly_plan = (case purge_survey weekly_request 4000000000000 (uw_staged weekly_unit) of
     (cs, counts) \<Rightarrow> purge_plan_new (\<lambda>_. []) weekly_request cs counts)"

lemmas weekly_eval = weekly_unit_def weekly_ops_def launch_eval transition_eval weekly_request_def nightly_key_def

lemma weekly_executions:
  "executions_of (uw_staged weekly_unit) 1 =
     [\<lparr>je_id = 1, je_job_instance_id = 1, je_metadata = \<lparr>em_status = Stopped, em_exit_status = exit_status_unknown,
        em_timestamps = \<lparr>et_created_at = 5, et_started_at = Some 5, et_ended_at = Some 6\<rparr>, em_counts = execution_counts_default,
        em_failure = None\<rparr>, je_version = 2\<rparr>,
      \<lparr>je_id = 2, je_job_instance_id = 1, je_metadata = \<lparr>em_status = Completed, em_exit_status = exit_status_unknown,
        em_timestamps = \<lparr>et_created_at = 7, et_started_at = Some 7, et_ended_at = Some 8\<rparr>, em_counts = execution_counts_default,
        em_failure = None\<rparr>, je_version = 2\<rparr>]"
  by (simp add: weekly_eval List.map_filter_def)

lemma weekly_fields:
  "ms_instances_by_id (uw_staged weekly_unit) = [(1, \<lparr>ji_id = 1, ji_key = nightly_key\<rparr>)]"
  "ms_holds (uw_staged weekly_unit) = Map.empty" "ms_scope_resolution_provenance (uw_staged weekly_unit) = []"
  "ms_fork_lineages (uw_staged weekly_unit) = []"
  by (simp_all add: weekly_eval)

lemma weekly_candidates: "purge_eligible (uw_staged weekly_unit) weekly_request 4000000000000 = [(1, 2, 2)]"
  unfolding purge_eligible_def weekly_fields(1)
  by (simp add: weekly_executions weekly_fields execution_eligible_def updated_at_def is_finished_def
      scope_source_referenced_by_other_execution_def weekly_request_def nightly_key_def MIN_PURGE_AGE_def Let_def)

lemma weekly_plan_candidates: "pp_candidates weekly_plan = [(1, 2, 2)]" "pp_request weekly_plan = weekly_request"
  by (simp_all add: weekly_plan_def purge_survey_def purge_plan_new_def weekly_candidates Let_def)

lemma weekly_checked:
  "check_candidate (uw_staged weekly_unit) weekly_request (1, 2, 2) = Ok ()" "candidate_owned (uw_staged weekly_unit) (1, 2, 2)"
proof -
  have "core_inv (uw_staged weekly_unit)" by (rule open_unit_inv [OF weekly_open]) simp
  from eligible_candidate [OF this, where c = "(1, 2, 2)" and request = weekly_request and now = 4000000000000]
  show "check_candidate (uw_staged weekly_unit) weekly_request (1, 2, 2) = Ok ()"
    "candidate_owned (uw_staged weekly_unit) (1, 2, 2)"
    by (simp_all add: weekly_candidates)
qed

lemma weekly_purge:
  "apply_purge weekly_plan weekly_unit =
     (Ok (purge_counts_of (uw_staged weekly_unit) [(1, 2, 2)]),
      weekly_unit\<lparr>uw_staged := purge_instance_apply 1 (purge_candidate_apply (1, 2, 2) (uw_staged weekly_unit))\<rparr>)"
  by (simp add: apply_purge_def weekly_plan_candidates weekly_checked Let_def fork_references_def weekly_fields)



theorem surveyed_plan_applies_witness:
  "fst (apply_purge (purge_plan_new (\<lambda>_. []) weekly_request [(1, 2, 2)] (purge_counts_of (uw_staged weekly_unit) [(1, 2, 2)]))
      weekly_unit) = Ok (purge_counts_of (uw_staged weekly_unit) [(1, 2, 2)])"
proof -
  have "purge_survey weekly_request 4000000000000 (uw_staged weekly_unit)
      = ([(1, 2, 2)], purge_counts_of (uw_staged weekly_unit) [(1, 2, 2)])"
    by (simp add: purge_survey_def Let_def weekly_candidates)
  from surveyed_plan_applies [OF weekly_open _ this, of 0] show ?thesis
    by (simp add: fork_references_def weekly_fields)
qed

end
