(* ===== verification/Fork_Service.thy ===== *)
theory Fork_Service
  imports Memory_Retention
begin

text \<open>
  Forking an execution, \<^verbatim>\<open>service/fork.rs\<close> of \<^verbatim>\<open>oxide-batch\<close>: staging the target of a fork in one unit of
  work, and the service that publishes it.  A service call touches the shared repository several times;
  what other callers commit before its n-th access is the argument \<open>others\<close>.  Identifiers and times the
  repository draws for the target are arguments too.
\<close>

section \<open>Reads of a unit of work\<close>

definition fork_lineage_of :: "memory_state \<Rightarrow> operation_id \<Rightarrow> fork_lineage option" where
  "fork_lineage_of s operation = bt_get (ms_fork_lineages s) operation"

definition lock_fork_source :: "memory_state \<Rightarrow> job_execution_id \<Rightarrow> job_execution option" where
  "lock_fork_source s x = ms_job_executions s x"

definition registered_definition :: "memory_state \<Rightarrow> job_name \<Rightarrow> definition_revision \<Rightarrow> definition_registration option" where
  "registered_definition s name revision = ms_definition_registry s (name, revision)"

definition memory_descriptor :: "repository_capability set" where
  "memory_descriptor = {CustomLeafState, DefinitionRegistry, ExecutionOwnership, InstanceHolds, NestedJobs, ScopeResolution,
     RepeatState, OperatorRequests, RetentionPurge, StepPartitions, StopRequests}"

definition descriptor_require :: "repository_capability set \<Rightarrow> repository_capability \<Rightarrow> repository_error + unit" where
  "descriptor_require declared capability =
     (if capability \<in> declared then Ok () else Err (UnsupportedCapability capability))"

section \<open>The committed state of the source\<close>

definition step_state_bytes :: "to_vec \<Rightarrow> memory_state \<Rightarrow> job_execution_id \<Rightarrow> step_execution \<Rightarrow> repository_error + u8 list" where
  "step_state_bytes to_vec s source step =
     res_bind (scope_step_state s (se_id step)) (\<lambda>found.
     res_bind (ok_or found ForkStateCorrupt) (\<lambda>committed.
     if fss_execution committed \<noteq> step \<or> se_job_execution_id (fss_execution committed) \<noteq> source then Err ForkStateCorrupt
     else
       let head = to_be_bytes (se_id step) @ to_be_bytes (se_version step)
                  @ as_bytes (lit (batch_status_as_str (em_status (se_metadata step)))) @ as_bytes (fss_node_id committed)
       in case fss_context committed of
            Some context \<Rightarrow>
              res_bind (map_err (\<lambda>_. ForkStateCorrupt) (state_to_json to_vec KindExecutionContext context)) (\<lambda>data.
              if length data \<ge> 2 ^ 64 then Err ForkStateCorrupt
              else Ok (head @ [1] @ to_be_bytes (length_word (length data) :: u64) @ data))
          | None \<Rightarrow> Ok (head @ [0])))"

definition fork_source_bytes :: "to_vec \<Rightarrow> memory_state \<Rightarrow> job_execution \<Rightarrow> repository_error + u8 list" where
  "fork_source_bytes to_vec s source =
     res_bind (step_executions s (je_id source)) (\<lambda>steps.
     if length steps > 1024 then Err ForkStateCorrupt
     else
       try_fold (\<lambda>step bytes. res_bind (step_state_bytes to_vec s (je_id source) step) (\<lambda>b. Ok (bytes @ b)))
         (sort_key se_id steps)
         (as_bytes (lit ''oxide-batch.fork-source-committed-state.v2'') @ [0] @ to_be_bytes (je_id source)
          @ to_be_bytes (je_version source) @ as_bytes (lit (batch_status_as_str (em_status (je_metadata source))))))"

section \<open>The transformed context\<close>

definition definition_contains_node :: "from_slice \<Rightarrow> definition_identity \<Rightarrow> node_id \<Rightarrow> bool" where
  "definition_contains_node from_slice d node =
     (case from_slice (di_canonical_manifest d) of
        None \<Rightarrow> False
      | Some v \<Rightarrow> get_str v ''step'' = Some node
          \<or> is_some_and (and_then (json_get v ''nodes'') as_array) (list_ex (\<lambda>item. get_str item ''id'' = Some node)))"

definition context_from_transformed_payload ::
  "to_vec \<Rightarrow> from_slice \<Rightarrow> state_schema_id \<Rightarrow> state_schema_version \<Rightarrow> u8 list \<Rightarrow> state_limits
   \<Rightarrow> state_error + execution_context" where
  "context_from_transformed_payload to_vec from_slice schema_id schema_version payload limits =
     res_bind (ok_or (from_slice payload) InvalidPayload) (\<lambda>payload.
     if \<not> is_object payload then Err PayloadNotObject
     else state_from_parts to_vec KindExecutionContext schema_id schema_version payload limits)"

definition fork_transformed_context ::
  "to_vec \<Rightarrow> from_slice \<Rightarrow> memory_state \<Rightarrow> job_execution \<Rightarrow> definition_identity \<Rightarrow> fork_request
   \<Rightarrow> definition_state_transformer option \<Rightarrow> repository_error + execution_context option" where
  "fork_transformed_context to_vec from_slice s source source_definition request transformer =
     (case fr_context_transform request of
        None \<Rightarrow> Ok None
      | Some selected \<Rightarrow>
          let descriptor = fct_descriptor selected in
          res_bind (ok_or transformer ForkTransformRejected) (\<lambda>live.
          if dst_kind descriptor \<noteq> DskExecutionContext \<or> dst_revision descriptor \<noteq> dtr_revision live
          then Err ForkTransformRejected
          else if \<not> definition_contains_node from_slice source_definition (dst_source_node descriptor)
             \<or> \<not> definition_contains_node from_slice (dr_definition (fr_target request)) (dst_target_node descriptor)
          then Err ForkTransformRejected
          else
            res_bind (scope_step_state s (fct_source_step_execution_id selected)) (\<lambda>found.
            res_bind (ok_or found ForkTransformRejected) (\<lambda>source_step.
            if se_job_execution_id (fss_execution source_step) \<noteq> je_id source
               \<or> se_version (fss_execution source_step) \<noteq> fct_source_step_version selected
               \<or> fss_node_id source_step \<noteq> dst_source_node descriptor
            then Err ForkTransformRejected
            else
              res_bind (ok_or (fss_context source_step) ForkTransformRejected) (\<lambda>context.
              if vs_schema_id context \<noteq> dst_source_schema descriptor
                 \<or> vs_schema_version context \<noteq> dst_source_version descriptor
              then Err ForkTransformRejected
              else
                res_bind (map_err (\<lambda>_. ForkTransformRejected) (state_payload_json to_vec KindExecutionContext context)) (\<lambda>bytes.
                res_bind (map_err (\<lambda>_. ForkTransformRejected) (dtr_apply live bytes)) (\<lambda>output.
                res_bind (map_err (\<lambda>_. ForkTransformRejected)
                    (context_from_transformed_payload to_vec from_slice (dst_target_schema descriptor)
                       (dst_target_version descriptor) output state_limits_default)) (\<lambda>context.
                Ok (Some context)))))))))"

section \<open>Staging a fork\<close>

datatype fork_stage = ForkExisting fork_lineage | ForkCreated fork_lineage job_execution

datatype fork_stage_error = ForkRepository repository_error | ForkTargetCollision job_instance_id

definition in_unit :: "('e \<Rightarrow> 'f) \<Rightarrow> ('e + 'a) \<times> 's \<Rightarrow> ('f + 'a) \<times> 's" where
  "in_unit f p = (map_err f (fst p), snd p)"

definition check_fork_source ::
  "memory_state \<Rightarrow> fork_request \<Rightarrow> repository_error + job_execution \<times> definition_identity" where
  "check_fork_source s request =
     res_bind (ok_or (lock_fork_source s (fr_source_execution_id request)) ForkSourceStale) (\<lambda>source.
     if je_version source \<noteq> fr_source_version request then Err ForkSourceStale
     else if \<not> is_finished (em_status (je_metadata source)) then Err ForkSourceNotTerminal
     else
       res_bind (job_executions s (je_job_instance_id source)) (\<lambda>attempts.
       if attempts = [] \<or> je_id (last attempts) \<noteq> je_id source then Err ForkSourceStale
       else
         res_bind (map_err (\<lambda>_. ForkStateCorrupt) (scope_execution_definition s (je_id source))) (\<lambda>d.
         res_bind (ok_or (di_job_name d) ForkStateCorrupt) (\<lambda>name.
         res_bind (ok_or (registered_definition s name (di_revision d)) (DefinitionNotRegistered name (di_revision d)))
           (\<lambda>registered. if dr_definition registered \<noteq> d then Err ForkStateCorrupt else Ok (source, d))))))"

definition check_fork_target :: "memory_state \<Rightarrow> definition_registration \<Rightarrow> repository_error + unit" where
  "check_fork_target s target =
     res_bind (ok_or (registered_definition s (dr_job_name target) (dr_revision target))
       (DefinitionNotRegistered (dr_job_name target) (dr_revision target))) (\<lambda>registered.
     if dr_definition registered \<noteq> dr_definition target then Err (DefinitionDrift (dr_job_name target) (dr_revision target))
     else if dr_artifact registered \<noteq> dr_artifact target
     then Err (DefinitionArtifactDrift (dr_job_name target) (dr_revision target))
     else Ok ())"

definition stage_fork_in_unit ::
  "to_vec \<Rightarrow> from_slice \<Rightarrow> sha256 \<Rightarrow> id_generation_error + job_instance_id \<Rightarrow> id_generation_error + job_execution_id
   \<Rightarrow> system_time \<Rightarrow> system_time \<Rightarrow> fork_request \<Rightarrow> definition_state_transformer option \<Rightarrow> unit_of_work
   \<Rightarrow> (fork_stage_error + fork_stage) \<times> unit_of_work" where
  "stage_fork_in_unit to_vec from_slice sha256 new_instance new_execution created_at started_at request transformer u =
     (let s = uw_staged u in
      if (fr_context_transform request \<noteq> None) \<noteq> (transformer \<noteq> None)
      then (Err (ForkRepository ForkTransformRejected), u)
      else case fork_lineage_of s (fr_operation_id request) of
        Some existing \<Rightarrow>
          (if lineage_matches_request sha256 existing request then Ok (ForkExisting existing)
           else Err (ForkRepository ForkOperationConflict), u)
      | None \<Rightarrow>
          attempt (map_err ForkRepository (check_fork_source s request)) u (\<lambda>(source, source_definition).
          attempt (map_err ForkRepository (check_fork_target s (fr_target request))) u (\<lambda>_.
          attempt (map_err ForkRepository (fork_source_bytes to_vec s source)) u (\<lambda>bytes.
          attempt (map_err ForkRepository
              (fork_transformed_context to_vec from_slice s source source_definition request transformer)) u (\<lambda>context.
          proceed (in_unit ForkRepository
              (select_or_create_job_instance new_instance created_at (fork_target_key request) u)) (\<lambda>selection u.
          case selection of
            SelExisting existing \<Rightarrow> (Err (ForkTargetCollision (ji_id existing)), u)
          | SelCreated instance \<Rightarrow>
              proceed (in_unit ForkRepository (create_job_execution_with_definition_and_parameters to_vec from_slice sha256
                  new_execution started_at (ji_id instance) (dr_definition (fr_target request)) (fr_parameters request) u))
                (\<lambda>execution u.
              proceed (case context of
                    Some c \<Rightarrow> in_unit ForkRepository (stage_fork_job_context (je_id execution) c u)
                  | None \<Rightarrow> (Ok (), u)) (\<lambda>_ u.
              let lineage = fork_lineage_new sha256 request source_definition (sha256 bytes) (ji_id instance) (je_id execution)
              in proceed (in_unit ForkRepository (append_fork_lineage sha256 lineage u)) (\<lambda>_ u.
                 (Ok (ForkCreated lineage execution), u))))))))))"

section \<open>The service\<close>

text \<open>\<^verbatim>\<open>others n\<close> is what other callers commit before the call reaches the repository for the n-th time.\<close>

definition job_fork_lineage :: "repository_capability set \<Rightarrow> operation_id \<Rightarrow> memory_repository \<Rightarrow> repository_error + fork_lineage option" where
  "job_fork_lineage declared operation r =
     res_bind (descriptor_require declared DefinitionRegistry) (\<lambda>_.
     Ok (fork_lineage_of (uw_staged (memory_begin r)) operation))"

definition fork_readback ::
  "sha256 \<Rightarrow> repository_capability set \<Rightarrow> fork_request \<Rightarrow> repository_error \<Rightarrow> memory_repository \<Rightarrow> repository_error + fork_lineage" where
  "fork_readback sha256 declared request absent r =
     res_bind (job_fork_lineage declared (fr_operation_id request) r) (\<lambda>stored.
     case stored of
       Some l \<Rightarrow> if lineage_matches_request sha256 l request then Ok l else Err ForkOperationConflict
     | None \<Rightarrow> Err absent)"

definition fork_inner ::
  "to_vec \<Rightarrow> from_slice \<Rightarrow> sha256 \<Rightarrow> repository_capability set \<Rightarrow> (nat \<Rightarrow> memory_repository \<Rightarrow> memory_repository)
   \<Rightarrow> id_generation_error + job_instance_id \<Rightarrow> id_generation_error + job_execution_id \<Rightarrow> system_time \<Rightarrow> system_time
   \<Rightarrow> fork_request \<Rightarrow> definition_state_transformer option \<Rightarrow> memory_repository
   \<Rightarrow> (repository_error + fork_lineage) \<times> memory_repository" where
  "fork_inner to_vec from_slice sha256 declared others new_instance new_execution created_at started_at request transformer r =
     (if (fr_context_transform request \<noteq> None) \<noteq> (transformer \<noteq> None) then (Err ForkTransformRejected, r)
      else
        attempt (descriptor_require declared DefinitionRegistry) r (\<lambda>_.
        attempt (descriptor_require declared ScopeResolution) r (\<lambda>_.
        let r = others 0 r in
        case stage_fork_in_unit to_vec from_slice sha256 new_instance new_execution created_at started_at request transformer
               (memory_begin r) of
          (Ok (ForkExisting existing), u) \<Rightarrow> (Ok existing, r)
        | (Ok (ForkCreated lineage execution), u) \<Rightarrow>
            (case memory_commit u (others 1 r) of
               (Ok _, r) \<Rightarrow> (Ok lineage, r)
             | (Err e, r) \<Rightarrow>
                 if e = CommitOutcomeUnknown \<or> e = ConcurrentModification
                 then let r = others 2 r in (fork_readback sha256 declared request CommitOutcomeUnknown r, r)
                 else (Err e, r))
        | (Err (ForkTargetCollision i), u) \<Rightarrow>
            let r = others 1 r in (fork_readback sha256 declared request (ForkInstanceCollision i) r, r)
        | (Err (ForkRepository e), u) \<Rightarrow> (Err e, r))))"

end
