(* ===== verification/Operator_Service.thy ===== *)
theory Operator_Service
  imports Fork_Service
begin

text \<open>
  Guarded operator actions, \<^verbatim>\<open>service/operator.rs\<close> of \<^verbatim>\<open>oxide-batch\<close>: the effect of each action in one unit of
  work, replay by operation identifier, the audit of rejections, and the call as a whole with the points
  at which other callers may commit.  Telemetry events are not part of the result.
\<close>

section \<open>Arguments of a request\<close>

fun request_job_instance_key :: "operator_target \<Rightarrow> job_instance_key option" where
  "request_job_instance_key (OpInstanceKey key) = Some key"
| "request_job_instance_key _ = None"

fun request_definition :: "request_arguments \<Rightarrow> definition_identity option" where
  "request_definition (ArgDefinition d) = Some d"
| "request_definition _ = None"

fun request_definition_upgrade :: "request_arguments \<Rightarrow> definition_upgrade option" where
  "request_definition_upgrade (ArgDefinitionUpgrade u) = Some u"
| "request_definition_upgrade _ = None"

fun request_fork :: "request_arguments \<Rightarrow> fork_request option" where
  "request_fork (ArgFork r) = Some r"
| "request_fork _ = None"

fun request_recovery_guard :: "request_arguments \<Rightarrow> (recovery_directive \<times> bool) option" where
  "request_recovery_guard (ArgRecovery directive evidence unknown_commit) = Some (directive, unknown_commit)"
| "request_recovery_guard _ = None"

section \<open>Outcomes and failures\<close>

record operator_outcome =
  oo_class :: operator_outcome_class
  oo_record :: operator_record
  oo_execution :: "job_execution option"
  oo_changed :: bool

datatype operator_error =
    OperationIdConflict operator_action operation_id
  | OperatorOutcomeUnknown
  | DefinitionUpgradeExecutionRequired
  | DefinitionUpgradeExecutionMismatch
  | ForkTransformRequired
  | ForkTransformMismatch
  | InvalidRecoveryRequest recovery_request_error
  | OperatorRepository repository_error

definition operator_error_from :: "repository_error \<Rightarrow> operator_error" where
  "operator_error_from e = (if e = CommitOutcomeUnknown then OperatorOutcomeUnknown else OperatorRepository e)"

record applied_effect =
  ae_job_instance_id :: "job_instance_id option"
  ae_job_execution_id :: "job_execution_id option"
  ae_prior_status :: "batch_status option"
  ae_result_status :: "batch_status option"
  ae_execution :: "job_execution option"
  ae_changed :: bool

definition effect_created :: "job_instance_id \<Rightarrow> job_execution \<Rightarrow> applied_effect" where
  "effect_created i e =
     \<lparr>ae_job_instance_id = Some i, ae_job_execution_id = Some (je_id e), ae_prior_status = None,
      ae_result_status = Some (em_status (je_metadata e)), ae_execution = Some e, ae_changed = True\<rparr>"

definition effect_updated :: "job_execution \<Rightarrow> batch_status \<Rightarrow> applied_effect" where
  "effect_updated e prior =
     \<lparr>ae_job_instance_id = Some (je_job_instance_id e), ae_job_execution_id = Some (je_id e), ae_prior_status = Some prior,
      ae_result_status = Some (em_status (je_metadata e)), ae_execution = Some e, ae_changed = True\<rparr>"

definition effect_unchanged :: "job_execution \<Rightarrow> applied_effect" where
  "effect_unchanged e =
     \<lparr>ae_job_instance_id = Some (je_job_instance_id e), ae_job_execution_id = Some (je_id e),
      ae_prior_status = Some (em_status (je_metadata e)), ae_result_status = Some (em_status (je_metadata e)),
      ae_execution = Some e, ae_changed = False\<rparr>"

datatype effect_failure =
    EffRejected operator_rejection
  | EffForkExisting
  | EffForkReplay job_instance_id
  | EffFailed operator_error

definition effect_classify :: "repository_error \<Rightarrow> effect_failure" where
  "effect_classify e =
     (case rejection_from_repository e of Some rejection \<Rightarrow> EffRejected rejection | None \<Rightarrow> EffFailed (operator_error_from e))"

section \<open>The effect of each action\<close>

text \<open>What the repository draws from its generator and clock during one call.\<close>

record service_draws =
  sd_instance :: "id_generation_error + job_instance_id"
  sd_execution :: "id_generation_error + job_execution_id"
  sd_instance_created_at :: system_time
  sd_execution_created_at :: system_time
  sd_now :: system_time
  sd_decided_at :: system_time

type_synonym unit_effect = "unit_of_work \<Rightarrow> (effect_failure + applied_effect) \<times> unit_of_work"

definition launch_effect :: "to_vec \<Rightarrow> from_slice \<Rightarrow> sha256 \<Rightarrow> service_draws \<Rightarrow> operator_request \<Rightarrow> unit_effect" where
  "launch_effect to_vec from_slice sha256 draws request u =
     attempt (ok_or (request_job_instance_key (orq_target request)) (EffRejected RejInstanceNotFound)) u (\<lambda>key.
     attempt (ok_or (request_definition (orq_arguments request)) (EffRejected RejIncompatibleDefinition)) u (\<lambda>d.
     proceed (in_unit effect_classify
         (select_or_create_job_instance (sd_instance draws) (sd_instance_created_at draws) key u)) (\<lambda>selection u.
     let i = ji_id (selection_instance selection) in
     proceed (in_unit effect_classify (create_job_execution_with_definition to_vec from_slice sha256
         (sd_execution draws) (sd_execution_created_at draws) i d u)) (\<lambda>e u.
     (Ok (effect_created i e), u)))))"

definition restart_effect ::
  "to_vec \<Rightarrow> from_slice \<Rightarrow> sha256 \<Rightarrow> service_draws \<Rightarrow> operator_request \<Rightarrow> definition_upgrade_execution option \<Rightarrow> unit_effect" where
  "restart_effect to_vec from_slice sha256 draws request upgrade u =
     attempt (ok_or (request_job_instance_id (orq_target request)) (EffRejected RejInstanceNotFound)) u (\<lambda>i.
     attempt (map_err effect_classify (job_executions (uw_staged u) i)) u (\<lambda>prior.
     if prior = [] then (Err (EffRejected RejRestartWithoutPriorAttempt), u)
     else
       let prior_status = em_status (je_metadata (last prior)) in
       if prior_status = Unknown then (Err (EffRejected (RejInvalidState prior_status)), u)
       else
         proceed (case request_definition (orq_arguments request) of
             Some d \<Rightarrow> in_unit effect_classify (create_job_execution_with_definition to_vec from_slice sha256
                 (sd_execution draws) (sd_execution_created_at draws) i d u)
           | None \<Rightarrow>
               if request_definition_upgrade (orq_arguments request) \<noteq> None then
                 attempt (ok_or upgrade (EffFailed DefinitionUpgradeExecutionRequired)) u (\<lambda>up.
                 in_unit effect_classify (create_job_execution_with_upgrade to_vec from_slice sha256
                   (sd_execution draws) (sd_execution_created_at draws) i up u))
               else (Err (EffRejected RejIncompatibleDefinition), u)) (\<lambda>e u.
         (Ok ((effect_created i e)\<lparr>ae_prior_status := Some prior_status\<rparr>), u))))"

definition fork_effect ::
  "to_vec \<Rightarrow> from_slice \<Rightarrow> sha256 \<Rightarrow> repository_capability set \<Rightarrow> service_draws \<Rightarrow> operator_request
   \<Rightarrow> definition_state_transformer option \<Rightarrow> unit_effect" where
  "fork_effect to_vec from_slice sha256 declared draws request transformer u =
     attempt (ok_or (request_fork (orq_arguments request)) (EffRejected RejUnsupportedAction)) u (\<lambda>fork.
     attempt (map_err effect_classify (descriptor_require declared DefinitionRegistry)) u (\<lambda>_.
     attempt (map_err effect_classify (descriptor_require declared ScopeResolution)) u (\<lambda>_.
     case stage_fork_in_unit to_vec from_slice sha256 (sd_instance draws) (sd_execution draws)
            (sd_instance_created_at draws) (sd_execution_created_at draws) fork transformer u of
       (Ok (ForkCreated l e), u) \<Rightarrow> (Ok (effect_created (je_job_instance_id e) e), u)
     | (Ok (ForkExisting l), u) \<Rightarrow> (Err EffForkExisting, u)
     | (Err (ForkTargetCollision i), u) \<Rightarrow> (Err (EffForkReplay i), u)
     | (Err (ForkRepository e), u) \<Rightarrow> (Err (effect_classify e), u))))"

definition execution_target :: "operator_request \<Rightarrow> effect_failure + job_execution_id \<times> execution_version" where
  "execution_target request =
     res_bind (ok_or (request_job_execution_id (orq_target request)) (EffRejected RejExecutionNotFound)) (\<lambda>i.
     res_bind (ok_or (orq_expected_version request) (EffRejected (RejInvalidState Unknown))) (\<lambda>v.
     Ok (i, v)))"

definition stop_effect :: "service_draws \<Rightarrow> operator_request \<Rightarrow> unit_effect" where
  "stop_effect draws request u =
     attempt (execution_target request) u (\<lambda>(i, expected).
     attempt (ok_or (ms_job_executions (uw_staged u) i) (EffRejected RejExecutionNotFound)) u (\<lambda>observed.
     let status = em_status (je_metadata observed) in
     if status \<noteq> Starting \<and> status \<noteq> Started then
       (if status = Stopping \<or> is_finished status then (Ok (effect_unchanged observed), u)
        else (Err (EffRejected (RejInvalidState status)), u))
     else
       proceed (in_unit effect_classify (request_execution_stop i expected (sd_now draws) u)) (\<lambda>e u.
       (Ok (effect_updated e status), u))))"

definition abandon_effect :: "service_draws \<Rightarrow> operator_request \<Rightarrow> unit_effect" where
  "abandon_effect draws request u =
     attempt (execution_target request) u (\<lambda>(i, expected).
     attempt (ok_or (ms_job_executions (uw_staged u) i) (EffRejected RejExecutionNotFound)) u (\<lambda>observed.
     let status = em_status (je_metadata observed) in
     if status = Abandoned then (Ok (effect_unchanged observed), u)
     else
       attempt (if status = Stopped \<or> status = Failed then Ok ()
                else if status = Unknown then
                  res_bind (map_err effect_classify (find_recovery_decision (uw_staged u) i)) (\<lambda>decision.
                  if decision = None then Err (EffRejected RejUnresolvedRecoveryRequired) else Ok ())
                else Err (EffRejected (RejInvalidState status))) u (\<lambda>_.
       proceed (in_unit effect_classify
           (transition_job_execution i expected (lifecycle_transition_new Abandoned (sd_now draws)) u)) (\<lambda>e u.
       (Ok (effect_updated e status), u)))))"

definition recover_effect :: "service_draws \<Rightarrow> operator_request \<Rightarrow> unit_effect" where
  "recover_effect draws request u =
     attempt (execution_target request) u (\<lambda>(i, expected).
     attempt (ok_or (ms_job_executions (uw_staged u) i) (EffRejected RejExecutionNotFound)) u (\<lambda>e.
     if je_version e \<noteq> expected then (Err (EffRejected (RejOptimisticConflict (je_version e))), u)
     else
       attempt (ok_or (request_recovery_guard (orq_arguments request))
           (EffRejected (RejInvalidState (em_status (je_metadata e))))) u (\<lambda>(directive, unknown_commit).
       if unknown_commit \<and> directive \<noteq> DirAbandon \<and> orq_reason request \<noteq> Some (lit ''UNKNOWN_EFFECT'')
       then (Err (EffRejected RejUnresolvedRecoveryRequired), u)
       else
         attempt (ok_or (request_recovery request) (EffRejected (RejInvalidState Unknown))) u (\<lambda>checked.
         attempt (map_err (\<lambda>e. EffFailed (InvalidRecoveryRequest e)) checked) u (\<lambda>recovery.
         proceed (in_unit effect_classify (recover_job_execution (sd_decided_at draws) i recovery u)) (\<lambda>result u.
         (Ok (effect_updated (rres_execution result) (rd_prior_status (rres_decision result))), u)))))))"

definition apply_effect ::
  "to_vec \<Rightarrow> from_slice \<Rightarrow> sha256 \<Rightarrow> repository_capability set \<Rightarrow> service_draws \<Rightarrow> operator_request
   \<Rightarrow> definition_upgrade_execution option \<Rightarrow> definition_state_transformer option \<Rightarrow> unit_effect" where
  "apply_effect to_vec from_slice sha256 declared draws request upgrade transformer =
     (case orq_action request of
        ActLaunch \<Rightarrow> launch_effect to_vec from_slice sha256 draws request
      | ActRestart \<Rightarrow> restart_effect to_vec from_slice sha256 draws request upgrade
      | ActFork \<Rightarrow> fork_effect to_vec from_slice sha256 declared draws request transformer
      | ActStop \<Rightarrow> stop_effect draws request
      | ActAbandon \<Rightarrow> abandon_effect draws request
      | ActRecover \<Rightarrow> recover_effect draws request)"

section \<open>The call\<close>

definition operator_replay :: "operator_request \<Rightarrow> memory_repository \<Rightarrow> operator_error + operator_outcome option" where
  "operator_replay request r =
     (case find_operator_request (uw_staged (memory_begin r)) (orq_action request) (orq_operation_id request) of
        None \<Rightarrow> Ok None
      | Some record \<Rightarrow>
          if ord_digest record \<noteq> orq_digest request
          then Err (OperationIdConflict (orq_action request) (orq_operation_id request))
          else Ok (Some \<lparr>oo_class = OutReplayed, oo_record = record, oo_execution = None, oo_changed = False\<rparr>))"

definition replay_or :: "repository_error \<Rightarrow> operator_request \<Rightarrow> memory_repository \<Rightarrow> operator_error + operator_outcome" where
  "replay_or absent request r =
     res_bind (operator_replay request r) (\<lambda>found. ok_or found (OperatorRepository absent))"

definition audit_rejection ::
  "(nat \<Rightarrow> memory_repository \<Rightarrow> memory_repository) \<Rightarrow> operator_request \<Rightarrow> operator_rejection \<Rightarrow> system_time \<Rightarrow> memory_repository
   \<Rightarrow> (operator_error + operator_outcome) \<times> memory_repository" where
  "audit_rejection others request rejection requested_at r =
     (let r = others 2 r in
      case append_operator_request (draft_rejected request rejection requested_at) (memory_begin r) of
        (Err e, u) \<Rightarrow>
          if e = ConcurrentModification then let r = others 3 r in (replay_or ConcurrentModification request r, r)
          else (Err (operator_error_from e), r)
      | (Ok record, u) \<Rightarrow>
          (case memory_commit u (others 3 r) of
             (Err e, r) \<Rightarrow> (Err (operator_error_from e), r)
           | (Ok _, r) \<Rightarrow> (Ok \<lparr>oo_class = OutRejected, oo_record = record, oo_execution = None, oo_changed = False\<rparr>, r)))"

definition live_upgrade ::
  "operator_request \<Rightarrow> definition_upgrade_execution option \<Rightarrow> operator_error + definition_upgrade_execution option" where
  "live_upgrade request upgrade =
     (case (request_definition_upgrade (orq_arguments request), upgrade) of
        (Some requested, Some live) \<Rightarrow>
          if requested = due_upgrade live then Ok (Some live) else Err DefinitionUpgradeExecutionMismatch
      | (None, Some live) \<Rightarrow> Err DefinitionUpgradeExecutionMismatch
      | (Some requested, None) \<Rightarrow> Err DefinitionUpgradeExecutionRequired
      | (None, None) \<Rightarrow> Ok None)"

definition live_transformer ::
  "operator_request \<Rightarrow> definition_state_transformer option \<Rightarrow> operator_error + definition_state_transformer option" where
  "live_transformer request transformer =
     (case (and_then (request_fork (orq_arguments request)) fr_context_transform, transformer) of
        (Some selected, Some live) \<Rightarrow>
          if dst_revision (fct_descriptor selected) = dtr_revision live then Ok (Some live) else Err ForkTransformMismatch
      | (Some selected, None) \<Rightarrow> Err ForkTransformRequired
      | (None, Some live) \<Rightarrow> Err ForkTransformMismatch
      | (None, None) \<Rightarrow> Ok None)"

definition execute_inner ::
  "to_vec \<Rightarrow> from_slice \<Rightarrow> sha256 \<Rightarrow> repository_capability set \<Rightarrow> (nat \<Rightarrow> memory_repository \<Rightarrow> memory_repository)
   \<Rightarrow> service_draws \<Rightarrow> system_time \<Rightarrow> operator_request \<Rightarrow> definition_upgrade_execution option
   \<Rightarrow> definition_state_transformer option \<Rightarrow> memory_repository
   \<Rightarrow> (operator_error + operator_outcome) \<times> memory_repository" where
  "execute_inner to_vec from_slice sha256 declared others draws requested_at request upgrade transformer r =
     (let r = others 0 r in
      attempt (operator_replay request r) r (\<lambda>recorded.
      case recorded of
        Some outcome \<Rightarrow> (Ok outcome, r)
      | None \<Rightarrow>
          attempt (live_upgrade request upgrade) r (\<lambda>upgrade.
          attempt (live_transformer request transformer) r (\<lambda>transformer.
          let r = others 1 r in
          case apply_effect to_vec from_slice sha256 declared draws request upgrade transformer (memory_begin r) of
            (Err (EffRejected rejection), u) \<Rightarrow> audit_rejection others request rejection requested_at r
          | (Err EffForkExisting, u) \<Rightarrow> let r = others 2 r in (replay_or ForkOperationConflict request r, r)
          | (Err (EffForkReplay i), u) \<Rightarrow> let r = others 2 r in (replay_or (ForkInstanceCollision i) request r, r)
          | (Err (EffFailed e), u) \<Rightarrow> (Err e, r)
          | (Ok effect, u) \<Rightarrow>
              (case append_operator_request (draft_applied request (ae_job_instance_id effect) (ae_job_execution_id effect)
                       (ae_prior_status effect) (ae_result_status effect) requested_at) u of
                 (Err e, u) \<Rightarrow>
                   if e = ConcurrentModification then let r = others 2 r in (replay_or ConcurrentModification request r, r)
                   else (Err (operator_error_from e), r)
               | (Ok record, u) \<Rightarrow>
                   (case memory_commit u (others 2 r) of
                      (Err e, r) \<Rightarrow> (Err (operator_error_from e), r)
                    | (Ok _, r) \<Rightarrow>
                        (Ok \<lparr>oo_class = OutApplied, oo_record = record, oo_execution = ae_execution effect,
                            oo_changed = ae_changed effect\<rparr>, r)))))))"

end
