(* ===== verification/Operator_Correct.thy ===== *)
theory Operator_Correct
  imports Operator_Service
begin

text \<open>
  Correctness of the operator and fork services: a call is one unit of client operations, so that it
  keeps whatever every interleaving of client units keeps; its operation identifier decides the outcome
  of every later call; and a rejected or failed call changes nothing but the audit.
\<close>

section \<open>Calls as client units\<close>

definition client_run :: "to_vec \<Rightarrow> from_slice \<Rightarrow> sha256 \<Rightarrow> unit_of_work \<Rightarrow> unit_of_work \<Rightarrow> bool" where
  "client_run tv fs h u u' \<longleftrightarrow> (\<exists>xs. run_all (client_op tv fs h) xs u = (Ok (), u'))"

named_theorems client_runs

lemma client_run_refl: "client_run tv fs h u u"
  unfolding client_run_def by (rule exI [of _ "[]"]) simp

lemma run_all_append:
  "run_all run xs u = (Ok (), u') \<Longrightarrow> run_all run (xs @ ys) u = run_all run ys u'"
  by (induction xs arbitrary: u) (auto split: prod.splits sum.splits)

lemma client_run_trans: "client_run tv fs h u v \<Longrightarrow> client_run tv fs h v w \<Longrightarrow> client_run tv fs h u w"
  unfolding client_run_def by (metis run_all_append)

lemma client_step:
  assumes "ensures (\<lambda>u'. discard p = run_op tv fs h x u) p" and "plan_owned x u"
  shows "ensures (client_run tv fs h u) p"
  unfolding ensures_def client_run_def
proof (intro allI impI)
  fix y u' assume p: "p = (Ok y, u')"
  with assms have "client_op tv fs h x u = (Ok (), u')"
    by (simp add: ensures_def client_op_def) (simp add: discard_def)
  then show "\<exists>xs. run_all (client_op tv fs h) xs u = (Ok (), u')" by (intro exI [of _ "[x]"]) simp
qed

lemma client_ops [client_runs]:
  "ensures (client_run tv fs h u) (select_or_create_job_instance i now k u)"
  "ensures (client_run tv fs h u) (create_job_execution_with_definition tv fs h x now j d u)"
  "ensures (client_run tv fs h u) (create_job_execution_with_upgrade tv fs h x now j up u)"
  "ensures (client_run tv fs h u) (create_job_execution_with_definition_and_parameters tv fs h x now j d p u)"
  "ensures (client_run tv fs h u) (stage_fork_job_context y c u)"
  "ensures (client_run tv fs h u) (append_fork_lineage h l u)"
  "ensures (client_run tv fs h u) (request_execution_stop y v at u)"
  "ensures (client_run tv fs h u) (transition_job_execution y v t u)"
  "ensures (client_run tv fs h u) (recover_job_execution now y r u)"
  "ensures (client_run tv fs h u) (append_operator_request draft u)"
  "ensures (client_run tv fs h u) (append_retention_action rdraft u)"
  "ensures (client_run tv fs h u) (place_instance_hold j actor rc at u)"
  "ensures (client_run tv fs h u) (release_instance_hold j u)"
  by (rule client_step [where x = "SelectOrCreateJobInstance i now k"]
        client_step [where x = "CreateJobExecutionWithDefinition x now j d"]
        client_step [where x = "CreateJobExecutionWithUpgrade x now j up"]
        client_step [where x = "CreateJobExecutionWithDefinitionAndParameters x now j d p"]
        client_step [where x = "StageForkJobContext y c"] client_step [where x = "AppendForkLineage l"]
        client_step [where x = "RequestExecutionStop y v at"] client_step [where x = "TransitionJobExecution y v t"]
        client_step [where x = "RecoverJobExecution now y r"] client_step [where x = "AppendOperatorRequest draft"]
        client_step [where x = "AppendRetentionAction rdraft"] client_step [where x = "PlaceInstanceHold j actor rc at"]
        client_step [where x = "ReleaseInstanceHold j"], simp add: ensures_def, simp)+

lemma client_then [client_runs]:
  "ensures (client_run tv fs h u) p \<Longrightarrow> (\<And>x v. ensures (client_run tv fs h v) (k x v)) \<Longrightarrow>
   ensures (client_run tv fs h u) (proceed p k)"
  unfolding ensures_def by (auto intro: client_run_trans)

lemma client_in_unit [client_runs]: "ensures (client_run tv fs h u) p \<Longrightarrow> ensures (client_run tv fs h u) (in_unit f p)"
  by (cases p; cases "fst p") (auto simp: ensures_def in_unit_def)

lemma client_selection [client_runs]:
  "(\<And>i. ensures P (f i)) \<Longrightarrow> (\<And>i. ensures P (g i)) \<Longrightarrow>
   ensures P (case s of SelCreated i \<Rightarrow> f i | SelExisting i \<Rightarrow> g i)"
  by (cases s) auto

lemma client_value [client_runs]: "ensures (client_run tv fs h u) (Ok x, u)"
  by (simp add: ensures_def client_run_refl)

text \<open>A fork that is staged, and the effect of an action, are client operations.\<close>

lemma stage_fork_client [client_runs]:
  "ensures (client_run tv fs h u) (stage_fork_in_unit tv fs h i x t1 t2 request transformer u)"
  unfolding stage_fork_in_unit_def
  by (intro ensures_let ensures_error ensures_attempt ensures_if ensures_option ensures_prod ensures_if_value client_runs)

lemma apply_effect_client:
  "ensures (client_run tv fs h u) (apply_effect tv fs h declared draws request upgrade transformer u)"
proof -
  have fork: "ensures (client_run tv fs h u) (fork_effect tv fs h declared draws request transformer u)"
    unfolding fork_effect_def
  proof (intro ensures_attempt, goal_cases)
    case (1 fork a b)
    show ?case
      using stage_fork_client [of tv fs h u "sd_instance draws" "sd_execution draws" "sd_instance_created_at draws"
          "sd_execution_created_at draws" fork transformer]
      by (auto simp: ensures_def split: prod.splits sum.splits fork_stage.splits fork_stage_error.splits)
  qed
  show ?thesis
    unfolding apply_effect_def
    by (cases "orq_action request";
        simp add: fork launch_effect_def restart_effect_def stop_effect_def abandon_effect_def recover_effect_def;
        intro ensures_let ensures_error ensures_attempt ensures_if ensures_option ensures_prod client_runs)
qed

text \<open>Other callers, seen from a call: they take the repository to states their own units reach.\<close>

abbreviation reachable where
  "reachable tv fs h \<equiv> interleaved memory_begin (client_op tv fs h) memory_commit memory_repository_new"

definition client_others ::
  "to_vec \<Rightarrow> from_slice \<Rightarrow> sha256 \<Rightarrow> (nat \<Rightarrow> memory_repository \<Rightarrow> memory_repository) \<Rightarrow> bool" where
  "client_others tv fs h others \<longleftrightarrow> (\<forall>n r us. reachable tv fs h r us \<longrightarrow> reachable tv fs h (others n r) us)"

lemma client_othersD: "client_others tv fs h others \<Longrightarrow> reachable tv fs h r us \<Longrightarrow> reachable tv fs h (others n r) us"
  by (simp add: client_others_def)

lemma open_units_finite: "reachable tv fs h r us \<Longrightarrow> finite (dom us)"
  by (induction rule: interleaved.induct) (simp_all del: fun_upd_apply)

lemma client_commit:
  assumes others: "client_others tv fs h others" and r: "reachable tv fs h r us"
    and run: "client_run tv fs h (memory_begin r) u" and commit: "memory_commit u (others n r) = (res, r')"
  shows "reachable tv fs h r' us"
proof -
  obtain m where m: "us m = None" using open_units_finite [OF r] ex_new_if_finite infinite_UNIV_nat by (metis domIff)
  obtain xs where xs: "run_all (client_op tv fs h) xs (memory_begin r) = (Ok (), u)" using run client_run_def by blast
  have "reachable tv fs h r (us(m \<mapsto> u))"
    using operates_all [OF begins [OF r m] _ xs, of m] by simp
  from commits [OF client_othersD [OF others this] _ commit, of m] have "reachable tv fs h r' (us(m := None))" by simp
  moreover have "us(m := None) = us" using m by (rule fun_upd_idem)
  ultimately show ?thesis by simp
qed

lemma audit_rejection_reachable:
  assumes others: "client_others tv fs h others" and r: "reachable tv fs h r us"
  shows "reachable tv fs h (snd (audit_rejection others request rejection at r)) us"
proof -
  let ?draft = "draft_rejected request rejection at" and ?r = "others 2 r"
  have r2: "reachable tv fs h ?r us" by (rule client_othersD [OF others r])
  obtain res u where p: "append_operator_request ?draft (memory_begin ?r) = (res, u)" by fastforce
  show ?thesis
  proof (cases res)
    case (Inl e)
    with p r2 client_othersD [OF others r2, of 3] show ?thesis by (auto simp: audit_rejection_def Let_def)
  next
    case (Inr rec)
    obtain res' r' where c: "memory_commit u (others 3 ?r) = (res', r')" by fastforce
    have "reachable tv fs h r' us"
      using client_commit [OF others r2 ensuresD [OF client_ops(10)] c] p Inr by blast
    with p c Inr show ?thesis by (auto simp: audit_rejection_def Let_def split: sum.splits)
  qed
qed

lemma execute_inner_cases:
  assumes "execute_inner tv fs h declared others draws at request upgrade transformer r = (res, r')"
  obtains (read) "r' = others 0 r" "\<And>outcome. res = Ok outcome \<Longrightarrow> operator_replay request r' = Ok (Some outcome)"
  | (replayed) "r' = others 2 (others 1 (others 0 r))"
      "\<And>outcome. res = Ok outcome \<Longrightarrow> operator_replay request r' = Ok (Some outcome)"
  | (failed) e where "r' = others 1 (others 0 r)" "res = Err e"
  | (rejected) rejection where "(res, r') = audit_rejection others request rejection at (others 1 (others 0 r))"
  | (committed) effect u rec v cres where
      "\<exists>up tr. apply_effect tv fs h declared draws request up tr (memory_begin (others 1 (others 0 r))) = (Ok effect, u)"
      "append_operator_request (draft_applied request (ae_job_instance_id effect) (ae_job_execution_id effect)
         (ae_prior_status effect) (ae_result_status effect) at) u = (Ok rec, v)"
      "memory_commit v (others 2 (others 1 (others 0 r))) = (cres, r')"
      "res = (case cres of Err e \<Rightarrow> Err (operator_error_from e)
         | Ok _ \<Rightarrow> Ok \<lparr>oo_class = OutApplied, oo_record = rec, oo_execution = ae_execution effect, oo_changed = ae_changed effect\<rparr>)"
proof -
  let ?r0 = "others 0 r" and ?r1 = "others 1 (others 0 r)"
  note unfold = assms [unfolded execute_inner_def Let_def]
  show thesis
  proof (cases "operator_replay request ?r0")
    case (Inl e)
    with unfold show thesis by (intro read) auto
  next
    case replay: (Inr recorded)
    show thesis
    proof (cases recorded)
      case (Some outcome)
      with unfold replay show thesis by (intro read) auto
    next
      case fresh: None
      show thesis
      proof (cases "\<exists>up tr. live_upgrade request upgrade = Ok up \<and> live_transformer request transformer = Ok tr")
        case False
        with unfold replay fresh show thesis
          by (intro read; cases "live_upgrade request upgrade"; cases "live_transformer request transformer") auto
      next
        case True
        then obtain up tr where live: "live_upgrade request upgrade = Ok up" "live_transformer request transformer = Ok tr" by blast
        obtain eff u where eff: "apply_effect tv fs h declared draws request up tr (memory_begin ?r1) = (eff, u)" by fastforce
        note goal = unfold [unfolded replay fresh attempt_simps option.case live eff prod.case]
        show thesis
        proof (cases eff)
          case (Inl e)
          show thesis
          proof (cases e)
            case (EffRejected rejection)
            with goal Inl have "audit_rejection others request rejection at ?r1 = (res, r')" by simp
            then show thesis by (rule rejected [OF sym])
          qed (use goal Inl in \<open>auto intro: replayed failed simp: replay_or_def ok_or_def res_bind_def
                split: sum.splits option.splits\<close>)
        next
          case effect: (Inr effect)
          obtain ar v where a: "append_operator_request (draft_applied request (ae_job_instance_id effect)
              (ae_job_execution_id effect) (ae_prior_status effect) (ae_result_status effect) at) u = (ar, v)" by fastforce
          show thesis
          proof (cases ar)
            case (Inl e)
            with goal effect a show thesis
              by (auto intro: replayed failed simp: replay_or_def ok_or_def res_bind_def
                  split: sum.splits option.splits if_splits)
          next
            case (Inr rec)
            obtain cres r'' where c: "memory_commit v (others 2 ?r1) = (cres, r'')" by fastforce
            with goal effect a Inr have "r' = r''" "res = (case cres of Err e \<Rightarrow> Err (operator_error_from e)
               | Ok _ \<Rightarrow> Ok \<lparr>oo_class = OutApplied, oo_record = rec, oo_execution = ae_execution effect,
                   oo_changed = ae_changed effect\<rparr>)"
              by (auto split: sum.splits)
            with c a Inr eff effect show thesis by (intro committed) auto
          qed
        qed
      qed
    qed
  qed
qed

text \<open>
  C6. An operator call is one client unit.  From every state that client units reach, with any number of
  other units open and whatever other callers commit while it runs, a call of the operator service leads
  to a state that client units reach, with the same other units open.  So the call keeps every property
  of reachable states: one open execution per instance, serializability, start limits.
\<close>

theorem operator_call_reachable:
  assumes others: "client_others tv fs h others" and r: "reachable tv fs h r us"
  shows "reachable tv fs h (snd (execute_inner tv fs h declared others draws at request upgrade transformer r)) us"
proof -
  obtain res r' where call: "execute_inner tv fs h declared others draws at request upgrade transformer r = (res, r')"
    by fastforce
  have r1: "reachable tv fs h (others 1 (others 0 r)) us" by (intro client_othersD [OF others] r)
  from call show ?thesis
  proof (cases rule: execute_inner_cases)
    case read
    with call client_othersD [OF others r] show ?thesis by simp
  next
    case replayed
    with call client_othersD [OF others r1] show ?thesis by simp
  next
    case (failed e)
    with call r1 show ?thesis by simp
  next
    case (rejected rejection)
    with call audit_rejection_reachable [OF others r1, of request rejection at] show ?thesis by (metis snd_conv)
  next
    case (committed effect u rec v cres)
    from committed(1) have "client_run tv fs h (memory_begin (others 1 (others 0 r))) u"
      using ensuresD [OF apply_effect_client] by blast
    from client_run_trans [OF this ensuresD [OF client_ops(10) committed(2)]]
    have "reachable tv fs h r' us" using client_commit [OF others r1 _ committed(3)] by blast
    with call show ?thesis by simp
  qed
qed

definition evening_draws :: service_draws where
  "evening_draws = \<lparr>sd_instance = Ok 9, sd_execution = Ok 9, sd_instance_created_at = 9, sd_execution_created_at = 9,
     sd_now = 9, sd_decided_at = 9\<rparr>"

definition evening_stop :: operator_request where
  "evening_stop = operator_stop (\<lambda>_. []) (lit ''op-1'') (lit ''ops'') 1 0"

theorem operator_call_reachable_witness:
  "reachable (\<lambda>_. None) (\<lambda>_. None) (\<lambda>_. [])
     (snd (execute_inner (\<lambda>_. None) (\<lambda>_. None) (\<lambda>_. []) memory_descriptor (\<lambda>_ r. r) evening_draws 9
        evening_stop None None nightly_repository)) Map.empty
   \<and> ms_job_executions (mr_state nightly_repository) 1 \<noteq> None"
proof -
  have "client_others (\<lambda>_. None) (\<lambda>_. None) (\<lambda>_. []) (\<lambda>_ r. r)" by (simp add: client_others_def)
  from operator_call_reachable [OF this nightly_interleaved] show ?thesis by (simp add: nightly_committed(3))
qed

section \<open>Idempotency\<close>

definition audited :: "operator_record \<Rightarrow> memory_state \<Rightarrow> memory_state" where
  "audited rec s = s\<lparr>ms_operator_requests := bt_insert (or_id rec) rec (ms_operator_requests s),
     ms_operator_request_keys := (ms_operator_request_keys s)
       ((operator_action_as_str (ord_action rec), ord_operation_id rec) \<mapsto> or_id rec)\<rparr>"

lemma append_operator_request_Ok:
  assumes "append_operator_request draft u = (Ok rec, v)"
  shows "uw_staged v = audited rec (uw_staged u) \<and> operator_record_draft.truncate rec = draft"
  using assms by (auto simp: append_operator_request_def Let_def audited_def operator_record_from_parts_def
      operator_record.defs operator_record_draft.defs split: if_splits)

lemma audited_found: "find_operator_request (audited rec s) (ord_action rec) (ord_operation_id rec) = Some rec"
  by (simp add: find_operator_request_def audited_def btree_simps)

lemma find_operator_request_revision [simp]:
  "find_operator_request (s\<lparr>ms_revision := n\<rparr>) = find_operator_request s"
  by (simp add: find_operator_request_def fun_eq_iff)

lemma memory_commit_Ok:
  assumes "memory_commit u r = (Ok x, r')"
  shows "mr_state r' = (uw_staged u)\<lparr>ms_revision := ms_revision (mr_state r) + 1\<rparr> \<and> uw_base_revision u = ms_revision (mr_state r)"
  using assms by (cases rule: memory_commit_cases) (auto simp: checked_add_def split: if_splits)

lemma memory_commit_Err: "memory_commit u r = (Err e, r') \<Longrightarrow> e = CommitOutcomeUnknown \<or> r' = r"
  by (erule memory_commit_cases) auto

text \<open>What a call leaves behind, by the class of its outcome.\<close>

definition call_result where
  "call_result tv fs h declared others draws request r = (\<lambda>(res, r').
     let r0 = others 0 r; r1 = others 1 r0; r2 = others (2 :: nat) r1; r3 = others (3 :: nat) r2 in
     case res of
       Err e \<Rightarrow> e = OperatorOutcomeUnknown \<or> r' \<in> {r0, r1, r2, r3}
     | Ok outcome \<Rightarrow>
         ord_digest (oo_record outcome) = orq_digest request
         \<and> find_operator_request (mr_state r') (orq_action request) (orq_operation_id request) = Some (oo_record outcome)
         \<and> (case oo_class outcome of
              OutReplayed \<Rightarrow> \<not> oo_changed outcome \<and> r' \<in> {r0, r2, r3}
            | OutRejected \<Rightarrow> \<not> oo_changed outcome \<and> ord_outcome (oo_record outcome) = OutRejected
                \<and> (\<exists>n. mr_state r' = (audited (oo_record outcome) (mr_state r2))\<lparr>ms_revision := n\<rparr>)
            | OutApplied \<Rightarrow> ord_outcome (oo_record outcome) = OutApplied
                \<and> (\<exists>effect u up tr n. apply_effect tv fs h declared draws request up tr (memory_begin r1) = (Ok effect, u)
                     \<and> oo_execution outcome = ae_execution effect \<and> oo_changed outcome = ae_changed effect
                     \<and> mr_state r' = (audited (oo_record outcome) (uw_staged u))\<lparr>ms_revision := n\<rparr>)))"

lemma replay_found:
  assumes "operator_replay request r = Ok (Some outcome)"
  shows "ord_digest (oo_record outcome) = orq_digest request \<and> oo_class outcome = OutReplayed \<and> \<not> oo_changed outcome
    \<and> find_operator_request (mr_state r) (orq_action request) (orq_operation_id request) = Some (oo_record outcome)"
  using assms by (auto simp: operator_replay_def memory_begin_def split: option.splits if_splits)

lemma audit_rejection_result:
  assumes "(res, r') = audit_rejection others request rejection at r1"
  shows "case res of
       Err e \<Rightarrow> e = OperatorOutcomeUnknown \<or> r' \<in> {others 2 r1, others 3 (others 2 r1)}
     | Ok outcome \<Rightarrow>
         operator_replay request r' = Ok (Some outcome) \<and> r' = others 3 (others 2 r1)
         \<or> oo_class outcome = OutRejected \<and> \<not> oo_changed outcome
           \<and> operator_record_draft.truncate (oo_record outcome) = draft_rejected request rejection at
           \<and> (\<exists>n. mr_state r' = (audited (oo_record outcome) (mr_state (others 2 r1)))\<lparr>ms_revision := n\<rparr>)"
proof -
  let ?r = "others 2 r1"
  obtain ar u where a: "append_operator_request (draft_rejected request rejection at) (memory_begin ?r) = (ar, u)" by fastforce
  note goal = assms [symmetric, unfolded audit_rejection_def Let_def a prod.case]
  show ?thesis
  proof (cases ar)
    case (Inl e)
    with goal show ?thesis
      by (auto simp: replay_or_def ok_or_def res_bind_def split: sum.splits option.splits if_splits)
  next
    case (Inr rec)
    obtain cres r'' where c: "memory_commit u (others 3 ?r) = (cres, r'')" by fastforce
    show ?thesis
    proof (cases cres)
      case (Inl e)
      with goal Inr c memory_commit_Err [of u _ e r''] show ?thesis by (auto simp: operator_error_from_def)
    next
      case (Inr y)
      with goal \<open>ar = Inr rec\<close> c memory_commit_Ok [of u _ y r''] append_operator_request_Ok [of _ _ rec u] a
      show ?thesis by (auto simp: memory_begin_def)
    qed
  qed
qed

lemma call_result_holds:
  "call_result tv fs h declared others draws request r
     (execute_inner tv fs h declared others draws at request upgrade transformer r)"
proof -
  obtain res r' where call: "execute_inner tv fs h declared others draws at request upgrade transformer r = (res, r')"
    by fastforce
  from call show ?thesis
  proof (cases rule: execute_inner_cases)
    case read
    with replay_found [of request r'] show ?thesis
      unfolding call by (cases res) (auto simp: call_result_def Let_def)
  next
    case replayed
    with replay_found [of request r'] show ?thesis
      unfolding call by (cases res) (auto simp: call_result_def Let_def)
  next
    case (failed e)
    then show ?thesis unfolding call by (simp add: call_result_def Let_def)
  next
    case (rejected rejection)
    show ?thesis
    proof (cases res)
      case (Inl e)
      with audit_rejection_result [OF rejected] show ?thesis unfolding call by (auto simp: call_result_def Let_def)
    next
      case (Inr outcome)
      have trunc: "ord_digest (oo_record outcome) = orq_digest request" "ord_action (oo_record outcome) = orq_action request"
          "ord_operation_id (oo_record outcome) = orq_operation_id request" "ord_outcome (oo_record outcome) = OutRejected"
        if "operator_record_draft.truncate (oo_record outcome) = draft_rejected request rejection at"
        using that by (auto simp: operator_record_draft.defs draft_rejected_def)
      from Inr audit_rejection_result [OF rejected] replay_found [of request r' outcome] trunc
        audited_found [of "oo_record outcome" "mr_state (others 2 (others 1 (others 0 r)))"]
      show ?thesis unfolding call by (auto simp: call_result_def Let_def)
    qed
  next
    case (committed effect u rec v cres)
    show ?thesis
    proof (cases cres)
      case (Inl e)
      with committed(3,4) memory_commit_Err [of v _ e r'] show ?thesis
        unfolding call by (auto simp: call_result_def Let_def operator_error_from_def)
    next
      case (Inr y)
      from append_operator_request_Ok [OF committed(2)] have rec: "uw_staged v = audited rec (uw_staged u)"
          "ord_digest rec = orq_digest request" "ord_action rec = orq_action request"
          "ord_operation_id rec = orq_operation_id request" "ord_outcome rec = OutApplied"
        by (auto simp: operator_record_draft.defs draft_applied_def)
      from memory_commit_Ok [OF committed(3) [unfolded Inr]] rec(1)
      have st: "mr_state r' = (audited rec (uw_staged u))\<lparr>ms_revision := ms_revision (mr_state (others 2 (others 1 (others 0 r)))) + 1\<rparr>"
        by simp
      with committed(1,4) Inr rec audited_found [of rec "uw_staged u"] show ?thesis
        unfolding call by (auto simp: call_result_def Let_def)
    qed
  qed
qed

text \<open>
  C5. An operator call is atomic and audited.  A call that fails leaves the repository as other callers
  left it, unless the repository itself could not tell whether the commit took effect.  A call that
  returns has its record stored under its operation identifier with the digest of the request; a replay
  changes nothing, a rejection adds nothing but the audit record, and an applied action installs exactly
  the effect of the action with its audit record.
\<close>

theorem operator_call_atomic:
  "call_result tv fs h declared others draws request r
     (execute_inner tv fs h declared others draws at request upgrade transformer r)"
  by (rule call_result_holds)


lemmas stop_eval = execute_inner_def operator_replay_def find_operator_request_def live_upgrade_def live_transformer_def
  apply_effect_def stop_effect_def execution_target_def evening_stop_def operator_stop_def operator_request_build_def
  request_execution_stop_def append_operator_request_def next_key_def opaque_id_new_def evening_draws_def

lemma nightly_fields:
  "ms_revision (mr_state nightly_repository) = 1" "ms_operator_requests (mr_state nightly_repository) = []"
  "ms_operator_request_keys (mr_state nightly_repository) = Map.empty"
  "ms_retention_actions (mr_state nightly_repository) = []"
  "ms_retention_action_keys (mr_state nightly_repository) = Map.empty" "ms_holds (mr_state nightly_repository) = Map.empty"
  "bt_contains (ms_instances_by_id (mr_state nightly_repository)) 1"
  "\<not> mr_fail_next_partition_aggregate_commit nightly_repository" "\<not> mr_fail_next_repeat_commit nightly_repository"
  "\<not> mr_fail_next_fork_commit nightly_repository"
  by (simp_all add: nightly_repository_def nightly_unit_def nightly_ops_def launch_eval memory_commit_def)

lemma evening_stopped:
  "\<exists>outcome r'. execute_inner (\<lambda>_. None) (\<lambda>_. None) (\<lambda>_. []) memory_descriptor (\<lambda>_ r. r) evening_draws 9 evening_stop
     None None nightly_repository = (Ok outcome, r') \<and> oo_class outcome = OutApplied"
  by (simp add: stop_eval nightly_fields nightly_committed(3) memory_begin_def memory_commit_def in_unit_def Let_def
      job_execution_new_def metadata_starting_def version_initial_def checked_add_def uw_update_def attempt_def proceed_def)


end
