(* ===== verification/Retention_Service.thy ===== *)
theory Retention_Service
  imports Operator_Correct
begin

text \<open>
  Holds and purges, \<^verbatim>\<open>service/retention.rs\<close> of \<^verbatim>\<open>oxide-batch\<close>: each call looks its operation identifier up,
  applies the action in a unit of work of its own and commits it with its audit record.  A hold that is
  in place when a purge begins makes the purge refuse; and a repeated identifier is answered from the
  record it finds, whatever the repeated call asks for.
\<close>

record retention_report =
  rrp_outcome :: retention_outcome
  rrp_record :: retention_record
  rrp_hold :: "retention_hold option"

definition retention_replay :: "retention_action \<Rightarrow> operation_id \<Rightarrow> memory_repository \<Rightarrow> retention_record option" where
  "retention_replay action operation r = find_retention_action (uw_staged (memory_begin r)) action operation"

definition read_hold :: "job_instance_id \<Rightarrow> memory_repository \<Rightarrow> retention_error + retention_hold option" where
  "read_hold i r = map_err retention_error_from (job_instance_hold (uw_staged (memory_begin r)) i)"

definition commit_retention ::
  "(nat \<Rightarrow> memory_repository \<Rightarrow> memory_repository) \<Rightarrow> retention_record_draft \<Rightarrow> retention_hold option \<Rightarrow> unit_of_work
   \<Rightarrow> memory_repository \<Rightarrow> (retention_error + retention_report) \<times> memory_repository" where
  "commit_retention others draft hold u r =
     (case append_retention_action draft u of
        (Err e, u) \<Rightarrow> (Err (retention_error_from e), r)
      | (Ok record, u) \<Rightarrow>
          (case memory_commit u (others 2 r) of
             (Err e, r) \<Rightarrow> (Err (retention_error_from e), r)
           | (Ok _, r) \<Rightarrow> (Ok \<lparr>rrp_outcome = RetApplied, rrp_record = record, rrp_hold = hold\<rparr>, r)))"

definition hold_action ::
  "(nat \<Rightarrow> memory_repository \<Rightarrow> memory_repository) \<Rightarrow> system_time \<Rightarrow> retention_action \<Rightarrow> operation_id \<Rightarrow> actor_ref
   \<Rightarrow> reason_code \<Rightarrow> job_instance_id \<Rightarrow> memory_repository \<Rightarrow> (retention_error + retention_report) \<times> memory_repository" where
  "hold_action others applied_at action operation actor reason i r =
     (let r = others 0 r in
      case retention_replay action operation r of
        Some record \<Rightarrow> (Ok \<lparr>rrp_outcome = RetReplayed, rrp_record = record, rrp_hold = None\<rparr>, r)
      | None \<Rightarrow>
          let r = others 1 r; u = memory_begin r in
          case (case action of
                  RetHold \<Rightarrow> (case place_instance_hold i actor reason applied_at u of
                      (Ok hold, u) \<Rightarrow> (Ok (Some hold), u) | (Err e, u) \<Rightarrow> (Err e, u))
                | RetReleaseHold \<Rightarrow> (case release_instance_hold i u of
                      (Ok _, u) \<Rightarrow> (Ok None, u) | (Err e, u) \<Rightarrow> (Err e, u))
                | RetApplyPurge \<Rightarrow> (Ok None, u)) of
            (Err e, u) \<Rightarrow> (Err (retention_error_from e), r)
          | (Ok hold, u) \<Rightarrow>
              commit_retention others (draft_instance_action action operation actor reason i applied_at) hold u r)"

definition plan_purge ::
  "sha256 \<Rightarrow> system_time \<Rightarrow> purge_plan_request \<Rightarrow> memory_repository \<Rightarrow> retention_error + purge_plan" where
  "plan_purge sha256 now request r =
     (case purge_survey request now (uw_staged (memory_begin r)) of
        (candidates, counts) \<Rightarrow> Ok (purge_plan_new sha256 request candidates counts))"

definition purge_action ::
  "(nat \<Rightarrow> memory_repository \<Rightarrow> memory_repository) \<Rightarrow> system_time \<Rightarrow> operation_id \<Rightarrow> actor_ref \<Rightarrow> reason_code
   \<Rightarrow> purge_plan \<Rightarrow> memory_repository \<Rightarrow> (retention_error + retention_report) \<times> memory_repository" where
  "purge_action others applied_at operation actor reason plan r =
     (let r = others 0 r in
      case retention_replay RetApplyPurge operation r of
        Some record \<Rightarrow> (Ok \<lparr>rrp_outcome = RetReplayed, rrp_record = record, rrp_hold = None\<rparr>, r)
      | None \<Rightarrow>
          let r = others 1 r in
          case apply_purge plan (memory_begin r) of
            (Err e, u) \<Rightarrow> (Err (retention_error_from e), r)
          | (Ok counts, u) \<Rightarrow>
              commit_retention others (draft_purge operation actor reason (pp_digest plan) counts
                (ppr_batch (pp_request plan)) applied_at) None u r)"

section \<open>Holds\<close>

lemma commit_retention_Ok:
  assumes "commit_retention others draft hold u r = (Ok report, r')"
  shows "rrp_outcome report = RetApplied \<and> rrp_hold report = hold \<and> ms_holds (mr_state r') = ms_holds (uw_staged u)
    \<and> find_retention_action (mr_state r') (rrd_action draft) (rrd_operation_id draft) = Some (rrp_record report)"
proof -
  obtain rec v where a: "append_retention_action draft u = (Ok rec, v)"
      and c: "memory_commit v (others 2 r) = (Ok (), r')"
      and rep: "report = \<lparr>rrp_outcome = RetApplied, rrp_record = rec, rrp_hold = hold\<rparr>"
    using assms by (auto simp: commit_retention_def split: prod.splits sum.splits)
  from a have "ms_holds (uw_staged v) = ms_holds (uw_staged u)"
      "find_retention_action (uw_staged v) (rrd_action draft) (rrd_operation_id draft) = Some rec"
    by (auto simp: append_retention_action_def find_retention_action_def Let_def btree_simps split: if_splits)
  with memory_commit_Ok [OF c] rep show ?thesis by (simp add: find_retention_action_def)
qed

lemma held_refused:
  assumes "ms_holds (uw_staged u) i \<noteq> None" and "(i, x, v) \<in> set (pp_candidates plan)"
  shows "apply_purge plan u = (Err RetentionPlanStale, u)"
proof (cases rule: apply_purge_cases [of plan u])
  case 2
  from 2(2) assms(2) have "check_candidate (uw_staged u) (pp_request plan) (i, x, v) = Ok ()" by blast
  with assms(1) show ?thesis by (simp add: check_candidate_Ok)
qed

text \<open>
  C10. A hold protects its instance.  A call that places a hold and applies it leaves the hold in the
  repository.  From then on a purge that begins while any hold on the instance is in place, and whose
  plan names an execution of the instance, is refused as stale and leaves the repository as other
  callers left it, whatever the rest of the plan.
\<close>

theorem hold_protects:
  assumes "hold_action others at RetHold operation actor reason i r = (Ok report, r')" and "rrp_outcome report = RetApplied"
  shows "ms_holds (mr_state r') i = rrp_hold report \<and> rrp_hold report \<noteq> None
    \<and> (\<forall>others' at' operation' actor' reason' plan x v.
         ms_holds (mr_state (others' 1 (others' 0 r'))) i \<noteq> None \<longrightarrow> (i, x, v) \<in> set (pp_candidates plan) \<longrightarrow>
         retention_replay RetApplyPurge operation' (others' 0 r') = None \<longrightarrow>
         purge_action others' at' operation' actor' reason' plan r' = (Err RetPlanStale, others' 1 (others' 0 r')))"
proof -
  have "retention_replay RetHold operation (others 0 r) = None"
    using assms by (auto simp: hold_action_def Let_def split: option.splits)
  then obtain hold u where p: "place_instance_hold i actor reason at (memory_begin (others 1 (others 0 r))) = (Ok hold, u)"
      and c: "commit_retention others (draft_instance_action RetHold operation actor reason i at) (Some hold) u
        (others 1 (others 0 r)) = (Ok report, r')"
    using assms(1) by (auto simp: hold_action_def Let_def split: prod.splits sum.splits)
  from p have "ms_holds (uw_staged u) i = Some hold"
    by (auto simp: place_instance_hold_def Let_def split: if_splits)
  with commit_retention_Ok [OF c] have "ms_holds (mr_state r') i = rrp_hold report" "rrp_hold report \<noteq> None" by simp_all
  moreover have "purge_action others' at' operation' actor' reason' plan r' = (Err RetPlanStale, others' 1 (others' 0 r'))"
    if "ms_holds (mr_state (others' 1 (others' 0 r'))) i \<noteq> None" "(i, x, v) \<in> set (pp_candidates plan)"
      "retention_replay RetApplyPurge operation' (others' 0 r') = None" for others' at' operation' actor' reason' plan x v
    using held_refused [of "memory_begin (others' 1 (others' 0 r'))" i x v plan] that
    by (simp add: purge_action_def Let_def memory_begin_def retention_error_from_def)
  ultimately show ?thesis by blast
qed

lemma nightly_held:
  "\<exists>report r'. hold_action (\<lambda>_ r. r) 9 RetHold (lit ''op-2'') (lit ''ops'') (lit ''AUDIT'') 1 nightly_repository = (Ok report, r')
     \<and> rrp_outcome report = RetApplied \<and> retention_replay RetApplyPurge (lit ''op-3'') r' = None
     \<and> retention_replay RetHold (lit ''op-2'') r' = Some (rrp_record report)
     \<and> ms_holds (mr_state r') 2 = None"
  by (simp add: hold_action_def retention_replay_def find_retention_action_def place_instance_hold_def commit_retention_def
      append_retention_action_def next_key_def opaque_id_new_def nightly_fields memory_begin_def memory_commit_def Let_def
      checked_add_def uw_update_def attempt_def bt_get_def draft_instance_action_def)

theorem hold_protects_witness:
  "\<exists>report r'. hold_action (\<lambda>_ r. r) 9 RetHold (lit ''op-2'') (lit ''ops'') (lit ''AUDIT'') 1 nightly_repository = (Ok report, r')
     \<and> (\<forall>plan. (1, 1, 0) \<in> set (pp_candidates plan) \<longrightarrow>
          purge_action (\<lambda>_ r. r) 10 (lit ''op-3'') (lit ''ops'') (lit ''CLEANUP'') plan r' = (Err RetPlanStale, r'))"
proof -
  from nightly_held obtain report r' where
    c: "hold_action (\<lambda>_ r. r) 9 RetHold (lit ''op-2'') (lit ''ops'') (lit ''AUDIT'') 1 nightly_repository = (Ok report, r')"
      "rrp_outcome report = RetApplied" "retention_replay RetApplyPurge (lit ''op-3'') r' = None" by blast
  from hold_protects [OF c(1,2)] have "ms_holds (mr_state r') 1 \<noteq> None"
    "\<And>plan. (1, 1, 0) \<in> set (pp_candidates plan) \<Longrightarrow>
       purge_action (\<lambda>_ r. r) 10 (lit ''op-3'') (lit ''ops'') (lit ''CLEANUP'') plan r' = (Err RetPlanStale, r')"
    using c(3) by metis+
  with c(1) show ?thesis by blast
qed



end
