(* ===== verification/Spec2Isabelle.thy ===== *)
theory Spec2Isabelle
  imports Chunk Flow_Readable Retention_Service
begin

text \<open>
  OxideBatch: a verification library for the batch framework under \<^verbatim>\<open>src/crates\<close>.

  \<^bold>\<open>The program.\<close>  A job is a flow of steps with a durable identity.  \<^verbatim>\<open>oxide-batch-core\<close> holds the values
  (names, parameters, execution lifecycle, counters, fault policy, durable state, definitions);
  \<^verbatim>\<open>oxide-batch-plan\<close> compiles a declared flow graph into a plan and a canonical manifest whose SHA-256
  digest identifies the definition; \<^verbatim>\<open>oxide-batch-repository\<close> states the port through which every durable
  change is made, as units of work with optimistic commit; \<^verbatim>\<open>oxide-batch\<close> holds the reference repository
  in memory, the PostgreSQL repository and the executors.  An executor asks the repository for an
  execution of an instance, walks the compiled plan, and records step attempts, flow decisions and
  checkpoints; a restart continues what the records say.

  \<^bold>\<open>Shared vocabulary.\<close>  \<^verbatim>\<open>Batch_Prelude\<close> (results as a sum type, the machine integers, ordered maps, the
  collections of rules), \<^verbatim>\<open>Rust_Str\<close> (strings as lists of Unicode scalar values with their UTF-8 length),
  \<^verbatim>\<open>Json\<close> (the values of \<^verbatim>\<open>serde_json\<close>), \<^verbatim>\<open>Optimistic\<close>, \<^verbatim>\<open>Refinement\<close> and \<^verbatim>\<open>Unit_Of_Work\<close> (locales for versioned
  records, for refinement of a stateful component, and for concurrent units over a revisioned store).

  \<^bold>\<open>Core values.\<close>  \<^verbatim>\<open>Identity\<close> (\<^verbatim>\<open>domain/identity.rs\<close>), \<^verbatim>\<open>Lifecycle\<close> (\<^verbatim>\<open>domain/lifecycle.rs\<close>, \<^verbatim>\<open>domain/execution.rs\<close>:
  the status machine, versions, metadata), \<^verbatim>\<open>Parameters\<close> (\<^verbatim>\<open>domain/parameter.rs\<close>: canonical bytes and the
  instance key), \<^verbatim>\<open>Chunk\<close> (\<^verbatim>\<open>chunk.rs\<close>), \<^verbatim>\<open>Fault_Policy\<close> (\<^verbatim>\<open>fault.rs\<close>), \<^verbatim>\<open>Fault_State\<close> (\<^verbatim>\<open>fault_state.rs\<close>), \<^verbatim>\<open>Scope\<close>
  (\<^verbatim>\<open>scope.rs\<close>), \<^verbatim>\<open>State_Envelope\<close> (\<^verbatim>\<open>state.rs\<close>), \<^verbatim>\<open>Definition\<close>, \<^verbatim>\<open>Manifest\<close>, \<^verbatim>\<open>Manifest_Reader\<close> and
  \<^verbatim>\<open>Definition_Upgrade\<close> (\<^verbatim>\<open>definition.rs\<close>).  Shown: statuses change only along the machine, finished
  executions stay finished, versions detect every lost update, counters and progress are exact,
  distinct inputs have distinct digest inputs, retries and skips are bounded, durable encodings
  round-trip, upgrade edges are complete and injective.

  \<^bold>\<open>Plans.\<close>  \<^verbatim>\<open>Exit_Pattern\<close>, \<^verbatim>\<open>Plan_Error\<close>, \<^verbatim>\<open>Repeat_Definition\<close>, \<^verbatim>\<open>Flow_Nodes\<close>, \<^verbatim>\<open>Flow_Manifest\<close>, \<^verbatim>\<open>Graph_Search\<close>,
  \<^verbatim>\<open>Flow_Compile\<close> and \<^verbatim>\<open>Flow_Advanced\<close> translate the compiler (\<^verbatim>\<open>lib.rs\<close>, \<^verbatim>\<open>advanced.rs\<close>, \<^verbatim>\<open>repeat.rs\<close>,
  \<^verbatim>\<open>nested_job.rs\<close>, \<^verbatim>\<open>custom_leaf.rs\<close>, \<^verbatim>\<open>late_binding.rs\<close>); \<^verbatim>\<open>Flow_Correct\<close>, \<^verbatim>\<open>Flow_Structure\<close>,
  \<^verbatim>\<open>Flow_Advanced_Correct\<close> and \<^verbatim>\<open>Flow_Readable\<close> show what an accepted plan guarantees: every node reachable, no
  cycle, the most specific transition selected and unambiguous, splits and joins matched, scopes closed,
  runs of bounded length, the result independent of the order of declaration, and which manifests can
  be read back.

  \<^bold>\<open>The repository.\<close>  \<^verbatim>\<open>Repository_Port\<close> and \<^verbatim>\<open>Operator_Port\<close> hold the values that cross the port
  (\<^verbatim>\<open>repository.rs\<close>, \<^verbatim>\<open>scope.rs\<close>, \<^verbatim>\<open>repeat.rs\<close>, \<^verbatim>\<open>nested_job.rs\<close>, \<^verbatim>\<open>fork.rs\<close>, \<^verbatim>\<open>flow.rs\<close>, \<^verbatim>\<open>request.rs\<close>, \<^verbatim>\<open>operator.rs\<close>,
  \<^verbatim>\<open>retention.rs\<close>), \<^verbatim>\<open>Partition\<close> the partition rows (\<^verbatim>\<open>partition.rs\<close>).  \<^verbatim>\<open>Memory_State\<close> is the record
  \<^verbatim>\<open>MemoryState\<close> of \<^verbatim>\<open>repository/memory.rs\<close> with begin and commit; \<^verbatim>\<open>Memory_Launch\<close>, \<^verbatim>\<open>Memory_Operator\<close>, \<^verbatim>\<open>Memory_Flow\<close> and
  \<^verbatim>\<open>Memory_Partition\<close> hold one definition per method of the unit of work, each a function from a unit
  to a result and a unit, so that a failed method shows what it staged before failing.
  \<^verbatim>\<open>Memory_System\<close> collects the methods as data (\<^verbatim>\<open>repository_op\<close>) and runs them; \<^verbatim>\<open>Memory_Frame\<close> says what each
  leaves alone; \<^verbatim>\<open>Memory_Invariant\<close> proves that each keeps the invariant of the ledgers and interprets the
  locale of units of work on the model; \<^verbatim>\<open>Memory_Properties\<close> states what follows for every interleaving of
  concurrent units: one open execution per instance, serializability and start limits; \<^verbatim>\<open>Memory_Retention\<close>
  what a purge removes, when a surveyed plan applies, and how a purge can reopen an instance.  The operation relation \<^verbatim>\<open>client_op\<close> lets a client call every method with every argument; only
  a purge plan has to name for each execution the instance that owns it, which every plan built by
  \<^verbatim>\<open>purge_survey\<close> does (\<^verbatim>\<open>plan_owned\<close>), because \<^verbatim>\<open>PurgePlan::new\<close> does not check it.

  \<^bold>\<open>The services.\<close>  \<^verbatim>\<open>Fork_Service\<close>, \<^verbatim>\<open>Operator_Service\<close> and \<^verbatim>\<open>Retention_Service\<close> translate \<^verbatim>\<open>service/fork.rs\<close>,
  \<^verbatim>\<open>service/operator.rs\<close> and \<^verbatim>\<open>service/retention.rs\<close> over the reference repository.  A call touches the shared
  repository several times; the argument \<^verbatim>\<open>others\<close> gives, for each of these times, what other callers
  committed just before, so that the theorems cover every interleaving.  \<^verbatim>\<open>Operator_Correct\<close> shows that a call
  is one client unit, that it is atomic and audited, and that its operation identifier makes it happen
  once; \<^verbatim>\<open>Retention_Service\<close> that a hold protects its instance and that a repeated identifier is answered
  without looking at the request.

  \<^bold>\<open>Parameters of the model.\<close>  SHA-256, the state upgraders and transformers, classifiers and other
  caller-supplied functions are arguments of the definitions that use them; the clock and the id
  generator are arguments of the methods that call them.  Where a property needs distinct digests it
  states that the digest does not collide on the inputs at hand, and its witness gives a function for
  which this holds.

  \<^bold>\<open>Bounds and fuel.\<close>  Counters, versions, ordinals and revisions are machine words of the width of the
  source, with the checked and saturating additions of the source.  The searches of the compiler
  terminate by measures on the unvisited nodes; no definition uses fuel.  \<^verbatim>\<open>usize\<close> is a 64-bit word, and
  the length of a collection is a natural number.

  \<^bold>\<open>Not modelled.\<close>  The PostgreSQL repository (its meaning is that of the SQL server), the asynchronous
  executors (tasks, deadlines, cancellation, user callbacks), the recovery and registry services, the item readers and writers
  (I/O through third-party clients), the keyset explorer (read-only views of the state modelled here),
  telemetry, the command line, test support and build tooling.  Mutex poisoning, \<^verbatim>\<open>Debug\<close> and \<^verbatim>\<open>Display\<close>
  texts and accessors have no counterpart.
\<close>

end
